(* ===== verification/Prelude.thy ===== *)
theory Prelude
  imports Main "HOL-Library.Word"
begin

text \<open>
  Shared vocabulary of the development: the machine integer types of Go, the
  result type in which every error return, run-time panic and unbounded loop of
  the source is a value, the sequencing combinator that models
  \<^verbatim>\<open>if err != nil { return err }\<close>, slice and map access with their run-time
  checks, and the generic list and word facts the component theories use.
\<close>

section \<open>Machine types\<close>

type_synonym byte = "8 word"
type_synonym u16 = "16 word"
type_synonym u32 = "32 word"
type_synonym u64 = "64 word"
type_synonym bytes = "byte list"

section \<open>Results\<close>

text \<open>
  A Go function that returns \<^verbatim>\<open>(T, error)\<close> is a function into \<^verbatim>\<open>'a res\<close>.
  \<open>Error\<close> carries the constant part of the message of the returned error;
  the panics of the run-time system and a loop that never exits are outcomes
  of their own, so that a theorem which excludes them says so.
\<close>

datatype fault =
    Error string
  | PanicIndex      \<comment> \<open>slice index or slice bound out of range\<close>
  | PanicNil        \<comment> \<open>nil dereference\<close>
  | PanicLen        \<comment> \<open>a slice longer than the largest int\<close>
  | Panic string    \<comment> \<open>an explicit panic, of the program or of the library\<close>
  | NoReturn        \<comment> \<open>the loop is never left\<close>

type_synonym 'a res = "fault + 'a"

abbreviation Err :: "string \<Rightarrow> 'a res" where
  "Err msg \<equiv> Inl (Error msg)"

abbreviation Ok :: "'a \<Rightarrow> 'a res" where
  "Ok x \<equiv> Inr x"

fun bindR :: "'a res \<Rightarrow> ('a \<Rightarrow> 'b res) \<Rightarrow> 'b res" where
  "bindR (Inl e) f = Inl e"
| "bindR (Inr x) f = f x"

definition require :: "bool \<Rightarrow> string \<Rightarrow> unit res" where
  "require b msg = (if b then Ok () else Err msg)"

fun fromOption :: "fault \<Rightarrow> 'a option \<Rightarrow> 'a res" where
  "fromOption e None = Inl e"
| "fromOption e (Some x) = Inr x"

primrec mapR :: "('a \<Rightarrow> 'b res) \<Rightarrow> 'a list \<Rightarrow> 'b list res" where
  "mapR f [] = Ok []"
| "mapR f (x # xs) = bindR (f x) (\<lambda>y. bindR (mapR f xs) (\<lambda>ys. Ok (y # ys)))"

primrec foldR :: "('s \<Rightarrow> 'a \<Rightarrow> 's res) \<Rightarrow> 's \<Rightarrow> 'a list \<Rightarrow> 's res" where
  "foldR f s [] = Ok s"
| "foldR f s (x # xs) = bindR (f s x) (\<lambda>s'. foldR f s' xs)"

text \<open>A panic or an endless loop, as opposed to a returned error.\<close>

fun crashes :: "'a res \<Rightarrow> bool" where
  "crashes (Inl (Error m)) = False"
| "crashes (Inl f) = True"
| "crashes (Inr x) = False"

named_theorems res_simps \<open>inversion rules for sequenced results\<close>

lemma bindR_Inr_iff [res_simps]:
  "bindR r f = Inr y \<longleftrightarrow> (\<exists>x. r = Inr x \<and> f x = Inr y)"
  by (cases r) auto

lemma bindR_Inl_iff:
  "bindR r f = Inl e \<longleftrightarrow> r = Inl e \<or> (\<exists>x. r = Inr x \<and> f x = Inl e)"
  by (cases r) auto

lemma bindR_assoc: "bindR (bindR r f) g = bindR r (\<lambda>x. bindR (f x) g)"
  by (cases r) auto

lemma bindR_Ok [simp]: "bindR r Inr = r"
  by (cases r) auto

lemma bindR_cong [fundef_cong]:
  "r = r' \<Longrightarrow> (\<And>x. r' = Inr x \<Longrightarrow> f x = f' x) \<Longrightarrow> bindR r f = bindR r' f'"
  by (cases r') auto

lemma require_Inr_iff [res_simps]: "require b m = Inr u \<longleftrightarrow> b"
  by (simp add: require_def)

lemma if_Inr_iff [res_simps]:
  "(if p then r1 else r2) = Inr x \<longleftrightarrow> p \<and> r1 = Inr x \<or> \<not> p \<and> r2 = Inr x"
  by auto

lemma require_True [simp]: "require True m = Ok ()"
  by (simp add: require_def)

lemma require_False [simp]: "require False m = Err m"
  by (simp add: require_def)

lemma fromOption_Inr_iff [res_simps]: "fromOption e v = Inr x \<longleftrightarrow> v = Some x"
  by (cases v) auto

lemma crashes_bindR [simp]:
  "crashes (bindR r f) \<longleftrightarrow> crashes r \<or> (\<exists>x. r = Inr x \<and> crashes (f x))"
proof (cases r)
  case (Inl e)
  then show ?thesis by (cases e) auto
qed auto

lemma crashes_require [simp]: "\<not> crashes (require b m)"
  by (simp add: require_def)

lemma mapR_Inr_iff:
  "mapR f xs = Inr ys \<longleftrightarrow> list_all2 (\<lambda>x y. f x = Inr y) xs ys"
  by (induction xs arbitrary: ys) (auto simp: bindR_Inr_iff list_all2_Cons1)

lemma mapR_length: "mapR f xs = Inr ys \<Longrightarrow> length ys = length xs"
  by (auto simp: mapR_Inr_iff dest: list_all2_lengthD)

lemma foldR_append:
  "foldR f s (xs @ ys) = bindR (foldR f s xs) (\<lambda>s'. foldR f s' ys)"
  by (induction xs arbitrary: s) (auto simp: bindR_assoc)

lemma foldR_invariant:
  assumes "foldR f s xs = Inr s'" and "I s"
    and "\<And>s x t. x \<in> set xs \<Longrightarrow> I s \<Longrightarrow> f s x = Inr t \<Longrightarrow> I t"
  shows "I s'"
  using assms
proof (induction xs arbitrary: s)
  case (Cons x xs)
  then obtain t where "f s x = Inr t" "foldR f t xs = Inr s'"
    by (auto simp: bindR_Inr_iff)
  with Cons show ?case
    by (metis list.set_intros(1) list.set_intros(2))
qed auto

section \<open>Slices\<close>

text \<open>
  \<^verbatim>\<open>len(s)\<close> as the \<^verbatim>\<open>uint64\<close> the encoders use: the run-time system cannot grow
  a slice beyond the largest \<^verbatim>\<open>int\<close>.
\<close>

definition goLen :: "'a list \<Rightarrow> u64 res" where
  "goLen xs = (if length xs < 2 ^ 63 then Ok (of_nat (length xs)) else Inl PanicLen)"

definition goIndex :: "'a list \<Rightarrow> nat \<Rightarrow> 'a res" where
  "goIndex xs i = (if i < length xs then Ok (xs ! i) else Inl PanicIndex)"

definition goUpdate :: "'a list \<Rightarrow> nat \<Rightarrow> 'a \<Rightarrow> 'a list res" where
  "goUpdate xs i v = (if i < length xs then Ok (xs[i := v]) else Inl PanicIndex)"

lemma goLen_Inr_iff [res_simps]:
  "goLen xs = Inr n \<longleftrightarrow> length xs < 2 ^ 63 \<and> n = of_nat (length xs)"
  by (auto simp: goLen_def)

lemma goIndex_Inr_iff [res_simps]:
  "goIndex xs i = Inr x \<longleftrightarrow> i < length xs \<and> x = xs ! i"
  by (auto simp: goIndex_def)

lemma goUpdate_Inr_iff [res_simps]:
  "goUpdate xs i v = Inr ys \<longleftrightarrow> i < length xs \<and> ys = xs[i := v]"
  by (auto simp: goUpdate_def)

section \<open>Words\<close>

unbundle bit_operations_syntax

named_theorems word_bounds \<open>range facts about machine integers\<close>

lemma unat_u32_less [word_bounds]: "unat (x :: u32) < 4294967296"
  using unsigned_less [of x] by simp

lemma unat_u64_less [word_bounds]: "unat (x :: u64) < 18446744073709551616"
  using unsigned_less [of x] by simp

lemma unat_u32_double:
  "unat (x :: u32) < 2147483648 \<Longrightarrow> unat (2 * x) = 2 * unat x"
  using unat_mult_lem [of 2 x] by simp

lemma unat_byte_less [word_bounds]: "unat (x :: byte) < 256"
  using unsigned_less [of x] by simp

lemma unat_push_bit_1:
  "n < LENGTH('a) \<Longrightarrow> unat (push_bit n (1 :: 'a::len word)) = 2 ^ n"
proof -
  assume "n < LENGTH('a)"
  moreover have "push_bit n (1 :: 'a word) = of_nat (2 ^ n)" by simp
  ultimately show ?thesis
    by (simp only: unsigned_of_nat) (simp add: take_bit_nat_eq_self_iff)
qed

lemma word_less_iff_bits:
  fixes v :: "'a::len word"
  assumes "n < LENGTH('a)"
  shows "v < push_bit n 1 \<longleftrightarrow> (\<forall>i. bit v i \<longrightarrow> i < n)"
proof -
  have d: "unat (drop_bit n v) = unat v div 2 ^ n"
    by (simp add: unat_drop_bit_eq drop_bit_eq_div [of n "unat v"])
  have "v < push_bit n 1 \<longleftrightarrow> unat (drop_bit n v) = 0"
    unfolding d word_less_nat_alt unat_push_bit_1 [OF assms] by (simp add: div_eq_0_iff)
  also have "\<dots> \<longleftrightarrow> (\<forall>i. \<not> bit (drop_bit n v) i)"
    by (simp add: unat_eq_0 bit_eq_iff [of "drop_bit n v" 0]) (metis bit_imp_le_length)
  also have "\<dots> \<longleftrightarrow> (\<forall>i. bit v i \<longrightarrow> i < n)"
    unfolding bit_drop_bit_eq by (metis comp_apply le_add_diff_inverse le_add1 not_le)
  finally show ?thesis .
qed

lemma all_less_8:
  "(\<forall>i<8. P i) \<longleftrightarrow> P 0 \<and> P 1 \<and> P 2 \<and> P 3 \<and> P 4 \<and> P 5 \<and> P 6 \<and> P (7::nat)"
  by (simp add: numeral_eq_Suc All_less_Suc) auto

lemma byte_eq_iff:
  "(a :: byte) = b \<longleftrightarrow>
    (bit a 0 = bit b 0 \<and> bit a 1 = bit b 1 \<and> bit a 2 = bit b 2 \<and> bit a 3 = bit b 3 \<and>
     bit a 4 = bit b 4 \<and> bit a 5 = bit b 5 \<and> bit a 6 = bit b 6 \<and> bit a 7 = bit b 7)"
  using all_less_8 [of "\<lambda>i. bit a i = bit b i"]
  by (simp add: bit_eq_iff [of a b] possible_bit_word)

lemma byte_bit_high: "8 \<le> n \<Longrightarrow> \<not> bit (b :: byte) n"
  using bit_imp_le_length [of b n] by auto

lemma bit_octet:
  fixes v :: "'a::len word"
  shows "bit (push_bit k (ucast (ucast (drop_bit k v) :: byte)) :: 'a word) n
     \<longleftrightarrow> k \<le> n \<and> n < k + 8 \<and> bit v n"
  by (auto simp: bit_simps dest: bit_imp_le_length)

lemmas bit_octet0 = bit_octet [of 0, simplified]

end
