(* ===== verification/TreeMath.thy ===== *)
theory TreeMath
  imports Prelude
begin

text \<open>
  Node index arithmetic of the left-balanced binary tree, \<^verbatim>\<open>src/mls/tree/math.go\<close>:
  array positions are 32-bit words, leaves at even and parents at odd indices.
  Shift counts are naturals (\<open>level\<close> is at most 32).  The two loops that have no
  bound in the source, the climb of \<^verbatim>\<open>Parent\<close> and the descent of \<^verbatim>\<open>Right\<close>,
  are partial functions whose value \<^const>\<open>None\<close> means that the loop is never left.
  The second half of the theory places every index at a level and a position in
  the infinite complete tree and derives the behaviour of the word operations
  from there.
\<close>

section \<open>The code\<close>

definition NodeWidth :: "u32 \<Rightarrow> u32" where
  "NodeWidth nLeaves = (if nLeaves = 0 then 0 else 2 * (nLeaves - 1) + 1)"

fun lenNat :: "nat \<Rightarrow> nat" where
  "lenNat n = (if n = 0 then 0 else Suc (lenNat (n div 2)))"

declare lenNat.simps [simp del]

definition Len32 :: "u32 \<Rightarrow> nat" where
  "Len32 x = lenNat (unat x)"

definition log2 :: "u32 \<Rightarrow> nat" where
  "log2 x = (if x = 0 then 0 else Len32 x - 1)"

function levelLoop :: "u32 \<Rightarrow> nat \<Rightarrow> nat" where
  "levelLoop x k = (if drop_bit k x AND 1 = 1 then levelLoop x (k + 1) else k)"
  by pat_completeness auto

lemma drop_bit_and_1: "drop_bit k x AND 1 = (1 :: 'a::len word) \<longleftrightarrow> bit x k"
  by (simp add: and_one_eq odd_iff_mod_2_eq_one [symmetric] bit_iff_odd_drop_bit)

termination levelLoop
proof (relation "measure (\<lambda>(x, k). 32 - k)")
  fix x :: u32 and k
  assume "drop_bit k x AND 1 = 1"
  then have "k < 32"
    using bit_imp_le_length [of x k] by (simp add: drop_bit_and_1)
  then show "((x, k + 1), (x, k)) \<in> measure (\<lambda>(x, k). 32 - k)"
    by simp
qed simp


declare levelLoop.simps [simp del]

definition level :: "u32 \<Rightarrow> nat" where
  "level x = (if x AND 1 = 0 then 0 else levelLoop x 0)"

definition Root :: "u32 \<Rightarrow> u32" where
  "Root nLeaves = (let w = NodeWidth nLeaves in push_bit (log2 w) 1 - 1)"

definition Left :: "u32 \<Rightarrow> u32 \<times> bool" where
  "Left x =
    (let k = level x in
     if k = 0 then (0, False) else (x XOR push_bit (k - 1) 1, True))"

partial_function (option) rightLoop :: "u32 \<Rightarrow> u32 \<Rightarrow> u32 option" where
  "rightLoop w r = (if r \<ge> w then rightLoop w (fst (Left r)) else Some r)"

definition Right :: "u32 \<Rightarrow> u32 \<Rightarrow> (u32 \<times> bool) res" where
  "Right x nLeaves =
    (let k = level x in
     if k = 0 then Ok (0, False)
     else
       let r = x XOR push_bit (k - 1) 3; w = NodeWidth nLeaves in
       bindR (fromOption NoReturn (rightLoop w r)) (\<lambda>r. Ok (r, True)))"

definition parentStep :: "u32 \<Rightarrow> u32" where
  "parentStep x =
    (let k = level x; b = drop_bit (k + 1) x AND 1 in
     (x OR push_bit k 1) XOR push_bit (k + 1) b)"

partial_function (option) parentLoop :: "u32 \<Rightarrow> u32 \<Rightarrow> u32 option" where
  "parentLoop w p = (if p \<ge> w then parentLoop w (parentStep p) else Some p)"

definition Parent :: "u32 \<Rightarrow> u32 \<Rightarrow> (u32 \<times> bool) res" where
  "Parent x nLeaves =
    (if x = Root nLeaves then Ok (0, False)
     else
       let w = NodeWidth nLeaves; p = parentStep x in
       bindR (fromOption NoReturn (parentLoop w p)) (\<lambda>p. Ok (p, True)))"

definition Sibling :: "u32 \<Rightarrow> u32 \<Rightarrow> (u32 \<times> bool) res" where
  "Sibling x nLeaves =
    bindR (Parent x nLeaves) (\<lambda>(p, ok).
      if \<not> ok then Ok (0, False)
      else
        let (l, _) = Left p in
        bindR (Right p nLeaves) (\<lambda>(r, _).
          if l = x then Ok (r, True) else Ok (l, True)))"

declare rightLoop.simps [code] parentLoop.simps [code]

section \<open>Levels and positions\<close>

definition node :: "nat \<Rightarrow> nat \<Rightarrow> nat" where
  "node k q = 2 ^ Suc k * q + (2 ^ k - 1)"

function nlevel :: "nat \<Rightarrow> nat" where
  "nlevel x = (if even x then 0 else Suc (nlevel (x div 2)))"
  by pat_completeness auto
termination nlevel
  by (relation "measure id") (auto elim: oddE)

declare nlevel.simps [simp del]

definition npos :: "nat \<Rightarrow> nat" where
  "npos x = x div 2 ^ Suc (nlevel x)"

lemma Suc_node: "Suc (node k q) = 2 ^ k * (2 * q + 1)"
  using one_le_power [of "2 :: nat" k] by (simp add: node_def algebra_simps)

lemma node_Suc: "node (Suc k) q = Suc (2 * node k q)"
  using Suc_node [of k q] Suc_node [of "Suc k" q] by simp

lemma node_nlevel: "node (nlevel x) (npos x) = x"
proof (induction x rule: nlevel.induct)
  case (1 x)
  show ?case
  proof (cases "even x")
    case True
    then show ?thesis by (simp add: nlevel.simps [of x] npos_def node_def)
  next
    case False
    then have l: "nlevel x = Suc (nlevel (x div 2))"
      by (simp add: nlevel.simps [of x])
    have "npos x = npos (x div 2)"
      by (simp only: npos_def l power_Suc [of _ "Suc _"] div_mult2_eq)
    with False l 1 show ?thesis
      by (simp add: node_Suc)
  qed
qed

lemma nlevel_node [simp]: "nlevel (node k q) = k"
proof (induction k)
  case 0
  show ?case by (simp add: nlevel.simps [of "2 * q"] node_def)
next
  case (Suc k)
  then show ?case by (simp add: node_Suc nlevel.simps [of "Suc (2 * node k q)"])
qed

lemma node_inject [simp]: "node k q = node l r \<longleftrightarrow> k = l \<and> q = r"
proof
  assume e: "node k q = node l r"
  then have "nlevel (node k q) = nlevel (node l r)" by (simp only:)
  then have k: "k = l" by simp
  have "2 ^ k * (2 * q + 1) = 2 ^ k * (2 * r + 1)"
    using e unfolding k by (simp only: Suc_node [symmetric])
  with k show "k = l \<and> q = r" by simp
qed simp

lemma npos_node [simp]: "npos (node k q) = q"
  using node_nlevel [of "node k q"] by simp

lemma bit_node: "bit (node k q) i \<longleftrightarrow> i < k \<or> k < i \<and> bit q (i - Suc k)"
proof -
  have "node k q = push_bit (Suc k) q OR mask k"
  proof -
    have "push_bit (Suc k) q AND mask k = 0"
      by (rule bit_eqI) (auto simp: bit_simps)
    then show ?thesis
      by (simp add: disjunctive_add_eq_or [symmetric] node_def mask_eq_exp_minus_1 push_bit_eq_mult
          mult.commute)
  qed
  then show ?thesis
    by (simp only: bit_or_iff bit_push_bit_iff bit_mask_iff) auto
qed


lemma node_bound: "Suc (node k q) < 2 ^ Suc K \<longleftrightarrow> k \<le> K \<and> q < 2 ^ (K - k)"
proof (cases "k \<le> K")
  case True
  then obtain d where d: "K = k + d" using le_Suc_ex by blast
  have "Suc (node k q) < 2 ^ Suc K \<longleftrightarrow> 2 ^ k * (2 * q + 1) < 2 ^ k * (2 * 2 ^ d :: nat)"
    unfolding Suc_node d by (simp add: power_add algebra_simps)
  also have "\<dots> \<longleftrightarrow> 2 * q + 1 < 2 * 2 ^ d"
    by (simp only: mult_less_cancel1 zero_less_power) simp
  finally show ?thesis using True d by auto
next
  case False
  then have "(2 :: nat) ^ Suc K \<le> 2 ^ k" by (intro power_increasing) auto
  also have "\<dots> \<le> Suc (node k q)" unfolding Suc_node by simp
  finally show ?thesis using False by simp
qed

lemma node_parent_bound:
  assumes "Suc (node k q) < 2 ^ Suc K" and "k < K"
  shows "Suc (node (Suc k) (q div 2)) < 2 ^ Suc K"
proof -
  obtain d where d: "K = Suc (k + d)"
    using \<open>k < K\<close> less_iff_Suc_add by auto
  have "q < 2 ^ (K - k)"
    using assms by (simp only: node_bound)
  then have "q div 2 < 2 ^ (K - Suc k)"
    by (simp add: d)
  with \<open>k < K\<close> show ?thesis
    by (simp only: node_bound) simp
qed

lemma node_even_less: "node k (2 * q) < node (Suc k) q"
proof -
  have "Suc (node k (2 * q)) < Suc (node (Suc k) q)"
    unfolding Suc_node by (simp add: algebra_simps)
  then show ?thesis by simp
qed

lemma node_odd_greater: "node (Suc k) q < node k (2 * q + 1)"
proof -
  have "Suc (node (Suc k) q) < Suc (node k (2 * q + 1))"
    unfolding Suc_node by (simp add: algebra_simps)
  then show ?thesis by simp
qed

section \<open>The word operations in coordinates\<close>

lemma unat_eqI:
  assumes "\<And>i. i < 32 \<Longrightarrow> bit (w :: u32) i \<longleftrightarrow> bit m i" and "m < 2 ^ 32"
  shows "unat w = m"
proof (rule bit_eqI)
  fix i
  have "\<not> bit m i" if "32 \<le> i"
  proof -
    have "m < 2 ^ i"
      using assms(2) power_increasing [OF that, of "2 :: nat"] by simp
    then show ?thesis by (simp add: bit_iff_odd)
  qed
  then show "bit (unat w) i = bit m i"
    using assms(1) [of i] bit_imp_le_length [of w i]
    by (cases "i < 32") (auto simp: bit_unsigned_iff)
qed

lemma bit_unat: "bit (unat (x :: u32)) i \<longleftrightarrow> bit x i"
  by (auto simp: bit_unsigned_iff dest: bit_imp_le_length)

lemma bit_coord:
  assumes "unat (x :: u32) = node k q"
  shows "bit x i \<longleftrightarrow> i < k \<or> k < i \<and> bit q (i - Suc k)"
  using assms bit_unat [of x i] by (simp add: bit_node)

lemma levelLoop_coord:
  assumes x: "unat (x :: u32) = node k q" and "j \<le> k"
  shows "levelLoop x j = k"
  using \<open>j \<le> k\<close>
proof (induction "k - j" arbitrary: j)
  case 0
  then have "j = k" by simp
  then show ?case
    by (simp add: levelLoop.simps [of x k] drop_bit_and_1 bit_coord [OF x])
next
  case (Suc d)
  then have "j < k" by simp
  with Suc show ?case
    by (simp add: levelLoop.simps [of x j] drop_bit_and_1 bit_coord [OF x])
qed

lemma level_coord: "unat (x :: u32) = node k q \<Longrightarrow> level x = k"
  using levelLoop_coord [of x k q 0] drop_bit_and_1 [of 0 x] bit_coord [of x k q 0]
  by (auto simp: level_def and_one_eq bit_0)

lemma parentStep_coord:
  assumes x: "unat x = node k q" and "node (Suc k) (q div 2) < 2 ^ 32"
  shows "unat (parentStep x) = node (Suc k) (q div 2)"
proof (rule unat_eqI)
  fix i :: nat
  assume "i < 32"
  have "drop_bit (Suc k) x AND 1 = of_bool (bit x (Suc k))"
    by (simp add: and_one_eq bit_iff_odd_drop_bit odd_iff_mod_2_eq_one)
  then have b: "bit (parentStep x) i \<longleftrightarrow>
      (bit x i \<or> i = k) \<noteq> (i = Suc k \<and> bit x (Suc k))"
    using \<open>i < 32\<close> by (auto simp: parentStep_def level_coord [OF x] Let_def bit_simps)
  consider "i < Suc k" | "i = Suc k" | j where "i = Suc (Suc k) + j"
    by (metis less_iff_Suc_add add_Suc linorder_neqE_nat)
  then show "bit (parentStep x) i \<longleftrightarrow> bit (node (Suc k) (q div 2)) i"
    unfolding b bit_node bit_coord [OF x] by cases (auto simp: bit_Suc)
qed (fact assms(2))


lemma Left_coord:
  assumes x: "unat x = node (Suc k) q"
  shows "Left x = (fst (Left x), True) \<and> unat (fst (Left x)) = node k (2 * q)"
proof -
  have l: "Left x = (x XOR push_bit k 1, True)"
    by (simp add: Left_def level_coord [OF x])
  have "node k (2 * q) \<le> node (Suc k) q"
    by (simp add: node_def)
  then have "node k (2 * q) < 2 ^ 32"
    using x unat_u32_less [of x] by simp
  have "unat (x XOR push_bit k 1) = node k (2 * q)"
  proof (rule unat_eqI)
    fix i :: nat
    assume "i < 32"
    consider "i < k" | "i = k" | j where "i = Suc k + j"
      by (metis less_iff_Suc_add add_Suc linorder_neqE_nat)
    then show "bit (x XOR push_bit k 1) i \<longleftrightarrow> bit (node k (2 * q)) i"
      using \<open>i < 32\<close> by cases (auto simp: bit_simps bit_node bit_coord [OF x] bit_double_iff)
  qed fact
  with l show ?thesis by simp
qed

lemma Left_leaf: "unat x = node 0 q \<Longrightarrow> Left x = (0, False)"
  by (simp add: Left_def level_coord)

lemma right_coord:
  assumes x: "unat (x :: u32) = node (Suc k) q" and "node k (2 * q + 1) < 2 ^ 32"
  shows "unat (x XOR push_bit k 3) = node k (2 * q + 1)"
proof (rule unat_eqI)
  fix i :: nat
  assume i: "i < 32"
  have b: "bit (x XOR push_bit k 3) i \<longleftrightarrow> bit x i \<noteq> (i = k \<or> i = Suc k)"
  proof -
    have m: "(3 :: u32) = mask 2" by (simp add: mask_eq_exp_minus_1)
    have "bit (push_bit k (mask 2 :: u32)) i \<longleftrightarrow> i = k \<or> i = Suc k"
      using i by (simp only: bit_push_bit_iff bit_mask_iff possible_bit_word) auto
    then show ?thesis
      by (simp only: m bit_xor_iff)
  qed
  have "i < k \<or> i = k \<or> i = Suc k \<or> Suc k < i" by linarith
  then consider "i < k" | "i = k" | "i = Suc k" | j where "i = Suc (Suc k + j)"
    by (auto simp: less_iff_Suc_add [of "Suc k"])
  then show "bit (x XOR push_bit k 3) i \<longleftrightarrow> bit (node k (2 * q + 1)) i"
    unfolding b bit_node bit_coord [OF x] by cases (auto simp: bit_Suc bit_0)
qed fact

section \<open>Width and root\<close>

definition validCount :: "u32 \<Rightarrow> bool" where
  "validCount n \<longleftrightarrow> 0 < unat n \<and> unat n \<le> 2 ^ 31"

lemma NodeWidth_nat: "validCount n \<Longrightarrow> unat (NodeWidth n) = 2 * unat n - 1"
proof -
  assume v: "validCount n"
  then have n: "0 < unat n" "unat n \<le> 2147483648"
    by (simp_all add: validCount_def)
  have m: "unat (n - 1) = unat n - 1"
    using n unat_minus_one [of n] by fastforce
  define k where "k = 2 * (n - 1)"
  have d: "unat k = 2 * (unat n - 1)"
    unfolding k_def using n by (subst unat_u32_double) (simp_all add: m)
  then have "unat k + 1 < 2 ^ 32"
    using n by simp
  then have "unat (k + 1) = unat k + 1"
    using unat_add_lem [of k 1] by simp
  moreover have "NodeWidth n = k + 1"
    using n by (auto simp: NodeWidth_def k_def)
  ultimately show ?thesis
    using n d by simp
qed

lemma lenNat_bounds: "0 < n \<Longrightarrow> 2 ^ (lenNat n - 1) \<le> n \<and> n < 2 ^ lenNat n"
proof (induction n rule: lenNat.induct)
  case (1 n)
  show ?case
  proof (cases "n = 1")
    case True
    then show ?thesis by (simp add: lenNat.simps)
  next
    case False
    with "1.prems" have h: "0 < n div 2" "n \<noteq> 0" by auto
    then have IH: "2 ^ (lenNat (n div 2) - 1) \<le> n div 2" "n div 2 < 2 ^ lenNat (n div 2)"
      using "1.IH" by auto
    have "lenNat (n div 2) \<noteq> 0" using h by (simp add: lenNat.simps [of "n div 2"])
    then obtain l where l: "lenNat (n div 2) = Suc l" by (cases "lenNat (n div 2)") auto
    have "lenNat n = Suc (Suc l)" using h l by (simp add: lenNat.simps [of n])
    with IH l show ?thesis by auto
  qed
qed

definition rootLevel :: "u32 \<Rightarrow> nat" where
  "rootLevel n = log2 (NodeWidth n)"

lemma width_bounds:
  assumes "validCount n"
  shows "2 ^ rootLevel n \<le> unat (NodeWidth n)" "unat (NodeWidth n) < 2 ^ Suc (rootLevel n)"
    "rootLevel n \<le> 31"
proof -
  have w: "0 < unat (NodeWidth n)"
    using assms NodeWidth_nat [OF assms] by (simp add: validCount_def)
  then have "NodeWidth n \<noteq> 0" by auto
  then have r: "rootLevel n = lenNat (unat (NodeWidth n)) - 1"
    by (simp add: rootLevel_def log2_def Len32_def)
  have l: "lenNat (unat (NodeWidth n)) \<noteq> 0"
    using w by (simp add: lenNat.simps [of "unat (NodeWidth n)"])
  from r l lenNat_bounds [OF w] show b: "2 ^ rootLevel n \<le> unat (NodeWidth n)"
    "unat (NodeWidth n) < 2 ^ Suc (rootLevel n)" by (simp_all add: Suc_diff_1)
  have "(2 :: nat) ^ rootLevel n < 2 ^ 32"
    using b(1) unat_u32_less [of "NodeWidth n"] by simp
  then have "rootLevel n < 32" by (simp only: power_strict_increasing_iff)
  then show "rootLevel n \<le> 31" by simp
qed

lemma Root_nat: "validCount n \<Longrightarrow> unat (Root n) = node (rootLevel n) 0"
proof -
  assume "validCount n"
  then have "rootLevel n < 32" using width_bounds(3) [of n] by simp
  then have u: "unat (push_bit (rootLevel n) (1 :: u32)) = 2 ^ rootLevel n"
    by (intro unat_push_bit_1) simp
  then have "push_bit (rootLevel n) (1 :: u32) \<noteq> 0"
    by (metis power_not_zero unsigned_0 zero_neq_numeral)
  then have "unat (push_bit (rootLevel n) (1 :: u32) - 1) = 2 ^ rootLevel n - 1"
    using unat_minus_one [of "push_bit (rootLevel n) (1 :: u32)"] unfolding u by blast
  then show ?thesis
    by (simp only: Root_def Let_def rootLevel_def [symmetric]) (simp add: node_def)
qed

section \<open>Climbing and descending\<close>

lemma parentLoop_climb:
  assumes "unat p = node k q" "unat w = W"
    and "\<And>i. i < m \<Longrightarrow> W \<le> node (k + i) (q div 2 ^ i)"
    and "node (k + m) (q div 2 ^ m) < W"
    and "\<And>i. i \<le> m \<Longrightarrow> node (k + i) (q div 2 ^ i) < 2 ^ 32"
  shows "\<exists>r. parentLoop w p = Some r \<and> unat r = node (k + m) (q div 2 ^ m)"
  using assms
proof (induction m arbitrary: p k q)
  case 0
  then show ?case
    by (simp add: parentLoop.simps [of w p] word_le_nat_alt)
next
  case (Suc m)
  have "w \<le> p"
    using Suc.prems(1,2) Suc.prems(3) [of 0] by (simp add: word_le_nat_alt)
  then have l: "parentLoop w p = parentLoop w (parentStep p)"
    by (simp add: parentLoop.simps [of w p])
  have "unat (parentStep p) = node (Suc k) (q div 2)"
    using parentStep_coord [OF Suc.prems(1)] Suc.prems(5) [of 1] by simp
  then have "\<exists>r. parentLoop w (parentStep p) = Some r \<and>
      unat r = node (Suc k + m) (q div 2 div 2 ^ m)"
  proof (rule Suc.IH)
    fix i
    show "i < m \<Longrightarrow> W \<le> node (Suc k + i) (q div 2 div 2 ^ i)"
      using Suc.prems(3) [of "Suc i"] by (simp add: div_mult2_eq)
    show "i \<le> m \<Longrightarrow> node (Suc k + i) (q div 2 div 2 ^ i) < 2 ^ 32"
      using Suc.prems(5) [of "Suc i"] by (simp add: div_mult2_eq)
  qed (use Suc.prems in \<open>simp_all add: div_mult2_eq\<close>)
  then show ?case
    by (simp add: l div_mult2_eq)
qed

lemma rightLoop_descend:
  assumes "unat r = node k q" "unat w = W" "m \<le> k"
    and "\<And>i. i < m \<Longrightarrow> W \<le> node (k - i) (2 ^ i * q)"
    and "node (k - m) (2 ^ m * q) < W"
  shows "\<exists>s. rightLoop w r = Some s \<and> unat s = node (k - m) (2 ^ m * q)"
  using assms
proof (induction m arbitrary: r k q)
  case 0
  then show ?case
    by (simp add: rightLoop.simps [of w r] word_le_nat_alt)
next
  case (Suc m)
  then obtain k' where k: "k = Suc k'" by (cases k) auto
  have "w \<le> r"
    using Suc.prems(1,2) Suc.prems(4) [of 0] by (simp add: word_le_nat_alt)
  then have l: "rightLoop w r = rightLoop w (fst (Left r))"
    by (simp add: rightLoop.simps [of w r])
  have "unat (fst (Left r)) = node k' (2 * q)"
    using Left_coord [of r k' q] Suc.prems(1) k by simp
  then have "\<exists>s. rightLoop w (fst (Left r)) = Some s \<and> unat s = node (k' - m) (2 ^ m * (2 * q))"
  proof (rule Suc.IH)
    fix i
    show "i < m \<Longrightarrow> W \<le> node (k' - i) (2 ^ i * (2 * q))"
      using Suc.prems(4) [of "Suc i"] k by (simp add: mult.assoc mult.left_commute)
  qed (use Suc.prems k in \<open>simp_all add: mult.assoc mult.left_commute\<close>)
  then show ?case
    by (simp add: l k mult.assoc mult.left_commute)
qed


lemma coord_exists:
  obtains k q where "unat (x :: u32) = node k q"
  using node_nlevel [of "unat x"] by metis

lemma coord_in_root:
  assumes "validCount n" "x < NodeWidth n" "unat x = node k q"
  shows "k \<le> rootLevel n \<and> q < 2 ^ (rootLevel n - k)"
proof -
  have "Suc (node k q) < 2 ^ Suc (rootLevel n)"
    using width_bounds(2) [OF assms(1)] assms(2,3) by (simp add: word_less_nat_alt)
  then show ?thesis by (simp only: node_bound)
qed

lemma anc_bound:
  assumes "q < 2 ^ (K - k)" "k + i \<le> K" "K \<le> 31"
  shows "node (k + i) (q div 2 ^ i) < 2 ^ 32"
proof -
  have "q div 2 ^ i < 2 ^ (K - (k + i))"
  proof -
    have "K - k = i + (K - (k + i))" using assms by simp
    then have "q < 2 ^ (K - (k + i)) * 2 ^ i"
      using assms(1) by (simp add: power_add [symmetric] add.commute)
    then show ?thesis by (simp add: less_mult_imp_div_less)
  qed
  then have "Suc (node (k + i) (q div 2 ^ i)) < 2 ^ Suc K"
    using assms(2) by (simp only: node_bound)
  also have "(2 :: nat) ^ Suc K \<le> 2 ^ 32"
    using assms(3) by (intro power_increasing) auto
  finally show ?thesis by simp
qed

text \<open>Where \<^verbatim>\<open>Parent\<close> ends up: the first ancestor that lies inside the tree.\<close>

lemma Parent_climb:
  assumes n: "validCount n" and x: "unat x = node k q" and m: "0 < m" "k + m \<le> rootLevel n"
    and q: "q < 2 ^ (rootLevel n - k)"
    and out: "\<And>i. 0 < i \<Longrightarrow> i < m \<Longrightarrow> unat (NodeWidth n) \<le> node (k + i) (q div 2 ^ i)"
    and "in": "node (k + m) (q div 2 ^ m) < unat (NodeWidth n)"
  shows "\<exists>p. Parent x n = Ok (p, True) \<and> unat p = node (k + m) (q div 2 ^ m)"
proof -
  obtain m' where m': "m = Suc m'" using m by (cases m) auto
  note b = anc_bound [OF q _ width_bounds(3) [OF n]]
  have s: "unat (parentStep x) = node (Suc k) (q div 2)"
    using parentStep_coord [OF x] b [of 1] m m' by simp
  have "\<exists>r. parentLoop (NodeWidth n) (parentStep x) = Some r \<and>
      unat r = node (Suc k + m') (q div 2 div 2 ^ m')"
  proof (rule parentLoop_climb [OF s refl])
    fix i
    show "i < m' \<Longrightarrow> unat (NodeWidth n) \<le> node (Suc k + i) (q div 2 div 2 ^ i)"
      using out [of "Suc i"] m' by (simp add: div_mult2_eq)
    show "i \<le> m' \<Longrightarrow> node (Suc k + i) (q div 2 div 2 ^ i) < 2 ^ 32"
      using b [of "Suc i"] m m' by (simp add: div_mult2_eq)
  qed (use "in" m' in \<open>simp add: div_mult2_eq\<close>)
  moreover have "x \<noteq> Root n"
    using Root_nat [OF n] x m by auto
  ultimately show ?thesis
    using m' by (auto simp: Parent_def div_mult2_eq)
qed

lemma root_in_tree: "validCount n \<Longrightarrow> node (rootLevel n) 0 < unat (NodeWidth n)"
  using width_bounds(1) [of n] Suc_node [of "rootLevel n" 0] by simp

lemma Parent_exists:
  assumes n: "validCount n" and "x < NodeWidth n" "x \<noteq> Root n" and x: "unat x = node k q"
  obtains p m where "Parent x n = Ok (p, True)" "0 < m" "k + m \<le> rootLevel n"
    "unat p = node (k + m) (q div 2 ^ m)" "unat p < unat (NodeWidth n)"
    "\<And>i. 0 < i \<Longrightarrow> i < m \<Longrightarrow> unat (NodeWidth n) \<le> node (k + i) (q div 2 ^ i)"
proof -
  let ?K = "rootLevel n" and ?W = "unat (NodeWidth n)"
  have kq: "k \<le> ?K" "q < 2 ^ (?K - k)"
    using coord_in_root [OF n assms(2) x] by auto
  have "k \<noteq> ?K"
  proof
    assume "k = ?K"
    then have "unat x = unat (Root n)" using x kq Root_nat [OF n] by simp
    with assms(3) show False by (simp add: word_unat_eq_iff)
  qed
  with kq have k: "k < ?K" by simp
  define good where "good m \<longleftrightarrow> 0 < m \<and> node (k + m) (q div 2 ^ m) < ?W" for m
  have "good (?K - k)"
    using k kq root_in_tree [OF n] by (simp add: good_def)
  define m where "m = (LEAST m. good m)"
  have m: "good m" "m \<le> ?K - k"
    using \<open>good (?K - k)\<close> unfolding m_def by (auto intro: LeastI Least_le)
  then have km: "k + m \<le> ?K" using k by simp
  have out: "?W \<le> node (k + i) (q div 2 ^ i)" if "0 < i" "i < m" for i
    using not_less_Least [of i good] that by (simp add: m_def good_def not_less)
  obtain p where "Parent x n = Ok (p, True)" "unat p = node (k + m) (q div 2 ^ m)"
    using Parent_climb [OF n x _ km kq(2)] out m by (auto simp: good_def)
  with m k out that show ?thesis
    by (auto simp: good_def)
qed


lemma node_leftmost: "node 0 (2 ^ a * q) \<le> node a q"
proof -
  have "node 0 (2 ^ a * q) = 2 ^ Suc a * q" by (simp add: node_def)
  then show ?thesis by (simp only: node_def le_add1)
qed

lemma pow_join: "m \<le> k \<Longrightarrow> 2 ^ (k - m) * (2 ^ m * c) = (2 ^ k * c :: nat)"
  by (simp add: power_add [symmetric] mult.assoc [symmetric])

lemma pow_div: "i \<le> m \<Longrightarrow> 2 ^ m * c div 2 ^ i = (2 ^ (m - i) * c :: nat)"
proof -
  assume "i \<le> m"
  then have "2 ^ m * c = 2 ^ i * (2 ^ (m - i) * c)"
    by (simp add: power_add [symmetric] mult.assoc [symmetric])
  then show ?thesis by (simp only: nonzero_mult_div_cancel_left power_not_zero) simp
qed

lemma pow_div_Suc: "2 ^ m * c div 2 ^ Suc m = (c div 2 :: nat)"
  by (simp only: power_Suc2 div_mult2_eq) simp

lemma Left_in_tree:
  assumes "unat p = node (Suc k) q" "p < NodeWidth n"
  shows "fst (Left p) < NodeWidth n" "fst (Left p) < p"
  using Left_coord [OF assms(1)] node_even_less [of k q] assms by (simp_all add: word_less_nat_alt)

lemma Right_exists:
  assumes n: "validCount n" and "p < NodeWidth n" and p: "unat p = node (Suc k) q"
  obtains r m where "Right p n = Ok (r, True)" "m \<le> k"
    "unat r = node (k - m) (2 ^ m * (2 * q + 1))" "r < NodeWidth n" "p < r"
    "\<And>i. i < m \<Longrightarrow> unat (NodeWidth n) \<le> node (k - i) (2 ^ i * (2 * q + 1))"
proof -
  let ?W = "unat (NodeWidth n)"
  have kq: "Suc k \<le> rootLevel n" "q < 2 ^ (rootLevel n - Suc k)"
    using coord_in_root [OF n assms(2) p] by auto
  have "Suc (node k (2 * q + 1)) < 2 ^ Suc (rootLevel n)"
  proof -
    have "rootLevel n - k = Suc (rootLevel n - Suc k)" using kq(1) by simp
    then have "2 * q + 1 < 2 ^ (rootLevel n - k)" using kq(2) by simp
    then show ?thesis using kq(1) by (simp only: node_bound) simp
  qed
  also have "(2 :: nat) ^ Suc (rootLevel n) \<le> 2 ^ 32"
    using width_bounds(3) [OF n] by (intro power_increasing) auto
  finally have b: "unat (p XOR push_bit k 3) = node k (2 * q + 1)"
    using right_coord [OF p] by simp
  define good where "good m \<longleftrightarrow> node (k - m) (2 ^ m * (2 * q + 1)) < ?W" for m
  have leaf: "node 0 (2 ^ k * (2 * q + 1)) = Suc (node (Suc k) q)"
    unfolding Suc_node by (simp add: node_def algebra_simps)
  have "odd (unat p)" using p by (simp add: node_Suc)
  moreover have "odd ?W"
    using NodeWidth_nat [OF n] n by (simp add: validCount_def)
  moreover have "unat p < ?W" using assms(2) by (simp add: word_less_nat_alt)
  ultimately have "Suc (unat p) < ?W" by presburger
  with leaf p have g: "good k" by (simp add: good_def)
  define m where "m = (LEAST m. good m)"
  have m: "good m" "m \<le> k"
    using g unfolding m_def by (auto intro: LeastI Least_le)
  have out: "?W \<le> node (k - i) (2 ^ i * (2 * q + 1))" if "i < m" for i
    using not_less_Least [of i good] that by (simp add: m_def good_def not_less)
  obtain r where r: "rightLoop (NodeWidth n) (p XOR push_bit k 3) = Some r"
    "unat r = node (k - m) (2 ^ m * (2 * q + 1))"
    using rightLoop_descend [OF b refl m(2)] out m by (auto simp: good_def)
  have "Suc (node (Suc k) q) \<le> node (k - m) (2 ^ m * (2 * q + 1))"
    using node_leftmost [of "k - m" "2 ^ m * (2 * q + 1)"] unfolding pow_join [OF m(2)] leaf .
  then have "p < r" using r p by (simp add: word_less_nat_alt)
  moreover have "Right p n = Ok (r, True)"
    using r by (simp add: Right_def level_coord [OF p])
  ultimately show ?thesis
    using that r m out by (simp add: good_def word_less_nat_alt)
qed


lemma Parent_Left:
  assumes n: "validCount n" and "p < NodeWidth n" and p: "unat p = node (Suc k) q"
  shows "Parent (fst (Left p)) n = Ok (p, True)"
proof -
  have kq: "Suc k \<le> rootLevel n" "q < 2 ^ (rootLevel n - Suc k)"
    using coord_in_root [OF n assms(2) p] by auto
  have "rootLevel n - k = Suc (rootLevel n - Suc k)" using kq(1) by simp
  then have "2 * q < 2 ^ (rootLevel n - k)" using kq(2) by simp
  then obtain p' where "Parent (fst (Left p)) n = Ok (p', True)" "unat p' = node (Suc k) q"
    using Parent_climb [OF n conjunct2 [OF Left_coord [OF p]], of 1] kq(1) assms(2) p
    by (auto simp: word_less_nat_alt)
  with p show ?thesis by (simp add: word_unat_eq_iff)
qed

lemma Parent_Right:
  assumes n: "validCount n" and "p < NodeWidth n" and p: "unat p = node (Suc k) q"
    and r: "Right p n = Ok (r, True)"
  shows "Parent r n = Ok (p, True)"
proof -
  let ?c = "2 * q + 1"
  have kq: "Suc k \<le> rootLevel n" "q < 2 ^ (rootLevel n - Suc k)"
    using coord_in_root [OF n assms(2) p] by auto
  obtain m where m: "m \<le> k" "unat r = node (k - m) (2 ^ m * ?c)"
    "\<And>i. i < m \<Longrightarrow> unat (NodeWidth n) \<le> node (k - i) (2 ^ i * ?c)" "r < NodeWidth n"
    using Right_exists [OF n assms(2) p] r by auto
  note anc = pow_div [of _ m ?c]
  have top: "2 ^ m * ?c div 2 ^ Suc m = q"
    unfolding pow_div_Suc by simp
  have "\<exists>p'. Parent r n = Ok (p', True) \<and>
      unat p' = node (k - m + Suc m) (2 ^ m * ?c div 2 ^ Suc m)"
  proof (rule Parent_climb [OF n m(2)])
    show "2 ^ m * ?c < 2 ^ (rootLevel n - (k - m))"
      using coord_in_root [OF n m(4,2)] by simp
    fix i
    assume "0 < i" "i < Suc m"
    then show "unat (NodeWidth n) \<le> node (k - m + i) (2 ^ m * ?c div 2 ^ i)"
      using m(1) m(3) [of "m - i"] anc [of i] by simp
  qed (use m(1) kq(1) assms(2) p top in \<open>simp_all add: word_less_nat_alt\<close>)
  with top p m(1) show ?thesis by (auto simp: word_unat_eq_iff)
qed


text \<open>The left edge of a subtree is above every ancestor it hangs right of.\<close>

lemma right_subtree_above:
  assumes "odd (q div 2 ^ i)"
  shows "node (Suc (k + i)) (q div 2 ^ Suc i) < node k q"
proof -
  define c where "c = q div 2 ^ i"
  have c: "c = 2 * (q div 2 ^ Suc i) + 1"
    using assms by (simp add: c_def power_Suc2 div_mult2_eq del: power_Suc)
  have "Suc (node (Suc (k + i)) (q div 2 ^ Suc i)) = 2 ^ Suc k * (2 ^ i * c)"
    unfolding Suc_node by (subst c) (simp add: power_add algebra_simps)
  also have "\<dots> \<le> 2 ^ Suc k * q"
    by (rule mult_le_mono2) (simp add: c_def)
  also have "\<dots> \<le> node k q" by (simp only: node_def le_add1)
  finally show ?thesis by simp
qed

lemma Parent_child:
  assumes n: "validCount n" and "x < NodeWidth n" "x \<noteq> Root n" and pp: "Parent x n = Ok (p, ok)"
  shows "ok \<and> p < NodeWidth n \<and> level x < level p \<and>
    (fst (Left p) = x \<or> Right p n = Ok (x, True) \<and> fst (Left p) \<noteq> x)"
proof -
  let ?W = "unat (NodeWidth n)"
  obtain k q where x: "unat x = node k q" by (rule coord_exists)
  obtain m where m: "ok" "0 < m" "unat p = node (k + m) (q div 2 ^ m)" "unat p < ?W"
    and out: "\<And>i. 0 < i \<Longrightarrow> i < m \<Longrightarrow> ?W \<le> node (k + i) (q div 2 ^ i)"
    using Parent_exists [OF n assms(2,3) x] pp by (metis Inr_inject prod.inject)
  obtain j where j: "m = Suc j" using m(2) by (cases m) auto
  have xW: "node k q < ?W" using assms(2) x by (simp add: word_less_nat_alt)
  have ev: "even (q div 2 ^ i)" if "i < j" for i
  proof (rule ccontr)
    assume "odd (q div 2 ^ i)"
    from right_subtree_above [OF this, of k] out [of "Suc i"] that j xW
    show False by simp
  qed
  have spine: "q = 2 ^ i * (q div 2 ^ i)" if "i \<le> j" for i
    using that
  proof (induction i)
    case (Suc i)
    then have "q div 2 ^ i = 2 * (q div 2 ^ Suc i)"
      using ev [of i] by (simp add: power_Suc2 div_mult2_eq del: power_Suc)
    with Suc show ?case by (metis Suc_leD mult.assoc power_Suc2)
  qed simp
  have p: "unat p = node (Suc (k + j)) (q div 2 ^ j div 2)"
    using m(3) j by (simp add: power_Suc2 div_mult2_eq del: power_Suc)
  have lv: "level x < level p"
    using level_coord [OF x] level_coord [OF p] by simp
  have pW: "p < NodeWidth n" using m(4) by (simp add: word_less_nat_alt)
  show ?thesis
  proof (cases "even (q div 2 ^ j)")
    case True
    have "node (k + j) (q div 2 ^ j) < unat p"
      using node_even_less [of "k + j" "q div 2 ^ j div 2"] True p by simp
    then have "j = 0" using out [of j] m(4) j by (cases j) auto
    with True p x have "unat (fst (Left p)) = unat x"
      using Left_coord [OF p] by simp
    with m(1) lv pW show ?thesis by (simp add: word_unat_eq_iff)
  next
    case False
    then have odd: "2 * (q div 2 ^ j div 2) + 1 = q div 2 ^ j"
      by (rule odd_two_times_div_two_succ)
    obtain r l where r: "Right p n = Ok (r, True)" "l \<le> k + j"
      "unat r = node (k + j - l) (2 ^ l * (q div 2 ^ j))" "r < NodeWidth n" "p < r"
      "\<And>i. i < l \<Longrightarrow> ?W \<le> node (k + j - i) (2 ^ i * (q div 2 ^ j))"
      using Right_exists [OF n pW p] unfolding odd by metis
    have at: "node (k + j - i) (2 ^ i * (q div 2 ^ j)) = node (k + (j - i)) (q div 2 ^ (j - i))"
      if "i \<le> j" for i
    proof -
      have "q div 2 ^ (j - i) = 2 ^ j * (q div 2 ^ j) div 2 ^ (j - i)"
        using spine [of j] by simp
      with that show ?thesis by (simp add: pow_div)
    qed
    have "l = j"
    proof (rule antisym)
      show "l \<le> j"
        using r(6) [of j] at [of j] xW by (metis diff_self_eq_0 add_0_right div_by_1 leD le_refl
            not_le_imp_less power_0)
      show "j \<le> l"
      proof (rule ccontr)
        assume "\<not> j \<le> l"
        with at [of l] out [of "j - l"] r(3,4) j show False
          by (simp add: word_less_nat_alt less_Suc_eq_le)
      qed
    qed
    with r(3) at [of j] x have "unat r = unat x" by simp
    moreover have "fst (Left p) < p" using Left_in_tree [OF p pW] by simp
    ultimately show ?thesis
      using m(1) lv pW r(1,5) by (auto simp: word_unat_eq_iff [symmetric])
  qed
qed


lemma not_Root_child:
  assumes n: "validCount n" and "p < NodeWidth n" "level x < level p" "x < NodeWidth n"
  shows "x \<noteq> Root n"
proof
  assume "x = Root n"
  then have "level x = rootLevel n"
    using level_coord [OF Root_nat [OF n]] by simp
  moreover obtain k q where "unat p = node k q" by (rule coord_exists)
  ultimately show False
    using coord_in_root [OF n assms(2)] level_coord [of p] assms(3) by fastforce
qed

lemma level_children:
  assumes p: "unat p = node (Suc k) q"
  shows "level (fst (Left p)) < level p"
  using level_coord [OF p] level_coord [OF conjunct2 [OF Left_coord [OF p]]] by simp

lemma internal_coord: "0 < level p \<Longrightarrow> \<exists>k q. unat p = node (Suc k) q"
  using coord_exists [of p] level_coord [of p] by (metis gr0_implies_Suc)

lemma Sibling_spec:
  assumes n: "validCount n" and x: "x < NodeWidth n" "x \<noteq> Root n" and p: "Parent x n = Ok (p, True)"
  shows "\<exists>s. Sibling x n = Ok (s, True) \<and> s < NodeWidth n \<and> s \<noteq> x \<and> s \<noteq> Root n \<and>
    Parent s n = Ok (p, True) \<and> (s = fst (Left p) \<and> Right p n = Ok (x, True) \<or>
      x = fst (Left p) \<and> Right p n = Ok (s, True))"
proof -
  have c: "p < NodeWidth n" "level x < level p"
    "fst (Left p) = x \<or> Right p n = Ok (x, True) \<and> fst (Left p) \<noteq> x"
    using Parent_child [OF n x p] by auto
  then obtain k q where kq: "unat p = node (Suc k) q" using internal_coord [of p] by auto
  note l = Left_in_tree [OF kq c(1)] level_children [OF kq] Parent_Left [OF n c(1) kq]
  obtain r where r: "Right p n = Ok (r, True)" "r < NodeWidth n" "p < r"
    using Right_exists [OF n c(1) kq] by metis
  have rp: "Parent r n = Ok (p, True)" by (rule Parent_Right [OF n c(1) kq r(1)])
  have "r \<noteq> Root n"
    using rp by (auto simp: Parent_def)
  moreover have "fst (Left p) \<noteq> Root n"
    using l(4) by (auto simp: Parent_def)
  ultimately show ?thesis
    using c(3) r rp l p by (auto simp: Sibling_def split_beta Let_def)
qed

section \<open>When the climb ends\<close>

lemma coord_below_top:
  assumes x: "unat (x :: u32) = node k q" and "k \<le> 31"
  shows "Suc (node k q) < 2 ^ Suc 31"
proof -
  have "Suc (node k q) \<noteq> 2 ^ Suc 31"
  proof
    assume e: "Suc (node k q) = 2 ^ Suc 31"
    have "(2 :: nat) ^ Suc 31 = 2 ^ k * (2 * 2 ^ (31 - k))"
      using assms(2) by (metis le_add_diff_inverse mult.left_commute power_Suc power_add)
    with e have "2 * q + 1 = 2 * 2 ^ (31 - k)"
      unfolding Suc_node by (metis mult_left_cancel power_not_zero zero_neq_numeral)
    then show False by presburger
  qed
  moreover have "Suc (node k q) \<le> 2 ^ Suc 31"
    using unat_u32_less [of x] x by simp
  ultimately show ?thesis by simp
qed

lemma coord_range:
  assumes x: "unat (x :: u32) = node k q"
  shows "k \<le> 32" "k \<le> 31 \<Longrightarrow> node (Suc k) (q div 2) < 2 ^ 32" "k = 32 \<Longrightarrow> x = 0xffffffff"
proof -
  have s: "Suc (node k q) \<le> 2 ^ 32"
    using unat_u32_less [of x] x by simp
  then have "(2 :: nat) ^ k \<le> 2 ^ 32"
    unfolding Suc_node by (metis One_nat_def add.commute le_trans mult_le_mono2 mult.right_neutral
        plus_1_eq_Suc Suc_le_mono le0)
  then show k: "k \<le> 32" by (simp only: power_increasing_iff)
  show "node (Suc k) (q div 2) < 2 ^ 32" if "k \<le> 31"
  proof -
    have b: "Suc (node k q) < 2 ^ Suc 31" by (rule coord_below_top [OF x that])
    show ?thesis
    proof (cases "k = 31")
      case True
      with b have "q = 0" by (simp only: node_bound) simp
      with True show ?thesis by (simp add: node_def)
    next
      case False
      with that node_parent_bound [OF b] show ?thesis by simp
    qed
  qed
  show "x = 0xffffffff" if "k = 32"
  proof -
    have "node 32 q = 2 ^ 32 - 1"
      using s x that unfolding Suc_node by (simp add: node_def)
    then have "unat x = unat (0xffffffff :: u32)" using x that by simp
    then show ?thesis by (simp only: word_unat_eq_iff)
  qed
qed


lemma level_le: "level x \<le> 32"
  using coord_exists [of x] coord_range(1) [of x] level_coord [of x] by metis

lemma Left_level: "level (fst (Left x)) \<le> level x - 1"
proof -
  obtain k q where x: "unat x = node k q" by (rule coord_exists)
  have "level 0 = 0" by (simp add: level_def)
  with x show ?thesis
    by (cases k) (auto simp: Left_leaf level_coord dest: Left_coord)
qed

lemma Left_level_less: "Left x = (l, True) \<Longrightarrow> level l < level x"
  using Left_level [of x] by (auto simp: Left_def Let_def split: if_splits)

lemma rightLoop_level: "rightLoop w r = Some s \<Longrightarrow> level s \<le> level r"
proof (rule rightLoop.raw_induct [of "\<lambda>w r s. level s \<le> level r"])
  fix f :: "u32 \<Rightarrow> u32 \<Rightarrow> u32 option" and w r s
  assume "\<And>w r s. f w r = Some s \<Longrightarrow> level s \<le> level r"
    and "(if r \<ge> w then f w (fst (Left r)) else Some r) = Some s"
  then show "level s \<le> level r"
    using Left_level [of r] order_trans by (fastforce split: if_splits)
qed

lemma right0_level: "level x = Suc k \<Longrightarrow> level (x XOR push_bit k 3) = k"
proof -
  assume l: "level x = Suc k"
  obtain q where x: "unat x = node (Suc k) q" using internal_coord [of x] level_coord [of x] l by auto
  show ?thesis
  proof (cases "Suc k \<le> 31")
    case True
    then have "Suc (node (Suc k) q) < 2 ^ Suc 31"
      using coord_range(2) [OF x] coord_below_top [OF x] by simp
    then have "q < 2 ^ (31 - Suc k)" by (simp only: node_bound)
    moreover have "31 - k = Suc (31 - Suc k)" using True by simp
    ultimately have "2 * q + 1 < 2 ^ (31 - k)" by simp
    then have "Suc (node k (2 * q + 1)) < 2 ^ Suc 31"
      using True by (simp only: node_bound) simp
    then show ?thesis using level_coord [OF right_coord [OF x]] by simp
  next
    case False
    then have k: "k = 31" "x = 0xffffffff" using coord_range [OF x] by auto
    show ?thesis by (simp add: k level_def levelLoop.simps)
  qed
qed

lemma Right_level_less: "Right x n = Ok (r, True) \<Longrightarrow> level r < level x"
proof -
  assume "Right x n = Ok (r, True)"
  then obtain k where "level x = Suc k" "rightLoop (NodeWidth n) (x XOR push_bit k 3) = Some r"
    by (cases "level x") (auto simp: Right_def bindR_Inr_iff fromOption_Inr_iff)
  then show ?thesis using rightLoop_level right0_level by fastforce
qed

lemma internal_iff: "snd (Left x) \<longleftrightarrow> 0 < level x"
  by (simp add: Left_def Let_def)

lemma child_levels:
  assumes "snd (Left x)"
  shows "level (fst (Left x)) < level x" "Right x n = Ok (r, ok) \<Longrightarrow> level r < level x"
proof -
  show "level (fst (Left x)) < level x"
    using assms Left_level [of x] by (simp add: internal_iff)
  assume "Right x n = Ok (r, ok)"
  moreover from this have ok using assms
    by (auto simp: Right_def internal_iff bindR_Inr_iff split: if_splits)
  ultimately show "level r < level x" using Right_level_less by simp
qed

lemma parentStep_max:
  assumes l: "level x = 32"
  shows "parentStep x = x"
proof (rule bit_word_eqI)
  fix i
  assume "i < LENGTH(32)"
  then have "\<not> bit (push_bit 32 (1 :: u32)) i" "\<not> bit (push_bit (32 + 1) b) i" for b :: u32
    by (simp_all only: bit_push_bit_iff) simp_all
  then show "bit (parentStep x) i = bit x i"
    unfolding parentStep_def Let_def l bit_xor_iff bit_or_iff by blast
qed

lemma parentStep_level: "level x < 32 \<Longrightarrow> level (parentStep x) = Suc (level x)"
proof -
  assume l: "level x < 32"
  obtain k q where x: "unat x = node k q" by (rule coord_exists)
  with l have "k \<le> 31" by (simp add: level_coord)
  then have "unat (parentStep x) = node (Suc k) (q div 2)"
    using parentStep_coord [OF x] coord_range(2) [OF x] by simp
  then show ?thesis using level_coord x by simp
qed

lemma parentStep_level_le: "level x \<le> level (parentStep x)"
  using parentStep_level [of x] parentStep_max [of x] level_le [of x] by (cases "level x = 32") auto

lemma parentLoop_Some: "parentLoop w p = Some r \<Longrightarrow> r < w \<and> level p \<le> level r"
proof (rule parentLoop.raw_induct [of "\<lambda>w p r. r < w \<and> level p \<le> level r"])
  fix f :: "u32 \<Rightarrow> u32 \<Rightarrow> u32 option" and w p r
  assume IH: "\<And>w p r. f w p = Some r \<Longrightarrow> r < w \<and> level p \<le> level r"
    and "(if p \<ge> w then f w (parentStep p) else Some p) = Some r"
  then show "r < w \<and> level p \<le> level r"
    using parentStep_level_le [of p] order_trans by (fastforce split: if_splits)
qed

lemma Parent_Ok:
  assumes "Parent x n = Ok (p, True)"
  shows "x \<noteq> Root n \<and> p < NodeWidth n \<and> level x < level p"
proof -
  have l: "parentLoop (NodeWidth n) (parentStep x) = Some p" and r: "x \<noteq> Root n"
    using assms by (auto simp: Parent_def bindR_Inr_iff fromOption_Inr_iff split: if_splits)
  note b = parentLoop_Some [OF l]
  have "level x \<noteq> 32"
  proof
    assume "level x = 32"
    then have "level p = 32" using b parentStep_max [of x] level_le [of p] by simp
    then have "p = 0xffffffff"
      using coord_exists [of p] level_coord [of p] coord_range(3) [of p] by metis
    with b unat_u32_less [of "NodeWidth n"] show False by (simp add: word_less_nat_alt)
  qed
  then have "level x < 32" using level_le [of x] by simp
  with b r parentStep_level [of x] show ?thesis by simp
qed

lemma Parent_not_ok: "Parent x n = Ok (p, False) \<Longrightarrow> x = Root n \<and> p = 0"
  by (auto simp: Parent_def bindR_Inr_iff split: if_splits)

lemma parentStep_outside:
  assumes "2 ^ Suc h \<le> Suc (unat p)" and "h \<le> 31"
  shows "2 ^ Suc h \<le> Suc (unat (parentStep p))"
proof (cases "level p = 32")
  case True
  then show ?thesis using assms parentStep_max by simp
next
  case False
  obtain k q where p: "unat p = node k q" by (rule coord_exists)
  with False level_le [of p] have "k \<le> 31" by (simp add: level_coord)
  then have s: "unat (parentStep p) = node (Suc k) (q div 2)"
    using parentStep_coord [OF p] coord_range(2) [OF p] by simp
  show ?thesis
  proof (rule ccontr)
    assume "\<not> ?thesis"
    then have "Suc (node (Suc k) (q div 2)) < 2 ^ Suc h" using s by simp
    then have "Suc k \<le> h" "q div 2 < 2 ^ (h - Suc k)" by (simp_all only: node_bound)
    moreover from this obtain d where "h = Suc k + d" using le_Suc_ex by blast
    ultimately have "k \<le> h" "q < 2 ^ (h - k)" by simp_all
    then have "Suc (node k q) < 2 ^ Suc h" by (simp only: node_bound)
    with assms p show False by simp
  qed
qed

lemma parentLoop_outside:
  assumes "unat w < 2 ^ Suc h" "h \<le> 31"
  shows "2 ^ Suc h \<le> Suc (unat p) \<Longrightarrow> parentLoop w p = None"
proof (rule ccontr)
  assume p: "2 ^ Suc h \<le> Suc (unat p)" and "parentLoop w p \<noteq> None"
  then obtain r where "parentLoop w p = Some r" by auto
  then have "unat w < 2 ^ Suc h \<longrightarrow> 2 ^ Suc h \<le> Suc (unat p) \<longrightarrow> False"
  proof (rule parentLoop.raw_induct
      [of "\<lambda>w p r. unat w < 2 ^ Suc h \<longrightarrow> 2 ^ Suc h \<le> Suc (unat p) \<longrightarrow> False", rotated])
    fix f :: "u32 \<Rightarrow> u32 \<Rightarrow> u32 option" and w p r
    assume IH: "\<And>w p r. f w p = Some r \<Longrightarrow>
        unat w < 2 ^ Suc h \<longrightarrow> 2 ^ Suc h \<le> Suc (unat p) \<longrightarrow> False"
      and e: "(if p \<ge> w then f w (parentStep p) else Some p) = Some r"
    show "unat w < 2 ^ Suc h \<longrightarrow> 2 ^ Suc h \<le> Suc (unat p) \<longrightarrow> False"
    proof (intro impI)
      assume w: "unat w < 2 ^ Suc h" and "2 ^ Suc h \<le> Suc (unat p)"
      then have "w \<le> p" "2 ^ Suc h \<le> Suc (unat (parentStep p))"
        using parentStep_outside assms(2) by (simp_all add: word_le_nat_alt)
      with e IH w show False by simp
    qed
  qed
  with assms(1) p show False by simp
qed

text \<open>The ratchet tree always has a power of two leaves: there the climb ends exactly for
  the indices inside the tree.\<close>

lemma full_count:
  assumes "unat n = 2 ^ h" "h \<le> 31"
  shows "validCount n" "unat (NodeWidth n) = 2 ^ Suc h - 1" "rootLevel n = h"
proof -
  have "(2 :: nat) ^ h \<le> 2 ^ 31" using assms(2) by (intro power_increasing) auto
  then show v: "validCount n" using assms(1) by (simp add: validCount_def)
  show w: "unat (NodeWidth n) = 2 ^ Suc h - 1"
    using NodeWidth_nat [OF v] assms(1) by simp
  have one: "(1 :: nat) \<le> 2 ^ h" by simp
  then have "unat (NodeWidth n) < 2 ^ Suc h" using w by simp
  then have "2 ^ rootLevel n < (2 :: nat) ^ Suc h"
    using width_bounds(1) [OF v] by (rule le_less_trans [rotated])
  then have "rootLevel n < Suc h" by (simp only: power_strict_increasing_iff)
  moreover have "2 ^ h \<le> unat (NodeWidth n)" using w one by simp
  then have "(2 :: nat) ^ h < 2 ^ Suc (rootLevel n)"
    using width_bounds(2) [OF v] by (rule le_less_trans)
  then have "h < Suc (rootLevel n)" by (simp only: power_strict_increasing_iff)
  ultimately show "rootLevel n = h" by simp
qed

lemma Parent_outside:
  assumes "unat n = 2 ^ h" "h \<le> 31" "NodeWidth n \<le> x"
  shows "Parent x n = Inl NoReturn"
proof -
  note f = full_count [OF assms(1,2)]
  have "Suc (unat (NodeWidth n)) = 2 ^ Suc h" using f(2) by simp
  then have "2 ^ Suc h \<le> Suc (unat x)" using assms(3) by (simp add: word_le_nat_alt)
  then have "parentLoop (NodeWidth n) (parentStep x) = None"
    using parentStep_outside [OF _ assms(2)] parentLoop_outside [OF _ assms(2)] f(2) by simp
  moreover have "x \<noteq> Root n"
    using root_in_tree [OF f(1)] Root_nat [OF f(1)] assms(3) by (auto simp: word_le_nat_alt)
  ultimately show ?thesis by (simp add: Parent_def)
qed

section \<open>Properties\<close>

text \<open>the two children of an inner node.  In a tree of any admissible number of leaves,
  an index of the tree above the leaf level has its left child to the left and
  its right child to the right, both inside the tree, and \<^verbatim>\<open>Parent\<close> leads back from
  either.\<close>

theorem children_have_parent:
  assumes "validCount n" "p < NodeWidth n" "0 < level p"
  shows "\<exists>l r. Left p = (l, True) \<and> Right p n = Ok (r, True) \<and> l < p \<and> p < r \<and> r < NodeWidth n \<and>
    Parent l n = Ok (p, True) \<and> Parent r n = Ok (p, True)"
proof -
  obtain k q where p: "unat p = node (Suc k) q" using internal_coord [OF assms(3)] by auto
  obtain r where r: "Right p n = Ok (r, True)" "r < NodeWidth n" "p < r"
    using Right_exists [OF assms(1,2) p] by metis
  show ?thesis
    using Left_coord [OF p] Left_in_tree [OF p assms(2)] Parent_Left [OF assms(1,2) p]
      Parent_Right [OF assms(1,2) p r(1)] r
    by (intro exI [of _ "fst (Left p)"] exI [of _ r]) auto
qed

lemma small_widths:
  "NodeWidth 3 = 5" "NodeWidth 1 = 1" "Root 3 = 3" "validCount 3" "level 3 = 2" "NodeWidth 8 = 15"
  by (simp_all add: NodeWidth_def Root_def log2_def Len32_def lenNat.simps validCount_def level_def
      levelLoop.simps)

theorem children_have_parent_witness:
  "\<exists>l r. Left 3 = (l, True) \<and> Right 3 3 = Ok (r, True) \<and> l < 3 \<and> 3 < r \<and> r < NodeWidth 3 \<and>
    Parent l 3 = Ok (3, True) \<and> Parent r 3 = Ok (3, True)"
  using children_have_parent [of 3 3] by (simp add: small_widths)

text \<open>parents and siblings.  For every index of the tree other than the root,
  \<^verbatim>\<open>Parent\<close> returns, the index is one of the two children of the node returned,
  \<^verbatim>\<open>Sibling\<close> returns the other child, and the sibling of the sibling is the index
  itself.\<close>

theorem parent_and_sibling:
  assumes "validCount n" "x < NodeWidth n" "x \<noteq> Root n"
  shows "\<exists>p s r. Parent x n = Ok (p, True) \<and> p < NodeWidth n \<and> level x < level p \<and>
    Right p n = Ok (r, True) \<and> {x, s} = {fst (Left p), r} \<and> x \<noteq> s \<and>
    Sibling x n = Ok (s, True) \<and> Sibling s n = Ok (x, True)"
proof -
  obtain k q where x: "unat x = node k q" by (rule coord_exists)
  obtain p where p: "Parent x n = Ok (p, True)"
    using Parent_exists [OF assms x] by metis
  obtain s where s: "Sibling x n = Ok (s, True)" "s < NodeWidth n" "s \<noteq> x" "s \<noteq> Root n"
    "Parent s n = Ok (p, True)" and c: "s = fst (Left p) \<and> Right p n = Ok (x, True) \<or>
      x = fst (Left p) \<and> Right p n = Ok (s, True)"
    using Sibling_spec [OF assms p] by auto
  have "Sibling s n = Ok (x, True)"
    using Sibling_spec [OF assms(1) s(2,4,5)] c s(3) by auto
  with p s c Parent_child [OF assms p] show ?thesis by auto
qed

theorem parent_and_sibling_witness:
  "\<exists>p s r. Parent 4 3 = Ok (p, True) \<and> p < NodeWidth 3 \<and> level 4 < level p \<and>
    Right p 3 = Ok (r, True) \<and> {4, s} = {fst (Left p), r} \<and> 4 \<noteq> s \<and>
    Sibling 4 3 = Ok (s, True) \<and> Sibling s 3 = Ok (4, True)"
  using parent_and_sibling [of 3 4] by (simp add: small_widths)

text \<open>C27: where \<^verbatim>\<open>Parent\<close> returns at all.  In a full tree an index other than the root has
  a parent exactly when it lies inside the tree; on every other index the climb
  of \<^verbatim>\<open>Parent\<close> is never left.\<close>

theorem parent_returns_iff_inside:
  assumes "unat n = 2 ^ h" "h \<le> 31" "x \<noteq> Root n"
  shows "(if x < NodeWidth n then \<exists>p. Parent x n = Ok (p, True) else Parent x n = Inl NoReturn)"
proof (cases "x < NodeWidth n")
  case True
  obtain k q where x: "unat x = node k q" by (rule coord_exists)
  show ?thesis
    using True Parent_exists [OF full_count(1) [OF assms(1,2)] True assms(3) x] by metis
next
  case False
  then show ?thesis using Parent_outside [OF assms(1,2)] by simp
qed

theorem parent_returns_iff_inside_witness: "Parent 2 1 = Inl NoReturn"
  using parent_returns_iff_inside [of 1 0 2]
  by (simp add: small_widths Root_def log2_def Len32_def lenNat.simps)

end
