(* ===== verification/Wire.thy ===== *)
theory Wire
  imports Prelude
begin

text \<open>
  The presentation language of \<^verbatim>\<open>src/mls/syntax\<close>: variable-length integers
  and opaque vectors (\<^verbatim>\<open>varint.go\<close>), the append-only \<^verbatim>\<open>Builder\<close> and the
  front-to-back \<^verbatim>\<open>Cursor\<close> (\<^verbatim>\<open>codec.go\<close>), vectors and optionals
  (\<^verbatim>\<open>vector.go\<close>).  A builder is its buffer and a cursor its unread bytes; a
  method returns the new buffer.  The locale \<open>codec\<close> states what every wire
  structure of the program owes its callers: encoding appends, decoding inverts
  encoding and accepts nothing but encodings.
\<close>

unbundle bit_operations_syntax

section \<open>Variable-length integers\<close>

definition MaxVarint :: u64 where
  "MaxVarint = push_bit 30 1 - 1"

definition WriteVarint :: "u64 \<Rightarrow> bytes res" where
  "WriteVarint v =
    (if v < push_bit 6 1 then Ok [ucast v]
     else if v < push_bit 14 1 then Ok [0x40 OR ucast (drop_bit 8 v), ucast v]
     else if v \<le> MaxVarint then
       Ok [0x80 OR ucast (drop_bit 24 v), ucast (drop_bit 16 v), ucast (drop_bit 8 v), ucast v]
     else Err ''syntax: varint exceeds max'')"

definition ReadVarint :: "bytes \<Rightarrow> (u64 \<times> nat) res" where
  "ReadVarint b =
    (case b of [] \<Rightarrow> Err ''syntax: empty varint''
     | b0 # _ \<Rightarrow>
       (let prefix = drop_bit 6 b0 in
        if prefix = 3 then Err ''syntax: 8-byte varint not allowed in MLS''
        else
          let len = push_bit (unat prefix) (1 :: nat) in
          if length b < len then Err ''syntax: short varint''
          else
            let v = foldl (\<lambda>v i. push_bit 8 v OR ucast (b ! i)) (ucast (b0 AND 0x3f)) [1..<len] in
            (case WriteVarint v of
               Inr canon \<Rightarrow>
                 if length canon \<noteq> len then Err ''syntax: non-minimal varint encoding''
                 else Ok (v, len)
             | Inl _ \<Rightarrow>
                 \<comment> \<open>the error is discarded and the canonical form is nil\<close>
                 if 0 \<noteq> len then Err ''syntax: non-minimal varint encoding''
                 else Ok (v, len))))"

definition WriteOpaqueV :: "bytes \<Rightarrow> bytes res" where
  "WriteOpaqueV b = bindR (goLen b) (\<lambda>n. bindR (WriteVarint n) (\<lambda>hdr. Ok (hdr @ b)))"

definition ReadOpaqueV :: "bytes \<Rightarrow> (bytes \<times> nat) res" where
  "ReadOpaqueV b = bindR (ReadVarint b) (\<lambda>(n, hdrLen).
     let total = hdrLen + unat n in
     if length b < total then Err ''syntax: short opaque<V>''
     else Ok (drop hdrLen (take total b), total))"

section \<open>Builder\<close>

type_synonym builder = bytes

definition NewBuilder :: builder where
  "NewBuilder = []"

definition be16 :: "u16 \<Rightarrow> bytes" where
  "be16 v = [ucast (drop_bit 8 v), ucast v]"

definition be32 :: "u32 \<Rightarrow> bytes" where
  "be32 v = [ucast (drop_bit 24 v), ucast (drop_bit 16 v), ucast (drop_bit 8 v), ucast v]"

definition be64 :: "u64 \<Rightarrow> bytes" where
  "be64 v =
    [ucast (drop_bit 56 v), ucast (drop_bit 48 v), ucast (drop_bit 40 v), ucast (drop_bit 32 v),
     ucast (drop_bit 24 v), ucast (drop_bit 16 v), ucast (drop_bit 8 v), ucast v]"

text \<open>The fixed-width writers cannot fail; they return \<^const>\<open>Inr\<close> so that an encoder
  is one chain of \<^const>\<open>bindR\<close>.\<close>

definition WriteUint8 :: "byte \<Rightarrow> builder \<Rightarrow> builder res" where
  "WriteUint8 v b = Ok (b @ [v])"

definition WriteUint16 :: "u16 \<Rightarrow> builder \<Rightarrow> builder res" where
  "WriteUint16 v b = Ok (b @ be16 v)"

definition WriteUint32 :: "u32 \<Rightarrow> builder \<Rightarrow> builder res" where
  "WriteUint32 v b = Ok (b @ be32 v)"

definition WriteUint64 :: "u64 \<Rightarrow> builder \<Rightarrow> builder res" where
  "WriteUint64 v b = Ok (b @ be64 v)"

definition WriteRaw :: "bytes \<Rightarrow> builder \<Rightarrow> builder res" where
  "WriteRaw p b = Ok (b @ p)"

definition Builder_WriteVarint :: "u64 \<Rightarrow> builder \<Rightarrow> builder res" where
  "Builder_WriteVarint v b = bindR (WriteVarint v) (\<lambda>enc. Ok (b @ enc))"

definition Builder_WriteOpaqueV :: "bytes \<Rightarrow> builder \<Rightarrow> builder res" where
  "Builder_WriteOpaqueV p b =
    bindR (goLen p) (\<lambda>n. bindR (Builder_WriteVarint n b) (\<lambda>b. Ok (b @ p)))"

section \<open>Cursor\<close>

type_synonym cursor = bytes

definition take_c :: "int \<Rightarrow> cursor \<Rightarrow> (bytes \<times> cursor) res" where
  "take_c n c =
    (if n < 0 \<or> int (length c) < n then Err ''syntax: short read''
     else Ok (take (nat n) c, drop (nat n) c))"

definition unbe16 :: "bytes \<Rightarrow> u16" where
  "unbe16 p = push_bit 8 (ucast (p ! 0)) OR ucast (p ! 1)"

definition unbe32 :: "bytes \<Rightarrow> u32" where
  "unbe32 p = push_bit 24 (ucast (p ! 0)) OR push_bit 16 (ucast (p ! 1))
     OR push_bit 8 (ucast (p ! 2)) OR ucast (p ! 3)"

definition unbe64 :: "bytes \<Rightarrow> u64" where
  "unbe64 p = push_bit 56 (ucast (p ! 0)) OR push_bit 48 (ucast (p ! 1))
     OR push_bit 40 (ucast (p ! 2)) OR push_bit 32 (ucast (p ! 3))
     OR push_bit 24 (ucast (p ! 4)) OR push_bit 16 (ucast (p ! 5))
     OR push_bit 8 (ucast (p ! 6)) OR ucast (p ! 7)"

definition ReadUint8 :: "cursor \<Rightarrow> (byte \<times> cursor) res" where
  "ReadUint8 c = bindR (take_c 1 c) (\<lambda>(p, c). Ok (p ! 0, c))"

definition ReadUint16 :: "cursor \<Rightarrow> (u16 \<times> cursor) res" where
  "ReadUint16 c = bindR (take_c 2 c) (\<lambda>(p, c). Ok (unbe16 p, c))"

definition ReadUint32 :: "cursor \<Rightarrow> (u32 \<times> cursor) res" where
  "ReadUint32 c = bindR (take_c 4 c) (\<lambda>(p, c). Ok (unbe32 p, c))"

definition ReadUint64 :: "cursor \<Rightarrow> (u64 \<times> cursor) res" where
  "ReadUint64 c = bindR (take_c 8 c) (\<lambda>(p, c). Ok (unbe64 p, c))"

definition ReadRaw :: "int \<Rightarrow> cursor \<Rightarrow> (bytes \<times> cursor) res" where
  "ReadRaw n c = take_c n c"

definition Cursor_ReadVarint :: "cursor \<Rightarrow> (u64 \<times> cursor) res" where
  "Cursor_ReadVarint c = bindR (ReadVarint c) (\<lambda>(v, n). Ok (v, drop n c))"

definition Cursor_ReadOpaqueV :: "cursor \<Rightarrow> (bytes \<times> cursor) res" where
  "Cursor_ReadOpaqueV c = bindR (Cursor_ReadVarint c) (\<lambda>(n, c). take_c (sint n) c)"

section \<open>Vectors and optionals\<close>

primrec encodeItems :: "('a \<Rightarrow> builder \<Rightarrow> builder res) \<Rightarrow> 'a list \<Rightarrow> builder \<Rightarrow> builder res" where
  "encodeItems enc [] inner = Ok inner"
| "encodeItems enc (it # items) inner = bindR (enc it inner) (\<lambda>inner. encodeItems enc items inner)"

definition WriteVectorV ::
  "('a \<Rightarrow> builder \<Rightarrow> builder res) \<Rightarrow> 'a list \<Rightarrow> builder \<Rightarrow> builder res" where
  "WriteVectorV enc items b =
    bindR (encodeItems enc items NewBuilder) (\<lambda>inner. Builder_WriteOpaqueV inner b)"

text \<open>The decoding loop runs until the body is exhausted.  A decoder that succeeds
  without consuming anything would never leave the loop.\<close>

function decodeItems :: "(cursor \<Rightarrow> ('a \<times> cursor) res) \<Rightarrow> cursor \<Rightarrow> 'a list res" where
  "decodeItems dec sub =
    (if sub = [] then Ok []
     else bindR (dec sub) (\<lambda>(v, sub').
       if length sub' < length sub
       then bindR (decodeItems dec sub') (\<lambda>out. Ok (v # out))
       else Inl NoReturn))"
  by pat_completeness auto
termination
  by (relation "measure (\<lambda>(dec, sub). length sub)") auto

declare decodeItems.simps [simp del]

definition ReadVectorV ::
  "(cursor \<Rightarrow> ('a \<times> cursor) res) \<Rightarrow> cursor \<Rightarrow> ('a list \<times> cursor) res" where
  "ReadVectorV dec c =
    bindR (Cursor_ReadOpaqueV c) (\<lambda>(body, c).
      bindR (decodeItems dec body) (\<lambda>out. Ok (out, c)))"

definition WriteOptional ::
  "('a \<Rightarrow> builder \<Rightarrow> builder res) \<Rightarrow> 'a option \<Rightarrow> builder \<Rightarrow> builder res" where
  "WriteOptional enc v b =
    (case v of
       None \<Rightarrow> WriteUint8 0 b
     | Some x \<Rightarrow> bindR (WriteUint8 1 b) (\<lambda>b. enc x b))"

definition ReadOptional ::
  "(cursor \<Rightarrow> ('a \<times> cursor) res) \<Rightarrow> cursor \<Rightarrow> ('a option \<times> cursor) res" where
  "ReadOptional dec c =
    bindR (ReadUint8 c) (\<lambda>(present, c).
      if present = 0 then Ok (None, c)
      else if present = 1 then bindR (dec c) (\<lambda>(v, c). Ok (Some v, c))
      else Err ''syntax: invalid optional presence byte'')"

section \<open>The primitive encodings are exact\<close>

lemma mask6: "(0x3f :: byte) = mask 6"
  by (simp add: mask_eq_exp_minus_1)

lemma MaxVarint_less: "v \<le> MaxVarint \<longleftrightarrow> v < push_bit 30 1"
  by (simp add: MaxVarint_def word_le_nat_alt word_less_nat_alt) arith

lemma bit_0x40: "bit (0x40 :: int) i \<longleftrightarrow> i = 6"
  using bit_push_bit_iff [of 6 "1 :: int" i] by (auto simp: bit_1_iff)

lemma bit_0x80: "bit (0x80 :: int) i \<longleftrightarrow> i = 7"
  using bit_push_bit_iff [of 7 "1 :: int" i] by (auto simp: bit_1_iff)

lemmas varint_bits = byte_bit_high bit_0x40 bit_0x80 word_less_iff_bits byte_eq_iff bit_simps mask6 MaxVarint_less

lemma ReadVarint_append:
  assumes "WriteVarint v = Inr w"
  shows "ReadVarint (w @ rest) = Inr (v, length w)"
proof -
  consider (one) "v < push_bit 6 1" "w = [ucast v]"
    | (two) "\<not> v < push_bit 6 1" "v < push_bit 14 1" 
        "w = [0x40 OR ucast (drop_bit 8 v), ucast v]"
    | (four) "\<not> v < push_bit 14 1" "v < push_bit 30 1"
        "w = [0x80 OR ucast (drop_bit 24 v), ucast (drop_bit 16 v), ucast (drop_bit 8 v), ucast v]"
    using assms unfolding WriteVarint_def MaxVarint_less
    by (metis Inl_Inr_False Inr_inject)
  then show ?thesis
  proof cases
    case one
    have p: "drop_bit 6 (ucast v :: byte) = 0"
      using one(1) by (simp add: varint_bits del: push_bit_of_1) auto
    have r: "ucast ((ucast v :: byte) AND 0x3f) = v"
      using one(1) by (intro bit_word_eqI) (auto simp: varint_bits simp del: push_bit_of_1)
    show ?thesis
      using assms p r by (simp add: ReadVarint_def one(2))
  next
    case two
    have p: "drop_bit 6 (0x40 OR ucast (drop_bit 8 v) :: byte) = 1"
      using two(2) by (simp add: varint_bits del: push_bit_of_1) auto
    have r: "push_bit 8 (ucast ((0x40 OR ucast (drop_bit 8 v) :: byte) AND 0x3f)) OR ucast (ucast v :: byte) = v"
      using two(2) by (intro bit_word_eqI) (auto simp: varint_bits simp del: push_bit_of_1)
    show ?thesis
      using assms p r by (simp add: ReadVarint_def two(3) upt_rec)
  next
    case four
    have p: "drop_bit 6 (0x80 OR ucast (drop_bit 24 v) :: byte) = 2"
      using four(2) by (simp add: varint_bits del: push_bit_of_1) auto
    have r: "push_bit 8 (push_bit 8 (push_bit 8 (ucast ((0x80 OR ucast (drop_bit 24 v) :: byte) AND 0x3f))
        OR ucast (ucast (drop_bit 16 v) :: byte)) OR ucast (ucast (drop_bit 8 v) :: byte)) OR ucast (ucast v :: byte) = v"
      (is "?l = v")
    proof (rule bit_word_eqI)
      fix n
      assume "n < LENGTH(64)"
      show "bit ?l n = bit v n"
        using four(2) by (cases "16 \<le> n") (auto simp: varint_bits simp del: push_bit_of_1)
    qed
    show ?thesis
      using assms p r by (simp add: ReadVarint_def four(3) upt_rec)
  qed
qed

lemma WriteVarint_form:
  assumes "WriteVarint v = Inr w"
  shows "length w = 1 \<Longrightarrow> w = [ucast v]"
    and "length w = 2 \<Longrightarrow> w = [0x40 OR ucast (drop_bit 8 v), ucast v]"
    and "length w = 4 \<Longrightarrow>
      w = [0x80 OR ucast (drop_bit 24 v), ucast (drop_bit 16 v), ucast (drop_bit 8 v), ucast v]"
  using assms by (auto simp: WriteVarint_def split: if_splits)

lemma ReadVarint_canonical:
  assumes "ReadVarint b = Inr (v, n)"
  shows "n \<le> length b \<and> WriteVarint v = Inr (take n b)"
proof -
  obtain b0 bs where b: "b = b0 # bs"
    using assms by (cases b) (auto simp: ReadVarint_def)
  define p where "p = drop_bit 6 b0"
  have "unat p < 4"
    using unat_byte_less [of b0] by (simp add: p_def unat_drop_bit_eq drop_bit_eq_div [of 6 "unat b0"])
  then have "unat p = 0 \<or> unat p = 1 \<or> unat p = 2 \<or> unat p = 3" by arith
  then have pc: "p = 0 \<or> p = 1 \<or> p = 2 \<or> p = 3"
    by (simp add: word_unat_eq_iff)
  from assms have rd: "p \<noteq> 3" "n = push_bit (unat p) 1" "n \<le> length b"
      "v = foldl (\<lambda>v i. push_bit 8 v OR ucast (b ! i)) (ucast (b0 AND 0x3f)) [1..<n]"
    and w: "\<exists>w. WriteVarint v = Inr w \<and> length w = n"
    by (auto simp: ReadVarint_def b p_def Let_def split: if_splits sum.splits)
  from w obtain w where w: "WriteVarint v = Inr w" "length w = n" by auto
  have "w = take n b"
    using pc
  proof (elim disjE)
    assume p: "p = 0"
    then have "v = ucast (b0 AND 0x3f)" "w = [ucast v]"
      using rd WriteVarint_form(1) [OF w(1)] w(2) by simp_all
    with p show ?thesis 
      by (simp add: b p_def rd) (simp add: varint_bits)
  next
    assume p: "p = 1"
    then have n: "n = 2" using rd by simp
    have "w = [0x40 OR ucast (drop_bit 8 v), ucast v]"
      using WriteVarint_form(2) [OF w(1)] w(2) n by simp
    moreover obtain b1 bs' where "bs = b1 # bs'"
      using rd(3) n b by (cases bs) auto
    moreover from this have "v = push_bit 8 (ucast (b0 AND 0x3f)) OR ucast b1"
      using rd(4) unfolding n b by (simp add: upt_rec)
    moreover have "bit b0 6" "\<not> bit b0 7"
      using p by (simp_all add: p_def byte_eq_iff bit_simps)
    ultimately show ?thesis
      by (simp add: b n) (simp add: varint_bits)
  next
    assume p: "p = 2"
    then have n: "n = 4" using rd by simp
    have "w = [0x80 OR ucast (drop_bit 24 v), ucast (drop_bit 16 v), ucast (drop_bit 8 v), ucast v]"
      using WriteVarint_form(3) [OF w(1)] w(2) n by simp
    moreover obtain b1 b2 b3 bs' where "bs = b1 # b2 # b3 # bs'"
      using rd(3) n b by (auto simp: Suc_le_length_iff numeral_eq_Suc)
    moreover from this have "v = push_bit 8 (push_bit 8 (push_bit 8 (ucast (b0 AND 0x3f)) OR ucast b1)
        OR ucast b2) OR ucast b3"
      using rd(4) unfolding n b by (simp add: upt_rec)
    moreover have "bit b0 7" "\<not> bit b0 6"
      using p by (simp_all add: p_def byte_eq_iff bit_simps)
    ultimately show ?thesis
      by (simp add: b n) (simp add: varint_bits)
  qed (use rd in simp)
  with w rd show ?thesis by simp
qed

lemma unbe16_be16 [simp]: "unbe16 (be16 v) = v"
  by (rule bit_word_eqI)
    (simp add: unbe16_def be16_def bit_or_iff bit_octet bit_octet0; arith)

lemma be16_unbe16: "length p = 2 \<Longrightarrow> be16 (unbe16 p) = p"
proof -
  assume "length p = 2"
  then obtain p0 p1 where "p = [p0, p1]"
    by (auto simp: length_Suc_conv numeral_eq_Suc)
  then show ?thesis
    by (simp add: unbe16_def be16_def) (simp add: byte_eq_iff bit_simps byte_bit_high)
qed

lemma unbe32_be32 [simp]: "unbe32 (be32 v) = v"
  by (rule bit_word_eqI)
    (simp add: unbe32_def be32_def bit_or_iff bit_octet bit_octet0; arith)

lemma be32_unbe32: "length p = 4 \<Longrightarrow> be32 (unbe32 p) = p"
proof -
  assume "length p = 4"
  then obtain p0 p1 p2 p3 where "p = [p0, p1, p2, p3]"
    by (auto simp: length_Suc_conv numeral_eq_Suc)
  then show ?thesis
    by (simp add: unbe32_def be32_def) (simp add: byte_eq_iff bit_simps byte_bit_high)
qed

lemma unbe64_be64 [simp]: "unbe64 (be64 v) = v"
  by (rule bit_word_eqI)
    (simp add: unbe64_def be64_def bit_or_iff bit_octet bit_octet0; arith)

lemma be64_unbe64: "length p = 8 \<Longrightarrow> be64 (unbe64 p) = p"
proof -
  assume "length p = 8"
  then obtain p0 p1 p2 p3 p4 p5 p6 p7 where "p = [p0, p1, p2, p3, p4, p5, p6, p7]"
    by (auto simp: length_Suc_conv numeral_eq_Suc)
  then show ?thesis
    by (simp add: unbe64_def be64_def) (simp add: byte_eq_iff bit_simps byte_bit_high)
qed


text \<open>Short strings have a one-byte header.\<close>

lemma WriteVarint_short: "n < 64 \<Longrightarrow> WriteVarint (of_nat n) = Ok [of_nat n]"
  by (simp add: WriteVarint_def word_less_nat_alt word_unat_eq_iff unsigned_ucast_eq unsigned_of_nat
      take_bit_nat_eq_self)

lemma WriteOpaqueV_short: "length b < 64 \<Longrightarrow> WriteOpaqueV b = Ok (of_nat (length b) # b)"
  by (simp add: WriteOpaqueV_def goLen_def WriteVarint_short)

lemma Builder_WriteOpaqueV_short:
  "length b < 64 \<Longrightarrow> Builder_WriteOpaqueV b out = Ok (out @ of_nat (length b) # b)"
  by (simp add: Builder_WriteOpaqueV_def Builder_WriteVarint_def goLen_def WriteVarint_short)

lemmas short_strings = WriteVarint_short WriteOpaqueV_short Builder_WriteOpaqueV_short

end
