(* ===== verification/Codec.thy ===== *)
theory Codec
  imports Wire
begin

text \<open>
  The contract of a wire structure.  An encoder is \<open>framed\<close> when it appends the
  same output to every buffer (or fails on every buffer).  The locale \<open>codec\<close>
  collects an encoder, its decoder and the values the pair is meant for, with
  the two inversion laws; \<open>codec_elem\<close> adds that no encoding is empty, which
  is what the loop of \<^verbatim>\<open>ReadVectorV\<close> needs to end.  Vectors and optionals
  of a codec are codecs again, and the primitives of \<^verbatim>\<open>src/mls/syntax/codec.go\<close>
  are the first instances.
\<close>

section \<open>Encoders that append\<close>

definition emits :: "(builder \<Rightarrow> builder res) \<Rightarrow> bytes \<Rightarrow> bool" where
  "emits e out \<longleftrightarrow> (\<forall>b. e b = Ok (b @ out))"

definition framed :: "(builder \<Rightarrow> builder res) \<Rightarrow> bool" where
  "framed e \<longleftrightarrow> (\<exists>out. emits e out) \<or> (\<exists>f. \<forall>b. e b = Inl f)"

text \<open>\<open>reads e c c'\<close>: the bytes of \<open>c\<close> up to \<open>c'\<close> are what \<open>e\<close> appends.\<close>

definition reads :: "(builder \<Rightarrow> builder res) \<Rightarrow> cursor \<Rightarrow> cursor \<Rightarrow> bool" where
  "reads e c c' \<longleftrightarrow> (\<exists>out. emits e out \<and> c = out @ c')"

named_theorems framed_intros \<open>encoders that append\<close>
named_theorems reads_simps \<open>reading back a sequence of writes\<close>
named_theorems codec_iff \<open>a decoder accepts exactly the encodings\<close>
named_theorems codec_dec \<open>running a decoder on an encoding\<close>

lemma framed_emitsI [framed_intros]: "framed (\<lambda>b. Ok (b @ out))"
  by (auto simp: framed_def emits_def)

lemma framed_id [framed_intros]: "framed Inr"
  using framed_emitsI [of "[]"] by simp

lemma framed_fail [framed_intros]: "framed (\<lambda>b. Inl f)"
  by (auto simp: framed_def emits_def)

lemma framed_bind [framed_intros]:
  assumes "framed e1" and "framed e2"
  shows "framed (\<lambda>b. bindR (e1 b) e2)"
  using assms by (fastforce simp: framed_def emits_def)

lemma framed_bind_pure [framed_intros]:
  "(\<And>x. framed (e2 x)) \<Longrightarrow> framed (\<lambda>b. bindR r (\<lambda>x. e2 x b))"
  by (cases r) (auto simp: framed_def emits_def)

lemma framed_if [framed_intros]:
  "framed e1 \<Longrightarrow> framed e2 \<Longrightarrow> framed (\<lambda>b. if c then e1 b else e2 b)"
  by (cases c) simp_all

lemma emits_unique: "emits e o1 \<Longrightarrow> emits e o2 \<Longrightarrow> o1 = o2"
  by (auto simp: emits_def)

lemma framed_emits_iff: "framed e \<Longrightarrow> emits e out \<longleftrightarrow> e b = Ok (b @ out)"
  by (auto simp: framed_def emits_def)

lemma emits_Ok_iff: "emits (\<lambda>b. Ok (b @ w)) out \<longleftrightarrow> out = w"
  by (auto simp: emits_def)

lemma emits_id_iff: "emits Inr out \<longleftrightarrow> out = []"
  by (auto simp: emits_def)

lemma emits_fail_iff: "emits (\<lambda>b. Inl f) out \<longleftrightarrow> False"
  by (auto simp: emits_def)

lemma emits_bind_iff:
  assumes "framed e1" and "framed e2"
  shows "emits (\<lambda>b. bindR (e1 b) e2) out \<longleftrightarrow>
    (\<exists>o1 o2. out = o1 @ o2 \<and> emits e1 o1 \<and> emits e2 o2)"
  using assms by (fastforce simp: framed_def emits_def)

lemma emits_bindI:
  "emits e1 o1 \<Longrightarrow> emits e2 o2 \<Longrightarrow> emits (\<lambda>b. bindR (e1 b) e2) (o1 @ o2)"
  by (simp add: emits_def)

lemma emits_bind_pure_iff:
  "emits (\<lambda>b. bindR r (\<lambda>x. e2 x b)) out \<longleftrightarrow> (\<exists>x. r = Inr x \<and> emits (e2 x) out)"
  by (cases r) (auto simp: emits_def)

lemma emits_head_nonempty:
  "framed e1 \<Longrightarrow> framed e2 \<Longrightarrow> emits (\<lambda>b. bindR (e1 b) e2) out \<Longrightarrow>
    (\<And>o1. emits e1 o1 \<Longrightarrow> o1 \<noteq> []) \<Longrightarrow> out \<noteq> []"
  by (auto simp: emits_bind_iff)

lemma reads_bind [reads_simps]:
  assumes "framed e1" and "framed e2"
  shows "reads (\<lambda>b. bindR (e1 b) e2) c c'' \<longleftrightarrow> (\<exists>c'. reads e1 c c' \<and> reads e2 c' c'')"
  using assms by (simp add: reads_def emits_bind_iff) (metis append.assoc)

lemma reads_id [reads_simps]: "reads Inr c c' \<longleftrightarrow> c' = c"
  by (auto simp: reads_def emits_id_iff)

lemma reads_fail [reads_simps]: "\<not> reads (\<lambda>b. Inl f) c c'"
  by (auto simp: reads_def emits_fail_iff)

lemma reads_if [reads_simps]:
  "reads (\<lambda>b. if p then e1 b else e2 b) c c' \<longleftrightarrow> (if p then reads e1 c c' else reads e2 c c')"
  by simp

lemma reads_bind_pure [reads_simps]:
  "reads (\<lambda>b. bindR r (\<lambda>x. e2 x b)) c c' \<longleftrightarrow> (\<exists>x. r = Inr x \<and> reads (e2 x) c c')"
  by (auto simp: reads_def emits_bind_pure_iff)

lemmas variant_simps = conj_disj_distribL conj_disj_distribR ex_disj_distrib

lemma reads_det: "reads e c c1 \<Longrightarrow> reads e c c2 \<Longrightarrow> c1 = c2"
  using emits_unique by (fastforce simp: reads_def)

lemma encodeItems_Nil: "encodeItems enc [] = Inr"
  by (rule ext) simp

lemma encodeItems_Cons:
  "encodeItems enc (x # xs) = (\<lambda>b. bindR (enc x b) (encodeItems enc xs))"
  by (rule ext) simp

section \<open>Opaque vectors\<close>

lemma WriteVarint_bound: "WriteVarint n = Inr h \<Longrightarrow> unat n < 2 ^ 30"
  by (auto simp: WriteVarint_def MaxVarint_def word_less_nat_alt word_le_nat_alt split: if_splits)

lemma WriteVarint_nonempty: "WriteVarint n = Inr h \<Longrightarrow> h \<noteq> []"
  by (auto simp: WriteVarint_def split: if_splits)

lemma sint_small:
  assumes "unat (n :: u64) < 2 ^ 30"
  shows "sint n = int (unat n)"
proof -
  have "uint n < 2 ^ 30"
    using assms of_nat_less_iff [of "unat n" "2 ^ 30", where 'a = int]
    by (simp only: uint_nat of_nat_power of_nat_numeral)
  then show ?thesis
    unfolding sint_uint uint_nat [symmetric]
    by (subst signed_take_bit_int_eq_self) (auto intro: order_trans [OF _ uint_ge_0])
qed

lemma opaque_emits_iff:
  "emits (Builder_WriteOpaqueV p) out \<longleftrightarrow>
    length p < 2 ^ 63 \<and> (\<exists>h. WriteVarint (of_nat (length p)) = Inr h \<and> out = h @ p)"
  by (auto simp: emits_def Builder_WriteOpaqueV_def Builder_WriteVarint_def goLen_def
      bindR_Inr_iff)

lemma opaque_length: "emits (Builder_WriteOpaqueV p) out \<Longrightarrow> length p < 2 ^ 30"
  using WriteVarint_bound [of "of_nat (length p)"]
  by (auto simp: opaque_emits_iff unsigned_of_nat take_bit_nat_eq_self)

lemma opaque_frame [framed_intros]: "framed (Builder_WriteOpaqueV p)"
  by (cases "WriteVarint (of_nat (length p))")
    (auto simp: framed_def emits_def Builder_WriteOpaqueV_def Builder_WriteVarint_def goLen_def)

lemma opaque_read_written:
  assumes "emits (Builder_WriteOpaqueV p) out"
  shows "Cursor_ReadOpaqueV (out @ rest) = Ok (p, rest)"
proof -
  obtain h where h: "length p < 2 ^ 63" "WriteVarint (of_nat (length p)) = Inr h" "out = h @ p"
    using assms by (auto simp: opaque_emits_iff)
  have u: "unat (of_nat (length p) :: u64) = length p"
    using h(1) by (simp add: unsigned_of_nat take_bit_nat_eq_self_iff)
  have "sint (of_nat (length p) :: u64) = int (length p)"
    using sint_small WriteVarint_bound [OF h(2)] u by metis
  then show ?thesis
    using ReadVarint_append [OF h(2), of "p @ rest"] h(3)
    by (simp add: Cursor_ReadOpaqueV_def Cursor_ReadVarint_def take_c_def)
qed

lemma opaque_written_read:
  assumes "Cursor_ReadOpaqueV c = Ok (p, rest)"
  shows "\<exists>out. emits (Builder_WriteOpaqueV p) out \<and> c = out @ rest"
proof -
  obtain n k where nk: "ReadVarint c = Ok (n, k)" "take_c (sint n) (drop k c) = Ok (p, rest)"
    using assms by (auto simp: Cursor_ReadOpaqueV_def Cursor_ReadVarint_def bindR_Inr_iff)
  have w: "k \<le> length c" "WriteVarint n = Inr (take k c)"
    using ReadVarint_canonical [OF nk(1)] by auto
  have b: "unat n < 2 ^ 30" and s: "sint n = int (unat n)"
    using WriteVarint_bound [OF w(2)] sint_small by auto
  have "\<not> int (length (drop k c)) < int (unat n)"
    and p: "p = take (unat n) (drop k c)" "rest = drop (unat n) (drop k c)"
    using nk(2) by (auto simp: take_c_def s simp del: length_drop split: if_splits)
  then have "unat n \<le> length c - k"
    by (simp only: of_nat_less_iff not_less length_drop)
  then have l: "length p = unat n" by (simp add: p)
  have "c = (take k c @ p) @ rest"
    unfolding p by (simp only: append_assoc append_take_drop_id)
  moreover have "emits (Builder_WriteOpaqueV p) (take k c @ p)"
    using b w(2) by (auto simp: opaque_emits_iff l)
  ultimately show ?thesis by blast
qed

lemma opaque_decode_iff: "Cursor_ReadOpaqueV c = Ok (p, c') \<longleftrightarrow> reads (Builder_WriteOpaqueV p) c c'"
  using opaque_read_written opaque_written_read by (fastforce simp: reads_def)

section \<open>The contract\<close>

definition anyval :: "'a \<Rightarrow> bool" where
  "anyval x \<longleftrightarrow> True"

lemma anyval_True [simp]: "anyval x"
  by (simp add: anyval_def)

lemma list_all_anyval [simp]: "list_all anyval xs"
  by (induction xs) auto

lemma pred_option_anyval [simp]: "pred_option anyval v"
  by (cases v) auto

locale codec =
  fixes enc :: "'a \<Rightarrow> builder \<Rightarrow> builder res"
    and dec :: "cursor \<Rightarrow> ('a \<times> cursor) res"
    and wf :: "'a \<Rightarrow> bool"
  assumes frame: "framed (enc x)"
    and decode_iff: "dec c = Ok (x, c') \<longleftrightarrow> wf x \<and> reads (enc x) c c'"
begin

lemma decodeI: "reads (enc x) c c' \<Longrightarrow> wf x \<Longrightarrow> dec c = Ok (x, c')"
  by (simp add: decode_iff)

lemma marshal_emits: "enc x NewBuilder = Ok out \<longleftrightarrow> emits (enc x) out"
  using framed_emits_iff [OF frame, of x out "[]"] by (simp add: NewBuilder_def)

lemma decode_encode: "wf x \<Longrightarrow> emits (enc x) out \<Longrightarrow> dec (out @ rest) = Ok (x, rest)"
  by (auto simp: decode_iff reads_def)

lemma encode_decode:
  "dec c = Ok (x, rest) \<Longrightarrow> wf x \<and> (\<exists>out. emits (enc x) out \<and> c = out @ rest)"
  by (auto simp: decode_iff reads_def)

lemma roundtrip: "wf x \<Longrightarrow> enc x NewBuilder = Ok out \<Longrightarrow> dec (out @ rest) = Ok (x, rest)"
  by (simp add: marshal_emits decode_encode)

lemma canonical:
  "dec c = Ok (x, rest) \<Longrightarrow> wf x \<and> (\<exists>out. enc x NewBuilder = Ok out \<and> c = out @ rest)"
  using encode_decode by (auto simp: marshal_emits)

lemma prefix_free:
  assumes "wf x" "wf y" "enc x NewBuilder = Ok o1" "enc y NewBuilder = Ok o2"
    and "o1 @ r1 = o2 @ r2"
  shows "x = y \<and> r1 = r2"
  using roundtrip [OF assms(1,3), of r1] roundtrip [OF assms(2,4), of r2] assms(5) by simp

lemma encode_inj:
  "wf x \<Longrightarrow> wf y \<Longrightarrow> enc x NewBuilder = Ok out \<Longrightarrow> enc y NewBuilder = Ok out \<Longrightarrow> x = y"
  using prefix_free [of x y out out "[]" "[]"] by simp

lemma decode_shrinks: "dec c = Ok (x, rest) \<Longrightarrow> length rest \<le> length c"
  using encode_decode by fastforce

lemma unmarshal_iff:
  "bindR (dec data) (\<lambda>(v, c). if c \<noteq> [] then Err m else Ok v) = Ok x \<longleftrightarrow>
    wf x \<and> enc x NewBuilder = Ok data"
  by (auto simp: bindR_Inr_iff decode_iff marshal_emits reads_def)

end

locale codec_elem = codec +
  assumes nonempty: "emits (enc x) out \<Longrightarrow> out \<noteq> []"
begin

lemma decode_progress: "dec c = Ok (x, rest) \<Longrightarrow> length rest < length c"
  using encode_decode nonempty by fastforce

lemma items_frame: "framed (encodeItems enc xs)"
  by (induction xs) (simp_all add: encodeItems_Nil encodeItems_Cons framed_id framed_bind frame)

lemma items_decode_encode:
  "list_all wf xs \<Longrightarrow> emits (encodeItems enc xs) out \<Longrightarrow> decodeItems dec out = Ok xs"
proof (induction xs arbitrary: out)
  case Nil
  then show ?case by (simp add: encodeItems_Nil emits_id_iff decodeItems.simps)
next
  case (Cons x xs)
  then obtain o1 o2 where o: "out = o1 @ o2" "emits (enc x) o1" "emits (encodeItems enc xs) o2"
    by (auto simp: encodeItems_Cons emits_bind_iff frame items_frame)
  have "decodeItems dec o2 = Ok xs" "dec (o1 @ o2) = Ok (x, o2)" "o1 \<noteq> []"
    using Cons o decode_encode nonempty by auto
  then show ?case
    unfolding o(1) by (simp add: decodeItems.simps [of dec "o1 @ o2"])
qed

lemma items_encode_decode:
  "decodeItems dec c = Ok xs \<Longrightarrow> list_all wf xs \<and> emits (encodeItems enc xs) c"
proof (induction c arbitrary: xs rule: length_induct)
  case (1 c)
  show ?case
  proof (cases "c = []")
    case True
    with 1 show ?thesis by (simp add: decodeItems.simps encodeItems_Nil emits_id_iff)
  next
    case False
    with "1.prems" obtain x c' ys where
      d: "dec c = Ok (x, c')" "length c' < length c" "decodeItems dec c' = Ok ys" "xs = x # ys"
      by (auto simp: decodeItems.simps [of dec c] bindR_Inr_iff split: if_splits)
    then obtain o1 where "wf x" "emits (enc x) o1" "c = o1 @ c'"
      using encode_decode by blast
    moreover have "list_all wf ys \<and> emits (encodeItems enc ys) c'"
      using d "1.IH" by blast
    ultimately show ?thesis
      using d by (auto simp: encodeItems_Cons intro: emits_bindI)
  qed
qed

lemma items_total: "decodeItems dec c \<noteq> Inl NoReturn \<or> (\<exists>c'. dec c' = Inl NoReturn)"
proof (induction c rule: length_induct)
  case (1 c)
  then show ?case
    using decode_progress [of c]
    by (fastforce simp: decodeItems.simps [of dec c] bindR_Inl_iff split: if_splits)
qed

lemma items_length: "emits (encodeItems enc xs) out \<Longrightarrow> length xs \<le> length out"
proof (induction xs arbitrary: out)
  case (Cons x xs)
  then obtain o1 o2 where o: "out = o1 @ o2" "emits (enc x) o1" "emits (encodeItems enc xs) o2"
    by (auto simp: encodeItems_Cons emits_bind_iff frame items_frame)
  then have "length xs \<le> length o2" "o1 \<noteq> []" using Cons nonempty by auto
  then show ?case using o(1) by (cases o1) auto
qed simp

lemma vector_emits_iff:
  "emits (WriteVectorV enc xs) out \<longleftrightarrow>
    (\<exists>inner. emits (encodeItems enc xs) inner \<and> emits (Builder_WriteOpaqueV inner) out)"
proof -
  have "WriteVectorV enc xs =
      (\<lambda>b. bindR (encodeItems enc xs NewBuilder) (\<lambda>inner. Builder_WriteOpaqueV inner b))"
    by (rule ext) (simp add: WriteVectorV_def)
  then show ?thesis
    using framed_emits_iff [OF items_frame, of xs _ "[]"]
    by (simp add: emits_bind_pure_iff NewBuilder_def)
qed

lemma vector_length:
  assumes "emits (WriteVectorV enc xs) out"
  shows "length xs < 2 ^ 30"
proof -
  obtain inner where "emits (encodeItems enc xs) inner" "length inner < 2 ^ 30"
    using assms opaque_length unfolding vector_emits_iff by blast
  then show ?thesis using items_length by fastforce
qed

lemma vector_frame: "framed (WriteVectorV enc xs)"
  unfolding WriteVectorV_def [abs_def] by (intro framed_bind_pure opaque_frame)

lemma vector_decode_iff:
  "ReadVectorV dec c = Ok (xs, c') \<longleftrightarrow> list_all wf xs \<and> reads (WriteVectorV enc xs) c c'"
proof
  assume "ReadVectorV dec c = Ok (xs, c')"
  then show "list_all wf xs \<and> reads (WriteVectorV enc xs) c c'"
    by (auto simp: ReadVectorV_def bindR_Inr_iff opaque_decode_iff reads_def vector_emits_iff
        dest!: items_encode_decode)
next
  assume "list_all wf xs \<and> reads (WriteVectorV enc xs) c c'"
  then show "ReadVectorV dec c = Ok (xs, c')"
    by (auto simp: ReadVectorV_def bindR_Inr_iff opaque_decode_iff reads_def vector_emits_iff
        dest!: items_decode_encode)
qed

end

sublocale codec_elem \<subseteq> vec: codec "WriteVectorV enc" "ReadVectorV dec" "list_all wf"
  by unfold_locales (auto simp: vector_frame vector_decode_iff)

lemma reads_one_point:
  "reads e c c1 \<Longrightarrow> (\<exists>c'. reads e c c' \<and> P c') \<longleftrightarrow> P c1"
  using reads_det by blast

lemma codec_elemI:
  assumes "\<And>x. framed (enc x)"
    and "\<And>x c c'. dec c = Ok (x, c') \<Longrightarrow> valid x \<and> reads (enc x) c c'"
    and "\<And>x c c'. valid x \<Longrightarrow> reads (enc x) c c' \<Longrightarrow> dec c = Ok (x, c')"
    and "\<And>x out. emits (enc x) out \<Longrightarrow> out \<noteq> []"
  shows "codec_elem enc dec valid"
  using assms by unfold_locales blast+

context codec_elem
begin

lemma vector_nonempty: "emits (WriteVectorV enc xs) out \<Longrightarrow> out \<noteq> []"
  by (auto simp: vector_emits_iff opaque_emits_iff dest: WriteVarint_nonempty)

end

section \<open>Primitive instances\<close>

lemma WriteUint8_fun: "WriteUint8 v = (\<lambda>b. Ok (b @ [v]))"
  by (rule ext) (simp add: WriteUint8_def)

lemma WriteUint16_fun: "WriteUint16 v = (\<lambda>b. Ok (b @ be16 v))"
  by (rule ext) (simp add: WriteUint16_def)

lemma WriteUint32_fun: "WriteUint32 v = (\<lambda>b. Ok (b @ be32 v))"
  by (rule ext) (simp add: WriteUint32_def)

lemma WriteUint64_fun: "WriteUint64 v = (\<lambda>b. Ok (b @ be64 v))"
  by (rule ext) (simp add: WriteUint64_def)

lemma WriteRaw_fun: "WriteRaw p = (\<lambda>b. Ok (b @ p))"
  by (rule ext) (simp add: WriteRaw_def)

lemmas write_fun = WriteUint8_fun WriteUint16_fun WriteUint32_fun WriteUint64_fun WriteRaw_fun

lemma length_be [simp]: "length (be16 v) = 2" "length (be32 w) = 4" "length (be64 x) = 8"
  by (simp_all add: be16_def be32_def be64_def)

lemma be_nonempty [simp]: "be16 v \<noteq> []" "be32 w \<noteq> []" "be64 x \<noteq> []"
  by (simp_all add: be16_def be32_def be64_def)

lemma take_c_append: "take_c (int (length p)) (p @ rest) = Ok (p, rest)"
  by (simp add: take_c_def)

lemma take_c_Ok: "take_c n c = Ok (p, rest) \<Longrightarrow> c = p @ rest \<and> int (length p) = n"
  by (auto simp: take_c_def split: if_splits)

lemma reads_Ok_iff: "reads (\<lambda>b. Ok (b @ w)) c c' \<longleftrightarrow> c = w @ c'"
  by (auto simp: reads_def emits_Ok_iff)

lemma take_c_Ok_iff: "take_c n c = Ok (p, c') \<longleftrightarrow> c = p @ c' \<and> int (length p) = n"
  by (auto simp: take_c_def)

interpretation uint8: codec_elem WriteUint8 ReadUint8 anyval
proof
  fix v c c'
  show "ReadUint8 c = Ok (v, c') \<longleftrightarrow> anyval v \<and> reads (WriteUint8 v) c c'"
    by (auto simp: WriteUint8_fun reads_Ok_iff ReadUint8_def bindR_Inr_iff take_c_Ok_iff length_Suc_conv
        intro: exI [of _ "[v]"])
qed (auto simp: WriteUint8_fun emits_Ok_iff framed_emitsI)

interpretation uint16: codec_elem WriteUint16 ReadUint16 anyval
proof
  fix v c c'
  show "ReadUint16 c = Ok (v, c') \<longleftrightarrow> anyval v \<and> reads (WriteUint16 v) c c'"
    by (auto simp: WriteUint16_fun reads_Ok_iff ReadUint16_def bindR_Inr_iff take_c_Ok_iff be16_unbe16
        intro: exI [of _ "be16 v"])
qed (auto simp: WriteUint16_fun emits_Ok_iff framed_emitsI)

interpretation uint32: codec_elem WriteUint32 ReadUint32 anyval
proof
  fix v c c'
  show "ReadUint32 c = Ok (v, c') \<longleftrightarrow> anyval v \<and> reads (WriteUint32 v) c c'"
    by (auto simp: WriteUint32_fun reads_Ok_iff ReadUint32_def bindR_Inr_iff take_c_Ok_iff be32_unbe32
        intro: exI [of _ "be32 v"])
qed (auto simp: WriteUint32_fun emits_Ok_iff framed_emitsI)

interpretation uint64: codec_elem WriteUint64 ReadUint64 anyval
proof
  fix v c c'
  show "ReadUint64 c = Ok (v, c') \<longleftrightarrow> anyval v \<and> reads (WriteUint64 v) c c'"
    by (auto simp: WriteUint64_fun reads_Ok_iff ReadUint64_def bindR_Inr_iff take_c_Ok_iff be64_unbe64
        intro: exI [of _ "be64 v"])
qed (auto simp: WriteUint64_fun emits_Ok_iff framed_emitsI)

interpretation opaque: codec_elem Builder_WriteOpaqueV Cursor_ReadOpaqueV anyval
  by unfold_locales
    (auto simp: opaque_frame opaque_decode_iff opaque_emits_iff dest: WriteVarint_nonempty)

lemma WriteOptional_fun:
  "WriteOptional enc v =
    (case v of None \<Rightarrow> WriteUint8 0 | Some x \<Rightarrow> (\<lambda>b. bindR (WriteUint8 1 b) (enc x)))"
  by (rule ext) (simp add: WriteOptional_def split: option.splits)

context codec
begin

lemma optional_frame: "framed (WriteOptional enc v)"
  by (cases v) (auto simp: WriteOptional_fun intro!: framed_bind uint8.frame frame)

lemma optional_decode_iff:
  "ReadOptional dec c = Ok (v, c') \<longleftrightarrow> pred_option wf v \<and> reads (WriteOptional enc v) c c'"
  by (cases v) (auto simp: ReadOptional_def WriteOptional_fun res_simps uint8.decode_iff
      decode_iff reads_bind uint8.frame frame)

lemma optional_nonempty: "emits (WriteOptional enc v) out \<Longrightarrow> out \<noteq> []"
  by (cases v) (auto simp: WriteOptional_fun emits_bind_iff uint8.frame frame
      dest: uint8.nonempty)

lemma optional_codec: "codec_elem (WriteOptional enc) (ReadOptional dec) (pred_option wf)"
  by unfold_locales (auto simp: optional_frame optional_decode_iff dest: optional_nonempty)

end

declare uint8.frame [framed_intros] uint16.frame [framed_intros] uint32.frame [framed_intros]
  uint64.frame [framed_intros]
declare uint8.decode_iff [codec_iff] uint16.decode_iff [codec_iff] uint32.decode_iff [codec_iff]
  uint64.decode_iff [codec_iff] opaque.decode_iff [codec_iff]
declare uint8.decodeI [codec_dec] uint16.decodeI [codec_dec] uint32.decodeI [codec_dec]
  uint64.decodeI [codec_dec] opaque.decodeI [codec_dec] uint16.vec.decodeI [codec_dec]
  uint32.vec.decodeI [codec_dec]
declare uint16.vec.frame [framed_intros] uint32.vec.frame [framed_intros]
declare uint16.vec.decode_iff [codec_iff] uint32.vec.decode_iff [codec_iff]

section \<open>Properties\<close>

text \<open>reading a variable-length integer back.  Whenever \<^verbatim>\<open>WriteVarint\<close> accepts a
  value, \<^verbatim>\<open>ReadVarint\<close> on its output, followed by any bytes, returns that value and
  the number of bytes written; and conversely a value read from a buffer is
  exactly the one whose (unique, minimal) encoding the buffer starts with.\<close>

theorem varint_roundtrip:
  "ReadVarint b = Ok (v, n) \<longleftrightarrow> (\<exists>w rest. WriteVarint v = Ok w \<and> b = w @ rest \<and> n = length w)"
proof
  assume "ReadVarint b = Ok (v, n)"
  then have "n \<le> length b \<and> WriteVarint v = Ok (take n b)"
    by (rule ReadVarint_canonical)
  then show "\<exists>w rest. WriteVarint v = Ok w \<and> b = w @ rest \<and> n = length w"
    by (intro exI [of _ "take n b"] exI [of _ "drop n b"]) auto
qed (auto dest: ReadVarint_append)

theorem varint_roundtrip_witness: "ReadVarint [0x7b, 0xbd, 0xff] = Ok (15293, 2)"
  unfolding varint_roundtrip
  by (intro exI [of _ "[0x7b, 0xbd]"] exI [of _ "[0xff]"])
    (simp add: WriteVarint_def)

end
