(* ===== verification/TreeWire.thy ===== *)
theory TreeWire
  imports Codec
begin

text \<open>
  The wire structures of \<^verbatim>\<open>src/mls/tree\<close>: credentials (\<^verbatim>\<open>credential.go\<close>), leaf nodes
  with their capabilities, lifetime and extensions (\<^verbatim>\<open>leaf.go\<close>), parent nodes
  (\<^verbatim>\<open>parent.go\<close>), tree nodes (\<^verbatim>\<open>node.go\<close>) and update paths (\<^verbatim>\<open>updatepath.go\<close>).
  Each is an instance of the locale \<open>codec_elem\<close>.  The predicates \<open>wf\<dots>\<close> say which
  fields a variant leaves at their zero value; the decoders produce only such
  values.
\<close>

section \<open>Credentials\<close>

abbreviation CredentialTypeBasic :: u16 where "CredentialTypeBasic \<equiv> 1"
abbreviation CredentialTypeX509 :: u16 where "CredentialTypeX509 \<equiv> 2"

record Certificate =
  CertData :: bytes

record Credential =
  CredentialType :: u16
  Identity :: bytes
  Certificates :: "Certificate list"

definition Certificate_marshal :: "Certificate \<Rightarrow> builder \<Rightarrow> builder res" where
  "Certificate_marshal cert b = Builder_WriteOpaqueV (CertData cert) b"

definition decodeCertificate :: "cursor \<Rightarrow> (Certificate \<times> cursor) res" where
  "decodeCertificate c = bindR (Cursor_ReadOpaqueV c) (\<lambda>(data, c). Ok (\<lparr>CertData = data\<rparr>, c))"

definition Credential_marshal :: "Credential \<Rightarrow> builder \<Rightarrow> builder res" where
  "Credential_marshal x b =
    bindR (WriteUint16 (CredentialType x) b) (\<lambda>b.
      if CredentialType x = CredentialTypeBasic then Builder_WriteOpaqueV (Identity x) b
      else if CredentialType x = CredentialTypeX509 then
        WriteVectorV Certificate_marshal (Certificates x) b
      else Err ''tree: unsupported credential type'')"

definition decodeCredential :: "cursor \<Rightarrow> (Credential \<times> cursor) res" where
  "decodeCredential c =
    bindR (ReadUint16 c) (\<lambda>(ct, c).
      if ct = CredentialTypeBasic then
        bindR (Cursor_ReadOpaqueV c) (\<lambda>(i, c).
          Ok (\<lparr>CredentialType = ct, Identity = i, Certificates = []\<rparr>, c))
      else if ct = CredentialTypeX509 then
        bindR (ReadVectorV decodeCertificate c) (\<lambda>(cs, c).
          Ok (\<lparr>CredentialType = ct, Identity = [], Certificates = cs\<rparr>, c))
      else Err ''tree: unsupported credential type'')"

definition wfCredential :: "Credential \<Rightarrow> bool" where
  "wfCredential x \<longleftrightarrow>
    (CredentialType x = CredentialTypeBasic \<longrightarrow> Certificates x = []) \<and>
    (CredentialType x = CredentialTypeX509 \<longrightarrow> Identity x = [])"

interpretation certificate: codec_elem Certificate_marshal decodeCertificate anyval
proof
  fix x :: Certificate and c c' out
  show "framed (Certificate_marshal x)"
    unfolding Certificate_marshal_def [abs_def] by (intro framed_intros)
  show "decodeCertificate c = Ok (x, c') \<longleftrightarrow> anyval x \<and> reads (Certificate_marshal x) c c'"
    unfolding Certificate_marshal_def [abs_def] decodeCertificate_def
    by (cases x) (auto simp: res_simps codec_iff)
  show "emits (Certificate_marshal x) out \<Longrightarrow> out \<noteq> []"
    unfolding Certificate_marshal_def [abs_def] by (rule opaque.nonempty)
qed

declare certificate.vec.frame [framed_intros] certificate.vec.decode_iff [codec_iff] certificate.vec.decodeI [codec_dec]

interpretation credential: codec_elem Credential_marshal decodeCredential wfCredential
proof (rule codec_elemI)
  fix x :: Credential and c c' out
  show "framed (Credential_marshal x)"
    unfolding Credential_marshal_def [abs_def] by (intro framed_intros)
  show "wfCredential x \<and> reads (Credential_marshal x) c c'" if "decodeCredential c = Ok (x, c')"
    using that unfolding Credential_marshal_def [abs_def] decodeCredential_def wfCredential_def
    by (cases x) (auto simp: res_simps codec_iff reads_simps framed_intros variant_simps
        reads_one_point)
  show "decodeCredential c = Ok (x, c')" if "wfCredential x" "reads (Credential_marshal x) c c'"
    using that unfolding Credential_marshal_def [abs_def] decodeCredential_def wfCredential_def
    by (cases x) (auto simp: codec_dec reads_simps framed_intros split: if_splits option.splits)
  show "emits (Credential_marshal x) out \<Longrightarrow> out \<noteq> []"
    unfolding Credential_marshal_def [abs_def]
    by (erule emits_head_nonempty [rotated 2]) (intro framed_intros | erule uint16.nonempty)+
qed

declare credential.frame [framed_intros] credential.decode_iff [codec_iff] credential.decodeI [codec_dec]

definition Credential_MarshalMLS :: "Credential \<Rightarrow> bytes res" where
  "Credential_MarshalMLS x = Credential_marshal x NewBuilder"

definition Credential_UnmarshalMLS :: "bytes \<Rightarrow> Credential res" where
  "Credential_UnmarshalMLS data = bindR (decodeCredential data) (\<lambda>(v, c).
     if c \<noteq> [] then Err ''tree: trailing bytes after Credential'' else Ok v)"

section \<open>Leaf nodes\<close>

abbreviation ProtocolVersionMLS10 :: u16 where "ProtocolVersionMLS10 \<equiv> 1"
abbreviation LeafNodeSourceKeyPackage :: byte where "LeafNodeSourceKeyPackage \<equiv> 1"
abbreviation LeafNodeSourceUpdate :: byte where "LeafNodeSourceUpdate \<equiv> 2"
abbreviation LeafNodeSourceCommit :: byte where "LeafNodeSourceCommit \<equiv> 3"

record Capabilities =
  Versions :: "u16 list"
  CipherSuites :: "u16 list"
  caps_Extensions :: "u16 list"
  Proposals :: "u16 list"
  Credentials :: "u16 list"

record Lifetime =
  NotBefore :: u64
  NotAfter :: u64

record Extension =
  ExtensionType :: u16
  ExtensionData :: bytes

record LeafNode =
  leaf_EncryptionKey :: bytes
  SignatureKey :: bytes
  leaf_Credential :: Credential
  leaf_Capabilities :: Capabilities
  LeafNodeSource :: byte
  leaf_Lifetime :: "Lifetime option"
  leaf_ParentHash :: bytes
  leaf_Extensions :: "Extension list"
  leaf_Signature :: bytes

definition Capabilities_marshal :: "Capabilities \<Rightarrow> builder \<Rightarrow> builder res" where
  "Capabilities_marshal x b =
    bindR (WriteVectorV WriteUint16 (Versions x) b) (\<lambda>b.
    bindR (WriteVectorV WriteUint16 (CipherSuites x) b) (\<lambda>b.
    bindR (WriteVectorV WriteUint16 (caps_Extensions x) b) (\<lambda>b.
    bindR (WriteVectorV WriteUint16 (Proposals x) b) (\<lambda>b.
    WriteVectorV WriteUint16 (Credentials x) b))))"

definition decodeCapabilities :: "cursor \<Rightarrow> (Capabilities \<times> cursor) res" where
  "decodeCapabilities c =
    bindR (ReadVectorV ReadUint16 c) (\<lambda>(vs, c).
    bindR (ReadVectorV ReadUint16 c) (\<lambda>(cs, c).
    bindR (ReadVectorV ReadUint16 c) (\<lambda>(es, c).
    bindR (ReadVectorV ReadUint16 c) (\<lambda>(ps, c).
    bindR (ReadVectorV ReadUint16 c) (\<lambda>(crs, c).
      Ok (\<lparr>Versions = vs, CipherSuites = cs, caps_Extensions = es, Proposals = ps,
           Credentials = crs\<rparr>, c))))))"

definition Lifetime_marshal :: "Lifetime \<Rightarrow> builder \<Rightarrow> builder res" where
  "Lifetime_marshal x b =
    bindR (WriteUint64 (NotBefore x) b) (\<lambda>b. WriteUint64 (NotAfter x) b)"

definition decodeLifetime :: "cursor \<Rightarrow> (Lifetime \<times> cursor) res" where
  "decodeLifetime c =
    bindR (ReadUint64 c) (\<lambda>(nb, c).
    bindR (ReadUint64 c) (\<lambda>(na, c). Ok (\<lparr>NotBefore = nb, NotAfter = na\<rparr>, c)))"

definition Extension_marshal :: "Extension \<Rightarrow> builder \<Rightarrow> builder res" where
  "Extension_marshal x b =
    bindR (WriteUint16 (ExtensionType x) b) (\<lambda>b. Builder_WriteOpaqueV (ExtensionData x) b)"

definition decodeExtension :: "cursor \<Rightarrow> (Extension \<times> cursor) res" where
  "decodeExtension c =
    bindR (ReadUint16 c) (\<lambda>(et, c).
    bindR (Cursor_ReadOpaqueV c) (\<lambda>(data, c).
      Ok (\<lparr>ExtensionType = et, ExtensionData = data\<rparr>, c)))"

interpretation capabilities: codec_elem Capabilities_marshal decodeCapabilities anyval
proof (rule codec_elemI)
  fix x :: Capabilities and c c' out
  show "framed (Capabilities_marshal x)"
    unfolding Capabilities_marshal_def [abs_def] by (intro framed_intros)
  show "anyval x \<and> reads (Capabilities_marshal x) c c'" if "decodeCapabilities c = Ok (x, c')"
    using that unfolding Capabilities_marshal_def [abs_def] decodeCapabilities_def
    by (cases x) (auto simp: res_simps codec_iff reads_simps framed_intros variant_simps
        reads_one_point)
  show "decodeCapabilities c = Ok (x, c')" if "anyval x" "reads (Capabilities_marshal x) c c'"
    using that unfolding Capabilities_marshal_def [abs_def] decodeCapabilities_def
    by (cases x) (auto simp: codec_dec reads_simps framed_intros split: if_splits option.splits)
  show "emits (Capabilities_marshal x) out \<Longrightarrow> out \<noteq> []"
    unfolding Capabilities_marshal_def [abs_def]
    by (erule emits_head_nonempty [rotated 2]) (intro framed_intros | erule uint16.vector_nonempty)+
qed

declare capabilities.frame [framed_intros] capabilities.decode_iff [codec_iff] capabilities.decodeI [codec_dec]
  capabilities.vec.frame [framed_intros] capabilities.vec.decode_iff [codec_iff] capabilities.vec.decodeI [codec_dec]

interpretation lifetime: codec_elem Lifetime_marshal decodeLifetime anyval
proof (rule codec_elemI)
  fix x :: Lifetime and c c' out
  show "framed (Lifetime_marshal x)"
    unfolding Lifetime_marshal_def [abs_def] by (intro framed_intros)
  show "anyval x \<and> reads (Lifetime_marshal x) c c'" if "decodeLifetime c = Ok (x, c')"
    using that unfolding Lifetime_marshal_def [abs_def] decodeLifetime_def
    by (cases x) (auto simp: res_simps codec_iff reads_simps framed_intros variant_simps
        reads_one_point)
  show "decodeLifetime c = Ok (x, c')" if "anyval x" "reads (Lifetime_marshal x) c c'"
    using that unfolding Lifetime_marshal_def [abs_def] decodeLifetime_def
    by (cases x) (auto simp: codec_dec reads_simps framed_intros split: if_splits option.splits)
  show "emits (Lifetime_marshal x) out \<Longrightarrow> out \<noteq> []"
    unfolding Lifetime_marshal_def [abs_def]
    by (erule emits_head_nonempty [rotated 2]) (intro framed_intros | erule uint64.nonempty)+
qed

declare lifetime.frame [framed_intros] lifetime.decode_iff [codec_iff] lifetime.decodeI [codec_dec]
  lifetime.vec.frame [framed_intros] lifetime.vec.decode_iff [codec_iff] lifetime.vec.decodeI [codec_dec]

interpretation extension: codec_elem Extension_marshal decodeExtension anyval
proof (rule codec_elemI)
  fix x :: Extension and c c' out
  show "framed (Extension_marshal x)"
    unfolding Extension_marshal_def [abs_def] by (intro framed_intros)
  show "anyval x \<and> reads (Extension_marshal x) c c'" if "decodeExtension c = Ok (x, c')"
    using that unfolding Extension_marshal_def [abs_def] decodeExtension_def
    by (cases x) (auto simp: res_simps codec_iff reads_simps framed_intros variant_simps
        reads_one_point)
  show "decodeExtension c = Ok (x, c')" if "anyval x" "reads (Extension_marshal x) c c'"
    using that unfolding Extension_marshal_def [abs_def] decodeExtension_def
    by (cases x) (auto simp: codec_dec reads_simps framed_intros split: if_splits option.splits)
  show "emits (Extension_marshal x) out \<Longrightarrow> out \<noteq> []"
    unfolding Extension_marshal_def [abs_def]
    by (erule emits_head_nonempty [rotated 2]) (intro framed_intros | erule uint16.nonempty)+
qed

declare extension.frame [framed_intros] extension.decode_iff [codec_iff] extension.decodeI [codec_dec]
  extension.vec.frame [framed_intros] extension.vec.decode_iff [codec_iff] extension.vec.decodeI [codec_dec]

definition LeafNode_marshalContents :: "LeafNode \<Rightarrow> builder \<Rightarrow> builder res" where
  "LeafNode_marshalContents x b =
    bindR (Builder_WriteOpaqueV (leaf_EncryptionKey x) b) (\<lambda>b.
    bindR (Builder_WriteOpaqueV (SignatureKey x) b) (\<lambda>b.
    bindR (Credential_marshal (leaf_Credential x) b) (\<lambda>b.
    bindR (Capabilities_marshal (leaf_Capabilities x) b) (\<lambda>b.
    bindR (WriteUint8 (LeafNodeSource x) b) (\<lambda>b.
    bindR
      (if LeafNodeSource x = LeafNodeSourceKeyPackage then
         case leaf_Lifetime x of
           None \<Rightarrow> Err ''tree: key_package leaf node missing lifetime''
         | Some l \<Rightarrow> Lifetime_marshal l b
       else if LeafNodeSource x = LeafNodeSourceUpdate then Ok b
       else if LeafNodeSource x = LeafNodeSourceCommit then
         Builder_WriteOpaqueV (leaf_ParentHash x) b
       else Err ''tree: invalid leaf_node_source'') (\<lambda>b.
    WriteVectorV Extension_marshal (leaf_Extensions x) b))))))"

definition LeafNode_marshal :: "LeafNode \<Rightarrow> builder \<Rightarrow> builder res" where
  "LeafNode_marshal x b =
    bindR (LeafNode_marshalContents x b) (\<lambda>b. Builder_WriteOpaqueV (leaf_Signature x) b)"

definition decodeLeafNode :: "cursor \<Rightarrow> (LeafNode \<times> cursor) res" where
  "decodeLeafNode c =
    bindR (Cursor_ReadOpaqueV c) (\<lambda>(ek, c).
    bindR (Cursor_ReadOpaqueV c) (\<lambda>(sk, c).
    bindR (decodeCredential c) (\<lambda>(cred, c).
    bindR (decodeCapabilities c) (\<lambda>(caps, c).
    bindR (ReadUint8 c) (\<lambda>(src, c).
    bindR
      (if src = LeafNodeSourceKeyPackage then
         bindR (decodeLifetime c) (\<lambda>(lt, c). Ok ((Some lt, []), c))
       else if src = LeafNodeSourceUpdate then Ok ((None, []), c)
       else if src = LeafNodeSourceCommit then
         bindR (Cursor_ReadOpaqueV c) (\<lambda>(ph, c). Ok ((None, ph), c))
       else Err ''tree: invalid leaf_node_source'') (\<lambda>((lt, ph), c).
    bindR (ReadVectorV decodeExtension c) (\<lambda>(exts, c).
    bindR (Cursor_ReadOpaqueV c) (\<lambda>(sig, c).
      Ok (\<lparr>leaf_EncryptionKey = ek, SignatureKey = sk, leaf_Credential = cred,
           leaf_Capabilities = caps, LeafNodeSource = src, leaf_Lifetime = lt,
           leaf_ParentHash = ph, leaf_Extensions = exts, leaf_Signature = sig\<rparr>, c)))))))))"

definition wfLeafNode :: "LeafNode \<Rightarrow> bool" where
  "wfLeafNode x \<longleftrightarrow> wfCredential (leaf_Credential x) \<and>
    (LeafNodeSource x \<noteq> LeafNodeSourceKeyPackage \<longrightarrow> leaf_Lifetime x = None) \<and>
    (LeafNodeSource x \<noteq> LeafNodeSourceCommit \<longrightarrow> leaf_ParentHash x = [])"

text \<open>The bytes a leaf signature covers: update and commit leaves are bound to their
  group and their place in the tree.\<close>

definition LeafNode_tbs :: "LeafNode \<Rightarrow> bytes \<Rightarrow> u32 \<Rightarrow> bytes res" where
  "LeafNode_tbs x groupID leafIndex =
    bindR (LeafNode_marshalContents x NewBuilder) (\<lambda>b.
      if LeafNodeSource x = LeafNodeSourceUpdate \<or> LeafNodeSource x = LeafNodeSourceCommit then
        bindR (Builder_WriteOpaqueV groupID b) (\<lambda>b. WriteUint32 leafIndex b)
      else Ok b)"

definition LeafNode_MarshalMLS :: "LeafNode \<Rightarrow> bytes res" where
  "LeafNode_MarshalMLS x = LeafNode_marshal x NewBuilder"

definition LeafNode_UnmarshalMLS :: "bytes \<Rightarrow> LeafNode res" where
  "LeafNode_UnmarshalMLS data = bindR (decodeLeafNode data) (\<lambda>(v, c).
     if c \<noteq> [] then Err ''tree: trailing bytes after LeafNode'' else Ok v)"

lemma framed_case_option [framed_intros]:
  "framed e \<Longrightarrow> (\<And>y. framed (e' y)) \<Longrightarrow> framed (\<lambda>b. case v of None \<Rightarrow> e b | Some y \<Rightarrow> e' y b)"
  by (cases v) simp_all

lemma reads_case_option [reads_simps]:
  "reads (\<lambda>b. case v of None \<Rightarrow> e b | Some y \<Rightarrow> e' y b) c c' \<longleftrightarrow>
    (case v of None \<Rightarrow> reads e c c' | Some y \<Rightarrow> reads (e' y) c c')"
  by (cases v) simp_all

lemma contents_frame [framed_intros]: "framed (LeafNode_marshalContents x)"
  unfolding LeafNode_marshalContents_def [abs_def] by (intro framed_intros)

lemma contents_nonempty: "emits (LeafNode_marshalContents x) out \<Longrightarrow> out \<noteq> []"
  unfolding LeafNode_marshalContents_def [abs_def]
  by (erule emits_head_nonempty [rotated 2]) (intro framed_intros | erule opaque.nonempty)+

interpretation leafnode: codec_elem LeafNode_marshal decodeLeafNode wfLeafNode
proof (rule codec_elemI)
  fix x :: LeafNode and c c' out
  show "framed (LeafNode_marshal x)"
    unfolding LeafNode_marshal_def [abs_def] by (intro framed_intros)
  show "wfLeafNode x \<and> reads (LeafNode_marshal x) c c'" if "decodeLeafNode c = Ok (x, c')"
    using that unfolding LeafNode_marshal_def [abs_def] decodeLeafNode_def wfLeafNode_def LeafNode_marshalContents_def [abs_def]
    by (cases x) (auto simp: res_simps codec_iff reads_simps framed_intros variant_simps
        reads_one_point)
  show "decodeLeafNode c = Ok (x, c')" if "wfLeafNode x" "reads (LeafNode_marshal x) c c'"
    using that unfolding LeafNode_marshal_def [abs_def] decodeLeafNode_def wfLeafNode_def LeafNode_marshalContents_def [abs_def]
    by (cases x) (auto simp: codec_dec reads_simps framed_intros split: if_splits option.splits)
  show "emits (LeafNode_marshal x) out \<Longrightarrow> out \<noteq> []"
    unfolding LeafNode_marshal_def [abs_def]
    by (erule emits_head_nonempty [rotated 2]) (intro framed_intros | erule contents_nonempty)+
qed

declare leafnode.frame [framed_intros] leafnode.decode_iff [codec_iff] leafnode.decodeI [codec_dec]
  leafnode.vec.frame [framed_intros] leafnode.vec.decode_iff [codec_iff] leafnode.vec.decodeI [codec_dec]

section \<open>Parent nodes and tree nodes\<close>

abbreviation NodeTypeLeaf :: byte where "NodeTypeLeaf \<equiv> 1"
abbreviation NodeTypeParent :: byte where "NodeTypeParent \<equiv> 2"

record ParentNode =
  par_EncryptionKey :: bytes
  par_ParentHash :: bytes
  UnmergedLeaves :: "u32 list"

definition ParentNode_marshal :: "ParentNode \<Rightarrow> builder \<Rightarrow> builder res" where
  "ParentNode_marshal x b =
    bindR (Builder_WriteOpaqueV (par_EncryptionKey x) b) (\<lambda>b.
    bindR (Builder_WriteOpaqueV (par_ParentHash x) b) (\<lambda>b.
    WriteVectorV WriteUint32 (UnmergedLeaves x) b))"

definition decodeParentNode :: "cursor \<Rightarrow> (ParentNode \<times> cursor) res" where
  "decodeParentNode c =
    bindR (Cursor_ReadOpaqueV c) (\<lambda>(ek, c).
    bindR (Cursor_ReadOpaqueV c) (\<lambda>(ph, c).
    bindR (ReadVectorV ReadUint32 c) (\<lambda>(ul, c).
      Ok (\<lparr>par_EncryptionKey = ek, par_ParentHash = ph, UnmergedLeaves = ul\<rparr>, c))))"

definition ParentNode_MarshalMLS :: "ParentNode \<Rightarrow> bytes res" where
  "ParentNode_MarshalMLS x = ParentNode_marshal x NewBuilder"

definition ParentNode_UnmarshalMLS :: "bytes \<Rightarrow> ParentNode res" where
  "ParentNode_UnmarshalMLS data = bindR (decodeParentNode data) (\<lambda>(v, c).
     if c \<noteq> [] then Err ''tree: trailing bytes after ParentNode'' else Ok v)"

interpretation parentnode: codec_elem ParentNode_marshal decodeParentNode anyval
proof (rule codec_elemI)
  fix x :: ParentNode and c c' out
  show "framed (ParentNode_marshal x)"
    unfolding ParentNode_marshal_def [abs_def] by (intro framed_intros)
  show "anyval x \<and> reads (ParentNode_marshal x) c c'" if "decodeParentNode c = Ok (x, c')"
    using that unfolding ParentNode_marshal_def [abs_def] decodeParentNode_def
    by (cases x) (auto simp: res_simps codec_iff reads_simps framed_intros variant_simps
        reads_one_point)
  show "decodeParentNode c = Ok (x, c')" if "anyval x" "reads (ParentNode_marshal x) c c'"
    using that unfolding ParentNode_marshal_def [abs_def] decodeParentNode_def
    by (cases x) (auto simp: codec_dec reads_simps framed_intros split: if_splits option.splits)
  show "emits (ParentNode_marshal x) out \<Longrightarrow> out \<noteq> []"
    unfolding ParentNode_marshal_def [abs_def]
    by (erule emits_head_nonempty [rotated 2]) (intro framed_intros | erule opaque.nonempty)+
qed

declare parentnode.frame [framed_intros] parentnode.decode_iff [codec_iff] parentnode.decodeI [codec_dec]
  parentnode.vec.frame [framed_intros] parentnode.vec.decode_iff [codec_iff] parentnode.vec.decodeI [codec_dec]

text \<open>A populated node has exactly one of its two pointers set.\<close>

record Node =
  Leaf :: "LeafNode option"
  ParentN :: "ParentNode option"

definition Node_marshal :: "Node \<Rightarrow> builder \<Rightarrow> builder res" where
  "Node_marshal n b =
    (case Leaf n of
       Some l \<Rightarrow> bindR (WriteUint8 NodeTypeLeaf b) (\<lambda>b. LeafNode_marshal l b)
     | None \<Rightarrow>
       (case ParentN n of
          Some p \<Rightarrow> bindR (WriteUint8 NodeTypeParent b) (\<lambda>b. ParentNode_marshal p b)
        | None \<Rightarrow> Err ''tree: empty Node''))"

definition decodeNode :: "cursor \<Rightarrow> (Node \<times> cursor) res" where
  "decodeNode c =
    bindR (ReadUint8 c) (\<lambda>(t, c).
      if t = NodeTypeLeaf then
        bindR (decodeLeafNode c) (\<lambda>(l, c). Ok (\<lparr>Leaf = Some l, ParentN = None\<rparr>, c))
      else if t = NodeTypeParent then
        bindR (decodeParentNode c) (\<lambda>(p, c). Ok (\<lparr>Leaf = None, ParentN = Some p\<rparr>, c))
      else Err ''tree: invalid node type'')"

definition Node_MarshalMLS :: "Node \<Rightarrow> bytes res" where
  "Node_MarshalMLS n = Node_marshal n NewBuilder"

definition wfNode :: "Node \<Rightarrow> bool" where
  "wfNode n \<longleftrightarrow> (Leaf n = None \<or> ParentN n = None) \<and> pred_option wfLeafNode (Leaf n)"

interpretation node: codec_elem Node_marshal decodeNode wfNode
proof (rule codec_elemI)
  fix x :: Node and c c' out
  show "framed (Node_marshal x)"
    unfolding Node_marshal_def [abs_def] by (intro framed_intros)
  show "wfNode x \<and> reads (Node_marshal x) c c'" if "decodeNode c = Ok (x, c')"
    using that unfolding Node_marshal_def [abs_def] decodeNode_def wfNode_def
    by (cases x) (auto simp: res_simps codec_iff reads_simps framed_intros variant_simps
        reads_one_point)
  show "decodeNode c = Ok (x, c')" if "wfNode x" "reads (Node_marshal x) c c'"
    using that unfolding Node_marshal_def [abs_def] decodeNode_def wfNode_def
    by (cases x) (auto simp: codec_dec reads_simps framed_intros split: if_splits option.splits)
  show "emits (Node_marshal x) out \<Longrightarrow> out \<noteq> []"
    unfolding Node_marshal_def [abs_def]
    by (cases "Leaf x"; cases "ParentN x")
      (auto simp: emits_fail_iff emits_bind_iff framed_intros dest: uint8.nonempty)
qed

declare node.frame [framed_intros] node.decode_iff [codec_iff] node.decodeI [codec_dec]

interpretation optnode: codec_elem "WriteOptional Node_marshal" "ReadOptional decodeNode"
    "pred_option wfNode"
  by (rule node.optional_codec)

section \<open>Update paths\<close>

record HPKECiphertext =
  KemOutput :: bytes
  Ciphertext :: bytes

record UpdatePathNode =
  upn_EncryptionKey :: bytes
  EncryptedPathSecret :: "HPKECiphertext list"

record UpdatePath =
  up_LeafNode :: LeafNode
  Nodes :: "UpdatePathNode list"

definition HPKECiphertext_marshal :: "HPKECiphertext \<Rightarrow> builder \<Rightarrow> builder res" where
  "HPKECiphertext_marshal x b =
    bindR (Builder_WriteOpaqueV (KemOutput x) b) (\<lambda>b. Builder_WriteOpaqueV (Ciphertext x) b)"

definition decodeHPKECiphertext :: "cursor \<Rightarrow> (HPKECiphertext \<times> cursor) res" where
  "decodeHPKECiphertext c =
    bindR (Cursor_ReadOpaqueV c) (\<lambda>(k, c).
    bindR (Cursor_ReadOpaqueV c) (\<lambda>(ct, c). Ok (\<lparr>KemOutput = k, Ciphertext = ct\<rparr>, c)))"

interpretation hpkect: codec_elem HPKECiphertext_marshal decodeHPKECiphertext anyval
proof (rule codec_elemI)
  fix x :: HPKECiphertext and c c' out
  show "framed (HPKECiphertext_marshal x)"
    unfolding HPKECiphertext_marshal_def [abs_def] by (intro framed_intros)
  show "anyval x \<and> reads (HPKECiphertext_marshal x) c c'" if "decodeHPKECiphertext c = Ok (x, c')"
    using that unfolding HPKECiphertext_marshal_def [abs_def] decodeHPKECiphertext_def
    by (cases x) (auto simp: res_simps codec_iff reads_simps framed_intros variant_simps
        reads_one_point)
  show "decodeHPKECiphertext c = Ok (x, c')" if "anyval x" "reads (HPKECiphertext_marshal x) c c'"
    using that unfolding HPKECiphertext_marshal_def [abs_def] decodeHPKECiphertext_def
    by (cases x) (auto simp: codec_dec reads_simps framed_intros split: if_splits option.splits)
  show "emits (HPKECiphertext_marshal x) out \<Longrightarrow> out \<noteq> []"
    unfolding HPKECiphertext_marshal_def [abs_def]
    by (erule emits_head_nonempty [rotated 2]) (intro framed_intros | erule opaque.nonempty)+
qed

declare hpkect.frame [framed_intros] hpkect.decode_iff [codec_iff] hpkect.decodeI [codec_dec]
  hpkect.vec.frame [framed_intros] hpkect.vec.decode_iff [codec_iff] hpkect.vec.decodeI [codec_dec]

definition UpdatePathNode_marshal :: "UpdatePathNode \<Rightarrow> builder \<Rightarrow> builder res" where
  "UpdatePathNode_marshal x b =
    bindR (Builder_WriteOpaqueV (upn_EncryptionKey x) b) (\<lambda>b.
    WriteVectorV HPKECiphertext_marshal (EncryptedPathSecret x) b)"

definition decodeUpdatePathNode :: "cursor \<Rightarrow> (UpdatePathNode \<times> cursor) res" where
  "decodeUpdatePathNode c =
    bindR (Cursor_ReadOpaqueV c) (\<lambda>(ek, c).
    bindR (ReadVectorV decodeHPKECiphertext c) (\<lambda>(eps, c).
      Ok (\<lparr>upn_EncryptionKey = ek, EncryptedPathSecret = eps\<rparr>, c)))"

interpretation upnode: codec_elem UpdatePathNode_marshal decodeUpdatePathNode anyval
proof (rule codec_elemI)
  fix x :: UpdatePathNode and c c' out
  show "framed (UpdatePathNode_marshal x)"
    unfolding UpdatePathNode_marshal_def [abs_def] by (intro framed_intros)
  show "anyval x \<and> reads (UpdatePathNode_marshal x) c c'" if "decodeUpdatePathNode c = Ok (x, c')"
    using that unfolding UpdatePathNode_marshal_def [abs_def] decodeUpdatePathNode_def
    by (cases x) (auto simp: res_simps codec_iff reads_simps framed_intros variant_simps
        reads_one_point)
  show "decodeUpdatePathNode c = Ok (x, c')" if "anyval x" "reads (UpdatePathNode_marshal x) c c'"
    using that unfolding UpdatePathNode_marshal_def [abs_def] decodeUpdatePathNode_def
    by (cases x) (auto simp: codec_dec reads_simps framed_intros split: if_splits option.splits)
  show "emits (UpdatePathNode_marshal x) out \<Longrightarrow> out \<noteq> []"
    unfolding UpdatePathNode_marshal_def [abs_def]
    by (erule emits_head_nonempty [rotated 2]) (intro framed_intros | erule opaque.nonempty)+
qed

declare upnode.frame [framed_intros] upnode.decode_iff [codec_iff] upnode.decodeI [codec_dec]
  upnode.vec.frame [framed_intros] upnode.vec.decode_iff [codec_iff] upnode.vec.decodeI [codec_dec]

definition UpdatePath_marshal :: "UpdatePath \<Rightarrow> builder \<Rightarrow> builder res" where
  "UpdatePath_marshal x b =
    bindR (LeafNode_marshal (up_LeafNode x) b) (\<lambda>b.
    WriteVectorV UpdatePathNode_marshal (Nodes x) b)"

definition decodeUpdatePath :: "cursor \<Rightarrow> (UpdatePath \<times> cursor) res" where
  "decodeUpdatePath c =
    bindR (decodeLeafNode c) (\<lambda>(l, c).
    bindR (ReadVectorV decodeUpdatePathNode c) (\<lambda>(ns, c).
      Ok (\<lparr>up_LeafNode = l, Nodes = ns\<rparr>, c)))"

definition wfUpdatePath :: "UpdatePath \<Rightarrow> bool" where
  "wfUpdatePath x \<longleftrightarrow> wfLeafNode (up_LeafNode x)"

interpretation updatepath: codec_elem UpdatePath_marshal decodeUpdatePath wfUpdatePath
proof (rule codec_elemI)
  fix x :: UpdatePath and c c' out
  show "framed (UpdatePath_marshal x)"
    unfolding UpdatePath_marshal_def [abs_def] by (intro framed_intros)
  show "wfUpdatePath x \<and> reads (UpdatePath_marshal x) c c'" if "decodeUpdatePath c = Ok (x, c')"
    using that unfolding UpdatePath_marshal_def [abs_def] decodeUpdatePath_def wfUpdatePath_def
    by (cases x) (auto simp: res_simps codec_iff reads_simps framed_intros variant_simps
        reads_one_point)
  show "decodeUpdatePath c = Ok (x, c')" if "wfUpdatePath x" "reads (UpdatePath_marshal x) c c'"
    using that unfolding UpdatePath_marshal_def [abs_def] decodeUpdatePath_def wfUpdatePath_def
    by (cases x) (auto simp: codec_dec reads_simps framed_intros split: if_splits option.splits)
  show "emits (UpdatePath_marshal x) out \<Longrightarrow> out \<noteq> []"
    unfolding UpdatePath_marshal_def [abs_def]
    by (erule emits_head_nonempty [rotated 2]) (intro framed_intros | erule leafnode.nonempty)+
qed

declare updatepath.frame [framed_intros] updatepath.decode_iff [codec_iff] updatepath.decodeI [codec_dec]

definition UpdatePath_MarshalMLS :: "UpdatePath \<Rightarrow> bytes res" where
  "UpdatePath_MarshalMLS x = UpdatePath_marshal x NewBuilder"

definition UpdatePath_UnmarshalMLS :: "bytes \<Rightarrow> UpdatePath res" where
  "UpdatePath_UnmarshalMLS data = bindR (decodeUpdatePath data) (\<lambda>(v, c).
     if c \<noteq> [] then Err ''tree: trailing bytes after UpdatePath'' else Ok v)"

end
