(* ===== verification/Cipher.thy ===== *)
theory Cipher
  imports Codec
begin

text \<open>
  The cipher suites and labelled operations of \<^verbatim>\<open>src/mls/cipher\<close>.  The primitives the
  package takes from the Go library (SHA-256, HMAC, HKDF, AES-GCM, HPKE, the
  signature schemes, ECDH and ML-KEM) are the fields of the record \<open>Std\<close>, an
  argument of every definition that uses one of them; everything the package
  itself does, the suite registry, the domain-separating encodings, the length
  checks and the branches on the suite, is defined here.  A key is its
  serialisation, and an operation that draws randomness takes it as an argument.
\<close>

section \<open>Suites\<close>

datatype HashAlg = SHA256
datatype KEM = DHKEM_X25519 | DHKEM_P256 | MLKEM768X25519
datatype AEADAlg = AES128GCM | AES256GCM
datatype Curve = X25519 | P256

abbreviation SigEd25519 :: byte where "SigEd25519 \<equiv> 0"
abbreviation SigECDSAP256 :: byte where "SigECDSAP256 \<equiv> 1"

record Suite =
  ID :: u16
  NewHash :: HashAlg
  Sig :: byte
  kem :: KEM
  aead :: AEADAlg
  curve :: "Curve option"

abbreviation X25519_AES128GCM_SHA256_Ed25519 :: u16 where
  "X25519_AES128GCM_SHA256_Ed25519 \<equiv> 0x0001"
abbreviation P256_AES128GCM_SHA256_P256 :: u16 where
  "P256_AES128GCM_SHA256_P256 \<equiv> 0x0002"
abbreviation XWING_AES256GCM_SHA256_Ed25519 :: u16 where
  "XWING_AES256GCM_SHA256_Ed25519 \<equiv> 0xF001"

definition registry :: "u16 \<rightharpoonup> Suite" where
  "registry = [
    X25519_AES128GCM_SHA256_Ed25519 \<mapsto>
      \<lparr>ID = X25519_AES128GCM_SHA256_Ed25519, NewHash = SHA256, Sig = SigEd25519,
       kem = DHKEM_X25519, aead = AES128GCM, curve = Some X25519\<rparr>,
    P256_AES128GCM_SHA256_P256 \<mapsto>
      \<lparr>ID = P256_AES128GCM_SHA256_P256, NewHash = SHA256, Sig = SigECDSAP256,
       kem = DHKEM_P256, aead = AES128GCM, curve = Some P256\<rparr>,
    XWING_AES256GCM_SHA256_Ed25519 \<mapsto>
      \<lparr>ID = XWING_AES256GCM_SHA256_Ed25519, NewHash = SHA256, Sig = SigEd25519,
       kem = MLKEM768X25519, aead = AES256GCM, curve = None\<rparr>]"

definition Lookup :: "u16 \<Rightarrow> Suite option" where
  "Lookup i = registry i"

section \<open>Primitives of the Go library\<close>

text \<open>A \<^verbatim>\<open>crypto.Signer\<close>: its public key, by the dynamic type the code asserts, and its
  signing operation on a message or digest.\<close>

datatype PublicKey = Ed25519Public bytes | ECDSAPublic bytes | OtherPublic

record Signer =
  Public :: PublicKey
  Sign :: "bytes \<Rightarrow> bytes res"

record Std =
  sha256 :: "bytes \<Rightarrow> bytes"
  hmac :: "bytes \<Rightarrow> bytes \<Rightarrow> bytes"
  hkdfExtract :: "bytes \<Rightarrow> bytes \<Rightarrow> bytes res"
  hkdfExpand :: "bytes \<Rightarrow> bytes \<Rightarrow> int \<Rightarrow> bytes res"
  gcmSeal :: "bytes \<Rightarrow> bytes \<Rightarrow> bytes \<Rightarrow> bytes \<Rightarrow> bytes"
  gcmOpen :: "bytes \<Rightarrow> bytes \<Rightarrow> bytes \<Rightarrow> bytes \<Rightarrow> bytes res"
  kemNewPublicKey :: "KEM \<Rightarrow> bytes \<Rightarrow> bytes res"
  kemNewPrivateKey :: "KEM \<Rightarrow> bytes \<Rightarrow> bytes res"
  kemDeriveKeyPair :: "KEM \<Rightarrow> bytes \<Rightarrow> (bytes \<times> bytes) res"
  kemGenerateKey :: "KEM \<Rightarrow> bytes \<Rightarrow> (bytes \<times> bytes) res"
  hpkeSeal :: "bytes \<Rightarrow> KEM \<Rightarrow> AEADAlg \<Rightarrow> bytes \<Rightarrow> bytes \<Rightarrow> bytes \<Rightarrow> (bytes \<times> bytes) res"
  hpkeOpen :: "KEM \<Rightarrow> AEADAlg \<Rightarrow> bytes \<Rightarrow> bytes \<Rightarrow> bytes \<Rightarrow> bytes \<Rightarrow> bytes res"
  ed25519Verify :: "bytes \<Rightarrow> bytes \<Rightarrow> bytes \<Rightarrow> bool"
  ecdsaParse :: "bytes \<Rightarrow> bytes res"
  ecdsaVerify :: "bytes \<Rightarrow> bytes \<Rightarrow> bytes \<Rightarrow> bool"
  ecdhNewPublicKey :: "Curve \<Rightarrow> bytes \<Rightarrow> bytes res"
  ecdhNewPrivateKey :: "Curve \<Rightarrow> bytes \<Rightarrow> bytes res"
  ecdhGenerate :: "Curve \<Rightarrow> bytes \<Rightarrow> bytes res"
  ecdhPublic :: "Curve \<Rightarrow> bytes \<Rightarrow> bytes"
  ecdh :: "Curve \<Rightarrow> bytes \<Rightarrow> bytes \<Rightarrow> bytes res"
  sha3_256 :: "bytes \<Rightarrow> bytes"
  shake256_96 :: "bytes \<Rightarrow> bytes"
  mlkemNewEncapsulationKey :: "bytes \<Rightarrow> bytes res"
  mlkemNewDecapsulationKey :: "bytes \<Rightarrow> bytes res"
  mlkemEncapsulate :: "bytes \<Rightarrow> bytes \<Rightarrow> bytes \<times> bytes"
  mlkemDecapsulate :: "bytes \<Rightarrow> bytes \<Rightarrow> bytes res"

definition bytesOf :: "string \<Rightarrow> bytes" where
  "bytesOf = map of_char"

fun KEM_ID :: "KEM \<Rightarrow> u16" where
  "KEM_ID DHKEM_P256 = 0x0010"
| "KEM_ID DHKEM_X25519 = 0x0020"
| "KEM_ID MLKEM768X25519 = 0x647a"

fun AEAD_ID :: "AEADAlg \<Rightarrow> u16" where
  "AEAD_ID AES128GCM = 0x0001"
| "AEAD_ID AES256GCM = 0x0002"

section \<open>Operations of a suite\<close>

fun HashLen :: "Suite \<Rightarrow> int" where
  "HashLen s = (case NewHash s of SHA256 \<Rightarrow> 32)"

declare HashLen.simps [simp del]

lemma HashLen_32 [simp]: "HashLen s = 32"
  by (cases "NewHash s") (simp add: HashLen.simps)

definition Hash :: "Std \<Rightarrow> Suite \<Rightarrow> bytes \<Rightarrow> bytes" where
  "Hash std s data = (case NewHash s of SHA256 \<Rightarrow> sha256 std data)"

definition MAC :: "Std \<Rightarrow> Suite \<Rightarrow> bytes \<Rightarrow> bytes \<Rightarrow> bytes" where
  "MAC std s key data = hmac std key data"

definition kdfExpand :: "Std \<Rightarrow> Suite \<Rightarrow> bytes \<Rightarrow> bytes \<Rightarrow> int \<Rightarrow> bytes res" where
  "kdfExpand std s secret info len = hkdfExpand std secret info len"

definition Extract :: "Std \<Rightarrow> Suite \<Rightarrow> bytes \<Rightarrow> bytes \<Rightarrow> bytes res" where
  "Extract std s salt ikm = hkdfExtract std ikm salt"

definition verifyClassical :: "Std \<Rightarrow> Suite \<Rightarrow> bytes \<Rightarrow> bytes \<Rightarrow> bytes \<Rightarrow> bool" where
  "verifyClassical std s pub message sig =
    (if Sig s = SigEd25519 then length pub = 32 \<and> ed25519Verify std pub message sig
     else if Sig s = SigECDSAP256 then
       (case ecdsaParse std pub of
          Inl _ \<Rightarrow> False
        | Inr pk \<Rightarrow> ecdsaVerify std pk (Hash std s message) sig)
     else False)"

definition signClassical :: "Std \<Rightarrow> Suite \<Rightarrow> Signer \<Rightarrow> bytes \<Rightarrow> bytes res" where
  "signClassical std s priv message =
    (if Sig s = SigEd25519 then Sign priv message
     else if Sig s = SigECDSAP256 then Sign priv (Hash std s message)
     else Err ''cipher: unsupported signature scheme'')"

definition GenerateHPKEKeyPair :: "Std \<Rightarrow> Suite \<Rightarrow> bytes \<Rightarrow> (bytes \<times> bytes) res" where
  "GenerateHPKEKeyPair std s rnd = kemGenerateKey std (kem s) rnd"

definition DeriveKeyPair :: "Std \<Rightarrow> Suite \<Rightarrow> bytes \<Rightarrow> (bytes \<times> bytes) res" where
  "DeriveKeyPair std s ikm = kemDeriveKeyPair std (kem s) ikm"

text \<open>The panics of \<^verbatim>\<open>AEADKeySize\<close> and \<^verbatim>\<open>AEADNonceSize\<close> on an unknown identifier cannot be
  reached: the identifiers of the two AEADs are the two the code knows.\<close>

definition AEADKeySize :: "Suite \<Rightarrow> int" where
  "AEADKeySize s = (if AEAD_ID (aead s) = 0x0001 then 16 else 32)"

definition AEADNonceSize :: "Suite \<Rightarrow> int" where
  "AEADNonceSize s = 12"

text \<open>\<^verbatim>\<open>aes.NewCipher\<close> accepts keys of 16, 24 or 32 bytes; GCM nonces have 12.\<close>

definition aeadCipher :: "Suite \<Rightarrow> bytes \<Rightarrow> unit res" where
  "aeadCipher s key = require (length key \<in> {16, 24, 32}) ''crypto/aes: invalid key size''"

definition Seal :: "Std \<Rightarrow> Suite \<Rightarrow> bytes \<Rightarrow> bytes \<Rightarrow> bytes \<Rightarrow> bytes \<Rightarrow> bytes res" where
  "Seal std s key nonce aad plaintext =
    bindR (aeadCipher s key) (\<lambda>_.
      if length nonce \<noteq> 12 then Err ''cipher: nonce length''
      else Ok (gcmSeal std key nonce plaintext aad))"

definition Open :: "Std \<Rightarrow> Suite \<Rightarrow> bytes \<Rightarrow> bytes \<Rightarrow> bytes \<Rightarrow> bytes \<Rightarrow> bytes res" where
  "Open std s key nonce aad ciphertext =
    bindR (aeadCipher s key) (\<lambda>_.
      if length nonce \<noteq> 12 then Err ''cipher: nonce length''
      else gcmOpen std key nonce ciphertext aad)"

section \<open>Labelled operations\<close>

definition mlsLabelPrefix :: string where
  "mlsLabelPrefix = ''MLS 1.0 ''"

definition RefHash :: "Std \<Rightarrow> Suite \<Rightarrow> string \<Rightarrow> bytes \<Rightarrow> bytes res" where
  "RefHash std s label val =
    bindR (WriteOpaqueV (bytesOf label)) (\<lambda>lbl.
    bindR (WriteOpaqueV val) (\<lambda>v. Ok (Hash std s (lbl @ v))))"

definition kdfLabel :: "string \<Rightarrow> bytes \<Rightarrow> int \<Rightarrow> bytes res" where
  "kdfLabel label context len =
    bindR (WriteOpaqueV (bytesOf (mlsLabelPrefix @ label))) (\<lambda>lbl.
    bindR (WriteOpaqueV context) (\<lambda>ctx. Ok (be16 (of_int len) @ lbl @ ctx)))"

definition ExpandWithLabel ::
  "Std \<Rightarrow> Suite \<Rightarrow> bytes \<Rightarrow> string \<Rightarrow> bytes \<Rightarrow> int \<Rightarrow> bytes res" where
  "ExpandWithLabel std s secret label context len =
    (if len < 0 \<or> len > 0xFFFF then Err ''cipher: ExpandWithLabel: length out of range''
     else bindR (kdfLabel label context len) (\<lambda>buf. kdfExpand std s secret buf len))"

definition DeriveSecret :: "Std \<Rightarrow> Suite \<Rightarrow> bytes \<Rightarrow> string \<Rightarrow> bytes res" where
  "DeriveSecret std s secret label = ExpandWithLabel std s secret label [] (HashLen s)"

definition DeriveTreeSecret ::
  "Std \<Rightarrow> Suite \<Rightarrow> bytes \<Rightarrow> string \<Rightarrow> u32 \<Rightarrow> int \<Rightarrow> bytes res" where
  "DeriveTreeSecret std s secret label generation len =
    ExpandWithLabel std s secret label (be32 generation) len"

definition labeledContext :: "string \<Rightarrow> bytes \<Rightarrow> bytes res" where
  "labeledContext label data =
    bindR (WriteOpaqueV (bytesOf (mlsLabelPrefix @ label))) (\<lambda>lbl.
    bindR (WriteOpaqueV data) (\<lambda>body. Ok (lbl @ body)))"

definition SignaturePublicKey :: "Suite \<Rightarrow> Signer \<Rightarrow> bytes res" where
  "SignaturePublicKey s signer =
    (if Sig s = SigEd25519 then
       (case Public signer of Ed25519Public pub \<Rightarrow> Ok pub
        | _ \<Rightarrow> Err ''cipher: unsupported signature scheme'')
     else if Sig s = SigECDSAP256 then
       (case Public signer of ECDSAPublic pub \<Rightarrow> Ok pub
        | _ \<Rightarrow> Err ''cipher: unsupported signature scheme'')
     else Err ''cipher: unsupported signature scheme'')"

definition SignWithLabel :: "Std \<Rightarrow> Suite \<Rightarrow> Signer \<Rightarrow> string \<Rightarrow> bytes \<Rightarrow> bytes res" where
  "SignWithLabel std s priv label content =
    bindR (labeledContext label content) (\<lambda>tbs. signClassical std s priv tbs)"

definition VerifyWithLabel ::
  "Std \<Rightarrow> Suite \<Rightarrow> bytes \<Rightarrow> string \<Rightarrow> bytes \<Rightarrow> bytes \<Rightarrow> bool" where
  "VerifyWithLabel std s pub label content sig =
    (case labeledContext label content of
       Inl _ \<Rightarrow> False
     | Inr tbs \<Rightarrow> verifyClassical std s pub tbs sig)"

definition EncryptWithLabel ::
  "Std \<Rightarrow> Suite \<Rightarrow> bytes \<Rightarrow> bytes \<Rightarrow> string \<Rightarrow> bytes \<Rightarrow> bytes \<Rightarrow> (bytes \<times> bytes) res" where
  "EncryptWithLabel std s rnd pub label context plaintext =
    bindR (kemNewPublicKey std (kem s) pub) (\<lambda>pk.
    bindR (labeledContext label context) (\<lambda>info.
      hpkeSeal std rnd (kem s) (aead s) pk info plaintext))"

definition DecryptWithLabel ::
  "Std \<Rightarrow> Suite \<Rightarrow> bytes \<Rightarrow> string \<Rightarrow> bytes \<Rightarrow> bytes \<Rightarrow> bytes \<Rightarrow> bytes res" where
  "DecryptWithLabel std s priv label context kemOutput ciphertext =
    bindR (kemNewPrivateKey std (kem s) priv) (\<lambda>sk.
    bindR (labeledContext label context) (\<lambda>info.
      hpkeOpen std (kem s) (aead s) sk info kemOutput ciphertext))"

section \<open>External initialisation\<close>

definition kemSuiteID :: "Suite \<Rightarrow> bytes" where
  "kemSuiteID s = bytesOf ''KEM'' @ be16 (KEM_ID (kem s))"

definition labeledExtract :: "Std \<Rightarrow> Suite \<Rightarrow> bytes \<Rightarrow> string \<Rightarrow> bytes \<Rightarrow> bytes res" where
  "labeledExtract std s salt label ikm =
    hkdfExtract std (bytesOf ''HPKE-v1'' @ kemSuiteID s @ bytesOf label @ ikm) salt"

definition labeledExpand :: "Std \<Rightarrow> Suite \<Rightarrow> bytes \<Rightarrow> string \<Rightarrow> bytes \<Rightarrow> int \<Rightarrow> bytes res" where
  "labeledExpand std s prk label info len =
    kdfExpand std s prk
      (be16 (of_int len) @ bytesOf ''HPKE-v1'' @ kemSuiteID s @ bytesOf label @ info) len"

definition extractAndExpand :: "Std \<Rightarrow> Suite \<Rightarrow> bytes \<Rightarrow> bytes \<Rightarrow> bytes res" where
  "extractAndExpand std s dh kemContext =
    bindR (labeledExtract std s [] ''eae_prk'' dh) (\<lambda>eaePrk.
      labeledExpand std s eaePrk ''shared_secret'' kemContext (HashLen s))"

definition xWingLabel :: bytes where
  "xWingLabel = [0x5c, 0x2e, 0x2f, 0x2f, 0x5e, 0x5c]"

definition xwingCombiner :: "Std \<Rightarrow> bytes \<Rightarrow> bytes \<Rightarrow> bytes \<Rightarrow> bytes \<Rightarrow> bytes" where
  "xwingCombiner std ssM ssX ctX pkX = sha3_256 std (ssM @ ssX @ ctX @ pkX @ xWingLabel)"

definition xwingExpandSeed :: "Std \<Rightarrow> bytes \<Rightarrow> (bytes \<times> bytes) res" where
  "xwingExpandSeed std seed =
    (let exp = shake256_96 std seed in
     bindR (mlkemNewDecapsulationKey std (take 64 exp)) (\<lambda>dkM.
     bindR (ecdhNewPrivateKey std X25519 (take 32 (drop 64 exp))) (\<lambda>skX. Ok (dkM, skX))))"

definition xwingEncap :: "Std \<Rightarrow> bytes \<Rightarrow> bytes \<Rightarrow> (bytes \<times> bytes) res" where
  "xwingEncap std rnd externalPub =
    (if length externalPub \<noteq> 1184 + 32 then Err ''cipher: xwing: external_pub len''
     else
       bindR (mlkemNewEncapsulationKey std (take 1184 externalPub)) (\<lambda>pkM.
       let pkXb = drop 1184 externalPub in
       bindR (ecdhNewPublicKey std X25519 pkXb) (\<lambda>pkX.
       let (ssM, ctM) = mlkemEncapsulate std rnd pkM in
       bindR (ecdhGenerate std X25519 rnd) (\<lambda>ek.
       let ctX = ecdhPublic std X25519 ek in
       bindR (ecdh std X25519 ek pkX) (\<lambda>ssX.
         Ok (ctM @ ctX, xwingCombiner std ssM ssX ctX pkXb))))))"

definition xwingDecap :: "Std \<Rightarrow> bytes \<Rightarrow> bytes \<Rightarrow> bytes res" where
  "xwingDecap std externalPriv kemOutput =
    (if length kemOutput \<noteq> 1088 + 32 then Err ''cipher: xwing: kem_output len''
     else
       bindR (xwingExpandSeed std externalPriv) (\<lambda>(dkM, skX).
       let pkXb = ecdhPublic std X25519 skX;
           ctM = take 1088 kemOutput;
           ctX = drop 1088 kemOutput in
       bindR (mlkemDecapsulate std dkM ctM) (\<lambda>ssM.
       bindR (ecdhNewPublicKey std X25519 ctX) (\<lambda>pkX.
       bindR (ecdh std X25519 skX pkX) (\<lambda>ssX.
         Ok (xwingCombiner std ssM ssX ctX pkXb))))))"

definition ExternalInitEncap :: "Std \<Rightarrow> Suite \<Rightarrow> bytes \<Rightarrow> bytes \<Rightarrow> (bytes \<times> bytes) res" where
  "ExternalInitEncap std s rnd externalPub =
    (case curve s of
       None \<Rightarrow>
         if KEM_ID (kem s) = 0x647a then xwingEncap std rnd externalPub
         else Err ''cipher: external init not supported for this KEM''
     | Some cv \<Rightarrow>
         bindR (ecdhNewPublicKey std cv externalPub) (\<lambda>pkR.
         bindR (ecdhGenerate std cv rnd) (\<lambda>skE.
         bindR (ecdh std cv skE pkR) (\<lambda>dh.
         let enc = ecdhPublic std cv skE in
         bindR (extractAndExpand std s dh (enc @ externalPub)) (\<lambda>ss. Ok (enc, ss))))))"

definition ExternalInitDecap :: "Std \<Rightarrow> Suite \<Rightarrow> bytes \<Rightarrow> bytes \<Rightarrow> bytes res" where
  "ExternalInitDecap std s externalPriv kemOutput =
    (case curve s of
       None \<Rightarrow>
         if KEM_ID (kem s) = 0x647a then xwingDecap std externalPriv kemOutput
         else Err ''cipher: external init not supported for this KEM''
     | Some cv \<Rightarrow>
         bindR (ecdhNewPrivateKey std cv externalPriv) (\<lambda>skR.
         bindR (ecdhNewPublicKey std cv kemOutput) (\<lambda>pkE.
         bindR (ecdh std cv skR pkE) (\<lambda>dh.
           extractAndExpand std s dh (kemOutput @ ecdhPublic std cv skR)))))"


section \<open>An instance of the library\<close>

text \<open>A transparent instance of the primitives, for examples: a public key is its private key,
  a shared secret is the pair of public keys joined bitwise, sealing and signing attach the
  key.\<close>

definition joinBytes :: "bytes \<Rightarrow> bytes \<Rightarrow> bytes" where
  "joinBytes a b = map2 (\<lambda>x y. x OR y) a b"

definition demoStd :: Std where
  "demoStd = \<lparr>
     sha256 = (\<lambda>x. take 8 x),
     hmac = (\<lambda>k x. take 32 (k @ x @ replicate 32 0)),
     hkdfExtract = (\<lambda>ikm salt. Ok (salt @ take 8 ikm)),
     hkdfExpand = (\<lambda>secret info len. Ok (take (min 16 (nat len)) (1 # secret @ replicate 16 0))),
     gcmSeal = (\<lambda>key nonce pt aad. key @ nonce @ pt),
     gcmOpen = (\<lambda>key nonce ct aad.
       if take (length key + length nonce) ct = key @ nonce
       then Ok (drop (length key + length nonce) ct) else Err ''cipher: message authentication failed''),
     kemNewPublicKey = (\<lambda>k x. Ok x),
     kemNewPrivateKey = (\<lambda>k x. Ok x),
     kemDeriveKeyPair = (\<lambda>k x. Ok (x, x)),
     kemGenerateKey = (\<lambda>k x. Ok (x, x)),
     hpkeSeal = (\<lambda>rnd k a pk info pt. Ok (pk, pt)),
     hpkeOpen = (\<lambda>k a sk info enc ct. if enc = sk then Ok ct else Err ''hpke: open''),
     ed25519Verify = (\<lambda>pk msg sig. sig = pk @ take 4 msg),
     ecdsaParse = (\<lambda>pk. Ok pk),
     ecdsaVerify = (\<lambda>pk msg sig. sig = pk @ take 4 msg),
     ecdhNewPublicKey = (\<lambda>c x. Ok x),
     ecdhNewPrivateKey = (\<lambda>c x. Ok x),
     ecdhGenerate = (\<lambda>c x. Ok (take 32 (x @ replicate 32 1))),
     ecdhPublic = (\<lambda>c x. x),
     ecdh = (\<lambda>c sk pk. Ok (joinBytes sk pk)),
     sha3_256 = (\<lambda>x. take 32 x),
     shake256_96 = (\<lambda>x. take 96 (x @ replicate 96 0)),
     mlkemNewEncapsulationKey = (\<lambda>x. Ok x),
     mlkemNewDecapsulationKey = (\<lambda>x. Ok x),
     mlkemEncapsulate = (\<lambda>rnd pk. (replicate 32 7, replicate 1088 7)),
     mlkemDecapsulate = (\<lambda>sk ct. Ok (take 32 ct))\<rparr>"

text \<open>The Ed25519 signer of a key in this instance.\<close>

definition demoSigner :: "bytes \<Rightarrow> Signer" where
  "demoSigner key = \<lparr>Public = Ed25519Public key, Sign = (\<lambda>msg. Ok (key @ take 4 msg))\<rparr>"

text \<open>The suite of the examples.\<close>

definition sampleSuite :: Suite where
  "sampleSuite = \<lparr>ID = X25519_AES128GCM_SHA256_Ed25519, NewHash = SHA256, Sig = SigEd25519,
     kem = DHKEM_X25519, aead = AES128GCM, curve = Some X25519\<rparr>"

end
