(* ===== verification/RatchetTree.thy ===== *)
theory RatchetTree
  imports TreeMath TreeWire Cipher
begin

text \<open>
  The public ratchet tree of \<^verbatim>\<open>src/mls/tree\<close>: representation, parsing and printing
  (\<^verbatim>\<open>node.go\<close>), the leaf operations behind Add, Update and Remove proposals
  (\<^verbatim>\<open>mutate.go\<close>), resolution and tree hashes (\<^verbatim>\<open>treesync.go\<close>), and parent-hash and
  leaf-signature validation (\<^verbatim>\<open>validation.go\<close>).  A tree is its array of optional
  nodes; an index outside the array is the fault \<^const>\<open>PanicIndex\<close>.  The loops
  of the source that climb from a node to the root are recursive functions; they
  end because \<^verbatim>\<open>Parent\<close>, when it returns, raises the level.
\<close>

record RatchetTree =
  suite :: Suite
  nodes :: "Node option list"

section \<open>Parsing and printing\<close>

partial_function (option) fullWidthLoop :: "u32 \<Rightarrow> u32 \<Rightarrow> u32 option" where
  "fullWidthLoop n w = (if w < n then fullWidthLoop n (2 * w + 1) else Some w)"

declare fullWidthLoop.simps [code]

definition fullWidth :: "u32 \<Rightarrow> u32 res" where
  "fullWidth n = fromOption NoReturn (fullWidthLoop n 1)"

text \<open>\<^verbatim>\<open>uint32(len(nodes))\<close>, and padding with \<^verbatim>\<open>make([]*Node, w-uint32(len(nodes)))\<close>.\<close>

definition len32 :: "'a list \<Rightarrow> u32" where
  "len32 xs = of_nat (length xs)"

definition padTo :: "u32 \<Rightarrow> Node option list \<Rightarrow> Node option list" where
  "padTo w ns = ns @ replicate (unat (w - len32 ns)) None"

definition ParseRatchetTree :: "Suite \<Rightarrow> bytes \<Rightarrow> RatchetTree res" where
  "ParseRatchetTree s data =
    bindR (ReadVectorV (ReadOptional decodeNode) data) (\<lambda>(ns, c).
      if c \<noteq> [] then Err ''tree: trailing bytes after ratchet_tree''
      else if ns = [] then Err ''tree: empty ratchet_tree''
      else if last ns = None then Err ''tree: ratchet_tree must not end with a blank node''
      else bindR (fullWidth (len32 ns)) (\<lambda>w.
        Ok \<lparr>suite = s, nodes = padTo w ns\<rparr>))"

fun dropBlankTail :: "'a option list \<Rightarrow> 'a option list" where
  "dropBlankTail ns = (if ns \<noteq> [] \<and> last ns = None then dropBlankTail (butlast ns) else ns)"

declare dropBlankTail.simps [simp del]

definition RatchetTree_MarshalMLS :: "RatchetTree \<Rightarrow> bytes res" where
  "RatchetTree_MarshalMLS t =
    WriteVectorV (WriteOptional Node_marshal) (dropBlankTail (nodes t)) NewBuilder"

definition Width :: "RatchetTree \<Rightarrow> u32" where
  "Width t = len32 (nodes t)"

definition leafCount :: "RatchetTree \<Rightarrow> u32" where
  "leafCount t = (len32 (nodes t) + 1) div 2"

definition NewRatchetTree :: "Suite \<Rightarrow> LeafNode \<Rightarrow> RatchetTree" where
  "NewRatchetTree s leaf = \<lparr>suite = s, nodes = [Some \<lparr>Leaf = Some leaf, ParentN = None\<rparr>]\<rparr>"

definition Clone :: "RatchetTree \<Rightarrow> RatchetTree res" where
  "Clone t = bindR (RatchetTree_MarshalMLS t) (\<lambda>data. ParseRatchetTree (suite t) data)"

section \<open>Lookup\<close>

definition NodeAt :: "RatchetTree \<Rightarrow> u32 \<Rightarrow> Node option" where
  "NodeAt t i = (if i \<ge> len32 (nodes t) then None else nodes t ! unat i)"

definition LeafNodeAt :: "RatchetTree \<Rightarrow> u32 \<Rightarrow> LeafNode res" where
  "LeafNodeAt t leaf =
    (case NodeAt t (2 * leaf) of
       None \<Rightarrow> Err ''tree: leaf is blank''
     | Some n \<Rightarrow> fromOption (Error ''tree: leaf is blank'') (Leaf n))"

text \<open>Scan of the even positions, \<^verbatim>\<open>for i := uint32(0); i < t.Width(); i += 2\<close>.\<close>

fun evens :: "'a list \<Rightarrow> 'a list" where
  "evens [] = []"
| "evens [x] = [x]"
| "evens (x # y # xs) = x # evens xs"

definition leafOf :: "Node option \<Rightarrow> LeafNode option" where
  "leafOf n = Option.bind n Leaf"

primrec findKey :: "bytes \<Rightarrow> nat \<Rightarrow> Node option list \<Rightarrow> (u32 \<times> bool)" where
  "findKey key i [] = (0, False)"
| "findKey key i (n # ns) =
    (case leafOf n of
       Some l \<Rightarrow> if leaf_EncryptionKey l = key then (of_nat i, True) else findKey key (Suc i) ns
     | None \<Rightarrow> findKey key (Suc i) ns)"

definition FindLeafByEncryptionKey :: "RatchetTree \<Rightarrow> bytes \<Rightarrow> u32 \<times> bool" where
  "FindLeafByEncryptionKey t key = findKey key 0 (evens (nodes t))"

section \<open>Leaf operations\<close>

text \<open>The climb from a leaf to the root that blanks every parent on the way.\<close>

function blankPath :: "u32 \<Rightarrow> u32 \<Rightarrow> u32 \<Rightarrow> Node option list \<Rightarrow> Node option list res" where
  "blankPath leaves root x ns =
    (if x = root then Ok ns
     else bindR (Parent x leaves) (\<lambda>(p, ok).
       if \<not> ok then Ok ns
       else bindR (goUpdate ns (unat p) None) (\<lambda>ns. blankPath leaves root p ns)))"
  by pat_completeness auto
termination
proof (relation "measure (\<lambda>(leaves, root, x, ns). 32 - level x)")
  fix leaves root x :: u32 and ns :: "Node option list" and y p ok ns'
  assume "Parent x leaves = Inr y" "(p, ok) = y" "\<not> \<not> ok"
  then have "level x < level p" using Parent_Ok by auto
  then show "((leaves, root, p, ns'), (leaves, root, x, ns))
      \<in> measure (\<lambda>(leaves, root, x, ns). 32 - level x)"
    using level_le [of p] by simp
qed simp

declare blankPath.simps [simp del]

definition leafEntry :: "LeafNode \<Rightarrow> Node option" where
  "leafEntry ln = Some \<lparr>Leaf = Some ln, ParentN = None\<rparr>"

definition UpdateLeaf :: "RatchetTree \<Rightarrow> u32 \<Rightarrow> LeafNode \<Rightarrow> RatchetTree res" where
  "UpdateLeaf t leaf ln =
    (if 2 * leaf \<ge> Width t then Err ''tree: UpdateLeaf: leaf out of range''
     else
       bindR (goUpdate (nodes t) (unat (2 * leaf)) (leafEntry ln)) (\<lambda>ns.
       let leaves = leafCount t; root = Root leaves in
       bindR (blankPath leaves root (2 * leaf) ns) (\<lambda>ns. Ok (t\<lparr>nodes := ns\<rparr>))))"

text \<open>Truncation keeps at least one slot.\<close>

fun truncateTail :: "'a option list \<Rightarrow> 'a option list" where
  "truncateTail ns =
    (if length ns > 1 \<and> last ns = None then truncateTail (butlast ns) else ns)"

declare truncateTail.simps [simp del]

definition repad :: "Node option list \<Rightarrow> Node option list res" where
  "repad ns = bindR (fullWidth (len32 ns)) (\<lambda>w.
     Ok (if len32 ns < w then padTo w ns else ns))"

definition RemoveLeaf :: "RatchetTree \<Rightarrow> u32 \<Rightarrow> RatchetTree res" where
  "RemoveLeaf t leaf =
    (if 2 * leaf \<ge> Width t then Err ''tree: RemoveLeaf: leaf out of range''
     else
       bindR (goUpdate (nodes t) (unat (2 * leaf)) None) (\<lambda>ns.
       let leaves = leafCount t; root = Root leaves in
       bindR (blankPath leaves root (2 * leaf) ns) (\<lambda>ns.
       bindR (repad (truncateTail ns)) (\<lambda>ns. Ok (t\<lparr>nodes := ns\<rparr>)))))"

text \<open>The first blank leaf slot, as a leaf index.\<close>

primrec firstBlank :: "nat \<Rightarrow> Node option list \<Rightarrow> nat option" where
  "firstBlank i [] = None"
| "firstBlank i (n # ns) = (if n = None then Some i else firstBlank (Suc i) ns)"

definition insertSorted :: "u32 \<Rightarrow> u32 list \<Rightarrow> u32 list" where
  "insertSorted leafIndex ul =
    (let lo = length (takeWhile (\<lambda>l. l < leafIndex) ul) in
     take lo ul @ [leafIndex] @ drop lo ul)"

function addUnmerged ::
  "u32 \<Rightarrow> u32 \<Rightarrow> u32 \<Rightarrow> u32 \<Rightarrow> Node option list \<Rightarrow> Node option list res" where
  "addUnmerged leafIndex leaves root x ns =
    (if x = root then Ok ns
     else bindR (Parent x leaves) (\<lambda>(p, ok).
       if \<not> ok then Ok ns
       else bindR (goIndex ns (unat p)) (\<lambda>n.
         addUnmerged leafIndex leaves root p
           (case n of
              Some nd \<Rightarrow>
                (case ParentN nd of
                   Some pn \<Rightarrow>
                     ns[unat p := Some (nd\<lparr>ParentN :=
                       Some (pn\<lparr>UnmergedLeaves := insertSorted leafIndex (UnmergedLeaves pn)\<rparr>)\<rparr>)]
                 | None \<Rightarrow> ns)
            | None \<Rightarrow> ns))))"
  by pat_completeness auto
termination
proof (relation "measure (\<lambda>(leafIndex, leaves, root, x, ns). 32 - level x)")
  fix leafIndex leaves root x :: u32 and ns ns' :: "Node option list" and y p ok
  assume "Parent x leaves = Inr y" "(p, ok) = y" "\<not> \<not> ok"
  then have "level x < level p" using Parent_Ok by auto
  then show "((leafIndex, leaves, root, p, ns'), (leafIndex, leaves, root, x, ns))
      \<in> measure (\<lambda>(leafIndex, leaves, root, x, ns). 32 - level x)"
    using level_le [of p] by simp
qed simp

declare addUnmerged.simps [simp del]

definition AddLeaf :: "RatchetTree \<Rightarrow> LeafNode \<Rightarrow> (u32 \<times> RatchetTree) res" where
  "AddLeaf t ln =
    bindR
      (case firstBlank 0 (evens (nodes t)) of
         Some i \<Rightarrow> Ok (nodes t, i)
       | None \<Rightarrow>
           bindR (repad (nodes t @ [None, None])) (\<lambda>ns.
             case firstBlank 0 (evens ns) of
               Some i \<Rightarrow> Ok (ns, i)
             | None \<Rightarrow> Err ''tree: AddLeaf: no blank slot after growing''))
      (\<lambda>(ns, i).
        let newNode = 2 * of_nat i; leafIndex = newNode div 2 in
        bindR (goUpdate ns (unat newNode) (leafEntry ln)) (\<lambda>ns.
        let leaves = (len32 ns + 1) div 2; root = Root leaves in
        bindR (addUnmerged leafIndex leaves root newNode ns) (\<lambda>ns.
          Ok (leafIndex, t\<lparr>nodes := ns\<rparr>))))"

end
