(* ===== verification/TreeSync.thy ===== *)
theory TreeSync
  imports RatchetTree
begin

text \<open>
  Resolution and tree hashes (\<^verbatim>\<open>src/mls/tree/treesync.go\<close>) and the validation of parent
  hashes and leaf signatures (\<^verbatim>\<open>validation.go\<close>).  The recursions over the two children of
  a node end because both children, when they are returned, lie on a lower level.
\<close>

section \<open>Resolution\<close>

function Resolution :: "RatchetTree \<Rightarrow> u32 \<Rightarrow> u32 list res" where
  "Resolution t i =
    bindR (goIndex (nodes t) (unat i)) (\<lambda>n.
      case n of
        Some nd \<Rightarrow>
          Ok (i # (case ParentN nd of Some p \<Rightarrow> map (\<lambda>leaf. 2 * leaf) (UnmergedLeaves p) | None \<Rightarrow> []))
      | None \<Rightarrow>
          if snd (Left i) then
            bindR (Right i (leafCount t)) (\<lambda>(right, _).
            bindR (Resolution t (fst (Left i))) (\<lambda>a.
            bindR (Resolution t right) (\<lambda>b. Ok (a @ b))))
          else Ok [])"
  by pat_completeness auto
termination
  by (relation "measure (\<lambda>(t, i). level i)") (auto dest: child_levels)

declare Resolution.simps [simp del]

section \<open>Tree hashes\<close>

definition filterLeaves :: "u32 list \<Rightarrow> u32 set \<Rightarrow> u32 list" where
  "filterLeaves leaves excluded = filter (\<lambda>l. l \<notin> excluded) leaves"

definition leafHashInput :: "u32 \<Rightarrow> LeafNode option \<Rightarrow> bytes res" where
  "leafHashInput leafIndex leaf =
    bindR (WriteUint8 NodeTypeLeaf NewBuilder) (\<lambda>b.
    bindR (WriteUint32 leafIndex b) (\<lambda>b.
    WriteOptional LeafNode_marshal leaf b))"

definition parentHashInput :: "ParentNode option \<Rightarrow> bytes \<Rightarrow> bytes \<Rightarrow> bytes res" where
  "parentHashInput parent leftHash rightHash =
    bindR (WriteUint8 NodeTypeParent NewBuilder) (\<lambda>b.
    bindR (WriteOptional ParentNode_marshal parent b) (\<lambda>b.
    bindR (Builder_WriteOpaqueV leftHash b) (\<lambda>b.
    Builder_WriteOpaqueV rightHash b)))"

function treeHashExcept :: "Std \<Rightarrow> RatchetTree \<Rightarrow> u32 \<Rightarrow> u32 set \<Rightarrow> bytes res" where
  "treeHashExcept std t i excluded =
    (if \<not> snd (Left i) then
       let leafIndex = i div 2 in
       bindR (goIndex (nodes t) (unat i)) (\<lambda>n.
       bindR (leafHashInput leafIndex (if leafIndex \<in> excluded then None else leafOf n)) (\<lambda>b.
         Ok (Hash std (suite t) b)))
     else
       bindR (Right i (leafCount t)) (\<lambda>(right, _).
       bindR (treeHashExcept std t (fst (Left i)) excluded) (\<lambda>leftHash.
       bindR (treeHashExcept std t right excluded) (\<lambda>rightHash.
       bindR (goIndex (nodes t) (unat i)) (\<lambda>n.
       let parent = map_option (\<lambda>p. if excluded \<noteq> {} then
             p\<lparr>UnmergedLeaves := filterLeaves (UnmergedLeaves p) excluded\<rparr> else p)
             (Option.bind n ParentN) in
       bindR (parentHashInput parent leftHash rightHash) (\<lambda>b.
         Ok (Hash std (suite t) b)))))))"
  by pat_completeness auto
termination
  by (relation "measure (\<lambda>(std, t, i, excluded). level i)") (auto dest: child_levels)

declare treeHashExcept.simps [simp del]

definition TreeHash :: "Std \<Rightarrow> RatchetTree \<Rightarrow> u32 \<Rightarrow> bytes res" where
  "TreeHash std t i = treeHashExcept std t i {}"

definition RootTreeHash :: "Std \<Rightarrow> RatchetTree \<Rightarrow> bytes res" where
  "RootTreeHash std t = TreeHash std t (Root (leafCount t))"

section \<open>Parent hashes\<close>

definition leafSet :: "u32 list \<Rightarrow> u32 set" where
  "leafSet leaves = set leaves"

text \<open>\<^verbatim>\<open>t.nodes[pi].Parent\<close>, dereferenced.\<close>

definition parentAt :: "RatchetTree \<Rightarrow> u32 \<Rightarrow> ParentNode res" where
  "parentAt t pi =
    bindR (goIndex (nodes t) (unat pi)) (\<lambda>n.
    bindR (fromOption PanicNil n) (\<lambda>nd. fromOption PanicNil (ParentN nd)))"

definition parentHashOf :: "Std \<Rightarrow> RatchetTree \<Rightarrow> u32 \<Rightarrow> u32 \<Rightarrow> bytes res" where
  "parentHashOf std t pi si =
    bindR (parentAt t pi) (\<lambda>p.
    bindR (treeHashExcept std t si (leafSet (UnmergedLeaves p))) (\<lambda>origSibHash.
    bindR (Builder_WriteOpaqueV (par_EncryptionKey p) NewBuilder) (\<lambda>b.
    bindR (Builder_WriteOpaqueV (par_ParentHash p) b) (\<lambda>b.
    bindR (Builder_WriteOpaqueV origSibHash b) (\<lambda>b.
      Ok (Hash std (suite t) b))))))"

definition nodeParentHash :: "RatchetTree \<Rightarrow> u32 \<Rightarrow> (bytes \<times> bool) res" where
  "nodeParentHash t i =
    bindR (goIndex (nodes t) (unat i)) (\<lambda>n.
      case n of
        None \<Rightarrow> Ok ([], False)
      | Some nd \<Rightarrow>
          (case Leaf nd of
             Some l \<Rightarrow>
               if LeafNodeSource l = LeafNodeSourceCommit then Ok (leaf_ParentHash l, True)
               else Ok ([], False)
           | None \<Rightarrow>
               bindR (fromOption PanicNil (ParentN nd)) (\<lambda>p. Ok (par_ParentHash p, True))))"

definition subtreeContains :: "u32 \<Rightarrow> u32 \<Rightarrow> bool" where
  "subtreeContains root nd =
    (let half = push_bit (level root) 1 - 1 in
     nd \<ge> root - half \<and> nd \<le> root + half)"

primrec matchLoop ::
  "RatchetTree \<Rightarrow> u32 \<Rightarrow> u32 set \<Rightarrow> bytes \<Rightarrow> u32 list \<Rightarrow> u32 list \<Rightarrow> bool res" where
  "matchLoop t ci excluded want res [] = Ok False"
| "matchLoop t ci excluded want res (d # ds) =
    bindR (nodeParentHash t d) (\<lambda>(ph, ok).
      if \<not> ok \<or> ph \<noteq> want then matchLoop t ci excluded want res ds
      else
        let expected = {ni \<in> (\<lambda>l. 2 * l) ` excluded. subtreeContains ci ni};
            actual = set res - {d} in
        if actual = expected then Ok True else matchLoop t ci excluded want res ds)"

definition hasParentHashMatch :: "Std \<Rightarrow> RatchetTree \<Rightarrow> u32 \<Rightarrow> u32 \<Rightarrow> u32 \<Rightarrow> bool res" where
  "hasParentHashMatch std t pi ci si =
    bindR (parentHashOf std t pi si) (\<lambda>want.
    bindR (Resolution t ci) (\<lambda>res.
    bindR (parentAt t pi) (\<lambda>p.
      matchLoop t ci (leafSet (UnmergedLeaves p)) want res res)))"

primrec verifyLoop :: "Std \<Rightarrow> RatchetTree \<Rightarrow> u32 list \<Rightarrow> bool res" where
  "verifyLoop std t [] = Ok True"
| "verifyLoop std t (i # is) =
    bindR (goIndex (nodes t) (unat i)) (\<lambda>n.
      if Option.bind n ParentN = None then verifyLoop std t is
      else
        bindR (Right i (leafCount t)) (\<lambda>(r, _).
        let l = fst (Left i) in
        bindR (hasParentHashMatch std t i l r) (\<lambda>okL.
        bindR (hasParentHashMatch std t i r l) (\<lambda>okR.
          if okL = okR then Ok False else verifyLoop std t is))))"

definition VerifyParentHashes :: "Std \<Rightarrow> RatchetTree \<Rightarrow> bool res" where
  "VerifyParentHashes std t = verifyLoop std t (map of_nat [0..<unat (Width t)])"

section \<open>Leaf signatures\<close>

definition LeafNode_verifySignature ::
  "Std \<Rightarrow> Suite \<Rightarrow> LeafNode \<Rightarrow> bytes \<Rightarrow> u32 \<Rightarrow> bool res" where
  "LeafNode_verifySignature std s l groupID leafIndex =
    bindR (LeafNode_tbs l groupID leafIndex) (\<lambda>tbs.
      Ok (VerifyWithLabel std s (SignatureKey l) ''LeafNodeTBS'' tbs (leaf_Signature l)))"

definition SignLeafNode ::
  "Std \<Rightarrow> Suite \<Rightarrow> Signer \<Rightarrow> LeafNode \<Rightarrow> bytes \<Rightarrow> u32 \<Rightarrow> LeafNode res" where
  "SignLeafNode std s signer ln groupID leafIndex =
    bindR (LeafNode_tbs ln groupID leafIndex) (\<lambda>tbs.
    bindR (SignWithLabel std s signer ''LeafNodeTBS'' tbs) (\<lambda>sig.
      Ok (ln\<lparr>leaf_Signature := sig\<rparr>)))"

primrec verifyLeaves ::
  "Std \<Rightarrow> Suite \<Rightarrow> bytes \<Rightarrow> nat \<Rightarrow> bytes set \<Rightarrow> bytes set \<Rightarrow> Node option list \<Rightarrow> unit res" where
  "verifyLeaves std s groupID i sigKeys encKeys [] = Ok ()"
| "verifyLeaves std s groupID i sigKeys encKeys (n # ns) =
    (case leafOf n of
       None \<Rightarrow> verifyLeaves std s groupID (Suc i) sigKeys encKeys ns
     | Some l \<Rightarrow>
         bindR (LeafNode_verifySignature std s l groupID (of_nat i)) (\<lambda>ok.
           if \<not> ok then Err ''tree: invalid signature on leaf''
           else if SignatureKey l \<in> sigKeys then Err ''tree: duplicate signature_key at leaf''
           else if leaf_EncryptionKey l \<in> encKeys then Err ''tree: duplicate encryption_key at leaf''
           else verifyLeaves std s groupID (Suc i) (insert (SignatureKey l) sigKeys)
             (insert (leaf_EncryptionKey l) encKeys) ns))"

definition VerifyLeafSignatures :: "Std \<Rightarrow> RatchetTree \<Rightarrow> bytes \<Rightarrow> unit res" where
  "VerifyLeafSignatures std t groupID =
    verifyLeaves std (suite t) groupID 0 {} {} (evens (nodes t))"

end
