(* ===== verification/TreePath.thy ===== *)
theory TreePath
  imports RatchetTree TreeSync
begin

text \<open>
  Direct paths in the ratchet tree.  The array of a ratchet tree always has
  \<open>2 ^ (h + 1) - 1\<close> slots; in such a full tree the climb by \<^verbatim>\<open>Parent\<close> visits exactly the
  ancestors of a node.  The loops of the code that climb (blanking a path, adding
  an unmerged leaf, collecting a filtered path) are folds over that path.
\<close>

section \<open>Ancestors\<close>

definition ancestorOf :: "nat \<Rightarrow> nat \<Rightarrow> bool" where
  "ancestorOf a x \<longleftrightarrow> nlevel x < nlevel a \<and> npos a = npos x div 2 ^ (nlevel a - nlevel x)"

function directPath :: "u32 \<Rightarrow> u32 \<Rightarrow> u32 \<Rightarrow> u32 list res" where
  "directPath leaves root x =
    (if x = root then Ok []
     else bindR (Parent x leaves) (\<lambda>(p, ok).
       if \<not> ok then Ok []
       else bindR (directPath leaves root p) (\<lambda>ps. Ok (p # ps))))"
  by pat_completeness auto
termination
proof (relation "measure (\<lambda>(leaves, root, x). 32 - level x)")
  fix leaves root x :: u32 and y p ok
  assume "Parent x leaves = Inr y" "(p, ok) = y" "\<not> \<not> ok"
  then have "level x < level p" using Parent_Ok by auto
  then show "((leaves, root, p), (leaves, root, x)) \<in> measure (\<lambda>(leaves, root, x). 32 - level x)"
    using level_le [of p] by simp
qed simp

declare directPath.simps [simp del]

lemma climb_root [simp]:
  "directPath leaves r r = Ok []" "blankPath leaves r r ns = Ok ns"
  "addUnmerged l leaves r r ns = Ok ns"
  by (simp_all add: directPath.simps [of leaves r r] blankPath.simps [of leaves r r]
      addUnmerged.simps [of l leaves r r])

definition blankAt :: "Node option list \<Rightarrow> u32 \<Rightarrow> Node option list res" where
  "blankAt ns p = goUpdate ns (unat p) None"

lemma blankPath_fold:
  "directPath leaves root x = Ok ps \<Longrightarrow> blankPath leaves root x ns = foldR blankAt ns ps"
proof (induction leaves root x arbitrary: ps ns rule: directPath.induct)
  case (1 leaves root x)
  show ?case
  proof (cases "x = root")
    case True
    with 1 show ?thesis by simp
  next
    case False
    with "1.prems" obtain p ok where p: "Parent x leaves = Ok (p, ok)"
      by (auto simp: directPath.simps [of leaves root x] bindR_Inr_iff)
    show ?thesis
    proof (cases ok)
      case True
      with "1.prems" p False obtain qs where qs: "directPath leaves root p = Ok qs" "ps = p # qs"
        by (auto simp: directPath.simps [of leaves root x] bindR_Inr_iff)
      have "blankPath leaves root p = (\<lambda>ns'. foldR blankAt ns' qs)"
        using "1.IH" [OF False p refl _ qs(1)] True by (intro ext) simp
      with p False True qs show ?thesis
        by (simp add: blankPath.simps [of leaves root x] blankAt_def [of ns p])
    qed (use "1.prems" p False in
        \<open>simp add: directPath.simps [of leaves root x] blankPath.simps [of leaves root x]\<close>)
  qed
qed

definition unmergedAt :: "u32 \<Rightarrow> Node option list \<Rightarrow> u32 \<Rightarrow> Node option list res" where
  "unmergedAt l ns p = bindR (goIndex ns (unat p)) (\<lambda>n.
     Ok (case n of
           Some nd \<Rightarrow>
             (case ParentN nd of
                Some pn \<Rightarrow>
                  ns[unat p := Some (nd\<lparr>ParentN :=
                    Some (pn\<lparr>UnmergedLeaves := insertSorted l (UnmergedLeaves pn)\<rparr>)\<rparr>)]
              | None \<Rightarrow> ns)
         | None \<Rightarrow> ns))"

lemma addUnmerged_fold:
  "directPath leaves root x = Ok ps \<Longrightarrow>
    addUnmerged l leaves root x ns = foldR (unmergedAt l) ns ps"
proof (induction leaves root x arbitrary: ps ns rule: directPath.induct)
  case (1 leaves root x)
  show ?case
  proof (cases "x = root")
    case True
    with 1 show ?thesis by simp
  next
    case False
    with "1.prems" obtain p ok where p: "Parent x leaves = Ok (p, ok)"
      by (auto simp: directPath.simps [of leaves root x] bindR_Inr_iff)
    show ?thesis
    proof (cases ok)
      case True
      with "1.prems" p False obtain qs where qs: "directPath leaves root p = Ok qs" "ps = p # qs"
        by (auto simp: directPath.simps [of leaves root x] bindR_Inr_iff)
      have "addUnmerged l leaves root p ns' = foldR (unmergedAt l) ns' qs" for ns'
        using "1.IH" [OF False p refl _ qs(1)] True by simp
      with p False True qs show ?thesis
        by (simp add: addUnmerged.simps [of l leaves root x] unmergedAt_def [of l ns p] bindR_assoc)
    qed (use "1.prems" p False in
        \<open>simp add: directPath.simps [of leaves root x] addUnmerged.simps [of l leaves root x]\<close>)
  qed
qed

lemma full_parent:
  assumes n: "unat n = 2 ^ h" "h \<le> 31" and "x < NodeWidth n" "x \<noteq> Root n" and x: "unat x = node k q"
  shows "k < h \<and> q < 2 ^ (h - k) \<and>
    (\<exists>p. Parent x n = Ok (p, True) \<and> unat p = node (Suc k) (q div 2) \<and> p < NodeWidth n)"
proof -
  note f = full_count [OF n]
  have b: "Suc (node k q) < 2 ^ Suc h"
    using f(2) assms(3) x by (simp add: word_less_nat_alt)
  then have kq: "k \<le> h" "q < 2 ^ (h - k)" by (simp_all only: node_bound)
  have "k \<noteq> h"
    using kq(2) Root_nat [OF f(1)] f(3) x assms(4) by (auto simp: word_unat_eq_iff)
  with kq have k: "k < h" by simp
  have "Suc (node (Suc k) (q div 2)) < 2 ^ Suc h" by (rule node_parent_bound [OF b k])
  then have i: "node (Suc k) (q div 2) < unat (NodeWidth n)" using f(2) by simp
  have "\<exists>p. Parent x n = Ok (p, True) \<and> unat p = node (k + 1) (q div 2 ^ 1)"
    by (rule Parent_climb [OF f(1) x]) (use k kq i f(3) in auto)
  with i k kq show ?thesis by (auto simp: word_less_nat_alt)
qed

lemma directPath_full:
  assumes n: "unat n = 2 ^ h" "h \<le> 31" and "x < NodeWidth n" and "unat x = node k q"
  shows "\<exists>ps. directPath n (Root n) x = Ok ps \<and> k \<le> h \<and>
    map unat ps = map (\<lambda>i. node (k + i) (q div 2 ^ i)) [1..<Suc (h - k)]"
  using assms(3,4)
proof (induction "h - k" arbitrary: x k q)
  case 0
  then have "x = Root n" using full_parent [OF n 0(2) _ 0(3)] by auto
  moreover have "k = h"
    using Root_nat [OF full_count(1) [OF n]] full_count(3) [OF n] 0(3) \<open>x = Root n\<close> by simp
  ultimately show ?case by simp
next
  case (Suc d)
  then have k: "k < h" by simp
  then have "x \<noteq> Root n"
    using Root_nat [OF full_count(1) [OF n]] full_count(3) [OF n] Suc.prems by auto
  then obtain p where p: "Parent x n = Ok (p, True)" "unat p = node (Suc k) (q div 2)"
      "p < NodeWidth n"
    using full_parent [OF n Suc.prems(1) _ Suc.prems(2)] by auto
  have "d = h - Suc k" using Suc.hyps by simp
  with Suc.hyps(1) [OF _ p(3,2)] obtain ps where ps: "directPath n (Root n) p = Ok ps"
      "map unat ps = map (\<lambda>i. node (Suc k + i) (q div 2 div 2 ^ i)) [1..<Suc (h - Suc k)]"
    by auto
  have "h - k = Suc (h - Suc k)" using k by simp
  then have "[1..<Suc (h - k)] = 1 # map Suc [1..<Suc (h - Suc k)]"
    by (simp only:) (simp add: map_Suc_upt upt_conv_Cons del: upt_Suc)
  then have "map (\<lambda>i. node (k + i) (q div 2 ^ i)) [1..<Suc (h - k)] =
      node (Suc k) (q div 2) # map unat ps"
    by (simp add: ps(2) o_def div_mult2_eq)
  with p ps k \<open>x \<noteq> Root n\<close> show ?case
    by (simp add: directPath.simps [of n "Root n" x])
qed


lemma ancestor_node:
  "ancestorOf a (node k q) \<longleftrightarrow> (\<exists>i>0. a = node (k + i) (q div 2 ^ i))"
proof
  assume "ancestorOf a (node k q)"
  then have "k < nlevel a" "npos a = q div 2 ^ (nlevel a - k)"
    by (auto simp: ancestorOf_def)
  then show "\<exists>i>0. a = node (k + i) (q div 2 ^ i)"
    using node_nlevel [of a] by (intro exI [of _ "nlevel a - k"]) auto
qed (auto simp: ancestorOf_def)

lemma ancestor_in_range:
  assumes "Suc (node k q) < 2 ^ Suc h" "0 < i"
  shows "node (k + i) (q div 2 ^ i) < 2 ^ Suc h - 1 \<longleftrightarrow> k + i \<le> h"
proof -
  have "node (k + i) (q div 2 ^ i) < 2 ^ Suc h - 1 \<longleftrightarrow>
      Suc (node (k + i) (q div 2 ^ i)) < 2 ^ Suc h"
    by linarith
  also have "\<dots> \<longleftrightarrow> k + i \<le> h \<and> q div 2 ^ i < 2 ^ (h - (k + i))"
    by (simp only: node_bound)
  also have "\<dots> \<longleftrightarrow> k + i \<le> h"
  proof -
    have "q < 2 ^ (h - k)" using assms(1) by (simp only: node_bound)
    then have "q div 2 ^ i < 2 ^ (h - (k + i))" if "k + i \<le> h"
    proof -
      have "h - k = (h - (k + i)) + i" using that by simp
      with \<open>q < 2 ^ (h - k)\<close> have "q < 2 ^ (h - (k + i)) * 2 ^ i"
        by (simp only: power_add)
      then show ?thesis by (simp add: less_mult_imp_div_less)
    qed
    then show ?thesis by blast
  qed
  finally show ?thesis .
qed

text \<open>The direct path visits every ancestor in the tree, each once.\<close>

lemma directPath_ancestors:
  assumes n: "unat n = 2 ^ h" "h \<le> 31" and "x < NodeWidth n"
  obtains ps where "directPath n (Root n) x = Ok ps" "distinct ps"
    "\<And>p. p \<in> set ps \<longleftrightarrow> ancestorOf (unat p) (unat x) \<and> p < NodeWidth n"
proof -
  obtain k q where x: "unat x = node k q" by (rule coord_exists)
  note f = full_count [OF n]
  have b: "Suc (node k q) < 2 ^ Suc h"
    using f(2) assms(3) x by (simp add: word_less_nat_alt)
  obtain ps where ps: "directPath n (Root n) x = Ok ps" "k \<le> h"
      "map unat ps = map (\<lambda>i. node (k + i) (q div 2 ^ i)) [1..<Suc (h - k)]"
    using directPath_full [OF n assms(3) x] by auto
  have "distinct (map unat ps)"
    unfolding ps(3) by (auto simp: distinct_map inj_on_def)
  then have "distinct ps" by (simp add: distinct_map)
  moreover have "p \<in> set ps \<longleftrightarrow> ancestorOf (unat p) (unat x) \<and> p < NodeWidth n" for p
  proof -
    have "p \<in> set ps \<longleftrightarrow> unat p \<in> set (map unat ps)"
      by (auto dest!: word_unat_eq_iff [THEN iffD2])
    also have "\<dots> \<longleftrightarrow> (\<exists>i>0. k + i \<le> h \<and> unat p = node (k + i) (q div 2 ^ i))"
    proof -
      have "set [1..<Suc (h - k)] = {i. 0 < i \<and> k + i \<le> h}"
        using ps(2) by (auto simp del: upt_Suc)
      then show ?thesis unfolding ps(3) set_map image_def by (auto simp del: upt_Suc)
    qed
    also have "\<dots> \<longleftrightarrow> (\<exists>i>0. unat p = node (k + i) (q div 2 ^ i)) \<and> unat p < 2 ^ Suc h - 1"
      using ancestor_in_range [OF b] by (auto simp del: power_Suc)
    also have "\<dots> \<longleftrightarrow> ancestorOf (unat p) (unat x) \<and> p < NodeWidth n"
      unfolding x ancestor_node word_less_nat_alt f(2) ..
    finally show ?thesis .
  qed
  ultimately show ?thesis using that ps(1) by blast
qed


section \<open>Subtrees as intervals\<close>

text \<open>The interval test of \<^verbatim>\<open>subtreeContains\<close> decides descent.\<close>

lemma interval_ancestor:
  "2 ^ Suc k' * q' \<le> node k q \<and> Suc (node k q) < 2 ^ Suc k' * q' + 2 ^ Suc k' \<longleftrightarrow>
    k \<le> k' \<and> q' = q div 2 ^ (k' - k)"
proof (cases "k \<le> k'")
  case True
  then obtain d where d: "k' = k + d" using le_Suc_ex by blast
  define r where "r = q mod 2 ^ d"
  define c where "c = q div 2 ^ d"
  have r: "r < 2 ^ d" by (simp add: r_def)
  have q: "q = 2 ^ d * c + r" by (simp add: r_def c_def)
  define M where "M = (2 :: nat) ^ Suc k'"
  have M: "M = 2 ^ Suc k * 2 ^ d" by (simp add: M_def d power_add)
  have low: "2 ^ Suc k * r + 2 ^ k < M"
  proof -
    have "2 ^ Suc k * r + 2 ^ Suc k \<le> M"
      unfolding M using mult_le_mono2 [of "r + 1" "2 ^ d" "2 ^ Suc k"] r by simp
    moreover have "(2 :: nat) ^ k < 2 ^ Suc k" by simp
    ultimately show ?thesis by linarith
  qed
  have "Suc (node k q) = M * c + (2 ^ Suc k * r + 2 ^ k)"
    unfolding Suc_node q M by (simp add: algebra_simps)
  moreover have "(0 :: nat) < 2 ^ k" by simp
  ultimately have x: "node k q = M * c + (2 ^ Suc k * r + 2 ^ k - 1)"
    "Suc (node k q) = M * c + (2 ^ Suc k * r + 2 ^ k)" by linarith+
  have "M * q' \<le> node k q \<and> Suc (node k q) < M * q' + M \<longleftrightarrow> q' = c"
  proof
    assume a: "M * q' \<le> node k q \<and> Suc (node k q) < M * q' + M"
    define R where "R = 2 ^ Suc k * r + 2 ^ k"
    have "M * q' < M * c + M" "M * c < M * q' + M"
      using a x(2) low unfolding R_def [symmetric] by (simp_all only:) auto
    then have "M * q' < M * (c + 1)" "M * c < M * (q' + 1)" by simp_all
    then have "q' < c + 1" "c < q' + 1" by (simp_all only: mult_less_cancel1)
    then show "q' = c" by simp
  qed (use x low in auto)
  then show ?thesis using True d by (simp add: M_def c_def)
next
  case False
  then obtain e where e: "k = Suc k' + e" using le_Suc_ex [of "Suc k'" k] by auto
  have "\<not> (2 ^ Suc k' * q' \<le> node k q \<and> Suc (node k q) < 2 ^ Suc k' * q' + 2 ^ Suc k')"
  proof
    define M where "M = (2 :: nat) ^ Suc k'"
    assume "2 ^ Suc k' * q' \<le> node k q \<and> Suc (node k q) < 2 ^ Suc k' * q' + 2 ^ Suc k'"
    then have "M * q' < Suc (node k q)" "Suc (node k q) < M * (q' + 1)" by (auto simp: M_def)
    moreover have "Suc (node k q) = M * (2 ^ e * (2 * q + 1))"
      unfolding Suc_node e M_def by (simp add: power_add algebra_simps)
    ultimately have "q' < 2 ^ e * (2 * q + 1)" "2 ^ e * (2 * q + 1) < q' + 1"
      by (simp_all only: mult_less_cancel1)
    then show False by simp
  qed
  with False show ?thesis by simp
qed

lemma subtreeContains_iff:
  assumes "level a \<le> 31"
  shows "subtreeContains a x \<longleftrightarrow> x = a \<or> ancestorOf (unat a) (unat x)"
proof -
  obtain k' q' where a: "unat a = node k' q'" by (rule coord_exists)
  obtain k q where x: "unat x = node k q" by (rule coord_exists)
  have k': "k' \<le> 31" using assms level_coord [OF a] by simp
  define M where "M = (2 :: nat) ^ k'"
  have M1: "1 \<le> M" by (simp add: M_def)
  have A: "unat a = 2 * M * q' + (M - 1)" using a by (simp add: node_def M_def)
  have "Suc (node k' q') < 2 ^ Suc 31" by (rule coord_below_top [OF a k'])
  then have "q' < 2 ^ (31 - k')" by (simp only: node_bound)
  then have "2 * M * (q' + 1) \<le> 2 * M * 2 ^ (31 - k')" by (intro mult_le_mono2) simp
  also have "\<dots> = 2 ^ 32"
  proof -
    have "M * 2 ^ (31 - k') = 2 ^ 31" unfolding M_def using k' by (simp add: power_add [symmetric])
    then show ?thesis by simp
  qed
  finally have top: "2 * M * q' + 2 * M \<le> 4294967296" by simp
  define half where "half = push_bit k' (1 :: u32) - 1"
  have "unat (push_bit k' (1 :: u32)) = M"
    unfolding M_def using k' by (intro unat_push_bit_1) simp
  moreover from this have "push_bit k' (1 :: u32) \<noteq> 0" using M1 by (metis not_one_le_zero unsigned_0)
  ultimately have h: "unat half = M - 1"
    unfolding half_def using unat_minus_one [of "push_bit k' (1 :: u32)"] by simp
  have lo: "unat (a - half) = 2 * M * q'"
    using h A by (subst unat_sub) (auto simp: word_le_nat_alt)
  have hi: "unat (a + half) = 2 * M * q' + 2 * (M - 1)"
    using h A top M1 unat_add_lem [of a half] by auto
  have "subtreeContains a x \<longleftrightarrow> 2 * M * q' \<le> unat x \<and> unat x \<le> 2 * M * q' + 2 * (M - 1)"
    unfolding subtreeContains_def level_coord [OF a] half_def [symmetric] Let_def word_le_nat_alt lo hi ..
  also have "\<dots> \<longleftrightarrow> 2 ^ Suc k' * q' \<le> node k q \<and> Suc (node k q) < 2 ^ Suc k' * q' + 2 ^ Suc k'"
    unfolding x using M1 by (simp only: M_def [symmetric] power_Suc) auto
  also have "\<dots> \<longleftrightarrow> x = a \<or> ancestorOf (unat a) (unat x)"
    unfolding interval_ancestor using a x by (auto simp: word_unat_eq_iff ancestorOf_def)
  finally show ?thesis .
qed

end
