(* ===== verification/TreeOps.thy ===== *)
theory TreeOps
  imports TreePath
begin

text \<open>
  What the leaf operations of \<^verbatim>\<open>src/mls/tree/mutate.go\<close> do to a tree: functional
  behaviour of Update, Remove and Add at every array index, the structural
  invariant \<open>treeInv\<close> they keep, and the round trip through \<^verbatim>\<open>MarshalMLS\<close> and
  \<^verbatim>\<open>ParseRatchetTree\<close> that \<^verbatim>\<open>Clone\<close> relies on.  Trees of up to \<open>2 ^ 30\<close> leaves are
  covered; beyond that the 32-bit leaf count of the code wraps.
\<close>

section \<open>Full trees\<close>

definition fullTree :: "nat \<Rightarrow> RatchetTree \<Rightarrow> bool" where
  "fullTree h t \<longleftrightarrow> h \<le> 30 \<and> length (nodes t) = 2 ^ Suc h - 1"

lemma pow31: "h \<le> 30 \<Longrightarrow> (2 :: nat) ^ Suc h \<le> 2147483648"
  using power_increasing [of "Suc h" 31 "2 :: nat"] by simp

lemma unat_len32: "length xs < 4294967296 \<Longrightarrow> unat (len32 xs) = length xs"
  by (simp add: len32_def unsigned_of_nat take_bit_nat_eq_self_iff)

lemma unat_half: "unat ((w + 1) div 2 :: u32) = Suc (unat w) div 2" if "unat w < 4294967295"
proof -
  have "unat (w + 1) = Suc (unat w)"
    using that unat_add_lem [of w 1] by simp
  then show ?thesis by (simp add: unat_div)
qed

lemma fullTree_counts:
  assumes "length ns = 2 ^ Suc h - 1" "h \<le> 30"
  shows "unat (len32 ns) = 2 ^ Suc h - 1" "unat ((len32 ns + 1) div 2) = 2 ^ h"
    "NodeWidth ((len32 ns + 1) div 2) = len32 ns"
proof -
  have p: "(2 :: nat) ^ Suc h \<le> 2147483648" by (rule pow31 [OF assms(2)])
  then show w: "unat (len32 ns) = 2 ^ Suc h - 1"
    using assms by (subst unat_len32) auto
  with p have "unat (len32 ns) < 4294967295" by simp
  then show c: "unat ((len32 ns + 1) div 2) = 2 ^ h"
    using w by (simp add: unat_half)
  show "NodeWidth ((len32 ns + 1) div 2) = len32 ns"
    using full_count(2) [OF c] w assms(2) by (simp add: word_unat_eq_iff)
qed

lemma fullTree_width:
  assumes "fullTree h t"
  shows "unat (Width t) = length (nodes t)" "unat (leafCount t) = 2 ^ h"
    "NodeWidth (leafCount t) = Width t"
  using fullTree_counts [of "nodes t" h] assms by (auto simp: fullTree_def Width_def leafCount_def)

section \<open>Folding over a direct path\<close>

lemma blank_fold:
  assumes "\<And>p. p \<in> set ps \<Longrightarrow> unat p < length ns"
  shows "\<exists>ns'. foldR blankAt ns ps = Ok ns' \<and> length ns' = length ns \<and>
    (\<forall>i<length ns. ns' ! i = (if i \<in> unat ` set ps then None else ns ! i))"
  using assms
proof (induction ps arbitrary: ns)
  case (Cons p ps)
  then obtain ns' where "foldR blankAt (ns[unat p := None]) ps = Ok ns'"
      "length ns' = length ns"
      "\<forall>i<length ns. ns' ! i = (if i \<in> unat ` set ps then None else ns[unat p := None] ! i)"
    by (metis length_list_update list.set_intros(2))
  moreover have "blankAt ns p = Ok (ns[unat p := None])"
    using Cons.prems [of p] by (simp add: blankAt_def goUpdate_def)
  ultimately show ?case
    by (auto simp: nth_list_update)
qed simp

definition addUnm :: "u32 \<Rightarrow> Node \<Rightarrow> Node" where
  "addUnm l nd = nd\<lparr>ParentN := map_option (\<lambda>pn. pn\<lparr>UnmergedLeaves :=
     insertSorted l (UnmergedLeaves pn)\<rparr>) (ParentN nd)\<rparr>"

lemma list_update_keep: "xs ! i = v \<Longrightarrow> xs = xs[i := v]"
  by auto

lemma unmerged_fold:
  assumes "\<And>p. p \<in> set ps \<Longrightarrow> unat p < length ns" "distinct ps"
  shows "\<exists>ns'. foldR (unmergedAt l) ns ps = Ok ns' \<and> length ns' = length ns \<and>
    (\<forall>i<length ns. ns' ! i =
      (if i \<in> unat ` set ps then map_option (addUnm l) (ns ! i) else ns ! i))"
  using assms
proof (induction ps arbitrary: ns)
  case (Cons p ps)
  define ms where "ms = ns[unat p := map_option (addUnm l) (ns ! unat p)]"
  have same: "nd\<lparr>ParentN := None\<rparr> = nd" if "ParentN nd = None" for nd :: Node
    using that by (cases nd) simp
  have "unmergedAt l ns p = Ok ms"
    using Cons.prems(1) [of p]
    by (auto simp: unmergedAt_def goIndex_def ms_def addUnm_def same split: option.splits
        intro!: list_update_keep)
  moreover obtain ns' where "foldR (unmergedAt l) ms ps = Ok ns'" "length ns' = length ms"
      "\<forall>i<length ms. ns' ! i =
        (if i \<in> unat ` set ps then map_option (addUnm l) (ms ! i) else ms ! i)"
    using Cons.IH [of ms] Cons.prems by (auto simp: ms_def)
  moreover have "unat p \<noteq> unat x" if "x \<in> set ps" for x
    using Cons.prems(2) that by (auto dest: word_unat_eq_iff [THEN iffD2])
  ultimately show ?case
    by (auto simp: ms_def nth_list_update)
qed simp


section \<open>Update\<close>

lemma leaf_node_level: "even i \<longleftrightarrow> nlevel i = 0"
  by (simp add: nlevel.simps [of i])

lemma ancestor_odd: "ancestorOf a x \<Longrightarrow> odd a"
  by (auto simp: ancestorOf_def leaf_node_level)

lemma climb_from_leaf:
  assumes "length ns = 2 ^ Suc h - 1" "h \<le> 30" and "unat x < length ns"
    and n: "n = (len32 ns + 1) div 2"
  shows "\<exists>ps. directPath n (Root n) x = Ok ps \<and> distinct ps \<and>
    (\<forall>i<length ns. i \<in> unat ` set ps \<longleftrightarrow> ancestorOf i (unat x)) \<and>
    (\<forall>p\<in>set ps. unat p < length ns)"
proof -
  note c = fullTree_counts [OF assms(1,2), folded n]
  have w: "p < NodeWidth n \<longleftrightarrow> unat p < length ns" for p
    unfolding c(3) word_less_nat_alt c(1) assms(1) ..
  have h: "h \<le> 31" using assms(2) by simp
  have "x < NodeWidth n" using assms(3) w by simp
  then obtain ps where ps: "directPath n (Root n) x = Ok ps" "distinct ps"
    "\<And>p. p \<in> set ps \<longleftrightarrow> ancestorOf (unat p) (unat x) \<and> p < NodeWidth n"
    using directPath_ancestors [OF c(2) h] by blast
  have "i \<in> unat ` set ps \<longleftrightarrow> ancestorOf i (unat x)" if i: "i < length ns" for i
  proof -
    have "i < 4294967296" using i pow31 [OF assms(2)] assms(1) by simp
    then have u: "unat (of_nat i :: u32) = i"
      by (simp add: unsigned_of_nat take_bit_nat_eq_self_iff)
    show ?thesis
    proof
      assume "ancestorOf i (unat x)"
      then have "of_nat i \<in> set ps" using ps(3) w i u by simp
      with u show "i \<in> unat ` set ps" by (metis imageI)
    qed (use ps(3) in auto)
  qed
  with ps w show ?thesis by blast
qed

lemma UpdateLeaf_spec:
  assumes t: "fullTree h t" and l: "2 * unat leaf < length (nodes t)"
  shows "\<exists>ns. UpdateLeaf t leaf ln = Ok (t\<lparr>nodes := ns\<rparr>) \<and> length ns = length (nodes t) \<and>
    (\<forall>i<length ns. ns ! i = (if i = 2 * unat leaf then leafEntry ln
      else if ancestorOf i (2 * unat leaf) then None else nodes t ! i))"
proof -
  let ?ns = "(nodes t)[2 * unat leaf := leafEntry ln]"
  have f: "h \<le> 30" "length ?ns = 2 ^ Suc h - 1" using t by (auto simp: fullTree_def)
  have "2 * unat leaf < 4294967296" using l f pow31 [OF f(1)] by simp
  then have u: "unat (2 * leaf) = 2 * unat leaf" by (simp add: unat_u32_double)
  have c: "leafCount t = (len32 ?ns + 1) div 2" by (simp add: leafCount_def len32_def)
  obtain ps where ps: "directPath (leafCount t) (Root (leafCount t)) (2 * leaf) = Ok ps"
    "\<forall>i<length ?ns. i \<in> unat ` set ps \<longleftrightarrow> ancestorOf i (2 * unat leaf)"
    "\<forall>p\<in>set ps. unat p < length ?ns"
    using climb_from_leaf [OF f(2,1) _ c, of "2 * leaf"] u l by auto
  obtain ns where ns: "foldR blankAt ?ns ps = Ok ns" "length ns = length ?ns"
    "\<forall>i<length ?ns. ns ! i = (if i \<in> unat ` set ps then None else ?ns ! i)"
    using blank_fold [of ps ?ns] ps(3) by auto
  have "UpdateLeaf t leaf ln = Ok (t\<lparr>nodes := ns\<rparr>)"
    using l u ns(1) fullTree_width(1) [OF t] blankPath_fold [OF ps(1), of ?ns]
    by (simp add: UpdateLeaf_def word_le_nat_alt goUpdate_def Let_def)
  moreover have "\<not> ancestorOf (2 * unat leaf) (2 * unat leaf)"
    by (simp add: ancestorOf_def)
  ultimately show ?thesis
    using ns ps(2) by (auto simp: nth_list_update)
qed

lemma UpdateLeaf_out_of_range:
  assumes "fullTree h t" "length (nodes t) \<le> unat (2 * leaf)"
  shows "UpdateLeaf t leaf ln = Err ''tree: UpdateLeaf: leaf out of range''"
  using assms fullTree_width(1) [OF assms(1)] by (simp add: UpdateLeaf_def word_le_nat_alt)


section \<open>Width\<close>

lemma fullWidthLoop_spec:
  assumes "unat w = 2 ^ Suc j - 1" "j \<le> 31"
  shows "\<exists>v k. fullWidthLoop n w = Some v \<and> unat v = 2 ^ Suc k - 1 \<and> j \<le> k \<and> k \<le> 31 \<and>
    unat n \<le> unat v \<and> (k = j \<or> 2 ^ k - 1 < unat n)"
  using assms
proof (induction "31 - j" arbitrary: j w)
  case 0
  then have "unat w = 4294967295" by simp
  then have "\<not> w < n" using unat_u32_less [of n] by (simp add: word_less_nat_alt)
  with 0 show ?case
    by (intro exI [of _ w] exI [of _ 31]) (auto simp: fullWidthLoop.simps [of n w] word_less_nat_alt)
next
  case (Suc d)
  show ?case
  proof (cases "w < n")
    case True
    have j: "j < 31" using Suc by simp
    have "(2 :: nat) ^ Suc (Suc j) \<le> 2 ^ 32" using j by (intro power_increasing) auto
    then have p: "unat w < 2147483648" "2 * unat w + 1 < 4294967296" using Suc.prems by auto
    have "unat (2 * w + 1) = 2 * unat w + 1"
      using p unat_u32_double [of w] unat_add_lem [of "2 * w" 1] by simp
    also have "\<dots> = 2 ^ Suc (Suc j) - 1"
    proof -
      have "(2 :: nat) * (2 * a - 1) + 1 = 2 * (2 * a) - 1" if "1 \<le> a" for a
        using that by linarith
      then show ?thesis using Suc.prems(1) by simp
    qed
    finally have w': "unat (2 * w + 1) = 2 ^ Suc (Suc j) - 1" .
    have "d = 31 - Suc j" using Suc.hyps by simp
    moreover have "Suc j \<le> 31" using j by simp
    ultimately obtain v k where
      v: "fullWidthLoop n (2 * w + 1) = Some v" "unat v = 2 ^ Suc k - 1" "Suc j \<le> k" "k \<le> 31"
        "unat n \<le> unat v" "k = Suc j \<or> 2 ^ k - 1 < unat n"
      using Suc.hyps(1) [OF _ w'] by blast
    moreover have "2 ^ Suc j - 1 < unat n"
      using True Suc.prems(1) by (simp add: word_less_nat_alt)
    ultimately show ?thesis
      using True by (intro exI [of _ v] exI [of _ k]) (auto simp: fullWidthLoop.simps [of n w])
  next
    case False
    with Suc.prems show ?thesis
      by (intro exI [of _ w] exI [of _ j]) (auto simp: fullWidthLoop.simps [of n w] word_less_nat_alt)
  qed
qed

lemma fullWidth_spec:
  "\<exists>v k. fullWidth n = Ok v \<and> unat v = 2 ^ Suc k - 1 \<and> k \<le> 31 \<and> unat n \<le> unat v \<and>
    (k = 0 \<or> 2 ^ k - 1 < unat n)"
  using fullWidthLoop_spec [of 1 0 n] by (auto simp: fullWidth_def)

definition at :: "'a option list \<Rightarrow> nat \<Rightarrow> 'a option" where
  "at ns i = (if i < length ns then ns ! i else None)"

lemma at_append_blank [simp]: "at (ns @ replicate m None) i = at ns i"
  by (auto simp: at_def nth_append)

lemma at_take: "(\<And>i. m \<le> i \<Longrightarrow> i < length ns \<Longrightarrow> ns ! i = None) \<Longrightarrow> at (take m ns) i = at ns i"
  by (auto simp: at_def)

lemma NodeAt_at: "length (nodes t) < 4294967296 \<Longrightarrow> NodeAt t i = at (nodes t) (unat i)"
  by (simp add: NodeAt_def at_def word_le_nat_alt unat_len32)

lemma truncateTail_spec:
  "ns \<noteq> [] \<Longrightarrow> \<exists>m. truncateTail ns = take m ns \<and> 1 \<le> m \<and> m \<le> length ns \<and>
    (\<forall>i. m \<le> i \<longrightarrow> i < length ns \<longrightarrow> ns ! i = None) \<and> (m = 1 \<or> ns ! (m - 1) \<noteq> None)"
proof (induction ns rule: truncateTail.induct)
  case (1 ns)
  show ?case
  proof (cases "length ns > 1 \<and> last ns = None")
    case True
    then have "butlast ns \<noteq> []" by (cases ns rule: rev_cases) auto
    then obtain m where m: "truncateTail (butlast ns) = take m (butlast ns)" "1 \<le> m"
      "m \<le> length (butlast ns)" "\<forall>i. m \<le> i \<longrightarrow> i < length (butlast ns) \<longrightarrow> butlast ns ! i = None"
      "m = 1 \<or> butlast ns ! (m - 1) \<noteq> None"
      using "1.IH" True by auto
    have "ns ! i = None" if "m \<le> i" "i < length ns" for i
    proof (cases "i = length ns - 1")
      case t: True
      then show ?thesis using True by (cases ns rule: rev_cases) auto
    next
      case False
      then have "i < length (butlast ns)" using that by simp
      then show ?thesis using m(4) that by (simp add: nth_butlast)
    qed
    moreover have "take m (butlast ns) = take m ns" using m(3) by (simp add: butlast_conv_take)
    moreover have "ns ! (m - 1) = butlast ns ! (m - 1)" using m(2,3) by (simp add: nth_butlast)
    ultimately show ?thesis
      using m True by (intro exI [of _ m]) (auto simp: truncateTail.simps [of ns])
  next
    case False
    have "0 < length ns" using "1.prems" by simp
    with False have "length ns = 1 \<or> ns ! (length ns - 1) \<noteq> None"
      unfolding last_conv_nth [OF "1.prems"] using nat_neq_iff by fastforce
    with False \<open>0 < length ns\<close> show ?thesis
      by (intro exI [of _ "length ns"]) (auto simp: truncateTail.simps [of ns] Suc_le_eq)
  qed
qed

lemma repad_spec:
  assumes "1 \<le> length ns" "length ns \<le> 2147483647"
  shows "\<exists>k. repad ns = Ok (ns @ replicate (2 ^ Suc k - 1 - length ns) None) \<and>
    length ns \<le> 2 ^ Suc k - 1 \<and> (k = 0 \<or> 2 ^ k - 1 < length ns)"
proof -
  have l: "unat (len32 ns) = length ns" using assms by (intro unat_len32) simp
  obtain v k where v: "fullWidth (len32 ns) = Ok v" "unat v = 2 ^ Suc k - 1"
    "length ns \<le> unat v" "k = 0 \<or> 2 ^ k - 1 < length ns"
    using fullWidth_spec [of "len32 ns"] unfolding l by blast
  have "unat (v - len32 ns) = unat v - length ns"
    using v(3) l by (simp add: unat_sub word_le_nat_alt)
  then have "repad ns = Ok (ns @ replicate (unat v - length ns) None)"
    using v l by (auto simp: repad_def padTo_def word_less_nat_alt)
  with v show ?thesis by auto
qed


section \<open>Remove\<close>

lemma RemoveLeaf_spec:
  assumes t: "fullTree h t" and l: "2 * unat leaf < length (nodes t)"
  shows "\<exists>ns h'. RemoveLeaf t leaf = Ok (t\<lparr>nodes := ns\<rparr>) \<and> fullTree h' (t\<lparr>nodes := ns\<rparr>) \<and>
    (\<forall>i. at ns i = (if i = 2 * unat leaf \<or> ancestorOf i (2 * unat leaf) then None
      else at (nodes t) i)) \<and> (h' = 0 \<or> (\<exists>i\<ge>2 ^ h' - 1. at ns i \<noteq> None))"
proof -
  let ?ns = "(nodes t)[2 * unat leaf := None]"
  have f: "h \<le> 30" "length ?ns = 2 ^ Suc h - 1" using t by (auto simp: fullTree_def)
  have "2 * unat leaf < 4294967296" using l f pow31 [OF f(1)] by simp
  then have u: "unat (2 * leaf) = 2 * unat leaf" by (simp add: unat_u32_double)
  have c: "leafCount t = (len32 ?ns + 1) div 2" by (simp add: leafCount_def len32_def)
  obtain ps where ps: "directPath (leafCount t) (Root (leafCount t)) (2 * leaf) = Ok ps"
    "\<forall>i<length ?ns. i \<in> unat ` set ps \<longleftrightarrow> ancestorOf i (2 * unat leaf)"
    "\<forall>p\<in>set ps. unat p < length ?ns"
    using climb_from_leaf [OF f(2,1) _ c, of "2 * leaf"] u l by auto
  obtain bs where bs: "foldR blankAt ?ns ps = Ok bs" "length bs = length ?ns"
    "\<forall>i<length ?ns. bs ! i = (if i \<in> unat ` set ps then None else ?ns ! i)"
    using blank_fold [of ps ?ns] ps(3) by auto
  have "bs \<noteq> []" using bs(2) l by auto
  then obtain m where m: "truncateTail bs = take m bs" "1 \<le> m" "m \<le> length bs"
    "\<forall>i. m \<le> i \<longrightarrow> i < length bs \<longrightarrow> bs ! i = None" "m = 1 \<or> bs ! (m - 1) \<noteq> None"
    using truncateTail_spec by blast
  have lb: "length bs \<le> 2147483647" using bs(2) f pow31 [OF f(1)] by simp
  obtain k where k: "repad (take m bs) = Ok (take m bs @ replicate (2 ^ Suc k - 1 - m) None)"
    "m \<le> 2 ^ Suc k - 1" "k = 0 \<or> 2 ^ k - 1 < m"
    using repad_spec [of "take m bs"] m(2,3) lb by auto
  let ?rs = "take m bs @ replicate (2 ^ Suc k - 1 - m) None"
  have atbs: "at ?rs i = at bs i" for i
    unfolding at_append_blank using m(4) by (intro at_take) blast
  have "\<not> h < k"
  proof
    assume "h < k"
    then have "(2 :: nat) ^ Suc h \<le> 2 ^ k" by (intro power_increasing) auto
    with k(3) m(3) bs(2) f(2) \<open>h < k\<close> show False by auto
  qed
  then have full: "fullTree k (t\<lparr>nodes := ?rs\<rparr>)"
    using k(2) m(3) f(1) by (simp add: fullTree_def)
  have "RemoveLeaf t leaf = Ok (t\<lparr>nodes := ?rs\<rparr>)"
    using l u bs(1) fullTree_width(1) [OF t] blankPath_fold [OF ps(1), of ?ns] m(1) k(1)
    by (simp add: RemoveLeaf_def word_le_nat_alt goUpdate_def Let_def)
  moreover have "at ?rs i = (if i = 2 * unat leaf \<or> ancestorOf i (2 * unat leaf) then None
      else at (nodes t) i)" for i
    unfolding atbs using bs(2,3) ps(2) by (auto simp: at_def nth_list_update)
  moreover have "k = 0 \<or> (\<exists>i\<ge>2 ^ k - 1. at ?rs i \<noteq> None)"
  proof (cases "k = 0")
    case False
    then have "(2 :: nat) \<le> 2 ^ k" using power_increasing [of 1 k "2 :: nat"] by simp
    with False k(3) have "2 ^ k - 1 < m" "m \<noteq> 1" by auto
    with m(2,3,5) have "2 ^ k - 1 \<le> m - 1" "at bs (m - 1) \<noteq> None" by (auto simp: at_def)
    then show ?thesis unfolding atbs by blast
  qed simp
  ultimately show ?thesis using full by blast
qed

lemma RemoveLeaf_out_of_range:
  assumes "fullTree h t" "length (nodes t) \<le> unat (2 * leaf)"
  shows "RemoveLeaf t leaf = Err ''tree: RemoveLeaf: leaf out of range''"
  using assms fullTree_width(1) [OF assms(1)] by (simp add: RemoveLeaf_def word_le_nat_alt)


section \<open>Add\<close>

lemma length_evens: "length (evens ns) = (length ns + 1) div 2"
  by (induction ns rule: evens.induct) auto

lemma nth_evens: "i < length (evens ns) \<Longrightarrow> evens ns ! i = ns ! (2 * i)"
proof (induction ns arbitrary: i rule: evens.induct)
  case (3 x y xs)
  then show ?case by (cases i) auto
qed auto

lemma firstBlank_Some:
  "firstBlank i ns = Some j \<Longrightarrow>
    \<exists>d. j = i + d \<and> d < length ns \<and> ns ! d = None \<and> (\<forall>e<d. ns ! e \<noteq> None)"
proof (induction ns arbitrary: i)
  case (Cons n ns)
  show ?case
  proof (cases "n = None")
    case False
    then have "firstBlank (Suc i) ns = Some j" using Cons.prems by auto
    then obtain d where "j = Suc i + d" "d < length ns" "ns ! d = None" "\<forall>e<d. ns ! e \<noteq> None"
      using Cons.IH by blast
    with False show ?thesis by (intro exI [of _ "Suc d"]) (simp add: All_less_Suc2)
  next
    case True
    with Cons.prems show ?thesis by (intro exI [of _ 0]) simp
  qed
qed simp

lemma firstBlank_None: "firstBlank i ns = None \<longleftrightarrow> (\<forall>n\<in>set ns. n \<noteq> None)"
  by (induction ns arbitrary: i) auto

lemma first_blank_leaf:
  assumes "firstBlank 0 (evens ns) = Some d"
  shows "2 * d < length ns" "ns ! (2 * d) = None" "\<forall>e<d. ns ! (2 * e) \<noteq> None"
proof -
  have d: "d < length (evens ns)" "evens ns ! d = None" "\<forall>e<d. evens ns ! e \<noteq> None"
    using firstBlank_Some [OF assms] by auto
  then show "2 * d < length ns" by (simp add: length_evens)
  show "ns ! (2 * d) = None" "\<forall>e<d. ns ! (2 * e) \<noteq> None"
    using d nth_evens [of _ ns] by auto
qed

lemma no_blank_leaf:
  assumes "firstBlank 0 (evens ns) = None" "2 * e < length ns"
  shows "ns ! (2 * e) \<noteq> None"
proof -
  have "e < length (evens ns)" using assms(2) by (simp add: length_evens)
  then show ?thesis
    using assms(1) nth_evens [of e ns] nth_mem [of e "evens ns"] by (auto simp: firstBlank_None)
qed

text \<open>Placing a leaf in a blank slot.\<close>

lemma place_leaf:
  assumes n: "length ns = 2 ^ Suc h - 1" "h \<le> 30" and d: "2 * d < length ns"
  defines "i \<equiv> of_nat d :: u32"
  shows "\<exists>ms. bindR (goUpdate ns (unat (2 * i)) (leafEntry ln)) (\<lambda>ns.
      let leaves = (len32 ns + 1) div 2; root = Root leaves in
      bindR (addUnmerged (2 * i div 2) leaves root (2 * i) ns) (\<lambda>ns. Ok (2 * i div 2, f ns)))
    = Ok (i, f ms) \<and> length ms = length ns \<and> unat i = d \<and>
    (\<forall>j<length ns. ms ! j = (if j = 2 * d then leafEntry ln
      else if ancestorOf j (2 * d) then map_option (addUnm i) (ns ! j) else ns ! j))"
proof -
  let ?ns = "ns[2 * d := leafEntry ln]"
  have b: "2 * d < 2147483648" using d n pow31 [OF n(2)] by simp
  then have ui: "unat i = d"
    unfolding i_def by (simp add: unsigned_of_nat take_bit_nat_eq_self_iff)
  then have u: "unat (2 * i) = 2 * d" using b by (simp add: unat_u32_double)
  then have half: "2 * i div 2 = i"
    using ui by (simp add: word_unat_eq_iff unat_div)
  have l: "length ?ns = 2 ^ Suc h - 1" using n by simp
  let ?n = "(len32 ?ns + 1) div 2"
  obtain ps where ps: "directPath ?n (Root ?n) (2 * i) = Ok ps" "distinct ps"
    "\<forall>j<length ?ns. j \<in> unat ` set ps \<longleftrightarrow> ancestorOf j (2 * d)"
    "\<forall>p\<in>set ps. unat p < length ?ns"
    using climb_from_leaf [OF l n(2) _ refl, of "2 * i"] u d by auto
  obtain ms where ms: "foldR (unmergedAt i) ?ns ps = Ok ms" "length ms = length ?ns"
    "\<forall>j<length ?ns. ms ! j =
      (if j \<in> unat ` set ps then map_option (addUnm i) (?ns ! j) else ?ns ! j)"
    using unmerged_fold [of ps ?ns i] ps by auto
  have "\<not> ancestorOf (2 * d) (2 * d)" by (simp add: ancestorOf_def)
  with ms ps u ui half d addUnmerged_fold [OF ps(1), of i ?ns] show ?thesis
    by (intro exI [of _ ms]) (auto simp: goUpdate_def Let_def nth_list_update)
qed

lemma AddLeaf_placed:
  assumes n: "length ns = 2 ^ Suc h - 1" "h \<le> 30" and b: "firstBlank 0 (evens ns) = Some d"
    and same: "\<And>j. at ns j = at (nodes t) j"
    and add: "AddLeaf t ln = (let newNode = 2 * of_nat d; leafIndex = newNode div 2 in
        bindR (goUpdate ns (unat newNode) (leafEntry ln)) (\<lambda>ns.
        let leaves = (len32 ns + 1) div 2; root = Root leaves in
        bindR (addUnmerged leafIndex leaves root newNode ns) (\<lambda>ns.
          Ok (leafIndex, t\<lparr>nodes := ns\<rparr>))))"
  shows "\<exists>l ns h'. AddLeaf t ln = Ok (l, t\<lparr>nodes := ns\<rparr>) \<and> fullTree h' (t\<lparr>nodes := ns\<rparr>) \<and>
    at (nodes t) (2 * unat l) = None \<and> 2 * unat l < length ns \<and>
    (\<forall>e<unat l. at (nodes t) (2 * e) \<noteq> None) \<and>
    (\<forall>j. at ns j = (if j = 2 * unat l then leafEntry ln
      else if ancestorOf j (2 * unat l) then map_option (addUnm l) (at (nodes t) j)
      else at (nodes t) j))"
proof -
  note d = first_blank_leaf [OF b]
  obtain ms where ms: "AddLeaf t ln = Ok (of_nat d, t\<lparr>nodes := ms\<rparr>)" "length ms = length ns"
    and u: "unat (of_nat d :: u32) = d"
    and at: "\<forall>j<length ns. ms ! j = (if j = 2 * d then leafEntry ln
      else if ancestorOf j (2 * d) then map_option (addUnm (of_nat d)) (ns ! j) else ns ! j)"
    using place_leaf [OF n d(1), where f = "\<lambda>ns. t\<lparr>nodes := ns\<rparr>" and ln = ln]
    unfolding add Let_def by auto
  have "at ms j = (if j = 2 * d then leafEntry ln
      else if ancestorOf j (2 * d) then map_option (addUnm (of_nat d)) (at (nodes t) j)
      else at (nodes t) j)" for j
    unfolding same [symmetric] using at ms(2) d(1) by (simp add: at_def)
  moreover have "at (nodes t) (2 * d) = None" "\<forall>e<d. at (nodes t) (2 * e) \<noteq> None"
    unfolding same [symmetric] using d by (auto simp: at_def)
  moreover have "fullTree h (t\<lparr>nodes := ms\<rparr>)" using n ms(2) by (simp add: fullTree_def)
  ultimately show ?thesis
    using ms u d(1) by (intro exI [of _ "of_nat d"] exI [of _ ms] exI [of _ h]) simp
qed

lemma grow_spec:
  assumes f: "length ns = 2 ^ Suc h - 1" and h: "h < 30"
  shows "repad (ns @ [None, None]) = Ok (ns @ replicate (2 ^ Suc h) None)"
proof -
  let ?gs = "ns @ [None, None]"
  have g2: "(2 :: nat) ^ Suc (Suc h) \<le> 2147483648" using pow31 [of "Suc h"] h by simp
  have one: "(1 :: nat) \<le> 2 ^ h" by simp
  have lg: "length ?gs = 2 ^ Suc h + 1" using f by simp
  obtain k where k: "repad ?gs = Ok (?gs @ replicate (2 ^ Suc k - 1 - length ?gs) None)"
    "length ?gs \<le> 2 ^ Suc k - 1" "k = 0 \<or> 2 ^ k - 1 < length ?gs"
    using repad_spec [of ?gs] lg g2 one by auto
  have "(2 :: nat) ^ Suc h < 2 ^ Suc k" using k(2) lg by linarith
  then have "Suc h < Suc k" by (simp only: power_strict_increasing_iff)
  then have hk: "h < k" by simp
  have "2 ^ k - 1 < length ?gs" using k(3) hk by simp
  moreover have "(2 :: nat) ^ Suc (Suc h) = 2 * 2 ^ Suc h" "(2 :: nat) ^ Suc h = 2 * 2 ^ h" by simp_all
  ultimately have "(2 :: nat) ^ k < 2 ^ Suc (Suc h)" using lg one by linarith
  then have "k < Suc (Suc h)" by (simp only: power_strict_increasing_iff)
  with hk have "k = Suc h" by simp
  with k(1) lg have "repad ?gs = Ok (ns @ replicate 2 None @ replicate (2 ^ Suc h - 2) None)"
    by (simp add: numeral_2_eq_2)
  also have "replicate 2 None @ replicate (2 ^ Suc h - 2) None = replicate (2 ^ Suc h) None"
  proof -
    have "(2 :: nat) ^ Suc h = 2 * 2 ^ h" by simp
    then have "2 + (2 ^ Suc h - 2) = (2 :: nat) ^ Suc h" using one by linarith
    then show ?thesis by (simp only: replicate_add [symmetric])
  qed
  finally show ?thesis .
qed

lemma AddLeaf_spec:
  assumes t: "fullTree h t"
    and room: "h < 30 \<or> (\<exists>e. 2 * e < length (nodes t) \<and> nodes t ! (2 * e) = None)"
  shows "\<exists>l ns h'. AddLeaf t ln = Ok (l, t\<lparr>nodes := ns\<rparr>) \<and> fullTree h' (t\<lparr>nodes := ns\<rparr>) \<and>
    at (nodes t) (2 * unat l) = None \<and> 2 * unat l < length ns \<and>
    (\<forall>e<unat l. at (nodes t) (2 * e) \<noteq> None) \<and>
    (\<forall>j. at ns j = (if j = 2 * unat l then leafEntry ln
      else if ancestorOf j (2 * unat l) then map_option (addUnm l) (at (nodes t) j)
      else at (nodes t) j))"
proof -
  have f: "h \<le> 30" "length (nodes t) = 2 ^ Suc h - 1" using t by (auto simp: fullTree_def)
  show ?thesis
  proof (cases "firstBlank 0 (evens (nodes t))")
    case (Some d)
    show ?thesis
      by (rule AddLeaf_placed [OF f(2,1) Some refl]) (simp add: AddLeaf_def Some)
  next
    case None
    have h: "h < 30" using room no_blank_leaf [OF None] by blast
    let ?ns = "nodes t @ replicate (2 ^ Suc h) None"
    have len: "length ?ns = 2 ^ Suc (Suc h) - 1" using f(2) by simp
    have one: "(1 :: nat) \<le> 2 ^ h" by simp
    then have two: "Suc 0 < 2 * 2 ^ h" by linarith
    have "\<not> 2 * 2 ^ h < length (nodes t)" using f(2) one by simp
    with two have "?ns ! (2 * 2 ^ h) = None" using f(2) by (simp add: nth_append)
    moreover have "2 * 2 ^ h < length ?ns" unfolding len using two by (simp add: less_diff_conv)
    ultimately obtain d where d: "firstBlank 0 (evens ?ns) = Some d"
      using no_blank_leaf [of ?ns "2 ^ h"] by fastforce
    show ?thesis
    proof (rule AddLeaf_placed [OF len _ d])
      show "at ?ns j = at (nodes t) j" for j by simp
    qed (use h None grow_spec [OF f(2) h] d in \<open>simp_all add: AddLeaf_def\<close>)
  qed
qed

end
