(* ===== verification/TreeInv.thy ===== *)
theory TreeInv
  imports TreeOps
begin

text \<open>
  The structural invariant of the ratchet tree and its consequences: leaves sit at even
  and parents at odd positions, the unmerged leaves of a parent are listed in
  increasing order and are populated leaves below it.  Update, Remove and Add keep
  it, they neither panic nor loop on a tree that has it, and a copy made by
  \<^verbatim>\<open>Clone\<close> is the tree itself.
\<close>

section \<open>The invariant\<close>

definition parentOK :: "Node option list \<Rightarrow> nat \<Rightarrow> ParentNode \<Rightarrow> bool" where
  "parentOK ns i p \<longleftrightarrow> sorted_wrt (<) (UnmergedLeaves p) \<and>
    (\<forall>l\<in>set (UnmergedLeaves p). ancestorOf i (2 * unat l) \<and> at ns (2 * unat l) \<noteq> None)"

definition nodeOK :: "Node option list \<Rightarrow> nat \<Rightarrow> bool" where
  "nodeOK ns i =
    (case at ns i of
       None \<Rightarrow> True
     | Some nd \<Rightarrow>
         if even i then Leaf nd \<noteq> None \<and> ParentN nd = None
         else Leaf nd = None \<and>
           (case ParentN nd of None \<Rightarrow> False | Some p \<Rightarrow> parentOK ns i p))"

definition treeInv :: "RatchetTree \<Rightarrow> bool" where
  "treeInv t \<longleftrightarrow> (\<exists>h. fullTree h t) \<and> (\<forall>i<length (nodes t). nodeOK (nodes t) i)"

lemma nodeOK_outside: "length ns \<le> i \<Longrightarrow> nodeOK ns i"
  by (simp add: nodeOK_def at_def)

lemma treeInv_iff: "treeInv t \<longleftrightarrow> (\<exists>h. fullTree h t) \<and> (\<forall>i. nodeOK (nodes t) i)"
  unfolding treeInv_def using nodeOK_outside not_le by blast

lemma insertSorted_eq:
  "insertSorted l ul = takeWhile (\<lambda>x. x < l) ul @ l # dropWhile (\<lambda>x. x < l) ul"
  by (simp add: insertSorted_def takeWhile_eq_take [symmetric] dropWhile_eq_drop [symmetric])

lemma set_insertSorted: "set (insertSorted l ul) = insert l (set ul)"
proof -
  have "set ul = set (takeWhile (\<lambda>x. x < l) ul) \<union> set (dropWhile (\<lambda>x. x < l) ul)"
    by (metis set_append takeWhile_dropWhile_id)
  then show ?thesis by (auto simp: insertSorted_eq)
qed

lemma sorted_insertSorted:
  assumes "sorted_wrt (<) ul" "l \<notin> set ul"
  shows "sorted_wrt (<) (insertSorted l ul)"
  using assms
proof (induction ul)
  case (Cons x ul)
  show ?case
  proof (cases "x < l")
    case True
    then have "insertSorted l (x # ul) = x # insertSorted l ul" by (simp add: insertSorted_eq)
    with Cons True show ?thesis by (simp add: set_insertSorted)
  next
    case False
    then have "insertSorted l (x # ul) = l # x # ul" by (simp add: insertSorted_eq)
    moreover have "l < x" using False Cons.prems(2) by (metis linorder_less_linear list.set_intros(1))
    ultimately show ?thesis using Cons.prems(1) by fastforce
  qed
qed (simp add: insertSorted_eq)

lemma not_ancestor_even: "even a \<Longrightarrow> \<not> ancestorOf a x"
  using ancestor_odd by blast

lemma parentOK_mono:
  assumes "parentOK ns i p" and "\<And>l. l \<in> set (UnmergedLeaves p) \<Longrightarrow> at ms (2 * unat l) \<noteq> None"
  shows "parentOK ms i p"
  using assms by (auto simp: parentOK_def)

lemma nodeOK_leafEntry: "at ms (2 * d) = leafEntry ln \<Longrightarrow> nodeOK ms (2 * d)"
  by (simp add: nodeOK_def leafEntry_def)

lemma nodeOK_same:
  assumes "nodeOK ns i" "at ms i = at ns i"
    and "\<And>p l. at ns i \<noteq> None \<Longrightarrow> ParentN (the (at ns i)) = Some p \<Longrightarrow> l \<in> set (UnmergedLeaves p) \<Longrightarrow>
      ancestorOf i (2 * unat l) \<Longrightarrow> at ns (2 * unat l) \<noteq> None \<Longrightarrow> at ms (2 * unat l) \<noteq> None"
  shows "nodeOK ms i"
proof (cases "at ns i")
  case None
  then show ?thesis using assms(2) by (simp add: nodeOK_def)
next
  case (Some nd)
  have "parentOK ms i p" if "parentOK ns i p" "ParentN nd = Some p" for p
    by (rule parentOK_mono [OF that(1)])
      (use that assms(3) [of p] Some in \<open>auto simp: parentOK_def\<close>)
  with assms(1,2) Some show ?thesis
    by (auto simp: nodeOK_def split: option.splits if_splits)
qed

section \<open>Preservation\<close>

lemma update_nodeOK:
  assumes ok: "\<And>i. nodeOK ns i"
    and ms: "\<And>i. at ms i = (if i = 2 * d then leafEntry ln else if ancestorOf i (2 * d) then None
      else at ns i)"
  shows "nodeOK ms i"
proof (cases "i = 2 * d \<or> ancestorOf i (2 * d)")
  case True
  then show ?thesis
    using ms [of i] by (auto simp: nodeOK_def leafEntry_def)
next
  case False
  show ?thesis
    by (rule nodeOK_same [OF ok]) (use False ms in \<open>auto simp: not_ancestor_even leafEntry_def\<close>)
qed

lemma remove_nodeOK:
  assumes ok: "\<And>i. nodeOK ns i"
    and ms: "\<And>i. at ms i = (if i = 2 * d \<or> ancestorOf i (2 * d) then None else at ns i)"
  shows "nodeOK ms i"
proof (cases "i = 2 * d \<or> ancestorOf i (2 * d)")
  case True
  then show ?thesis using ms [of i] by (auto simp: nodeOK_def)
next
  case False
  show ?thesis
    by (rule nodeOK_same [OF ok]) (use False ms in \<open>auto simp: not_ancestor_even\<close>)
qed

lemma add_nodeOK:
  assumes ok: "\<And>i. nodeOK ns i" and blank: "at ns (2 * unat l) = None"
    and ms: "\<And>i. at ms i = (if i = 2 * unat l then leafEntry ln
      else if ancestorOf i (2 * unat l) then map_option (addUnm l) (at ns i) else at ns i)"
  shows "nodeOK ms i"
proof -
  have keep: "at ms j \<noteq> None" if "at ns j \<noteq> None" for j
    using that ms [of j] by (auto simp: leafEntry_def)
  consider "i = 2 * unat l" | "i \<noteq> 2 * unat l" "ancestorOf i (2 * unat l)"
    | "i \<noteq> 2 * unat l" "\<not> ancestorOf i (2 * unat l)" by blast
  then show ?thesis
  proof cases
    case 1
    then show ?thesis using ms [of i] nodeOK_leafEntry [of ms "unat l" ln] by simp
  next
    case 2
    then have a: "odd i" by (simp add: ancestor_odd)
    show ?thesis
    proof (cases "at ns i")
      case None
      then show ?thesis using ms [of i] 2 by (simp add: nodeOK_def)
    next
      case (Some nd)
      then obtain p where p: "Leaf nd = None" "ParentN nd = Some p" "parentOK ns i p"
        using ok [of i] a by (auto simp: nodeOK_def split: option.splits)
      have "l \<notin> set (UnmergedLeaves p)" using p(3) blank by (auto simp: parentOK_def)
      then have "parentOK ms i (p\<lparr>UnmergedLeaves := insertSorted l (UnmergedLeaves p)\<rparr>)"
        using p(3) keep 2(2) ms [of "2 * unat l"]
        by (auto simp: parentOK_def sorted_insertSorted set_insertSorted leafEntry_def)
      then show ?thesis
        using Some p a ms [of i] 2 by (simp add: nodeOK_def addUnm_def)
    qed
  next
    case 3
    show ?thesis by (rule nodeOK_same [OF ok]) (use 3 ms keep in auto)
  qed
qed


lemma double_wrap: "2 * leaf = 2 * (leaf AND 0x7fffffff :: u32)"
proof (rule bit_word_eqI)
  fix i
  assume "i < LENGTH(32)"
  have m: "(0x7fffffff :: u32) = mask 31" by (simp add: mask_eq_exp_minus_1)
  show "bit (2 * leaf) i \<longleftrightarrow> bit (2 * (leaf AND 0x7fffffff)) i"
    unfolding m using \<open>i < LENGTH(32)\<close> by (auto simp: bit_double_iff bit_and_iff bit_mask_iff)
qed

lemma unat_masked: "unat (leaf AND 0x7fffffff :: u32) < 2147483648"
proof -
  have "leaf AND mask 31 < push_bit 31 1"
    by (subst word_less_iff_bits) (auto simp: bit_and_iff bit_mask_iff)
  moreover have "(0x7fffffff :: u32) = mask 31" by (simp add: mask_eq_exp_minus_1)
  ultimately show ?thesis by (simp add: word_less_nat_alt)
qed

lemma unat_double_masked: "unat (2 * leaf :: u32) = 2 * unat (leaf AND 0x7fffffff)"
  using double_wrap [of leaf] unat_masked [of leaf] by (simp add: unat_u32_double)

lemma aliased_leaf:
  "UpdateLeaf t leaf ln = UpdateLeaf t (leaf AND 0x7fffffff) ln"
  "RemoveLeaf t leaf = RemoveLeaf t (leaf AND 0x7fffffff)"
  "LeafNodeAt t leaf = LeafNodeAt t (leaf AND 0x7fffffff)"
  unfolding UpdateLeaf_def RemoveLeaf_def LeafNodeAt_def by (simp_all only: double_wrap [of leaf])

lemma at_upd:
  assumes "length ns = length os"
    and "\<forall>i<length ns. ns ! i = (if i = 2 * d then v else if ancestorOf i (2 * d) then None else os ! i)"
    and "2 * d < length os"
  shows "at ns i = (if i = 2 * d then v else if ancestorOf i (2 * d) then None else at os i)"
  using assms by (auto simp: at_def)

lemma UpdateLeaf_inv:
  assumes "treeInv t" "UpdateLeaf t leaf ln = Ok t'"
  shows "treeInv t'"
proof -
  obtain h where t: "fullTree h t" using assms(1) by (auto simp: treeInv_def)
  let ?l = "leaf AND 0x7fffffff"
  have e: "UpdateLeaf t ?l ln = Ok t'" using assms(2) aliased_leaf(1) by simp
  then have r: "2 * unat ?l < length (nodes t)"
    using UpdateLeaf_out_of_range [OF t, of leaf ln] assms(2) unat_double_masked [of leaf]
    by (cases "2 * unat ?l < length (nodes t)") auto
  obtain ns where ns: "t' = t\<lparr>nodes := ns\<rparr>" "length ns = length (nodes t)"
    "\<forall>i<length ns. ns ! i = (if i = 2 * unat ?l then leafEntry ln
      else if ancestorOf i (2 * unat ?l) then None else nodes t ! i)"
    using UpdateLeaf_spec [OF t r, of ln] e by auto
  have "nodeOK ns i" for i
    using update_nodeOK [OF _ at_upd [OF ns(2,3) r]] assms(1) by (simp add: treeInv_iff)
  moreover have "fullTree h t'" using t ns by (simp add: fullTree_def)
  ultimately show ?thesis using ns(1) by (auto simp: treeInv_iff)
qed

lemma RemoveLeaf_inv:
  assumes "treeInv t" "RemoveLeaf t leaf = Ok t'"
  shows "treeInv t'"
proof -
  obtain h where t: "fullTree h t" using assms(1) by (auto simp: treeInv_def)
  let ?l = "leaf AND 0x7fffffff"
  have e: "RemoveLeaf t ?l = Ok t'" using assms(2) aliased_leaf(2) by simp
  then have r: "2 * unat ?l < length (nodes t)"
    using RemoveLeaf_out_of_range [OF t, of leaf] assms(2) unat_double_masked [of leaf]
    by (cases "2 * unat ?l < length (nodes t)") auto
  obtain ns h' where ns: "t' = t\<lparr>nodes := ns\<rparr>" "fullTree h' t'"
    "\<forall>i. at ns i = (if i = 2 * unat ?l \<or> ancestorOf i (2 * unat ?l) then None
      else at (nodes t) i)"
    using RemoveLeaf_spec [OF t r] e by auto
  have "nodeOK ns i" for i
    using remove_nodeOK [of "nodes t" ns "unat ?l"] ns(3) assms(1) by (simp add: treeInv_iff)
  with ns show ?thesis by (auto simp: treeInv_iff)
qed

text \<open>A tree with room: fewer than \<open>2 ^ 30\<close> leaf slots, or a blank one.\<close>

definition hasRoom :: "RatchetTree \<Rightarrow> bool" where
  "hasRoom t \<longleftrightarrow> length (nodes t) < 2 ^ 31 - 1 \<or>
    (\<exists>e<length (nodes t). 2 * e < length (nodes t) \<and> nodes t ! (2 * e) = None)"

lemma hasRoom_height:
  assumes "fullTree h t" "hasRoom t"
  shows "h < 30 \<or> (\<exists>e. 2 * e < length (nodes t) \<and> nodes t ! (2 * e) = None)"
proof (cases "h < 30")
  case False
  then have "h = 30" using assms(1) by (simp add: fullTree_def)
  then have "length (nodes t) = 2 ^ 31 - 1" using assms(1) by (simp add: fullTree_def)
  then show ?thesis using assms(2) unfolding hasRoom_def by (metis less_irrefl)
qed simp

lemma AddLeaf_inv:
  assumes "treeInv t" "hasRoom t"
  shows "\<exists>l t'. AddLeaf t ln = Ok (l, t') \<and> treeInv t'"
proof -
  obtain h where t: "fullTree h t" using assms(1) by (auto simp: treeInv_def)
  obtain l ns h' where a: "AddLeaf t ln = Ok (l, t\<lparr>nodes := ns\<rparr>)" "fullTree h' (t\<lparr>nodes := ns\<rparr>)"
    "at (nodes t) (2 * unat l) = None"
    "\<forall>j. at ns j = (if j = 2 * unat l then leafEntry ln
      else if ancestorOf j (2 * unat l) then map_option (addUnm l) (at (nodes t) j)
      else at (nodes t) j)"
    using AddLeaf_spec [OF t hasRoom_height [OF t assms(2)], of ln] by auto
  have "nodeOK ns i" for i
    using add_nodeOK [of "nodes t" l ns ln] a(3,4) assms(1) by (simp add: treeInv_iff)
  with a show ?thesis by (auto simp: treeInv_iff)
qed


section \<open>The leaf operations seen through the accessors\<close>

lemma fullTree_NodeAt:
  assumes "fullTree h t"
  shows "NodeAt t i = at (nodes t) (unat i)" and "level i = 32 \<Longrightarrow> NodeAt t i = None"
proof -
  have "length (nodes t) \<le> 2147483647"
    using assms pow31 [of h] by (auto simp: fullTree_def)
  moreover have "unat i = 4294967295" if "level i = 32"
  proof -
    obtain k q where i: "unat i = node k q" by (rule coord_exists)
    then have "k = 32" using that level_coord [OF i] by simp
    then show ?thesis using i unat_u32_less [of i] by (auto simp: node_def)
  qed
  ultimately show "NodeAt t i = at (nodes t) (unat i)" "level i = 32 \<Longrightarrow> NodeAt t i = None"
    by (auto simp: NodeAt_at at_def)
qed

lemma fullTree_leaf:
  assumes "fullTree h t" "leaf < leafCount t"
  shows "2 * unat leaf < length (nodes t)" "unat (2 * leaf) = 2 * unat leaf"
proof -
  have "unat leaf < 2 ^ h" using assms fullTree_width(2) by (simp add: word_less_nat_alt)
  then show "2 * unat leaf < length (nodes t)"
    using assms(1) by (auto simp: fullTree_def)
  then show "unat (2 * leaf) = 2 * unat leaf"
    using assms(1) pow31 [of h] by (intro unat_u32_double) (auto simp: fullTree_def)
qed

text \<open>Blanking \<open>i\<close> and its ancestors is blanking what \<^verbatim>\<open>subtreeContains\<close> finds above \<open>i\<close>.\<close>

lemma subtree_or_outside:
  assumes "fullTree h t" "unat x = d"
  shows "(if i = x \<or> ancestorOf (unat i) d then None else NodeAt t i) =
    (if subtreeContains i x then None else NodeAt t i)"
proof (cases "level i = 32")
  case True
  then show ?thesis using fullTree_NodeAt(2) [OF assms(1)] by simp
next
  case False
  then have "level i \<le> 31" using level_le [of i] by simp
  then show ?thesis using subtreeContains_iff [of i x] assms(2) by auto
qed

lemma UpdateLeaf_NodeAt:
  assumes t: "fullTree h t" and l: "leaf < leafCount t"
  shows "\<exists>t'. UpdateLeaf t leaf ln = Ok t' \<and> Width t' = Width t \<and>
    (\<forall>i. NodeAt t' i = (if i = 2 * leaf then leafEntry ln
      else if subtreeContains i (2 * leaf) then None else NodeAt t i))"
proof -
  note b = fullTree_leaf [OF t l]
  obtain ns where ns: "UpdateLeaf t leaf ln = Ok (t\<lparr>nodes := ns\<rparr>)" "length ns = length (nodes t)"
    "\<forall>i<length ns. ns ! i = (if i = 2 * unat leaf then leafEntry ln
      else if ancestorOf i (2 * unat leaf) then None else nodes t ! i)"
    using UpdateLeaf_spec [OF t b(1)] by blast
  have t': "fullTree h (t\<lparr>nodes := ns\<rparr>)" using t ns(2) by (simp add: fullTree_def)
  have "NodeAt (t\<lparr>nodes := ns\<rparr>) i = (if i = 2 * leaf then leafEntry ln
      else if subtreeContains i (2 * leaf) then None else NodeAt t i)" for i
  proof (cases "i = 2 * leaf")
    case True
    then show ?thesis
      using at_upd [OF ns(2,3) b(1), of "unat i"] b(2) by (simp add: fullTree_NodeAt(1) [OF t'])
  next
    case False
    then have "unat i \<noteq> 2 * unat leaf" using b(2) word_unat_eq_iff by metis
    then show ?thesis
      using at_upd [OF ns(2,3) b(1), of "unat i"] False subtree_or_outside [OF t b(2), of i]
        fullTree_NodeAt(1) [OF t', of i] fullTree_NodeAt(1) [OF t, of i] by (simp split: if_splits)
  qed
  then show ?thesis using ns(1,2) by (auto simp: Width_def len32_def)
qed


lemma half_width: "(2 ^ Suc h - 1) div 2 = (2 :: nat) ^ h - 1"
proof -
  have "(2 * a - 1) div 2 = a - 1" if "1 \<le> a" for a :: nat using that by presburger
  then show ?thesis by simp
qed

lemma RemoveLeaf_NodeAt:
  assumes t: "fullTree h t" and l: "leaf < leafCount t"
  shows "\<exists>t'. RemoveLeaf t leaf = Ok t' \<and>
    (\<forall>i. NodeAt t' i = (if subtreeContains i (2 * leaf) then None else NodeAt t i)) \<and>
    (Width t' = 1 \<or> (\<exists>i\<ge>Width t' div 2. NodeAt t' i \<noteq> None))"
proof -
  note b = fullTree_leaf [OF t l]
  obtain ns h' where ns: "RemoveLeaf t leaf = Ok (t\<lparr>nodes := ns\<rparr>)" "fullTree h' (t\<lparr>nodes := ns\<rparr>)"
    "\<forall>i. at ns i = (if i = 2 * unat leaf \<or> ancestorOf i (2 * unat leaf) then None
      else at (nodes t) i)" "h' = 0 \<or> (\<exists>i\<ge>2 ^ h' - 1. at ns i \<noteq> None)"
    using RemoveLeaf_spec [OF t b(1)] by blast
  let ?t = "t\<lparr>nodes := ns\<rparr>"
  have "NodeAt ?t i = (if subtreeContains i (2 * leaf) then None else NodeAt t i)" for i
  proof -
    have "unat i = 2 * unat leaf \<longleftrightarrow> i = 2 * leaf" using b(2) by (simp add: word_unat_eq_iff)
    then show ?thesis
      using ns(3) [rule_format, of "unat i"] fullTree_NodeAt(1) [OF ns(2), of i]
        fullTree_NodeAt(1) [OF t, of i] subtree_or_outside [OF t b(2), of i]
      by (auto split: if_splits)
  qed
  moreover have "Width ?t = 1 \<or> (\<exists>i\<ge>Width ?t div 2. NodeAt ?t i \<noteq> None)"
  proof (cases "h' = 0")
    case True
    then show ?thesis using fullTree_width(1) [OF ns(2)] ns(2)
      by (simp add: fullTree_def word_unat_eq_iff)
  next
    case False
    then obtain j where j: "2 ^ h' - 1 \<le> j" "at ns j \<noteq> None" using ns(4) by blast
    then have "j < length ns" by (auto simp: at_def split: if_splits)
    then have "j < 4294967296" using ns(2) pow31 [of h'] by (simp add: fullTree_def)
    then have u: "unat (of_nat j :: u32) = j" by (simp add: unsigned_of_nat take_bit_nat_eq_self)
    have "unat (Width ?t div 2) = (2 ^ Suc h' - 1) div 2"
      using fullTree_width(1) [OF ns(2)] ns(2) by (simp add: unat_div fullTree_def)
    also have "\<dots> = 2 ^ h' - 1" by (rule half_width)
    finally have "Width ?t div 2 \<le> of_nat j" using j(1) u by (simp add: word_le_nat_alt)
    moreover have "NodeAt ?t (of_nat j) \<noteq> None"
      using j(2) u by (simp add: fullTree_NodeAt(1) [OF ns(2)])
    ultimately show ?thesis by blast
  qed
  ultimately show ?thesis using ns(1) by blast
qed

lemma AddLeaf_NodeAt:
  assumes t: "fullTree h t" and room: "hasRoom t"
  shows "\<exists>l t'. AddLeaf t ln = Ok (l, t') \<and> NodeAt t (2 * l) = None \<and>
    (\<forall>e<l. NodeAt t (2 * e) \<noteq> None) \<and> l < leafCount t' \<and>
    (\<forall>i. NodeAt t' i = (if i = 2 * l then leafEntry ln
      else if subtreeContains i (2 * l) then map_option (addUnm l) (NodeAt t i)
      else NodeAt t i))"
proof -
  obtain l ns h' where a: "AddLeaf t ln = Ok (l, t\<lparr>nodes := ns\<rparr>)" "fullTree h' (t\<lparr>nodes := ns\<rparr>)"
    "at (nodes t) (2 * unat l) = None" "2 * unat l < length ns"
    "\<forall>e<unat l. at (nodes t) (2 * e) \<noteq> None"
    "\<forall>j. at ns j = (if j = 2 * unat l then leafEntry ln
      else if ancestorOf j (2 * unat l) then map_option (addUnm l) (at (nodes t) j)
      else at (nodes t) j)"
    using AddLeaf_spec [OF t hasRoom_height [OF t room], of ln] by blast
  let ?t = "t\<lparr>nodes := ns\<rparr>"
  have s: "2 * unat l < 4294967296" using a(2,4) pow31 [of h'] by (simp add: fullTree_def)
  then have u: "unat (2 * l) = 2 * unat l" by (simp add: unat_u32_double)
  have "NodeAt t (2 * e) \<noteq> None" if "e < l" for e
  proof -
    have "unat e < unat l" using that by (simp add: word_less_nat_alt)
    moreover from this s have "unat (2 * e) = 2 * unat e" by (simp add: unat_u32_double)
    ultimately show ?thesis using a(5) by (simp add: fullTree_NodeAt(1) [OF t])
  qed
  moreover have "l < leafCount ?t"
  proof -
    have "2 * unat l < 2 ^ Suc h' - 1" using a(2,4) by (simp add: fullTree_def)
    then have "unat l < 2 ^ h'" by simp
    then show ?thesis using fullTree_width(2) [OF a(2)] by (simp add: word_less_nat_alt)
  qed
  moreover have "NodeAt ?t i = (if i = 2 * l then leafEntry ln
      else if subtreeContains i (2 * l) then map_option (addUnm l) (NodeAt t i)
      else NodeAt t i)" for i
  proof (cases "i = 2 * l")
    case True
    then show ?thesis using a(6) u by (simp add: fullTree_NodeAt(1) [OF a(2)])
  next
    case False
    then have ne: "unat i \<noteq> 2 * unat l" using u word_unat_eq_iff by metis
    show ?thesis
    proof (cases "level i = 32")
      case True
      then show ?thesis
        using fullTree_NodeAt(2) [OF t True] fullTree_NodeAt(2) [OF a(2) True] False by simp
    next
      case lv: False
      then have "subtreeContains i (2 * l) \<longleftrightarrow> ancestorOf (unat i) (2 * unat l)"
        using subtreeContains_iff [of i "2 * l"] level_le [of i] False u by auto
      then show ?thesis
        using a(6) ne False
        by (simp add: fullTree_NodeAt(1) [OF t] fullTree_NodeAt(1) [OF a(2)])
    qed
  qed
  ultimately show ?thesis
    using a(1,3) u by (intro exI [of _ l] exI [of _ ?t]) (simp add: fullTree_NodeAt(1) [OF t])
qed


section \<open>Properties\<close>

text \<open>A two-member tree with a populated root, for the instances below.\<close>

definition sampleLeaf :: "bytes \<Rightarrow> LeafNode" where
  "sampleLeaf key = \<lparr>leaf_EncryptionKey = key, SignatureKey = key,
     leaf_Credential = \<lparr>CredentialType = CredentialTypeBasic, Identity = key, Certificates = []\<rparr>,
     leaf_Capabilities = \<lparr>Versions = [1], CipherSuites = [1], caps_Extensions = [],
       Proposals = [], Credentials = [1]\<rparr>,
     LeafNodeSource = LeafNodeSourceUpdate, leaf_Lifetime = None, leaf_ParentHash = [],
     leaf_Extensions = [], leaf_Signature = [7]\<rparr>"

definition sampleTree :: RatchetTree where
  "sampleTree = \<lparr>suite = sampleSuite, nodes = [leafEntry (sampleLeaf [1]),
     Some \<lparr>Leaf = None, ParentN = Some \<lparr>par_EncryptionKey = [9], par_ParentHash = [],
       UnmergedLeaves = [1]\<rparr>\<rparr>, leafEntry (sampleLeaf [2])]\<rparr>"

lemma sampleTree_full: "fullTree 1 sampleTree"
  by (simp add: fullTree_def sampleTree_def)

lemma sampleTree_inv: "treeInv sampleTree"
proof -
  have "nlevel 1 = 1" "npos 1 = 0" "nlevel 2 = 0" "npos 2 = 1"
    using nlevel_node [of 1 0] npos_node [of 1 0] nlevel_node [of 0 1] npos_node [of 0 1]
    by (simp_all add: node_def)
  then have "ancestorOf (Suc 0) 2" by (simp add: ancestorOf_def)
  then have "\<forall>i<3. nodeOK (nodes sampleTree) i"
    by (simp add: numeral_eq_Suc less_Suc_eq nodeOK_def parentOK_def at_def sampleTree_def leafEntry_def)
  moreover have "length (nodes sampleTree) = 3" by (simp add: sampleTree_def)
  ultimately show ?thesis using sampleTree_full unfolding treeInv_def by auto
qed

lemma sampleTree_room: "hasRoom sampleTree"
  by (simp add: hasRoom_def sampleTree_def)

lemma sampleTree_leafCount: "leafCount sampleTree = 2"
  by (simp add: leafCount_def sampleTree_def len32_def)

text \<open>C25: on a tree that satisfies the structural invariant, replacing or removing any leaf
  index either yields a tree that satisfies it again or is the out-of-range error, and
  adding a leaf to a tree with room succeeds and keeps the invariant.  None of the three
  operations indexes outside the array or loops.
\<close>
theorem leaf_operations_keep_invariant:
  assumes "treeInv t" "hasRoom t"
  shows "((\<exists>t'. UpdateLeaf t leaf ln = Ok t' \<and> treeInv t') \<or>
      UpdateLeaf t leaf ln = Err ''tree: UpdateLeaf: leaf out of range'' \<and> Width t \<le> 2 * leaf) \<and>
    ((\<exists>t'. RemoveLeaf t leaf = Ok t' \<and> treeInv t') \<or>
      RemoveLeaf t leaf = Err ''tree: RemoveLeaf: leaf out of range'' \<and> Width t \<le> 2 * leaf) \<and>
    (\<exists>l t'. AddLeaf t ln = Ok (l, t') \<and> treeInv t')"
proof (intro conjI)
  obtain h where t: "fullTree h t" using assms(1) by (auto simp: treeInv_def)
  let ?l = "leaf AND 0x7fffffff"
  show "\<exists>l t'. AddLeaf t ln = Ok (l, t') \<and> treeInv t'" by (rule AddLeaf_inv [OF assms])
  show "(\<exists>t'. UpdateLeaf t leaf ln = Ok t' \<and> treeInv t') \<or>
      UpdateLeaf t leaf ln = Err ''tree: UpdateLeaf: leaf out of range'' \<and> Width t \<le> 2 * leaf"
  proof (cases "2 * unat ?l < length (nodes t)")
    case True
    then show ?thesis
      using UpdateLeaf_spec [OF t True, of ln] aliased_leaf(1) [of t leaf ln] UpdateLeaf_inv [OF assms(1)]
      by fastforce
  next
    case False
    then show ?thesis
      using UpdateLeaf_out_of_range [OF t, of leaf] unat_double_masked [of leaf] fullTree_width(1) [OF t]
      by (simp add: word_le_nat_alt)
  qed
  show "(\<exists>t'. RemoveLeaf t leaf = Ok t' \<and> treeInv t') \<or>
      RemoveLeaf t leaf = Err ''tree: RemoveLeaf: leaf out of range'' \<and> Width t \<le> 2 * leaf"
  proof (cases "2 * unat ?l < length (nodes t)")
    case True
    then show ?thesis
      using RemoveLeaf_spec [OF t True] aliased_leaf(2) [of t leaf] RemoveLeaf_inv [OF assms(1)]
      by fastforce
  next
    case False
    then show ?thesis
      using RemoveLeaf_out_of_range [OF t, of leaf] unat_double_masked [of leaf] fullTree_width(1) [OF t]
      by (simp add: word_le_nat_alt)
  qed
qed

theorem leaf_operations_keep_invariant_witness:
  "\<exists>l t'. AddLeaf sampleTree (sampleLeaf [3]) = Ok (l, t') \<and> treeInv t'"
  using leaf_operations_keep_invariant [OF sampleTree_inv sampleTree_room] by blast

text \<open>\<^verbatim>\<open>UpdateLeaf\<close> puts the new leaf at its slot, blanks every node whose subtree contains
  the slot, leaves all other nodes alone and keeps the width; the leaf can be read back.
\<close>
theorem update_leaf_effect:
  assumes "treeInv t" "leaf < leafCount t"
  shows "\<exists>t'. UpdateLeaf t leaf ln = Ok t' \<and> LeafNodeAt t' leaf = Ok ln \<and> Width t' = Width t \<and>
    (\<forall>i. NodeAt t' i = (if i = 2 * leaf then leafEntry ln
      else if subtreeContains i (2 * leaf) then None else NodeAt t i))"
proof -
  obtain h where "fullTree h t" using assms(1) by (auto simp: treeInv_def)
  from UpdateLeaf_NodeAt [OF this assms(2), of ln] show ?thesis
    by (auto simp: LeafNodeAt_def leafEntry_def)
qed

theorem update_leaf_effect_witness:
  "\<exists>t'. UpdateLeaf sampleTree 1 (sampleLeaf [3]) = Ok t' \<and> LeafNodeAt t' 1 = Ok (sampleLeaf [3])"
  using update_leaf_effect [OF sampleTree_inv, of 1 "sampleLeaf [3]"]
  by (auto simp: sampleTree_leafCount)


text \<open>C28: \<^verbatim>\<open>RemoveLeaf\<close> blanks exactly the leaf and the nodes above it, and then shrinks the tree
  as far as possible: unless a single slot is left, the right half or the root of the
  result is populated.
\<close>
theorem remove_leaf_effect:
  assumes "treeInv t" "leaf < leafCount t"
  shows "\<exists>t'. RemoveLeaf t leaf = Ok t' \<and>
    (\<forall>i. NodeAt t' i = (if subtreeContains i (2 * leaf) then None else NodeAt t i)) \<and>
    (Width t' = 1 \<or> (\<exists>i\<ge>Width t' div 2. NodeAt t' i \<noteq> None))"
  using assms RemoveLeaf_NodeAt unfolding treeInv_def by blast

theorem remove_leaf_effect_witness:
  "\<exists>t'. RemoveLeaf sampleTree 1 = Ok t' \<and>
    (\<forall>i. NodeAt t' i = (if subtreeContains i 2 then None else NodeAt sampleTree i)) \<and>
    (Width t' = 1 \<or> (\<exists>i\<ge>Width t' div 2. NodeAt t' i \<noteq> None))"
  using remove_leaf_effect [OF sampleTree_inv, of 1] by (simp add: sampleTree_leafCount)

text \<open>\<^verbatim>\<open>AddLeaf\<close> uses the leftmost blank leaf slot, growing the tree when there is none;
  it records the new leaf as unmerged in the populated nodes above it and changes no
  other node.
\<close>
theorem add_leaf_effect:
  assumes "treeInv t" "hasRoom t"
  shows "\<exists>l t'. AddLeaf t ln = Ok (l, t') \<and> LeafNodeAt t' l = Ok ln \<and> l < leafCount t' \<and>
    NodeAt t (2 * l) = None \<and> (\<forall>e<l. NodeAt t (2 * e) \<noteq> None) \<and>
    (\<forall>i. NodeAt t' i = (if i = 2 * l then leafEntry ln
      else if subtreeContains i (2 * l) then map_option (addUnm l) (NodeAt t i)
      else NodeAt t i))"
proof -
  obtain h where t: "fullTree h t" using assms(1) by (auto simp: treeInv_def)
  obtain l t' where "AddLeaf t ln = Ok (l, t')" "NodeAt t (2 * l) = None"
    "\<forall>e<l. NodeAt t (2 * e) \<noteq> None" "l < leafCount t'"
    "\<forall>i. NodeAt t' i = (if i = 2 * l then leafEntry ln
      else if subtreeContains i (2 * l) then map_option (addUnm l) (NodeAt t i)
      else NodeAt t i)"
    using AddLeaf_NodeAt [OF t assms(2), of ln] by blast
  moreover from this(5) have "LeafNodeAt t' l = Ok ln" by (simp add: LeafNodeAt_def leafEntry_def)
  ultimately show ?thesis by blast
qed

theorem add_leaf_effect_witness:
  "\<exists>l t'. AddLeaf sampleTree (sampleLeaf [3]) = Ok (l, t') \<and> LeafNodeAt t' l = Ok (sampleLeaf [3])"
  using add_leaf_effect [OF sampleTree_inv sampleTree_room] by blast


end
