(* ===== verification/TreeParse.thy ===== *)
theory TreeParse
  imports TreeInv
begin

text \<open>
  The \<^verbatim>\<open>ratchet_tree\<close> extension: \<^verbatim>\<open>ParseRatchetTree\<close> inverts \<^verbatim>\<open>MarshalMLS\<close> on the trees
  that have no smaller complete width, and accepts the encodings of those only.  So
  \<^verbatim>\<open>Clone\<close>, which copies a tree through its encoding, returns the tree itself.
\<close>

text \<open>No smaller complete tree holds the populated nodes.\<close>

definition tightTree :: "RatchetTree \<Rightarrow> bool" where
  "tightTree t \<longleftrightarrow> length (nodes t) div 2 < length (dropBlankTail (nodes t))"

lemma dropBlankTail_split:
  "\<exists>k. ns = dropBlankTail ns @ replicate k None \<and> (dropBlankTail ns = [] \<or> last (dropBlankTail ns) \<noteq> None)"
proof (induction ns rule: dropBlankTail.induct)
  case (1 ns)
  show ?case
  proof (cases "ns \<noteq> [] \<and> last ns = None")
    case True
    then obtain k where k: "butlast ns = dropBlankTail (butlast ns) @ replicate k None"
      "dropBlankTail (butlast ns) = [] \<or> last (dropBlankTail (butlast ns)) \<noteq> None"
      using "1.IH" by blast
    have "ns = butlast ns @ [None]" using True append_butlast_last_id [of ns] by simp
    then have "ns = dropBlankTail (butlast ns) @ replicate (Suc k) None"
      using k(1) by (metis append.assoc replicate_append_same replicate_Suc)
    moreover have "dropBlankTail ns = dropBlankTail (butlast ns)"
      using True dropBlankTail.simps [of ns] by simp
    ultimately show ?thesis using k(2) by (intro exI [of _ "Suc k"]) simp
  next
    case False
    then show ?thesis using dropBlankTail.simps [of ns] by (intro exI [of _ 0]) auto
  qed
qed

lemma dropBlankTail_padded:
  assumes "d \<noteq> [] \<Longrightarrow> last d \<noteq> None"
  shows "dropBlankTail (d @ replicate k None) = d"
proof (induction k)
  case 0
  then show ?case using assms dropBlankTail.simps [of d] by auto
next
  case (Suc k)
  have "d @ replicate (Suc k) None = (d @ replicate k None) @ [None]"
    by (simp add: replicate_append_same)
  then show ?case
    using Suc dropBlankTail.simps [of "(d @ replicate k None) @ [None]"] by (simp del: append_assoc)
qed

lemma pad_spec:
  assumes "length ns \<le> 2147483647"
  shows "\<exists>v k. fullWidth (len32 ns) = Ok v \<and>
    padTo v ns = ns @ replicate (2 ^ Suc k - 1 - length ns) None \<and>
    length ns \<le> 2 ^ Suc k - 1 \<and> (k = 0 \<or> 2 ^ k - 1 < length ns)"
proof -
  have l: "unat (len32 ns) = length ns" using assms by (intro unat_len32) simp
  obtain v k where v: "fullWidth (len32 ns) = Ok v" "unat v = 2 ^ Suc k - 1"
    "length ns \<le> unat v" "k = 0 \<or> 2 ^ k - 1 < length ns"
    using fullWidth_spec [of "len32 ns"] unfolding l by blast
  have "unat (v - len32 ns) = unat v - length ns"
    using v(3) l by (simp add: unat_sub word_le_nat_alt)
  with v show ?thesis by (auto simp: padTo_def)
qed

lemma width_unique:
  assumes "n \<le> 2 ^ Suc h - (1 :: nat)" "2 ^ h - 1 < n" "n \<le> 2 ^ Suc k - 1" "k = 0 \<or> 2 ^ k - 1 < n"
  shows "k = (h :: nat)"
proof (rule linorder_cases [of k h])
  assume "k < h"
  then have "(2 :: nat) ^ Suc k \<le> 2 ^ h" by (intro power_increasing) auto
  with assms show ?thesis by linarith
next
  assume "h < k"
  then have "(2 :: nat) ^ Suc h \<le> 2 ^ k" by (intro power_increasing) auto
  with assms \<open>h < k\<close> show ?thesis by linarith
qed

lemma ParseRatchetTree_iff:
  "ParseRatchetTree s data = Ok t \<longleftrightarrow>
    suite t = s \<and> (\<exists>h. fullTree h t) \<and> tightTree t \<and> list_all (pred_option wfNode) (nodes t) \<and>
    RatchetTree_MarshalMLS t = Ok data"
proof
  assume p: "ParseRatchetTree s data = Ok t"
  then obtain ns v where ns: "ReadVectorV (ReadOptional decodeNode) data = Ok (ns, [])"
    "ns \<noteq> []" "last ns \<noteq> None" "fullWidth (len32 ns) = Ok v" "t = \<lparr>suite = s, nodes = padTo v ns\<rparr>"
    by (auto simp: ParseRatchetTree_def bindR_Inr_iff split: if_splits)
  then have r: "list_all (pred_option wfNode) ns" "emits (WriteVectorV (WriteOptional Node_marshal) ns) data"
    by (auto simp: optnode.vector_decode_iff reads_def)
  have len: "length ns < 2 ^ 30" by (rule optnode.vector_length [OF r(2)])
  obtain k where k: "padTo v ns = ns @ replicate (2 ^ Suc k - 1 - length ns) None"
    "length ns \<le> 2 ^ Suc k - 1" "k = 0 \<or> 2 ^ k - 1 < length ns"
    using pad_spec [of ns] len ns(4) by auto
  have n: "nodes t = ns @ replicate (2 ^ Suc k - 1 - length ns) None" using ns(5) k(1) by simp
  then have d: "dropBlankTail (nodes t) = ns" using ns(3) by (simp add: dropBlankTail_padded)
  have "k \<le> 30"
  proof (rule ccontr)
    assume "\<not> k \<le> 30"
    then have "(2 :: nat) ^ 31 \<le> 2 ^ k" "k \<noteq> 0"
      using power_increasing [of 31 k "2 :: nat"] by auto
    with k(3) len show False by simp
  qed
  then have "fullTree k t" using n k(2) by (simp add: fullTree_def)
  moreover have "tightTree t"
    using d n k(2,3) ns(2) by (auto simp: tightTree_def half_width)
  moreover have "list_all (pred_option wfNode) (nodes t)"
    using r(1) n by (auto simp: list_all_iff)
  moreover have "RatchetTree_MarshalMLS t = Ok data"
    using r(2) d by (simp add: RatchetTree_MarshalMLS_def optnode.vec.marshal_emits)
  ultimately show "suite t = s \<and> (\<exists>h. fullTree h t) \<and> tightTree t \<and>
      list_all (pred_option wfNode) (nodes t) \<and> RatchetTree_MarshalMLS t = Ok data"
    using ns(5) by auto
next
  assume a: "suite t = s \<and> (\<exists>h. fullTree h t) \<and> tightTree t \<and>
      list_all (pred_option wfNode) (nodes t) \<and> RatchetTree_MarshalMLS t = Ok data"
  then obtain h where h: "h \<le> 30" "length (nodes t) = 2 ^ Suc h - 1" by (auto simp: fullTree_def)
  define d where "d = dropBlankTail (nodes t)"
  obtain m where m: "nodes t = d @ replicate m None" "d = [] \<or> last d \<noteq> None"
    using dropBlankTail_split [of "nodes t"] d_def by blast
  have low: "2 ^ h - 1 < length d"
    using a unfolding tightTree_def d_def h(2) half_width by blast
  have top: "length d \<le> 2 ^ Suc h - 1" using m(1) h(2) by (metis length_append le_add1)
  then have "length d \<le> 2147483647" using pow31 [OF h(1)] by simp
  then obtain v k where k: "fullWidth (len32 d) = Ok v"
    "padTo v d = d @ replicate (2 ^ Suc k - 1 - length d) None"
    "length d \<le> 2 ^ Suc k - 1" "k = 0 \<or> 2 ^ k - 1 < length d"
    using pad_spec [of d] by blast
  have "k = h" by (rule width_unique [OF top low k(3,4)])
  moreover have "m = 2 ^ Suc h - 1 - length d" using m(1) h(2) by (metis diff_add_inverse length_append length_replicate)
  ultimately have "padTo v d = nodes t" using k(2) m(1) by simp
  moreover have "emits (WriteVectorV (WriteOptional Node_marshal) d) data"
    using a unfolding RatchetTree_MarshalMLS_def d_def [symmetric] optnode.vec.marshal_emits by blast
  then have "ReadVectorV (ReadOptional decodeNode) data = Ok (d, [])"
    using a m(1) by (simp add: optnode.vector_decode_iff reads_def)
  ultimately show "ParseRatchetTree s data = Ok t"
    using a m(2) k(1) low by (auto simp: ParseRatchetTree_def)
qed

text \<open>C26: \<^verbatim>\<open>ParseRatchetTree\<close> accepts a byte string exactly if it is the encoding of a tree of
  complete width that no smaller complete tree could hold, and returns that tree: there
  is one accepted encoding per tree, and parsing and printing are inverse.
\<close>
theorem ratchet_tree_codec:
  "ParseRatchetTree s data = Ok t \<longleftrightarrow>
    suite t = s \<and> (\<exists>h. fullTree h t) \<and> tightTree t \<and> list_all (pred_option wfNode) (nodes t) \<and>
    RatchetTree_MarshalMLS t = Ok data"
  by (rule ParseRatchetTree_iff)

text \<open>the copy \<^verbatim>\<open>Clone\<close> makes of such a tree by printing and parsing it is the tree itself;
  the only way to fail is a node whose encoding fails.
\<close>
theorem clone_is_identity:
  assumes "fullTree h t" "tightTree t" "list_all (pred_option wfNode) (nodes t)"
  shows "Clone t = (case RatchetTree_MarshalMLS t of Inl f \<Rightarrow> Inl f | Inr data \<Rightarrow> Ok t)"
  using assms ParseRatchetTree_iff [of "suite t" _ t]
  by (cases "RatchetTree_MarshalMLS t") (auto simp: Clone_def)

theorem clone_is_identity_witness:
  "Clone sampleTree = (case RatchetTree_MarshalMLS sampleTree of Inl f \<Rightarrow> Inl f | Inr data \<Rightarrow> Ok sampleTree)"
  by (rule clone_is_identity [OF sampleTree_full])
    (simp_all add: tightTree_def sampleTree_def dropBlankTail.simps leafEntry_def wfNode_def
      wfLeafNode_def wfCredential_def sampleLeaf_def)

end
