(* ===== verification/TreeResolution.thy ===== *)
theory TreeResolution
  imports TreeInv
begin

text \<open>
  The resolution of a node (\<^verbatim>\<open>treesync.go\<close>) on a tree that satisfies the structural
  invariant: it is computed without a panic, lists populated nodes of the subtree without
  repetition, and reaches every member below the node.
\<close>

section \<open>Subtrees in coordinates\<close>

definition below :: "nat \<Rightarrow> nat \<Rightarrow> bool" where
  "below a x \<longleftrightarrow> x = a \<or> ancestorOf a x"

lemma below_node: "below (node k q) (node j r) \<longleftrightarrow> j \<le> k \<and> q = r div 2 ^ (k - j)"
  by (auto simp: below_def ancestorOf_def)

lemma below_refl [simp]: "below a a"
  by (simp add: below_def)

lemma below_trans: "below a b \<Longrightarrow> below b c \<Longrightarrow> below a c"
proof -
  obtain k q j r i s where e: "a = node k q" "b = node j r" "c = node i s"
    using node_nlevel by metis
  assume "below a b" "below b c"
  then have l: "i \<le> j" "j \<le> k" "r = s div 2 ^ (j - i)" "q = r div 2 ^ (k - j)"
    by (auto simp: e below_node)
  then have "q = s div (2 ^ (j - i) * 2 ^ (k - j))" by (simp add: div_mult2_eq)
  moreover have "(2 :: nat) ^ (j - i) * 2 ^ (k - j) = 2 ^ (k - i)"
    using l by (simp add: power_add [symmetric])
  ultimately show "below a c" using l by (simp add: e below_node)
qed

lemma below_children:
  "below (node (Suc k) q) x \<longleftrightarrow>
    x = node (Suc k) q \<or> below (node k (2 * q)) x \<or> below (node k (2 * q + 1)) x"
proof -
  obtain j r where x: "x = node j r" using node_nlevel by metis
  show ?thesis
  proof (cases "j \<le> k")
    case True
    then have "r div 2 ^ (Suc k - j) = r div 2 ^ (k - j) div 2"
      by (simp add: Suc_diff_le div_mult2_eq [symmetric] mult.commute)
    moreover have "q = a div 2 \<longleftrightarrow> 2 * q = a \<or> 2 * q + 1 = a" for a :: nat by presburger
    ultimately have "q = r div 2 ^ (Suc k - j) \<longleftrightarrow>
        2 * q = r div 2 ^ (k - j) \<or> 2 * q + 1 = r div 2 ^ (k - j)" by simp
    then show ?thesis using True by (auto simp: x below_node)
  next
    case False
    then show ?thesis by (auto simp: x below_node le_Suc_eq)
  qed
qed

lemma below_disjoint: "below (node k q) x \<Longrightarrow> below (node k q') x \<Longrightarrow> q = q'"
proof -
  obtain j r where "x = node j r" using node_nlevel by metis
  then show "below (node k q) x \<Longrightarrow> below (node k q') x \<Longrightarrow> q = q'" by (simp add: below_node)
qed

lemma below_leaf: "below (2 * d) x \<longleftrightarrow> x = 2 * d"
  by (auto simp: below_def not_ancestor_even)

lemma subtreeContains_below: "level a \<le> 31 \<Longrightarrow> subtreeContains a x \<longleftrightarrow> below (unat a) (unat x)"
  by (auto simp: subtreeContains_iff below_def word_unat_eq_iff)

text \<open>An index inside a tree is below level 31.\<close>

lemma inside_level:
  assumes "fullTree h t" "unat i < length (nodes t)"
  shows "level i \<le> 30"
proof -
  obtain k q where i: "unat i = node k q" by (rule coord_exists)
  have "Suc (node k q) < 2 ^ Suc h" using assms i by (auto simp: fullTree_def)
  then have "k \<le> h" by (simp only: node_bound)
  then show ?thesis using assms(1) level_coord [OF i] by (simp add: fullTree_def)
qed

lemma subtreeContains_inside:
  "fullTree h t \<Longrightarrow> unat i < length (nodes t) \<Longrightarrow> subtreeContains i x \<longleftrightarrow> below (unat i) (unat x)"
  using subtreeContains_below [of i x] inside_level [of h t i] by simp

lemma full_children:
  assumes n: "unat n = 2 ^ h" "h \<le> 31" and p: "p < NodeWidth n" "unat p = node (Suc k) q"
  shows "\<exists>l r. Left p = (l, True) \<and> Right p n = Ok (r, True) \<and> unat l = node k (2 * q) \<and>
    unat r = node k (2 * q + 1) \<and> l < NodeWidth n \<and> r < NodeWidth n"
proof -
  note w = full_count [OF n]
  have "Suc (node (Suc k) q) < 2 ^ Suc h" using p w(2) by (simp add: word_less_nat_alt)
  then have kq: "Suc k \<le> h" "q < 2 ^ (h - Suc k)" by (simp_all only: node_bound)
  have "2 * q + 1 < 2 * 2 ^ (h - Suc k)" using kq(2) by simp
  also have "\<dots> = 2 ^ (h - k)" using kq(1) by (metis Suc_diff_Suc Suc_le_eq power_Suc)
  finally have "Suc (node k (2 * q)) < 2 ^ Suc h" "Suc (node k (2 * q + 1)) < 2 ^ Suc h"
    using kq(1) by (simp_all only: node_bound) auto
  then have b: "node k (2 * q) < unat (NodeWidth n)" "node k (2 * q + 1) < unat (NodeWidth n)"
    using w(2) by auto
  note l = Left_coord [OF p(2)]
  have s: "node k (2 * q + 1) < 2 ^ 32" using b(2) unat_u32_less [of "NodeWidth n"] by simp
  define r where "r = p XOR push_bit k (3 :: u32)"
  have r: "unat r = node k (2 * q + 1)" unfolding r_def by (rule right_coord [OF p(2) s])
  have "\<not> NodeWidth n \<le> r" using r b(2) by (simp add: word_le_nat_alt)
  then have "Right p n = Ok (r, True)"
    using level_coord [OF p(2)] rightLoop.simps [of "NodeWidth n" r]
    unfolding Right_def Let_def by (simp add: r_def [symmetric])
  then show ?thesis
    using l r b by (intro exI [of _ "fst (Left p)"] exI [of _ r]) (simp add: word_less_nat_alt)
qed

section \<open>What a resolution lists\<close>

definition unmergedOf :: "Node option list \<Rightarrow> nat \<Rightarrow> u32 set" where
  "unmergedOf ns i =
    (case at ns i of
       None \<Rightarrow> {}
     | Some nd \<Rightarrow> (case ParentN nd of None \<Rightarrow> {} | Some p \<Rightarrow> set (UnmergedLeaves p)))"

definition resolves :: "Node option list \<Rightarrow> nat \<Rightarrow> u32 list \<Rightarrow> bool" where
  "resolves ns i r \<longleftrightarrow> distinct r \<and>
    (\<forall>d\<in>set r. below i (unat d) \<and> at ns (unat d) \<noteq> None) \<and>
    (\<forall>l. at ns (2 * unat l) \<noteq> None \<longrightarrow> below i (2 * unat l) \<longrightarrow>
      (\<exists>d\<in>set r. unat d = 2 * unat l \<or> below (unat d) (2 * unat l) \<and> l \<notin> unmergedOf ns (unat d)))"

lemma resolves_populated_leaf:
  assumes "at ns (2 * d) \<noteq> None" "unat i = 2 * d"
  shows "resolves ns (2 * d) [i]"
  using assms by (auto simp: resolves_def below_leaf)

lemma resolves_blank_leaf:
  assumes "at ns (2 * d) = None"
  shows "resolves ns (2 * d) []"
  using assms by (auto simp: resolves_def below_leaf)

lemma resolves_join:
  assumes "resolves ns (node k (2 * q)) a" "resolves ns (node k (2 * q + 1)) b"
  shows "resolves ns (node (Suc k) q) (a @ b)"
proof -
  have "set a \<inter> set b = {}"
    using assms below_disjoint [of k "2 * q" _ "2 * q + 1"] by (fastforce simp: resolves_def)
  moreover have "2 * unat l \<noteq> node (Suc k) q" for l :: u32
    using nlevel_node [of "Suc k" q] leaf_node_level [of "2 * unat l"] by auto
  ultimately show ?thesis
    using assms unfolding resolves_def below_children [of k q] by (auto 0 3)
qed

lemma resolves_parent:
  assumes t: "fullTree h t" and ok: "nodeOK (nodes t) (unat i)"
    and nd: "at (nodes t) (unat i) = Some nd" and p: "ParentN nd = Some p"
  shows "resolves (nodes t) (unat i) (i # map (\<lambda>l. 2 * l) (UnmergedLeaves p))"
proof -
  have pk: "parentOK (nodes t) (unat i) p"
    using ok nd p by (auto simp: nodeOK_def split: if_splits option.splits)
  have len: "length (nodes t) \<le> 2147483647" using t pow31 [of h] by (auto simp: fullTree_def)
  have u: "unat (2 * l) = 2 * unat l" if "l \<in> set (UnmergedLeaves p)" for l
  proof -
    have "at (nodes t) (2 * unat l) \<noteq> None" using pk that by (auto simp: parentOK_def)
    then have "2 * unat l < 4294967296" using len by (auto simp: at_def split: if_splits)
    then show ?thesis by (simp add: unat_u32_double)
  qed
  have "distinct (UnmergedLeaves p)"
    using pk by (simp add: parentOK_def strict_sorted_iff)
  moreover have "inj_on (\<lambda>l. 2 * l) (set (UnmergedLeaves p))"
    by (rule inj_onI) (metis u word_unat_eq_iff mult_cancel1 zero_neq_numeral)
  moreover have "i \<noteq> 2 * l" if "l \<in> set (UnmergedLeaves p)" for l
  proof
    assume "i = 2 * l"
    then have "ancestorOf (2 * unat l) (2 * unat l)" using pk u [OF that] that by (auto simp: parentOK_def)
    then show False by (simp add: not_ancestor_even)
  qed
  ultimately have d: "distinct (i # map (\<lambda>l. 2 * l) (UnmergedLeaves p))" by (auto simp: distinct_map)
  have "unmergedOf (nodes t) (unat i) = set (UnmergedLeaves p)" by (simp add: unmergedOf_def nd p)
  then show ?thesis
    using d pk u nd by (auto simp: resolves_def parentOK_def below_def)
qed


lemma Resolution_resolves:
  assumes "treeInv t" "unat i < length (nodes t)"
  shows "\<exists>r. Resolution t i = Ok r \<and> resolves (nodes t) (unat i) r"
proof -
  obtain h where t: "fullTree h t" using assms(1) by (auto simp: treeInv_def)
  have ok: "nodeOK (nodes t) j" for j using assms(1) by (simp add: treeInv_iff)
  have h: "h \<le> 31" using t by (simp add: fullTree_def)
  note w = fullTree_width [OF t]
  obtain k q where "unat i = node k q" by (rule coord_exists)
  then show ?thesis using assms(2)
  proof (induction k arbitrary: i q)
    case 0
    then have e: "unat i = 2 * q" by (simp add: node_def)
    show ?case
    proof (cases "nodes t ! unat i")
      case None
      then have "Resolution t i = Ok []"
        using 0 Left_leaf [OF 0(1)] by (simp add: Resolution.simps [of t i] goIndex_def)
      moreover have "at (nodes t) (2 * q) = None" using None e by (simp add: at_def)
      ultimately show ?thesis using resolves_blank_leaf e by auto
    next
      case (Some nd)
      then have "ParentN nd = None"
        using ok [of "unat i"] 0(2) e by (simp add: nodeOK_def at_def)
      then have "Resolution t i = Ok [i]"
        using 0(2) Some by (simp add: Resolution.simps [of t i] goIndex_def)
      moreover have "at (nodes t) (2 * q) \<noteq> None" using Some e 0(2) by (simp add: at_def)
      ultimately show ?thesis using resolves_populated_leaf e by auto
    qed
  next
    case (Suc k)
    show ?case
    proof (cases "nodes t ! unat i")
      case None
      have "i < NodeWidth (leafCount t)" using Suc.prems(2) w by (simp add: word_less_nat_alt)
      then obtain l r where lr: "Left i = (l, True)" "Right i (leafCount t) = Ok (r, True)"
        "unat l = node k (2 * q)" "unat r = node k (2 * q + 1)"
        "unat l < length (nodes t)" "unat r < length (nodes t)"
        using full_children [OF w(2) h _ Suc.prems(1)] w(1,3) by (auto simp: word_less_nat_alt)
      obtain a b where ab: "Resolution t l = Ok a" "resolves (nodes t) (node k (2 * q)) a"
        "Resolution t r = Ok b" "resolves (nodes t) (node k (2 * q + 1)) b"
        using Suc.IH [OF lr(3,5)] Suc.IH [OF lr(4,6)] lr(3,4) by auto
      have "Resolution t i = Ok (a @ b)"
        using Suc.prems(2) None lr(1,2) ab(1,3) by (simp add: Resolution.simps [of t i] goIndex_def)
      then show ?thesis using resolves_join [OF ab(2,4)] Suc.prems(1) by auto
    next
      case (Some nd)
      have nd: "at (nodes t) (unat i) = Some nd" using Some Suc.prems(2) by (simp add: at_def)
      have "odd (unat i)" using Suc.prems(1) by (simp add: node_Suc)
      then obtain p where p: "ParentN nd = Some p"
        using ok [of "unat i"] nd by (auto simp: nodeOK_def split: option.splits)
      have "Resolution t i = Ok (i # map (\<lambda>l. 2 * l) (UnmergedLeaves p))"
        using Suc.prems(2) Some p by (simp add: Resolution.simps [of t i] goIndex_def)
      then show ?thesis using resolves_parent [OF t ok nd p] by blast
    qed
  qed
qed


text \<open>C24: in a tree with the structural invariant the resolution of a node is computed without a
  panic; it lists populated nodes of the subtree, none twice, and every populated leaf
  below the node is listed itself or lies below a listed parent in which it is merged.
\<close>
theorem resolution_covers:
  assumes "treeInv t" "i < Width t"
  shows "\<exists>r. Resolution t i = Ok r \<and> distinct r \<and>
    (\<forall>d\<in>set r. subtreeContains i d \<and> NodeAt t d \<noteq> None) \<and>
    (\<forall>l<leafCount t. NodeAt t (2 * l) \<noteq> None \<longrightarrow> subtreeContains i (2 * l) \<longrightarrow>
      (\<exists>d\<in>set r. d = 2 * l \<or>
        subtreeContains d (2 * l) \<and> l \<notin> unmergedOf (nodes t) (unat d)))"
proof -
  obtain h where t: "fullTree h t" using assms(1) by (auto simp: treeInv_def)
  have i: "unat i < length (nodes t)"
    using assms(2) fullTree_width(1) [OF t] by (simp add: word_less_nat_alt)
  obtain r where r: "Resolution t i = Ok r" "resolves (nodes t) (unat i) r"
    using Resolution_resolves [OF assms(1) i] by blast
  have N: "NodeAt t d = at (nodes t) (unat d)" for d by (rule fullTree_NodeAt(1) [OF t])
  have S: "subtreeContains i d \<longleftrightarrow> below (unat i) (unat d)" for d
    by (rule subtreeContains_inside [OF t i])
  have D: "subtreeContains d x \<longleftrightarrow> below (unat d) (unat x)" if "d \<in> set r" for d x
  proof -
    have "unat d < length (nodes t)"
      using r(2) that by (auto simp: resolves_def at_def split: if_splits)
    then show ?thesis by (rule subtreeContains_inside [OF t])
  qed
  have "\<exists>d\<in>set r. d = 2 * l \<or> subtreeContains d (2 * l) \<and> l \<notin> unmergedOf (nodes t) (unat d)"
    if l: "l < leafCount t" "NodeAt t (2 * l) \<noteq> None" "subtreeContains i (2 * l)" for l
  proof -
    have u: "unat (2 * l) = 2 * unat l" by (rule fullTree_leaf(2) [OF t l(1)])
    then obtain d where "d \<in> set r"
      "unat d = 2 * unat l \<or> below (unat d) (2 * unat l) \<and> l \<notin> unmergedOf (nodes t) (unat d)"
      using r(2) l(2,3) unfolding resolves_def N S by auto
    then show ?thesis using D u by (auto simp: word_unat_eq_iff)
  qed
  then show ?thesis using r unfolding resolves_def N S by blast
qed

theorem resolution_covers_witness:
  "\<exists>r. Resolution sampleTree 1 = Ok r \<and> distinct r \<and>
    (\<forall>d\<in>set r. subtreeContains 1 d \<and> NodeAt sampleTree d \<noteq> None)"
proof -
  have "1 < Width sampleTree" by (simp add: Width_def sampleTree_def len32_def)
  then show ?thesis using resolution_covers [OF sampleTree_inv] by blast
qed

end
