(* ===== verification/TreeKEM.thy ===== *)
theory TreeKEM
  imports TreeSync
begin

text \<open>
  TreeKEM of \<^verbatim>\<open>src/mls/tree/treekem.go\<close>: filtered direct paths, installation of new path
  keys and parent hashes, and the two sides of an update path.  \<^verbatim>\<open>GenerateUpdatePath\<close>
  is the committer, who derives the chain of path secrets and encrypts each to the
  resolution of the copath; \<^verbatim>\<open>ProcessUpdatePath\<close> is a receiver, who decrypts one of them
  and derives the rest.  Operations that change the tree return the changed tree; the
  randomness of the encryption at resolution entry \<open>i\<close> of path node \<open>k\<close> is \<open>rnd k i\<close>.
\<close>

section \<open>Secrets\<close>

definition CommitSecret :: "Std \<Rightarrow> Suite \<Rightarrow> bytes \<Rightarrow> bytes res" where
  "CommitSecret std s lastPathSecret = DeriveSecret std s lastPathSecret ''path''"

definition nodeKeyPair :: "Std \<Rightarrow> Suite \<Rightarrow> bytes \<Rightarrow> (bytes \<times> bytes) res" where
  "nodeKeyPair std s pathSecret =
    bindR (DeriveSecret std s pathSecret ''node'') (\<lambda>nodeSecret. DeriveKeyPair std s nodeSecret)"

section \<open>Paths\<close>

definition pathChild :: "RatchetTree \<Rightarrow> u32 \<Rightarrow> u32 \<Rightarrow> u32 res" where
  "pathChild t p target =
    (let (l, _) = Left p in
     if subtreeContains l target then Ok l
     else bindR (Right p (leafCount t)) (\<lambda>(r, _). Ok r))"

definition copathChild :: "RatchetTree \<Rightarrow> u32 \<Rightarrow> u32 \<Rightarrow> u32 res" where
  "copathChild t p senderNode =
    bindR (pathChild t p senderNode) (\<lambda>pc.
    bindR (Sibling pc (leafCount t)) (\<lambda>(s, _). Ok s))"

lemma climb_level: "Parent x n = Ok (p, ok) \<Longrightarrow> x \<noteq> Root n \<Longrightarrow> level x < level p"
  using Parent_Ok Parent_not_ok by (cases ok) auto

function fdpLoop :: "RatchetTree \<Rightarrow> u32 \<Rightarrow> u32 list res" where
  "fdpLoop t x =
    (if x = Root (leafCount t) then Ok []
     else
       bindR (Parent x (leafCount t)) (\<lambda>(p, _).
       bindR (Sibling x (leafCount t)) (\<lambda>(s, _).
       bindR (Resolution t s) (\<lambda>res.
       bindR (fdpLoop t p) (\<lambda>path. Ok (if res \<noteq> [] then p # path else path))))))"
  by pat_completeness auto
termination
proof (relation "measure (\<lambda>(t, x). 32 - level x)")
  fix t x y p ok
  assume "x \<noteq> Root (leafCount t)" "Parent x (leafCount t) = Inr y" "(p, ok) = y"
  then have "level x < level p" using climb_level by auto
  then show "((t, p), (t, x)) \<in> measure (\<lambda>(t, x). 32 - level x)"
    using level_le [of p] by simp
qed simp

declare fdpLoop.simps [simp del]

definition filteredDirectPath :: "RatchetTree \<Rightarrow> u32 \<Rightarrow> u32 list res" where
  "filteredDirectPath t leafIndex = fdpLoop t (2 * leafIndex)"

definition nodePublicKey :: "RatchetTree \<Rightarrow> u32 \<Rightarrow> bytes res" where
  "nodePublicKey t d =
    bindR (goIndex (nodes t) (unat d)) (\<lambda>n.
      case n of
        None \<Rightarrow> Err ''tree: node is blank''
      | Some nd \<Rightarrow>
          (case Leaf nd of
             Some l \<Rightarrow> Ok (leaf_EncryptionKey l)
           | None \<Rightarrow> bindR (fromOption PanicNil (ParentN nd)) (\<lambda>p. Ok (par_EncryptionKey p))))"

section \<open>Private state\<close>

record TreeKEMPrivate =
  LeafIndex :: u32
  privs :: "u32 \<rightharpoonup> bytes"

definition NewTreeKEMPrivate :: "u32 \<Rightarrow> bytes \<Rightarrow> TreeKEMPrivate" where
  "NewTreeKEMPrivate leafIndex leafPriv =
    \<lparr>LeafIndex = leafIndex, privs = [2 * leafIndex \<mapsto> leafPriv]\<rparr>"

definition AddPathSecret ::
  "Std \<Rightarrow> Suite \<Rightarrow> TreeKEMPrivate \<Rightarrow> u32 \<Rightarrow> bytes \<Rightarrow> TreeKEMPrivate res" where
  "AddPathSecret std s p nodeIndex pathSecret =
    bindR (nodeKeyPair std s pathSecret) (\<lambda>(priv, _).
      Ok (p\<lparr>privs := (privs p)(nodeIndex \<mapsto> priv)\<rparr>))"

definition PrivateKeyAt :: "TreeKEMPrivate \<Rightarrow> u32 \<Rightarrow> bytes option" where
  "PrivateKeyAt p nd = privs p nd"

section \<open>Installing a path\<close>

definition newParent :: "bytes \<Rightarrow> Node option" where
  "newParent pub = Some \<lparr>Leaf = None,
     ParentN = Some \<lparr>par_EncryptionKey = pub, par_ParentHash = [], UnmergedLeaves = []\<rparr>\<rparr>"

definition setParentHash :: "RatchetTree \<Rightarrow> u32 \<Rightarrow> bytes \<Rightarrow> RatchetTree res" where
  "setParentHash t p ph =
    bindR (goIndex (nodes t) (unat p)) (\<lambda>n.
    bindR (fromOption PanicNil n) (\<lambda>nd.
    bindR (fromOption PanicNil (ParentN nd)) (\<lambda>pn.
      Ok (t\<lparr>nodes := (nodes t)[unat p := Some (nd\<lparr>ParentN := Some (pn\<lparr>par_ParentHash := ph\<rparr>)\<rparr>)]\<rparr>))))"

text \<open>The parent hashes are assigned from the top of the path down.\<close>

fun assignHashes :: "Std \<Rightarrow> RatchetTree \<Rightarrow> u32 list \<Rightarrow> RatchetTree res" where
  "assignHashes std t [] = Ok t"
| "assignHashes std t [p] = setParentHash t p []"
| "assignHashes std t (p # parent # ps) =
    bindR (assignHashes std t (parent # ps)) (\<lambda>t.
    bindR (pathChild t parent p) (\<lambda>pc.
    bindR (Sibling pc (leafCount t)) (\<lambda>(s, _).
    bindR (parentHashOf std t parent s) (\<lambda>ph. setParentHash t p ph))))"

definition installPath ::
  "Std \<Rightarrow> RatchetTree \<Rightarrow> u32 \<Rightarrow> bytes list \<Rightarrow> (RatchetTree \<times> u32 list) res" where
  "installPath std t senderLeaf nodePubs =
    (let leaves = leafCount t; senderNode = 2 * senderLeaf in
     bindR (filteredDirectPath t senderLeaf) (\<lambda>fdp.
       if length fdp \<noteq> length nodePubs
       then Err ''tree: public keys for filtered direct path of length''
       else
         bindR (blankPath leaves (Root leaves) senderNode (nodes t)) (\<lambda>ns.
         bindR (foldR (\<lambda>ns (p, pub). goUpdate ns (unat p) (newParent pub)) ns (zip fdp nodePubs)) (\<lambda>ns.
         bindR (assignHashes std (t\<lparr>nodes := ns\<rparr>) fdp) (\<lambda>t. Ok (t, fdp))))))"

definition leafParentHash :: "Std \<Rightarrow> RatchetTree \<Rightarrow> u32 \<Rightarrow> u32 list \<Rightarrow> bytes res" where
  "leafParentHash std t senderLeaf fdp =
    (case fdp of
       [] \<Rightarrow> Ok []
     | parent # _ \<Rightarrow>
         bindR (pathChild t parent (2 * senderLeaf)) (\<lambda>pc.
         bindR (Sibling pc (leafCount t)) (\<lambda>(s, _). parentHashOf std t parent s)))"

definition Merge :: "Std \<Rightarrow> RatchetTree \<Rightarrow> u32 \<Rightarrow> UpdatePath \<Rightarrow> RatchetTree res" where
  "Merge std t senderLeaf up =
    bindR (installPath std t senderLeaf (map upn_EncryptionKey (Nodes up))) (\<lambda>(t, _).
    bindR (goUpdate (nodes t) (unat (2 * senderLeaf)) (leafEntry (up_LeafNode up))) (\<lambda>ns.
      Ok (t\<lparr>nodes := ns\<rparr>)))"

section \<open>Receiving\<close>

definition newlyAddedSet :: "u32 list \<Rightarrow> u32 set" where
  "newlyAddedSet newlyAdded = (\<lambda>li. 2 * li) ` set newlyAdded"

text \<open>One copath resolution: the position in the ciphertext list advances on every entry that
  is not newly added, and the first entry with a held key is decrypted.\<close>

primrec scanResolution ::
  "Std \<Rightarrow> Suite \<Rightarrow> u32 set \<Rightarrow> (u32 \<rightharpoonup> bytes) \<Rightarrow> bytes \<Rightarrow> HPKECiphertext list \<Rightarrow> nat \<Rightarrow> u32 list \<Rightarrow>
   bytes option res" where
  "scanResolution std s added keys gc cts ctIdx [] = Ok None"
| "scanResolution std s added keys gc cts ctIdx (d # ds) =
    (if d \<in> added then scanResolution std s added keys gc cts ctIdx ds
     else
       case keys d of
         None \<Rightarrow> scanResolution std s added keys gc cts (ctIdx + 1) ds
       | Some sk \<Rightarrow>
           if ctIdx \<ge> length cts then Ok None
           else
             let ct = cts ! ctIdx in
             bindR (DecryptWithLabel std s sk ''UpdatePathNode'' gc (KemOutput ct) (Ciphertext ct))
               (\<lambda>ps. Ok (Some ps)))"

text \<open>The path nodes from below, with what \<^verbatim>\<open>up.Nodes\<close> holds for each; the result is the
  decrypted secret and the rest of the path from its node on.\<close>

primrec findSecret ::
  "Std \<Rightarrow> RatchetTree \<Rightarrow> u32 \<Rightarrow> u32 set \<Rightarrow> (u32 \<rightharpoonup> bytes) \<Rightarrow> bytes \<Rightarrow> (u32 \<times> UpdatePathNode) list \<Rightarrow>
   (bytes \<times> (u32 \<times> UpdatePathNode) list) option res" where
  "findSecret std t senderNode added keys gc [] = Ok None"
| "findSecret std t senderNode added keys gc (pn # pns) =
    bindR (copathChild t (fst pn) senderNode) (\<lambda>cc.
    bindR (Resolution t cc) (\<lambda>res.
    bindR (scanResolution std (suite t) added keys gc (EncryptedPathSecret (snd pn)) 0 res) (\<lambda>found.
      case found of
        Some ps \<Rightarrow> Ok (Some (ps, pn # pns))
      | None \<Rightarrow> findSecret std t senderNode added keys gc pns)))"

fun deriveUp :: "Std \<Rightarrow> Suite \<Rightarrow> bytes \<Rightarrow> (u32 \<times> UpdatePathNode) list \<Rightarrow> bytes res" where
  "deriveUp std s cur [] = Ok cur"
| "deriveUp std s cur (pn # pns) =
    bindR (nodeKeyPair std s cur) (\<lambda>(_, pub).
      if pub \<noteq> upn_EncryptionKey (snd pn) then Err ''tree: derived public key mismatch''
      else if pns = [] then Ok cur
      else bindR (DeriveSecret std s cur ''path'') (\<lambda>cur. deriveUp std s cur pns))"

definition ProcessUpdatePath ::
  "Std \<Rightarrow> RatchetTree \<Rightarrow> u32 \<Rightarrow> UpdatePath \<Rightarrow> TreeKEMPrivate \<Rightarrow> bytes \<Rightarrow> u32 list \<Rightarrow>
   (bytes \<times> bytes) option res" where
  "ProcessUpdatePath std t senderLeaf up priv groupContext newlyAdded =
    (let senderNode = 2 * senderLeaf in
     bindR (filteredDirectPath t senderLeaf) (\<lambda>fdp.
       if length fdp \<noteq> length (Nodes up)
       then Err ''tree: UpdatePath nodes do not match the filtered direct path''
       else
         bindR (findSecret std t senderNode (newlyAddedSet newlyAdded) (privs priv) groupContext
             (zip fdp (Nodes up))) (\<lambda>found.
         case found of
           None \<Rightarrow> Ok None
         | Some (decrypted, rest) \<Rightarrow>
             bindR (deriveUp std (suite t) decrypted rest) (\<lambda>cur.
             bindR (CommitSecret std (suite t) cur) (\<lambda>commitSecret.
               Ok (Some (decrypted, commitSecret)))))))"

section \<open>Committing\<close>

primrec derivePathSecrets :: "Std \<Rightarrow> Suite \<Rightarrow> bytes \<Rightarrow> nat \<Rightarrow> bytes list res" where
  "derivePathSecrets std s src 0 = Ok []"
| "derivePathSecrets std s src (Suc n) =
    bindR (DeriveSecret std s src ''path'') (\<lambda>ps.
    bindR (derivePathSecrets std s ps n) (\<lambda>rest. Ok (ps # rest)))"

definition resolutionKeys :: "RatchetTree \<Rightarrow> u32 \<Rightarrow> u32 set \<Rightarrow> u32 \<Rightarrow> bytes list res" where
  "resolutionKeys t senderNode added p =
    bindR (copathChild t p senderNode) (\<lambda>cc.
    bindR (Resolution t cc) (\<lambda>res.
      mapR (nodePublicKey t) (filter (\<lambda>d. d \<notin> added) res)))"

primrec encryptTo ::
  "Std \<Rightarrow> Suite \<Rightarrow> (nat \<Rightarrow> bytes) \<Rightarrow> bytes \<Rightarrow> bytes \<Rightarrow> nat \<Rightarrow> bytes list \<Rightarrow> HPKECiphertext list res" where
  "encryptTo std s rnd gc secret i [] = Ok []"
| "encryptTo std s rnd gc secret i (pub # pubs) =
    bindR (EncryptWithLabel std s (rnd i) pub ''UpdatePathNode'' gc secret) (\<lambda>(kem, ct).
    bindR (encryptTo std s rnd gc secret (i + 1) pubs) (\<lambda>cts.
      Ok (\<lparr>KemOutput = kem, Ciphertext = ct\<rparr> # cts)))"

primrec encryptPath ::
  "Std \<Rightarrow> Suite \<Rightarrow> (nat \<Rightarrow> nat \<Rightarrow> bytes) \<Rightarrow> bytes \<Rightarrow> nat \<Rightarrow> (bytes \<times> bytes \<times> bytes list) list \<Rightarrow>
   UpdatePathNode list res" where
  "encryptPath std s rnd gc k [] = Ok []"
| "encryptPath std s rnd gc k (e # es) =
    (let (pub, secret, resPubs) = e in
     bindR (encryptTo std s (rnd k) gc secret 0 resPubs) (\<lambda>cts.
     bindR (encryptPath std s rnd gc (k + 1) es) (\<lambda>ns.
       Ok (\<lparr>upn_EncryptionKey = pub, EncryptedPathSecret = cts\<rparr> # ns))))"

definition commitLeaf :: "LeafNode \<Rightarrow> bytes \<Rightarrow> bytes \<Rightarrow> LeafNode" where
  "commitLeaf orig leafPub ph =
    \<lparr>leaf_EncryptionKey = leafPub, SignatureKey = SignatureKey orig,
     leaf_Credential = leaf_Credential orig, leaf_Capabilities = leaf_Capabilities orig,
     LeafNodeSource = LeafNodeSourceCommit, leaf_Lifetime = None, leaf_ParentHash = ph,
     leaf_Extensions = leaf_Extensions orig, leaf_Signature = []\<rparr>"

definition GenerateUpdatePath ::
  "Std \<Rightarrow> (nat \<Rightarrow> nat \<Rightarrow> bytes) \<Rightarrow> RatchetTree \<Rightarrow> u32 \<Rightarrow> bytes \<Rightarrow> Signer \<Rightarrow> bytes \<Rightarrow> u32 list \<Rightarrow>
   (bytes \<Rightarrow> bytes res) \<Rightarrow> (RatchetTree \<times> UpdatePath \<times> bytes \<times> (u32 \<rightharpoonup> bytes)) res" where
  "GenerateUpdatePath std rnd t senderLeaf leafSecret signer groupID newlyAdded mkGroupContext =
    (let s = suite t; senderNode = 2 * senderLeaf; added = newlyAddedSet newlyAdded in
     bindR (goIndex (nodes t) (unat senderNode)) (\<lambda>origNode.
     bindR (fromOption (Error ''tree: sender leaf is blank'') (leafOf origNode)) (\<lambda>orig.
     bindR (filteredDirectPath t senderLeaf) (\<lambda>fdp.
     bindR (derivePathSecrets std s leafSecret (length fdp)) (\<lambda>pathSecrets.
     bindR (CommitSecret std s (last (leafSecret # pathSecrets))) (\<lambda>commitSecret.
     bindR (DeriveSecret std s leafSecret ''node'') (\<lambda>leafNodeSecret.
     bindR (DeriveKeyPair std s leafNodeSecret) (\<lambda>(_, leafPub).
     bindR (mapR (\<lambda>ps. bindR (nodeKeyPair std s ps) (\<lambda>(_, pub). Ok pub)) pathSecrets) (\<lambda>nodePubs.
     bindR (mapR (resolutionKeys t senderNode added) fdp) (\<lambda>resPubs.
     bindR (installPath std t senderLeaf nodePubs) (\<lambda>(t, _).
     bindR (leafParentHash std t senderLeaf fdp) (\<lambda>ph.
     bindR (SignLeafNode std s signer (commitLeaf orig leafPub ph) groupID senderLeaf) (\<lambda>leaf.
     bindR (goUpdate (nodes t) (unat senderNode) (leafEntry leaf)) (\<lambda>ns.
     let t = t\<lparr>nodes := ns\<rparr> in
     bindR (RootTreeHash std t) (\<lambda>treeHash.
     bindR (mkGroupContext treeHash) (\<lambda>groupContext.
     bindR (encryptPath std s rnd groupContext 0 (zip nodePubs (zip pathSecrets resPubs))) (\<lambda>ns.
       Ok (t, \<lparr>up_LeafNode = leaf, Nodes = ns\<rparr>, commitSecret,
           map_of (zip fdp pathSecrets)))))))))))))))))))"

end
