(* ===== verification/KEMPath.thy ===== *)
theory KEMPath
  imports TreeResolution TreeKEM
begin

text \<open>
  Direct paths and copaths in a complete tree: from every node below the root the climb
  meets a parent and a sibling, the copath child of a path node is that sibling, and
  every leaf outside the starting subtree lies below exactly one copath node.
\<close>

text \<open>One step of the climb, in coordinates.\<close>

lemma climb_step:
  assumes n: "unat n = 2 ^ h" "h \<le> 31" and x: "x < NodeWidth n" "x \<noteq> Root n" "unat x = node k q"
  shows "\<exists>p s. Parent x n = Ok (p, True) \<and> Sibling x n = Ok (s, True) \<and>
    p < NodeWidth n \<and> s < NodeWidth n \<and> k < h \<and>
    unat p = node (Suc k) (q div 2) \<and> unat s = node k (if even q then q + 1 else q - 1) \<and>
    (if even q then Left p = (x, True) \<and> Right p n = Ok (s, True)
     else Left p = (s, True) \<and> Right p n = Ok (x, True))"
proof -
  obtain p where p: "k < h" "Parent x n = Ok (p, True)" "unat p = node (Suc k) (q div 2)" "p < NodeWidth n"
    using full_parent [OF n x] by blast
  obtain l r where lr: "Left p = (l, True)" "Right p n = Ok (r, True)" "unat l = node k (2 * (q div 2))"
    "unat r = node k (2 * (q div 2) + 1)" "l < NodeWidth n" "r < NodeWidth n"
    using full_children [OF n p(4,3)] by blast
  show ?thesis
  proof (cases "even q")
    case True
    then have "l = x" using lr(3) x(3) by (simp add: word_unat_eq_iff)
    then show ?thesis using p lr True by (simp add: Sibling_def)
  next
    case False
    then have "r = x" using lr(4) x(3) by (simp add: word_unat_eq_iff)
    moreover have "2 * (q div 2) = q - 1" using False by presburger
    moreover from this have "l \<noteq> x" using lr(3) x(3) False by (auto simp: word_unat_eq_iff elim: oddE)
    ultimately show ?thesis using p lr False by (simp add: Sibling_def)
  qed
qed

lemma below_parent: "below (node (Suc k) (q div 2)) (node k q)"
  by (simp add: below_node)

lemma below_sibling:
  "below (node (Suc k) (q div 2)) y \<longleftrightarrow> y = node (Suc k) (q div 2) \<or> below (node k q) y \<or>
    below (node k (if even q then q + 1 else q - 1)) y"
proof (cases "even q")
  case True
  then show ?thesis using below_children [of k "q div 2" y] by auto
next
  case False
  then have "2 * (q div 2) = q - 1" "2 * (q div 2) + 1 = q" by presburger+
  then show ?thesis using below_children [of k "q div 2" y] False by auto
qed

section \<open>Copath children\<close>

text \<open>\<open>s\<close> is the sibling of a node of the path that contains \<open>y\<close>, and \<open>p\<close> their parent.\<close>

definition copathAt :: "RatchetTree \<Rightarrow> u32 \<Rightarrow> u32 \<Rightarrow> u32 \<Rightarrow> bool" where
  "copathAt t y p s \<longleftrightarrow> copathChild t p y = Ok s \<and> unat p < length (nodes t) \<and>
    unat s < length (nodes t) \<and> below (unat p) (unat s) \<and> below (unat p) (unat y) \<and>
    \<not> below (unat s) (unat y)"

lemma copathAt_step:
  assumes t: "fullTree h t" and x: "unat x < length (nodes t)" "x \<noteq> Root (leafCount t)"
    and y: "below (unat x) (unat y)"
  shows "\<exists>p s. Parent x (leafCount t) = Ok (p, True) \<and> Sibling x (leafCount t) = Ok (s, True) \<and>
    copathAt t y p s \<and> below (unat p) (unat x) \<and> level x < level p \<and>
    (\<forall>z. below (unat p) z \<longleftrightarrow> z = unat p \<or> below (unat x) z \<or> below (unat s) z)"
proof -
  note w = fullTree_width [OF t]
  have h: "h \<le> 31" using t by (simp add: fullTree_def)
  obtain k q where kq: "unat x = node k q" by (rule coord_exists)
  have xw: "x < NodeWidth (leafCount t)" using x(1) w by (simp add: word_less_nat_alt)
  define c where "c = (if even q then q + 1 else q - 1)"
  have c: "c \<noteq> q" by (auto simp: c_def elim: oddE)
  obtain p s where ps: "Parent x (leafCount t) = Ok (p, True)" "Sibling x (leafCount t) = Ok (s, True)"
    "p < NodeWidth (leafCount t)" "s < NodeWidth (leafCount t)" "unat p = node (Suc k) (q div 2)"
    "unat s = node k c"
    "if even q then Left p = (x, True) \<and> Right p (leafCount t) = Ok (s, True)
     else Left p = (s, True) \<and> Right p (leafCount t) = Ok (x, True)"
    using climb_step [OF w(2) h xw x(2) kq] unfolding c_def by blast
  have len: "unat p < length (nodes t)" "unat s < length (nodes t)"
    using ps(3,4) w by (simp_all add: word_less_nat_alt)
  have split: "below (unat p) z \<longleftrightarrow> z = unat p \<or> below (unat x) z \<or> below (unat s) z" for z
    unfolding ps(5,6) kq c_def by (rule below_sibling)
  have ny: "\<not> below (unat s) (unat y)"
    using y below_disjoint [of k q "unat y" c] c unfolding kq ps(6) by auto
  have sub: "subtreeContains x y" "\<not> subtreeContains s y"
    using y ny subtreeContains_inside [OF t x(1)] subtreeContains_inside [OF t len(2)] by auto
  have "pathChild t p y = Ok x"
    using ps(7) sub by (cases "even q") (simp_all add: pathChild_def)
  then have "copathChild t p y = Ok s" using ps(2) by (simp add: copathChild_def)
  then have "copathAt t y p s"
    using len ny split [of "unat s"] split [of "unat y"] y by (simp add: copathAt_def)
  moreover have "level x < level p"
    using level_coord [OF kq] level_coord [OF ps(5)] by simp
  ultimately show ?thesis using ps(1,2) split by auto
qed

text \<open>The filtered direct path: its nodes have copath children with a resolution, and every
  populated leaf outside the starting subtree lies below one of these.\<close>

lemma fdpLoop_spec:
  assumes t: "treeInv t" and x: "unat x < length (nodes t)" and y: "below (unat x) (unat y)"
  shows "\<exists>ps. fdpLoop t x = Ok ps \<and> sorted_wrt (\<lambda>a b. level a < level b) ps \<and>
    (\<forall>p\<in>set ps. level x < level p \<and> (\<exists>s. copathAt t y p s)) \<and>
    (\<forall>l :: u32. at (nodes t) (2 * unat l) \<noteq> None \<longrightarrow> \<not> below (unat x) (2 * unat l) \<longrightarrow>
      (\<exists>p\<in>set ps. \<exists>s. copathAt t y p s \<and> below (unat s) (2 * unat l)))"
  using x y
proof (induction "32 - level x" arbitrary: x rule: less_induct)
  case less
  obtain h where f: "fullTree h t" using t by (auto simp: treeInv_def)
  show ?case
  proof (cases "x = Root (leafCount t)")
    case True
    have "below (unat x) i" if "i < length (nodes t)" for i
    proof -
      have "h \<le> 31" using f by (simp add: fullTree_def)
      then have "unat x = node h 0"
        using Root_nat full_count [OF fullTree_width(2) [OF f]] True by simp
      moreover have "Suc i < 2 ^ Suc h" using that f by (auto simp: fullTree_def)
      then have "nlevel i \<le> h \<and> npos i < 2 ^ (h - nlevel i)"
        using node_bound [of "nlevel i" "npos i" h] by (simp only: node_nlevel)
      ultimately show ?thesis
        using below_node [of h 0 "nlevel i" "npos i"] by (simp add: node_nlevel)
    qed
    then have all: "below (unat x) (2 * unat l)" if "at (nodes t) (2 * unat l) \<noteq> None" for l :: u32
      using that by (auto simp: at_def split: if_splits)
    have "fdpLoop t x = Ok []" using True by (subst fdpLoop.simps) simp
    then show ?thesis by (intro exI [of _ "[]"] conjI allI impI) (use all in auto)
  next
    case False
    obtain p s where ps: "Parent x (leafCount t) = Ok (p, True)" "Sibling x (leafCount t) = Ok (s, True)"
      "copathAt t y p s" "below (unat p) (unat x)" "level x < level p"
      "\<forall>z. below (unat p) z \<longleftrightarrow> z = unat p \<or> below (unat x) z \<or> below (unat s) z"
      using copathAt_step [OF f less.prems(1) False less.prems(2)] by blast
    have pr: "unat p < length (nodes t)" "unat s < length (nodes t)" "below (unat p) (unat y)"
      using ps(3) by (auto simp: copathAt_def)
    have "32 - level p < 32 - level x" using ps(5) level_le [of p] by simp
    then obtain qs where qs: "fdpLoop t p = Ok qs" "sorted_wrt (\<lambda>a b. level a < level b) qs"
      "\<forall>q\<in>set qs. level p < level q \<and> (\<exists>s. copathAt t y q s)"
      "\<forall>l :: u32. at (nodes t) (2 * unat l) \<noteq> None \<longrightarrow> \<not> below (unat p) (2 * unat l) \<longrightarrow>
        (\<exists>p\<in>set qs. \<exists>s. copathAt t y p s \<and> below (unat s) (2 * unat l))"
      using less.hyps [OF _ pr(1,3)] by blast
    obtain res where res: "Resolution t s = Ok res" "resolves (nodes t) (unat s) res"
      using Resolution_resolves [OF t pr(2)] by blast
    have e: "fdpLoop t x = Ok (if res \<noteq> [] then p # qs else qs)"
      using False ps(1,2) res(1) qs(1) by (simp add: fdpLoop.simps [of t x])
    have "\<exists>p\<in>set (if res \<noteq> [] then p # qs else qs). \<exists>s. copathAt t y p s \<and> below (unat s) (2 * unat l)"
      if l: "at (nodes t) (2 * unat l) \<noteq> None" "\<not> below (unat x) (2 * unat l)" for l :: u32
    proof (cases "below (unat s) (2 * unat l)")
      case True
      then have "res \<noteq> []" using res(2) l(1) by (auto simp: resolves_def)
      then show ?thesis using True ps(3) by auto
    next
      case nb: False
      have "2 * unat l \<noteq> unat p" using ps(4,5) l(2) below_leaf by (metis below_refl)
      then have "\<not> below (unat p) (2 * unat l)" using ps(6) nb l(2) by blast
      then show ?thesis using qs(4) l(1) by auto
    qed
    moreover have "\<forall>q\<in>set qs. level x < level q" using qs(3) ps(5) by auto
    ultimately show ?thesis
      using e qs(2,3) ps(3,5)
      by (intro exI [of _ "if res \<noteq> [] then p # qs else qs"]) (auto split: if_splits)
  qed
qed


lemma filteredDirectPath_spec:
  assumes t: "treeInv t" and l: "leaf < leafCount t"
  shows "\<exists>ps. filteredDirectPath t leaf = Ok ps \<and> sorted_wrt (\<lambda>a b. level a < level b) ps \<and>
    (\<forall>p\<in>set ps. 0 < level p \<and> (\<exists>s. copathAt t (2 * leaf) p s)) \<and>
    (\<forall>r<leafCount t. NodeAt t (2 * r) \<noteq> None \<longrightarrow> r \<noteq> leaf \<longrightarrow>
      (\<exists>p\<in>set ps. \<exists>s. copathAt t (2 * leaf) p s \<and> below (unat s) (2 * unat r)))"
proof -
  obtain h where f: "fullTree h t" using t by (auto simp: treeInv_def)
  note b = fullTree_leaf [OF f l]
  obtain ps where ps: "fdpLoop t (2 * leaf) = Ok ps" "sorted_wrt (\<lambda>a b. level a < level b) ps"
    "\<forall>p\<in>set ps. level (2 * leaf) < level p \<and> (\<exists>s. copathAt t (2 * leaf) p s)"
    "\<forall>r :: u32. at (nodes t) (2 * unat r) \<noteq> None \<longrightarrow> \<not> below (unat (2 * leaf)) (2 * unat r) \<longrightarrow>
      (\<exists>p\<in>set ps. \<exists>s. copathAt t (2 * leaf) p s \<and> below (unat s) (2 * unat r))"
    using fdpLoop_spec [OF t, of "2 * leaf" "2 * leaf"] b by auto
  have "\<exists>p\<in>set ps. \<exists>s. copathAt t (2 * leaf) p s \<and> below (unat s) (2 * unat r)"
    if r: "r < leafCount t" "NodeAt t (2 * r) \<noteq> None" "r \<noteq> leaf" for r
  proof -
    have "at (nodes t) (2 * unat r) \<noteq> None"
      using r(1,2) fullTree_NodeAt(1) [OF f] fullTree_leaf(2) [OF f] by simp
    moreover have "\<not> below (unat (2 * leaf)) (2 * unat r)"
      using r(3) b(2) below_leaf by (simp add: word_unat_eq_iff)
    ultimately show ?thesis using ps(4) by blast
  qed
  then show ?thesis using ps(1,2,3) unfolding filteredDirectPath_def by (intro exI conjI) auto
qed

end
