(* ===== verification/KEMAgree.thy ===== *)
theory KEMAgree
  imports KEMPath
begin

text \<open>
  The two sides of an update path agree.  The committer's chain of path secrets, encrypted
  to the copath resolutions, gives every member who holds the keys of the tree the
  secret of the lowest common ancestor and the commit secret.
\<close>

section \<open>HPKE keys\<close>

text \<open>A private and a public key form a pair when what is sealed to the public key is opened
  by the private one (RFC 9180).\<close>

definition keyPair :: "Std \<Rightarrow> KEM \<Rightarrow> bytes \<Rightarrow> bytes \<Rightarrow> bool" where
  "keyPair std k sk pk \<longleftrightarrow>
    (\<exists>sk' pk'. kemNewPrivateKey std k sk = Ok sk' \<and> kemNewPublicKey std k pk = Ok pk' \<and>
      (\<forall>rnd a info pt enc ct. hpkeSeal std rnd k a pk' info pt = Ok (enc, ct) \<longrightarrow>
        hpkeOpen std k a sk' info enc ct = Ok pt))"

lemma decrypt_encrypted:
  assumes "keyPair std (kem s) sk pk" "EncryptWithLabel std s rnd pk label ctx pt = Ok (enc, ct)"
  shows "DecryptWithLabel std s sk label ctx enc ct = Ok pt"
  using assms by (auto simp: keyPair_def EncryptWithLabel_def DecryptWithLabel_def bindR_Inr_iff)

section \<open>Ciphertexts and resolutions\<close>

definition sealedTo :: "Std \<Rightarrow> RatchetTree \<Rightarrow> bytes \<Rightarrow> bytes \<Rightarrow> u32 \<Rightarrow> HPKECiphertext \<Rightarrow> bool" where
  "sealedTo std t gc secret d ct \<longleftrightarrow>
    (\<exists>rnd pk. nodePublicKey t d = Ok pk \<and>
      EncryptWithLabel std (suite t) rnd pk ''UpdatePathNode'' gc secret = Ok (KemOutput ct, Ciphertext ct))"

lemma encryptTo_sealed:
  assumes "list_all2 (\<lambda>d pk. nodePublicKey t d = Ok pk) ds pks"
    and "encryptTo std (suite t) rnd gc secret i pks = Ok cts"
  shows "list_all2 (sealedTo std t gc secret) ds cts"
  using assms
proof (induction ds pks arbitrary: i cts rule: list_all2_induct)
  case Nil
  then show ?case by simp
next
  case (Cons d ds pk pks)
  then show ?case by (auto simp: bindR_Inr_iff sealedTo_def list_all2_Cons1)
qed

text \<open>Every held key belongs to a populated node of the tree and matches its public key.\<close>

definition keysMatch :: "Std \<Rightarrow> RatchetTree \<Rightarrow> (u32 \<rightharpoonup> bytes) \<Rightarrow> bool" where
  "keysMatch std t keys \<longleftrightarrow>
    (\<forall>d sk pk. keys d = Some sk \<longrightarrow> nodePublicKey t d = Ok pk \<longrightarrow> keyPair std (kem (suite t)) sk pk)"

lemma scan_finds:
  assumes "keysMatch std t keys"
    and "list_all2 (sealedTo std t gc secret) (filter (\<lambda>d. d \<notin> added) res) cts"
    and "\<exists>d\<in>set res. d \<notin> added \<and> keys d \<noteq> None"
  shows "scanResolution std (suite t) added keys gc (pre @ cts) (length pre) res = Ok (Some secret)"
  using assms(2,3)
proof (induction res arbitrary: pre cts)
  case Nil
  then show ?case by simp
next
  case (Cons d ds)
  show ?case
  proof (cases "d \<in> added")
    case True
    then show ?thesis using Cons by auto
  next
    case False
    then obtain ct cts' where ct: "cts = ct # cts'" "sealedTo std t gc secret d ct"
      "list_all2 (sealedTo std t gc secret) (filter (\<lambda>d. d \<notin> added) ds) cts'"
      using Cons.prems(1) by (auto simp: list_all2_Cons1)
    show ?thesis
    proof (cases "keys d")
      case None
      then have "\<exists>d\<in>set ds. d \<notin> added \<and> keys d \<noteq> None" using Cons.prems(2) by auto
      then show ?thesis
        using Cons.IH [OF ct(3), of "pre @ [ct]"] None False ct(1) by simp
    next
      case (Some sk)
      obtain rnd pk where pk: "nodePublicKey t d = Ok pk"
        "EncryptWithLabel std (suite t) rnd pk ''UpdatePathNode'' gc secret = Ok (KemOutput ct, Ciphertext ct)"
        using ct(2) by (auto simp: sealedTo_def)
      have "keyPair std (kem (suite t)) sk pk" using assms(1) Some pk(1) by (simp add: keysMatch_def)
      then show ?thesis using decrypt_encrypted [OF _ pk(2)] Some False ct(1) by simp
    qed
  qed
qed

lemma scan_skips:
  "(\<forall>d\<in>set res. keys d = None) \<Longrightarrow> scanResolution std s added keys gc cts i res = Ok None"
  by (induction res arbitrary: i) auto

section \<open>The chain of path secrets\<close>

lemma derivePathSecrets_length: "derivePathSecrets std s src n = Ok secs \<Longrightarrow> length secs = n"
  by (induction n arbitrary: src secs) (auto simp: bindR_Inr_iff)

abbreviation nodePub :: "Std \<Rightarrow> Suite \<Rightarrow> bytes \<Rightarrow> bytes res" where
  "nodePub std s ps \<equiv> bindR (nodeKeyPair std s ps) (\<lambda>(_, pub). Ok pub)"

lemma deriveUp_chain:
  assumes "derivePathSecrets std s src (length pns) = Ok secs"
    and "list_all2 (\<lambda>sec pn. nodePub std s sec = Ok (upn_EncryptionKey (snd pn))) secs pns"
    and "k < length pns"
  shows "deriveUp std s (secs ! k) (drop k pns) = Ok (last secs)"
  using assms
proof (induction pns arbitrary: src secs k)
  case Nil
  then show ?case by simp
next
  case (Cons pn pns)
  obtain sec secs' where s: "secs = sec # secs'" "derivePathSecrets std s sec (length pns) = Ok secs'"
    "nodePub std s sec = Ok (upn_EncryptionKey (snd pn))"
    "list_all2 (\<lambda>sec pn. nodePub std s sec = Ok (upn_EncryptionKey (snd pn))) secs' pns"
    using Cons.prems(1,2) by (auto simp: bindR_Inr_iff list_all2_Cons2)
  have len: "length secs' = length pns" using s(2) derivePathSecrets_length by blast
  show ?case
  proof (cases k)
    case (Suc j)
    then have j: "j < length pns" using Cons.prems(3) by simp
    have "secs' \<noteq> []" using len j by auto
    then show ?thesis using Cons.IH [OF s(2,4) j] Suc s(1) by simp
  next
    case 0
    show ?thesis
    proof (cases pns)
      case Nil
      then show ?thesis using 0 s len by (auto simp: bindR_Inr_iff)
    next
      case ne: (Cons a as)
      obtain sec' where d: "DeriveSecret std s sec ''path'' = Ok sec'" "secs' ! 0 = sec'" "secs' \<noteq> []"
        using s(2) ne by (auto simp: bindR_Inr_iff)
      moreover have "deriveUp std s (secs' ! 0) (drop 0 pns) = Ok (last secs')"
        using Cons.IH [OF s(2,4), of 0] ne by (simp del: deriveUp.simps)
      ultimately show ?thesis using 0 s(1,3) ne by (auto simp: bindR_Inr_iff)
    qed
  qed
qed


section \<open>A member's view of a path\<close>

text \<open>What a member at leaf \<open>r\<close> holds: the key of its leaf and of every populated ancestor in
  which it is merged, nothing outside its direct path, and only keys that match the tree.\<close>

definition memberKeys :: "Std \<Rightarrow> RatchetTree \<Rightarrow> u32 \<Rightarrow> (u32 \<rightharpoonup> bytes) \<Rightarrow> bool" where
  "memberKeys std t r keys \<longleftrightarrow> keysMatch std t keys \<and>
    (\<forall>d. keys d \<noteq> None \<longrightarrow> below (unat d) (2 * unat r)) \<and>
    (\<forall>d. at (nodes t) (unat d) \<noteq> None \<longrightarrow> below (unat d) (2 * unat r) \<longrightarrow>
      unat d = 2 * unat r \<or> r \<notin> unmergedOf (nodes t) (unat d) \<longrightarrow> keys d \<noteq> None)"

definition pathEntry ::
  "Std \<Rightarrow> RatchetTree \<Rightarrow> u32 \<Rightarrow> u32 set \<Rightarrow> bytes \<Rightarrow> u32 \<times> UpdatePathNode \<Rightarrow> bytes \<Rightarrow> bool" where
  "pathEntry std t y added gc pn sec \<longleftrightarrow>
    (\<exists>cc res. copathAt t y (fst pn) cc \<and> Resolution t cc = Ok res \<and> resolves (nodes t) (unat cc) res \<and>
      list_all2 (sealedTo std t gc sec) (filter (\<lambda>d. d \<notin> added) res) (EncryptedPathSecret (snd pn)))"

lemma not_newly_added:
  assumes "fullTree h t" "r < leafCount t" "\<forall>a\<in>set newly. a < leafCount t" "r \<notin> set newly" "unat d = 2 * unat r"
  shows "d \<notin> newlyAddedSet newly"
proof
  assume "d \<in> newlyAddedSet newly"
  then obtain a where a: "a \<in> set newly" "d = 2 * a" by (auto simp: newlyAddedSet_def)
  then have "unat d = 2 * unat a" using assms(3) fullTree_leaf(2) [OF assms(1)] by simp
  then have "r = a" using assms(5) by (simp add: word_unat_eq_iff)
  with a(1) assms(4) show False by simp
qed

lemma newlyAdded_even: "d \<in> newlyAddedSet newly \<Longrightarrow> even (unat d)"
proof -
  assume "d \<in> newlyAddedSet newly"
  then obtain a where "d = 2 * a" by (auto simp: newlyAddedSet_def)
  then show "even (unat d)" by (simp add: unat_double_masked)
qed

lemma findSecret_finds:
  assumes keys: "memberKeys std t r keys" and r: "at (nodes t) (2 * unat r) \<noteq> None"
    and notadded: "\<And>d. unat d = 2 * unat r \<Longrightarrow> d \<notin> newlyAddedSet newly"
    and entries: "list_all2 (pathEntry std t y (newlyAddedSet newly) gc) pns secs"
    and hit: "\<exists>pn\<in>set pns. \<exists>cc. copathAt t y (fst pn) cc \<and> below (unat cc) (2 * unat r)"
  shows "\<exists>k<length pns. findSecret std t y (newlyAddedSet newly) keys gc pns = Ok (Some (secs ! k, drop k pns))"
  using entries hit
proof (induction pns secs rule: list_all2_induct)
  case Nil
  then show ?case by simp
next
  case (Cons pn pns sec secs)
  let ?added = "newlyAddedSet newly"
  obtain cc res where e: "copathAt t y (fst pn) cc" "Resolution t cc = Ok res" "resolves (nodes t) (unat cc) res"
    "list_all2 (sealedTo std t gc sec) (filter (\<lambda>d. d \<notin> ?added) res) (EncryptedPathSecret (snd pn))"
    using Cons.hyps(1) by (auto simp: pathEntry_def)
  have cc: "copathChild t (fst pn) y = Ok cc" using e(1) by (simp add: copathAt_def)
  show ?case
  proof (cases "below (unat cc) (2 * unat r)")
    case True
    then obtain d where d: "d \<in> set res"
      "unat d = 2 * unat r \<or> below (unat d) (2 * unat r) \<and> r \<notin> unmergedOf (nodes t) (unat d)"
      using e(3) r unfolding resolves_def by blast
    have dp: "at (nodes t) (unat d) \<noteq> None" using e(3) d(1) unfolding resolves_def by blast
    have db: "below (unat d) (2 * unat r)" using d(2) below_refl by metis
    have "keys d \<noteq> None"
      using keys d(2) dp db unfolding memberKeys_def by blast
    moreover have "d \<notin> ?added"
    proof (cases "unat d = 2 * unat r")
      case False
      then have "ancestorOf (unat d) (2 * unat r)" using db unfolding below_def by auto
      then have "odd (unat d)" by (rule ancestor_odd)
      then show ?thesis using newlyAdded_even by blast
    qed (rule notadded)
    ultimately have "scanResolution std (suite t) ?added keys gc (EncryptedPathSecret (snd pn)) 0 res = Ok (Some sec)"
      using scan_finds [OF _ e(4), of keys "[]"] keys d(1) unfolding memberKeys_def by auto
    then show ?thesis using cc e(2) by (intro exI [of _ 0]) simp
  next
    case False
    have "keys d = None" if "d \<in> set res" for d
    proof (rule ccontr)
      assume "keys d \<noteq> None"
      then have "below (unat d) (2 * unat r)" using keys unfolding memberKeys_def by blast
      moreover have "below (unat cc) (unat d)" using e(3) that unfolding resolves_def by blast
      ultimately show False using below_trans False by blast
    qed
    then have "findSecret std t y ?added keys gc (pn # pns) = findSecret std t y ?added keys gc pns"
      using cc e(2) scan_skips [of res keys] by simp
    moreover have "\<exists>pn\<in>set pns. \<exists>cc. copathAt t y (fst pn) cc \<and> below (unat cc) (2 * unat r)"
      using Cons.prems False cc unfolding copathAt_def by auto
    then obtain k where "k < length pns"
      "findSecret std t y ?added keys gc pns = Ok (Some (secs ! k, drop k pns))"
      using Cons.IH by blast
    ultimately show ?thesis by (intro exI [of _ "Suc k"]) simp
  qed
qed

section \<open>The committer's output\<close>

lemma encryptPath_nth:
  assumes "encryptPath std s rnd gc k es = Ok ns"
  shows "length ns = length es \<and> (\<forall>j<length es. upn_EncryptionKey (ns ! j) = fst (es ! j) \<and>
    encryptTo std s (rnd (k + j)) gc (fst (snd (es ! j))) 0 (snd (snd (es ! j))) =
      Ok (EncryptedPathSecret (ns ! j)))"
  using assms
proof (induction es arbitrary: k ns)
  case Nil
  then show ?case by simp
next
  case (Cons e es)
  obtain pub sec rp where e: "e = (pub, sec, rp)" by (cases e)
  then obtain cts ns' where n: "encryptTo std s (rnd k) gc sec 0 rp = Ok cts"
    "encryptPath std s rnd gc (k + 1) es = Ok ns'"
    "ns = \<lparr>upn_EncryptionKey = pub, EncryptedPathSecret = cts\<rparr> # ns'"
    using Cons.prems by (auto simp: bindR_Inr_iff)
  show ?case using Cons.IH [OF n(2)] n(1,3) e by (auto simp: less_Suc_eq_0_disj)
qed


text \<open>The intermediate values of a successful \<^verbatim>\<open>GenerateUpdatePath\<close>.\<close>

lemma GenerateUpdatePath_parts:
  assumes "GenerateUpdatePath std rnd t sender leafSecret signer gid newly mkGC = Ok (t', up, cs, m)"
  obtains fdp secs pubs resPubs th gc ns where
    "filteredDirectPath t sender = Ok fdp"
    "derivePathSecrets std (suite t) leafSecret (length fdp) = Ok secs"
    "CommitSecret std (suite t) (last (leafSecret # secs)) = Ok cs"
    "mapR (nodePub std (suite t)) secs = Ok pubs"
    "mapR (resolutionKeys t (2 * sender) (newlyAddedSet newly)) fdp = Ok resPubs"
    "RootTreeHash std t' = Ok th" "mkGC th = Ok gc"
    "encryptPath std (suite t) rnd gc 0 (zip pubs (zip secs resPubs)) = Ok ns"
    "Nodes up = ns" "m = map_of (zip fdp secs)"
  using assms
  by (auto simp: GenerateUpdatePath_def Let_def bindR_Inr_iff split: prod.splits)

lemma committed_entries:
  assumes t: "treeInv t" and l: "sender < leafCount t"
    and fdp: "filteredDirectPath t sender = Ok fdp"
    and secs: "derivePathSecrets std (suite t) leafSecret (length fdp) = Ok secs"
    and pubs: "mapR (nodePub std (suite t)) secs = Ok pubs"
    and res: "mapR (resolutionKeys t (2 * sender) added) fdp = Ok resPubs"
    and enc: "encryptPath std (suite t) rnd gc 0 (zip pubs (zip secs resPubs)) = Ok ns"
  shows "list_all2 (pathEntry std t (2 * sender) added gc) (zip fdp ns) secs"
    and "list_all2 (\<lambda>sec pn. nodePub std (suite t) sec = Ok (upn_EncryptionKey (snd pn))) secs (zip fdp ns)"
    and "length ns = length fdp"
proof -
  have len: "length secs = length fdp" "length pubs = length fdp" "length resPubs = length fdp"
    using derivePathSecrets_length [OF secs] pubs res by (auto simp: mapR_Inr_iff dest: list_all2_lengthD)
  note n = encryptPath_nth [OF enc]
  show ln: "length ns = length fdp" using n len by simp
  obtain ps where ps: "filteredDirectPath t sender = Ok ps"
    "\<forall>p\<in>set ps. \<exists>s. copathAt t (2 * sender) p s"
    using filteredDirectPath_spec [OF t l] by blast
  then have cop: "\<exists>s. copathAt t (2 * sender) p s" if "p \<in> set fdp" for p using fdp that by simp
  have "pathEntry std t (2 * sender) added gc (zip fdp ns ! j) (secs ! j)" if j: "j < length fdp" for j
  proof -
    obtain s where s: "copathAt t (2 * sender) (fdp ! j) s" using cop [OF nth_mem [OF j]] by blast
    then have sl: "unat s < length (nodes t)" "copathChild t (fdp ! j) (2 * sender) = Ok s"
      by (simp_all add: copathAt_def)
    obtain r where r: "Resolution t s = Ok r" "resolves (nodes t) (unat s) r"
      using Resolution_resolves [OF t sl(1)] by blast
    have "resolutionKeys t (2 * sender) added (fdp ! j) = Ok (resPubs ! j)"
      using res j by (simp add: mapR_Inr_iff list_all2_conv_all_nth)
    then have "list_all2 (\<lambda>d pk. nodePublicKey t d = Ok pk) (filter (\<lambda>d. d \<notin> added) r) (resPubs ! j)"
      using sl(2) r(1) by (simp add: resolutionKeys_def mapR_Inr_iff)
    moreover have "encryptTo std (suite t) (rnd j) gc (secs ! j) 0 (resPubs ! j) =
        Ok (EncryptedPathSecret (ns ! j))"
      using n j len by simp
    ultimately have "list_all2 (sealedTo std t gc (secs ! j)) (filter (\<lambda>d. d \<notin> added) r)
        (EncryptedPathSecret (ns ! j))"
      by (rule encryptTo_sealed)
    then show ?thesis using s r j ln by (auto simp: pathEntry_def)
  qed
  then show "list_all2 (pathEntry std t (2 * sender) added gc) (zip fdp ns) secs"
    using len ln by (simp add: list_all2_conv_all_nth)
  show "list_all2 (\<lambda>sec pn. nodePub std (suite t) sec = Ok (upn_EncryptionKey (snd pn))) secs (zip fdp ns)"
    using pubs n len ln by (simp add: mapR_Inr_iff list_all2_conv_all_nth)
qed

lemma update_path_reaches:
  assumes t: "treeInv t" and sender: "sender < leafCount t"
    and gen: "GenerateUpdatePath std rnd t sender leafSecret signer gid newly mkGC = Ok (t', up, cs, m)"
    and r: "r < leafCount t" "r \<noteq> sender" "NodeAt t (2 * r) \<noteq> None"
    and newly: "r \<notin> set newly" "\<forall>a\<in>set newly. a < leafCount t"
    and keys: "memberKeys std t r (privs priv)"
  shows "\<exists>th gc ps. RootTreeHash std t' = Ok th \<and> mkGC th = Ok gc \<and> ps \<in> ran m \<and>
    ProcessUpdatePath std t sender up priv gc newly = Ok (Some (ps, cs))"
proof -
  obtain h where f: "fullTree h t" using t by (auto simp: treeInv_def)
  obtain fdp secs pubs resPubs th gc ns where g:
    "filteredDirectPath t sender = Ok fdp"
    "derivePathSecrets std (suite t) leafSecret (length fdp) = Ok secs"
    "CommitSecret std (suite t) (last (leafSecret # secs)) = Ok cs"
    "mapR (nodePub std (suite t)) secs = Ok pubs"
    "mapR (resolutionKeys t (2 * sender) (newlyAddedSet newly)) fdp = Ok resPubs"
    "RootTreeHash std t' = Ok th" "mkGC th = Ok gc"
    "encryptPath std (suite t) rnd gc 0 (zip pubs (zip secs resPubs)) = Ok ns"
    "Nodes up = ns" "m = map_of (zip fdp secs)"
    by (rule GenerateUpdatePath_parts [OF gen])
  note e = committed_entries [OF t sender g(1,2,4,5,8)]
  have pop: "at (nodes t) (2 * unat r) \<noteq> None"
    using r(1,3) fullTree_NodeAt(1) [OF f] fullTree_leaf(2) [OF f] by simp
  obtain p c where p: "p \<in> set fdp" "copathAt t (2 * sender) p c" "below (unat c) (2 * unat r)"
    using filteredDirectPath_spec [OF t sender] g(1) r by auto
  then have "\<exists>pn\<in>set (zip fdp ns). \<exists>c. copathAt t (2 * sender) (fst pn) c \<and> below (unat c) (2 * unat r)"
    using e(3) by (metis fst_conv in_set_impl_in_set_zip1)
  then obtain k where k: "k < length (zip fdp ns)"
    "findSecret std t (2 * sender) (newlyAddedSet newly) (privs priv) gc (zip fdp ns) =
      Ok (Some (secs ! k, drop k (zip fdp ns)))"
    using findSecret_finds [OF keys pop _ e(1)] not_newly_added [OF f r(1) newly(2,1)] by blast
  have len: "length secs = length fdp" by (rule derivePathSecrets_length [OF g(2)])
  have "secs \<noteq> []" using k(1) len by auto
  then have "deriveUp std (suite t) (secs ! k) (drop k (zip fdp ns)) = Ok (last (leafSecret # secs))"
    using deriveUp_chain [OF _ e(2) k(1)] g(2) e(3) by simp
  then have "ProcessUpdatePath std t sender up priv gc newly = Ok (Some (secs ! k, cs))"
    using g(1,3,9) e(3) k(2) by (simp add: ProcessUpdatePath_def)
  moreover have "secs ! k \<in> ran m"
  proof -
    have "distinct fdp"
      using filteredDirectPath_spec [OF t sender] g(1)
      by (auto simp: distinct_conv_nth sorted_wrt_iff_nth_less) (metis linorder_neqE_nat less_irrefl)
    moreover have "k < length fdp" using k(1) e(3) by simp
    ultimately have "m (fdp ! k) = Some (secs ! k)"
      using g(10) len by (simp add: map_of_zip_nth)
    then show ?thesis by (auto simp: ran_def)
  qed
  ultimately show ?thesis using g(6,7) by blast
qed

end
