(* ===== verification/KEMDemo.thy ===== *)
theory KEMDemo
  imports KEMAgree
begin

text \<open>
  A committer and a receiver in the two-member tree, run on the transparent instance of
  the primitives, and the agreement property of TreeKEM with this run as its example.
\<close>

section \<open>The two-member tree\<close>

lemma two_leaves:
  "Root 2 = 1" "level 0 = 0" "level 1 = 1" "level 2 = 0" "Left 0 = (0, False)" "Left 1 = (0, True)"
  "Left 2 = (0, False)" "Right 1 2 = Ok (2, True)" "Parent 0 2 = Ok (1, True)" "Parent 2 2 = Ok (1, True)"
  "Sibling 0 2 = Ok (2, True)" "Sibling 2 2 = Ok (0, True)"
  by code_simp+

lemma two_leaf_subtrees: "subtreeContains 0 0" "\<not> subtreeContains 0 2" "subtreeContains 2 2"
  by code_simp+

lemma three_nodes_leafCount:
  "leafCount (sampleTree\<lparr>nodes := [a, b, c]\<rparr>) = 2" "leafCount sampleTree = 2"
  by (simp_all add: leafCount_def len32_def sampleTree_def)

lemma sampleTree_paths:
  "Resolution sampleTree 2 = Ok [2]" "filteredDirectPath sampleTree 0 = Ok [1]"
  "copathChild sampleTree 1 0 = Ok 2"
proof -
  show r: "Resolution sampleTree 2 = Ok [2]"
    by (simp add: Resolution.simps two_leaves goIndex_def sampleTree_def leafEntry_def)
  then show "filteredDirectPath sampleTree 0 = Ok [1]"
    by (simp add: filteredDirectPath_def fdpLoop.simps two_leaves three_nodes_leafCount)
  show "copathChild sampleTree 1 0 = Ok 2"
    by (simp add: copathChild_def pathChild_def two_leaves three_nodes_leafCount two_leaf_subtrees)
qed

section \<open>A run of the committer\<close>

lemma demo_DeriveSecret:
  "length y < 50 \<Longrightarrow>
    DeriveSecret demoStd sampleSuite x y = Ok (take 16 (1 # x @ replicate 16 0))"
  by (simp add: DeriveSecret_def ExpandWithLabel_def kdfLabel_def short_strings sampleSuite_def
      bytesOf_def mlsLabelPrefix_def kdfExpand_def) (simp add: demoStd_def)

lemma demo_nodeKeyPair:
  "nodeKeyPair demoStd sampleSuite x =
    Ok (take 16 (1 # x @ replicate 16 0), take 16 (1 # x @ replicate 16 0))"
  unfolding nodeKeyPair_def
  by (simp add: demo_DeriveSecret) (simp add: DeriveKeyPair_def demoStd_def)

definition demoPub :: bytes where
  "demoPub = take 16 (1 # 1 # 5 # replicate 16 0)"

definition demoPathTree :: RatchetTree where
  "demoPathTree = sampleTree\<lparr>nodes :=
    [leafEntry (sampleLeaf [1]), newParent demoPub, leafEntry (sampleLeaf [2])]\<rparr>"

lemma demoPub_length: "length demoPub = 16"
  by (simp add: demoPub_def)

lemmas marshal_eval = leafHashInput_def parentHashInput_def leafEntry_def leafOf_def WriteUint8_def
  WriteUint16_def WriteUint32_def be16_def be32_def WriteOptional_def LeafNode_marshal_def
  LeafNode_marshalContents_def sampleLeaf_def short_strings Credential_marshal_def
  Capabilities_marshal_def WriteVectorV_def Certificate_marshal_def NewBuilder_def ParentNode_marshal_def

lemmas tree_eval = goIndex_def treeHashExcept.simps two_leaves newParent_def leafSet_def Hash_def
  demoPub_length sampleTree_def sampleSuite_def demoStd_def demoPathTree_def

lemma demo_keys: "resolutionKeys sampleTree 0 {} 1 = Ok [[2]]"
  by (simp add: resolutionKeys_def sampleTree_paths nodePublicKey_def goIndex_def)
    (simp add: sampleTree_def leafEntry_def sampleLeaf_def)

lemma demo_install: "installPath demoStd sampleTree 0 [demoPub] = Ok (demoPathTree, [1])"
  by (simp add: installPath_def sampleTree_paths three_nodes_leafCount blankPath.simps two_leaves goUpdate_def)
    (simp add: sampleTree_def setParentHash_def goIndex_def newParent_def demoPathTree_def)

lemma demo_leafParentHash:
  "\<exists>x. length x = 8 \<and> leafParentHash demoStd demoPathTree 0 [1] = Ok x"
  by (simp add: leafParentHash_def pathChild_def two_leaf_subtrees two_leaves demoPathTree_def
      three_nodes_leafCount) (simp add: parentHashOf_def parentAt_def tree_eval marshal_eval)

lemma demo_sign:
  assumes "length x = 8" "length pub = 16"
  shows "\<exists>sig. length sig < 64 \<and>
    SignLeafNode demoStd sampleSuite (demoSigner [1]) (commitLeaf (sampleLeaf [1]) pub x) [] 0 =
      Ok (commitLeaf (sampleLeaf [1]) pub x\<lparr>leaf_Signature := sig\<rparr>)"
  using assms
  by (simp add: SignLeafNode_def LeafNode_tbs_def marshal_eval commitLeaf_def demoPub_length
      SignWithLabel_def labeledContext_def bytesOf_def mlsLabelPrefix_def)
    (auto simp: signClassical_def sampleSuite_def demoSigner_def intro: exI)

lemma demo_rootHash:
  assumes "length x = 8" "length y < 64" "length pub = 16"
  shows "\<exists>z. length z = 8 \<and> RootTreeHash demoStd (demoPathTree\<lparr>nodes :=
    [leafEntry (commitLeaf (sampleLeaf [1]) pub x\<lparr>leaf_Signature := y\<rparr>), newParent demoPub,
     leafEntry (sampleLeaf [2])]\<rparr>) = Ok z"
  using assms
  by (simp add: RootTreeHash_def TreeHash_def leafCount_def len32_def two_leaves)
    (simp add: tree_eval marshal_eval commitLeaf_def leafCount_def len32_def)

lemma demo_encrypt:
  "length gc < 64 \<Longrightarrow> EncryptWithLabel demoStd sampleSuite r pk ''UpdatePathNode'' gc pt = Ok (pk, pt)"
  by (simp add: EncryptWithLabel_def labeledContext_def short_strings bytesOf_def mlsLabelPrefix_def)
    (simp add: demoStd_def)

lemma demo_generate:
  "\<exists>t up cs m. GenerateUpdatePath demoStd (\<lambda>_ _. []) sampleTree 0 [5] (demoSigner [1]) [] []
    (\<lambda>th. Ok th) = Ok (t, up, cs, m)"
proof -
  define s1 :: bytes where "s1 = take 16 (1 # [5] @ replicate 16 0)"
  have s1: "length s1 = 16" "\<And>y. length y < 50 \<Longrightarrow> DeriveSecret demoStd sampleSuite [5] y = Ok s1"
    by (simp add: s1_def) (simp only: demo_DeriveSecret s1_def)
  have s2: "nodeKeyPair demoStd sampleSuite s1 = Ok (demoPub, demoPub)"
    unfolding demo_nodeKeyPair by (simp add: s1_def demoPub_def)
  obtain cs where cs: "DeriveSecret demoStd sampleSuite s1 ''path'' = Ok cs"
    using demo_DeriveSecret [of "''path''" s1] by simp
  have s: "suite sampleTree = sampleSuite" "nodes sampleTree ! 0 = leafEntry (sampleLeaf [1])"
    "length (nodes sampleTree) = 3" by (simp_all add: sampleTree_def)
  obtain x where x: "length x = 8" "leafParentHash demoStd demoPathTree 0 [1] = Ok x"
    using demo_leafParentHash by blast
  obtain sig where sig: "length sig < 64"
    "SignLeafNode demoStd sampleSuite (demoSigner [1]) (commitLeaf (sampleLeaf [1]) s1 x) [] 0 =
      Ok (commitLeaf (sampleLeaf [1]) s1 x\<lparr>leaf_Signature := sig\<rparr>)"
    using demo_sign [OF x(1) s1(1)] by blast
  let ?l = "leafEntry (commitLeaf (sampleLeaf [1]) s1 x\<lparr>leaf_Signature := sig\<rparr>)"
  obtain z where z: "length z = 8" "RootTreeHash demoStd (demoPathTree\<lparr>nodes :=
      [?l, newParent demoPub, leafEntry (sampleLeaf [2])]\<rparr>) = Ok z"
    using demo_rootHash [OF x(1) sig(1) s1(1)] by blast
  have u: "goUpdate (nodes demoPathTree) 0 v = Ok [v, newParent demoPub, leafEntry (sampleLeaf [2])]" for v
    by (simp add: goUpdate_def demoPathTree_def)
  have kp: "DeriveKeyPair demoStd sampleSuite y = Ok (y, y)" for y
    by (simp add: DeriveKeyPair_def demoStd_def)
  show ?thesis
    unfolding GenerateUpdatePath_def Let_def
    by (simp add: s goIndex_def leafOf_def leafEntry_def [of "sampleLeaf [1]"] sampleTree_paths s1(2) CommitSecret_def
        cs kp s2 newlyAddedSet_def demo_keys demo_install x(2) sig(2) u z demo_encrypt)
qed

section \<open>Agreement\<close>

text \<open>C21: agreement of TreeKEM.  Take a tree with the structural invariant and a member who is not
  the committer, was not added by the same commit and holds the private keys of its leaf and
  of the parents it is merged in.  Whenever \<^verbatim>\<open>GenerateUpdatePath\<close> succeeds, that member's
  \<^verbatim>\<open>ProcessUpdatePath\<close>, on the tree before the path and under the same group context, returns
  one of the committer's path secrets and the very commit secret the committer derived.
\<close>
theorem treekem_agreement:
  assumes "treeInv t" and "sender < leafCount t"
    and "GenerateUpdatePath std rnd t sender leafSecret signer gid newly mkGC = Ok (t', up, cs, m)"
    and "r < leafCount t" and "r \<noteq> sender" and "NodeAt t (2 * r) \<noteq> None"
    and "r \<notin> set newly" and "\<forall>a\<in>set newly. a < leafCount t"
    and "memberKeys std t r (privs priv)"
  shows "\<exists>th gc ps. RootTreeHash std t' = Ok th \<and> mkGC th = Ok gc \<and> ps \<in> ran m \<and>
    ProcessUpdatePath std t sender up priv gc newly = Ok (Some (ps, cs))"
  by (rule update_path_reaches [OF assms])

lemma demo_keyPair: "keyPair demoStd k x x"
  by (simp add: keyPair_def demoStd_def)

lemma demo_memberKeys: "memberKeys demoStd sampleTree 1 (privs (NewTreeKEMPrivate 1 [2]))"
proof -
  have "nodePublicKey sampleTree 2 = Ok [2]"
    by (simp add: nodePublicKey_def goIndex_def) (simp add: sampleTree_def leafEntry_def sampleLeaf_def)
  then have m: "keysMatch demoStd sampleTree [2 \<mapsto> [2]]"
    by (auto simp: keysMatch_def demo_keyPair split: if_splits)
  have "d = 2" if d: "below (unat d) 2" "at (nodes sampleTree) (unat d) \<noteq> None"
    "unat d = 2 \<or> 1 \<notin> unmergedOf (nodes sampleTree) (unat d)" for d :: u32
  proof -
    have "unat d < 3" using d(2) by (auto simp: at_def sampleTree_def split: if_splits)
    then consider "unat d = 0" | "unat d = 1" | "unat d = 2" by linarith
    then show ?thesis
    proof cases
      case 1
      then show ?thesis using d(1) below_leaf [of 0 2] by simp
    next
      case 2
      then show ?thesis using d(3) by (simp add: unmergedOf_def at_def sampleTree_def)
    next
      case 3
      then show ?thesis by (simp add: word_unat_eq_iff)
    qed
  qed
  then show ?thesis
    using m by (auto simp: memberKeys_def NewTreeKEMPrivate_def)
qed

theorem treekem_agreement_witness:
  "\<exists>t up cs m th gc ps.
    GenerateUpdatePath demoStd (\<lambda>_ _. []) sampleTree 0 [5] (demoSigner [1]) [] [] (\<lambda>th. Ok th) = Ok (t, up, cs, m) \<and>
    RootTreeHash demoStd t = Ok th \<and> Ok th = Ok gc \<and> ps \<in> ran m \<and>
    ProcessUpdatePath demoStd sampleTree 0 up (NewTreeKEMPrivate 1 [2]) gc [] = Ok (Some (ps, cs))"
proof -
  obtain t up cs m where g: "GenerateUpdatePath demoStd (\<lambda>_ _. []) sampleTree 0 [5] (demoSigner [1]) [] []
      (\<lambda>th. Ok th) = Ok (t, up, cs, m)"
    using demo_generate by blast
  have n: "NodeAt sampleTree (2 * 1) \<noteq> None"
    by (simp add: NodeAt_def sampleTree_def len32_def leafEntry_def)
  show ?thesis
    using treekem_agreement [OF sampleTree_inv _ g _ _ n _ _ demo_memberKeys] g
    by (simp add: sampleTree_leafCount)
qed

end
