(* ===== verification/KeySchedule.thy ===== *)
theory KeySchedule
  imports TreeWire TreeMath Cipher
begin

text \<open>
  The key schedule of \<^verbatim>\<open>src/mls/keyschedule\<close>: group contexts (\<^verbatim>\<open>context.go\<close>), pre-shared keys
  (\<^verbatim>\<open>psk.go\<close>), epoch secrets (\<^verbatim>\<open>schedule.go\<close>), the secret tree with its ratchets
  (\<^verbatim>\<open>secrettree.go\<close>) and transcript hashes (\<^verbatim>\<open>transcript.go\<close>).  A secret that may be
  \<^verbatim>\<open>nil\<close> in the source is an option.
\<close>

section \<open>Group contexts\<close>

record GroupContext =
  gc_Version :: u16
  gc_CipherSuite :: u16
  gc_GroupID :: bytes
  gc_Epoch :: u64
  gc_TreeHash :: bytes
  ConfirmedTranscriptHash :: bytes
  gc_Extensions :: "Extension list"

definition GroupContext_marshal :: "GroupContext \<Rightarrow> builder \<Rightarrow> builder res" where
  "GroupContext_marshal x b =
    bindR (WriteUint16 (gc_Version x) b) (\<lambda>b.
    bindR (WriteUint16 (gc_CipherSuite x) b) (\<lambda>b.
    bindR (Builder_WriteOpaqueV (gc_GroupID x) b) (\<lambda>b.
    bindR (WriteUint64 (gc_Epoch x) b) (\<lambda>b.
    bindR (Builder_WriteOpaqueV (gc_TreeHash x) b) (\<lambda>b.
    bindR (Builder_WriteOpaqueV (ConfirmedTranscriptHash x) b) (\<lambda>b.
    WriteVectorV Extension_marshal (gc_Extensions x) b))))))"

definition decodeGroupContext :: "cursor \<Rightarrow> (GroupContext \<times> cursor) res" where
  "decodeGroupContext c =
    bindR (ReadUint16 c) (\<lambda>(v, c).
    bindR (ReadUint16 c) (\<lambda>(cs, c).
    bindR (Cursor_ReadOpaqueV c) (\<lambda>(gid, c).
    bindR (ReadUint64 c) (\<lambda>(e, c).
    bindR (Cursor_ReadOpaqueV c) (\<lambda>(th, c).
    bindR (Cursor_ReadOpaqueV c) (\<lambda>(cth, c).
    bindR (ReadVectorV decodeExtension c) (\<lambda>(exts, c).
      Ok (\<lparr>gc_Version = v, gc_CipherSuite = cs, gc_GroupID = gid, gc_Epoch = e, gc_TreeHash = th,
            ConfirmedTranscriptHash = cth, gc_Extensions = exts\<rparr>, c))))))))"

interpretation groupcontext: codec_elem GroupContext_marshal decodeGroupContext anyval
proof (rule codec_elemI)
  fix x :: GroupContext and c c' out
  show "framed (GroupContext_marshal x)"
    unfolding GroupContext_marshal_def [abs_def] by (intro framed_intros)
  show "anyval x \<and> reads (GroupContext_marshal x) c c'" if "decodeGroupContext c = Ok (x, c')"
    using that unfolding GroupContext_marshal_def [abs_def] decodeGroupContext_def
    by (cases x) (auto simp: res_simps codec_iff reads_simps framed_intros variant_simps
        reads_one_point)
  show "decodeGroupContext c = Ok (x, c')" if "anyval x" "reads (GroupContext_marshal x) c c'"
    using that unfolding GroupContext_marshal_def [abs_def] decodeGroupContext_def
    by (cases x) (auto simp: codec_dec reads_simps framed_intros split: if_splits option.splits)
  show "emits (GroupContext_marshal x) out \<Longrightarrow> out \<noteq> []"
    unfolding GroupContext_marshal_def [abs_def]
    by (erule emits_head_nonempty [rotated 2]) (intro framed_intros | erule uint16.nonempty)+
qed

declare groupcontext.frame [framed_intros] groupcontext.decode_iff [codec_iff] groupcontext.decodeI [codec_dec]
  groupcontext.vec.frame [framed_intros] groupcontext.vec.decode_iff [codec_iff] groupcontext.vec.decodeI [codec_dec]

definition GroupContext_MarshalMLS :: "GroupContext \<Rightarrow> bytes res" where
  "GroupContext_MarshalMLS gc = GroupContext_marshal gc NewBuilder"

definition GroupContext_UnmarshalMLS :: "bytes \<Rightarrow> GroupContext res" where
  "GroupContext_UnmarshalMLS data = bindR (decodeGroupContext data) (\<lambda>(v, c).
     if c \<noteq> [] then Err ''keyschedule: trailing bytes after GroupContext'' else Ok v)"

section \<open>Pre-shared keys\<close>

abbreviation PSKTypeExternal :: byte where "PSKTypeExternal \<equiv> 1"
abbreviation PSKTypeResumption :: byte where "PSKTypeResumption \<equiv> 2"

record PreSharedKeyID =
  PSKType :: byte
  PSKID :: bytes
  Usage :: byte
  PSKGroupID :: bytes
  PSKEpoch :: u64
  PSKNonce :: bytes

definition PreSharedKeyID_marshal :: "PreSharedKeyID \<Rightarrow> builder \<Rightarrow> builder res" where
  "PreSharedKeyID_marshal p b =
    bindR (WriteUint8 (PSKType p) b) (\<lambda>b.
    bindR
      (if PSKType p = PSKTypeExternal then Builder_WriteOpaqueV (PSKID p) b
       else if PSKType p = PSKTypeResumption then
         bindR (WriteUint8 (Usage p) b) (\<lambda>b.
         bindR (Builder_WriteOpaqueV (PSKGroupID p) b) (\<lambda>b.
         WriteUint64 (PSKEpoch p) b))
       else Err ''keyschedule: invalid psk_type'') (\<lambda>b.
    Builder_WriteOpaqueV (PSKNonce p) b))"

definition decodePreSharedKeyID :: "cursor \<Rightarrow> (PreSharedKeyID \<times> cursor) res" where
  "decodePreSharedKeyID c =
    bindR (ReadUint8 c) (\<lambda>(t, c).
    bindR
      (if t = PSKTypeExternal then
         bindR (Cursor_ReadOpaqueV c) (\<lambda>(i, c). Ok ((i, 0, [], 0), c))
       else if t = PSKTypeResumption then
         bindR (ReadUint8 c) (\<lambda>(u, c).
         bindR (Cursor_ReadOpaqueV c) (\<lambda>(g, c).
         bindR (ReadUint64 c) (\<lambda>(e, c). Ok (([], u, g, e), c))))
       else Err ''keyschedule: invalid psk_type'') (\<lambda>((i, u, g, e), c).
    bindR (Cursor_ReadOpaqueV c) (\<lambda>(n, c).
      Ok (\<lparr>PSKType = t, PSKID = i, Usage = u, PSKGroupID = g, PSKEpoch = e, PSKNonce = n\<rparr>, c))))"

definition wfPreSharedKeyID :: "PreSharedKeyID \<Rightarrow> bool" where
  "wfPreSharedKeyID p \<longleftrightarrow>
    (PSKType p = PSKTypeExternal \<longrightarrow> Usage p = 0 \<and> PSKGroupID p = [] \<and> PSKEpoch p = 0) \<and>
    (PSKType p = PSKTypeResumption \<longrightarrow> PSKID p = [])"

interpretation pskid: codec_elem PreSharedKeyID_marshal decodePreSharedKeyID wfPreSharedKeyID
proof (rule codec_elemI)
  fix x :: PreSharedKeyID and c c' out
  show "framed (PreSharedKeyID_marshal x)"
    unfolding PreSharedKeyID_marshal_def [abs_def] by (intro framed_intros)
  show "wfPreSharedKeyID x \<and> reads (PreSharedKeyID_marshal x) c c'" if "decodePreSharedKeyID c = Ok (x, c')"
    using that unfolding PreSharedKeyID_marshal_def [abs_def] decodePreSharedKeyID_def wfPreSharedKeyID_def
    by (cases x) (auto simp: res_simps codec_iff reads_simps framed_intros variant_simps
        reads_one_point)
  show "decodePreSharedKeyID c = Ok (x, c')" if "wfPreSharedKeyID x" "reads (PreSharedKeyID_marshal x) c c'"
    using that unfolding PreSharedKeyID_marshal_def [abs_def] decodePreSharedKeyID_def wfPreSharedKeyID_def
    by (cases x) (auto simp: codec_dec reads_simps framed_intros split: if_splits option.splits)
  show "emits (PreSharedKeyID_marshal x) out \<Longrightarrow> out \<noteq> []"
    unfolding PreSharedKeyID_marshal_def [abs_def]
    by (erule emits_head_nonempty [rotated 2]) (intro framed_intros | erule uint8.nonempty)+
qed

declare pskid.frame [framed_intros] pskid.decode_iff [codec_iff] pskid.decodeI [codec_dec]
  pskid.vec.frame [framed_intros] pskid.vec.decode_iff [codec_iff] pskid.vec.decodeI [codec_dec]

definition pskLabel :: "PreSharedKeyID \<Rightarrow> u16 \<Rightarrow> u16 \<Rightarrow> bytes res" where
  "pskLabel i index count =
    bindR (PreSharedKeyID_marshal i NewBuilder) (\<lambda>b.
    bindR (WriteUint16 index b) (\<lambda>b. WriteUint16 count b))"

record PSK =
  psk_ID :: PreSharedKeyID
  psk_PSK :: bytes

primrec pskLoop :: "Std \<Rightarrow> Suite \<Rightarrow> u16 \<Rightarrow> nat \<Rightarrow> bytes \<Rightarrow> PSK list \<Rightarrow> bytes res" where
  "pskLoop std s count i pskSecret [] = Ok pskSecret"
| "pskLoop std s count i pskSecret (p # psks) =
    bindR (Extract std s [] (psk_PSK p)) (\<lambda>pskExtracted.
    bindR (pskLabel (psk_ID p) (of_nat i) count) (\<lambda>label.
    bindR (ExpandWithLabel std s pskExtracted ''derived psk'' label (HashLen s)) (\<lambda>pskInput.
    bindR (Extract std s pskInput pskSecret) (\<lambda>pskSecret.
      pskLoop std s count (i + 1) pskSecret psks))))"

definition zeroSecret :: "Suite \<Rightarrow> bytes" where
  "zeroSecret s = replicate (nat (HashLen s)) 0"

definition PSKSecret :: "Std \<Rightarrow> Suite \<Rightarrow> PSK list \<Rightarrow> bytes res" where
  "PSKSecret std s psks = pskLoop std s (of_nat (length psks)) 0 (zeroSecret s) psks"

section \<open>Epoch secrets\<close>

record EpochSecrets =
  es_JoinerSecret :: bytes
  WelcomeSecret :: bytes
  EpochSecret :: bytes
  SenderDataSecret :: bytes
  EncryptionSecret :: bytes
  ExporterSecret :: bytes
  ExternalSecret :: bytes
  ConfirmationKey :: bytes
  MembershipKey :: bytes
  ResumptionPSK :: bytes
  EpochAuthenticator :: bytes
  InitSecret :: bytes

definition orZero :: "Suite \<Rightarrow> bytes option \<Rightarrow> bytes" where
  "orZero s x = (case x of None \<Rightarrow> zeroSecret s | Some b \<Rightarrow> b)"

definition JoinerSecret :: "Std \<Rightarrow> Suite \<Rightarrow> bytes \<Rightarrow> bytes option \<Rightarrow> bytes \<Rightarrow> bytes res" where
  "JoinerSecret std s initSecret commitSecret groupContext =
    bindR (Extract std s initSecret (orZero s commitSecret)) (\<lambda>extracted.
      ExpandWithLabel std s extracted ''joiner'' groupContext (HashLen s))"

definition WelcomeKeyNonce :: "Std \<Rightarrow> Suite \<Rightarrow> bytes \<Rightarrow> (bytes \<times> bytes) res" where
  "WelcomeKeyNonce std s welcomeSecret =
    bindR (ExpandWithLabel std s welcomeSecret ''key'' [] (AEADKeySize s)) (\<lambda>key.
    bindR (ExpandWithLabel std s welcomeSecret ''nonce'' [] (AEADNonceSize s)) (\<lambda>nonce.
      Ok (key, nonce)))"

definition EpochSecretsFromJoiner ::
  "Std \<Rightarrow> Suite \<Rightarrow> bytes \<Rightarrow> bytes option \<Rightarrow> bytes \<Rightarrow> EpochSecrets res" where
  "EpochSecretsFromJoiner std s joinerSecret pskSecret groupContext =
    bindR (Extract std s joinerSecret (orZero s pskSecret)) (\<lambda>member.
    bindR (DeriveSecret std s member ''welcome'') (\<lambda>welcome.
    bindR (ExpandWithLabel std s member ''epoch'' groupContext (HashLen s)) (\<lambda>epoch.
    bindR (DeriveSecret std s epoch ''sender data'') (\<lambda>senderData.
    bindR (DeriveSecret std s epoch ''encryption'') (\<lambda>encryption.
    bindR (DeriveSecret std s epoch ''exporter'') (\<lambda>exporter.
    bindR (DeriveSecret std s epoch ''external'') (\<lambda>external.
    bindR (DeriveSecret std s epoch ''confirm'') (\<lambda>confirm.
    bindR (DeriveSecret std s epoch ''membership'') (\<lambda>membership.
    bindR (DeriveSecret std s epoch ''resumption'') (\<lambda>resumption.
    bindR (DeriveSecret std s epoch ''authentication'') (\<lambda>authentication.
    bindR (DeriveSecret std s epoch ''init'') (\<lambda>init.
      Ok \<lparr>es_JoinerSecret = joinerSecret, WelcomeSecret = welcome, EpochSecret = epoch,
           SenderDataSecret = senderData, EncryptionSecret = encryption, ExporterSecret = exporter,
           ExternalSecret = external, ConfirmationKey = confirm, MembershipKey = membership,
           ResumptionPSK = resumption, EpochAuthenticator = authentication,
           InitSecret = init\<rparr>))))))))))))"

definition DeriveEpochSecrets ::
  "Std \<Rightarrow> Suite \<Rightarrow> bytes \<Rightarrow> bytes option \<Rightarrow> bytes option \<Rightarrow> bytes \<Rightarrow> EpochSecrets res" where
  "DeriveEpochSecrets std s initSecret commitSecret pskSecret groupContext =
    bindR (JoinerSecret std s initSecret commitSecret groupContext) (\<lambda>joiner.
      EpochSecretsFromJoiner std s joiner pskSecret groupContext)"

definition ExternalPub :: "Std \<Rightarrow> Suite \<Rightarrow> bytes \<Rightarrow> (bytes \<times> bytes) res" where
  "ExternalPub std s externalSecret = DeriveKeyPair std s externalSecret"

definition MLSExporter :: "Std \<Rightarrow> Suite \<Rightarrow> bytes \<Rightarrow> string \<Rightarrow> bytes \<Rightarrow> int \<Rightarrow> bytes res" where
  "MLSExporter std s exporterSecret label context len =
    bindR (DeriveSecret std s exporterSecret label) (\<lambda>derived.
      ExpandWithLabel std s derived ''exported'' (Hash std s context) len)"

section \<open>Transcript hashes\<close>

definition ConfirmationTag :: "Std \<Rightarrow> Suite \<Rightarrow> bytes \<Rightarrow> bytes \<Rightarrow> bytes" where
  "ConfirmationTag std s confirmationKey confirmed = MAC std s confirmationKey confirmed"

definition ConfirmedTranscript :: "Std \<Rightarrow> Suite \<Rightarrow> bytes \<Rightarrow> bytes \<Rightarrow> bytes" where
  "ConfirmedTranscript std s interimPrev confirmedInput = Hash std s (interimPrev @ confirmedInput)"

definition InterimTranscriptHash :: "Std \<Rightarrow> Suite \<Rightarrow> bytes \<Rightarrow> bytes \<Rightarrow> bytes res" where
  "InterimTranscriptHash std s confirmed confirmationTag =
    bindR (WriteOpaqueV confirmationTag) (\<lambda>in'. Ok (Hash std s (confirmed @ in')))"

definition SplitAuthenticatedContent :: "Suite \<Rightarrow> bytes \<Rightarrow> (bytes \<times> bytes) res" where
  "SplitAuthenticatedContent s ac =
    (let macLen = nat (HashLen s) in
     bindR (WriteOpaqueV (replicate macLen 0)) (\<lambda>field.
       if length ac < length field then Err ''keyschedule: authenticated_content too short''
       else Ok (take (length ac - length field) ac, drop (length ac - macLen) ac)))"

section \<open>The secret tree\<close>

definition SenderDataKeyNonce :: "Std \<Rightarrow> Suite \<Rightarrow> bytes \<Rightarrow> bytes \<Rightarrow> (bytes \<times> bytes) res" where
  "SenderDataKeyNonce std s senderDataSecret ciphertext =
    (let sample = take (nat (HashLen s)) ciphertext in
     bindR (ExpandWithLabel std s senderDataSecret ''key'' sample (AEADKeySize s)) (\<lambda>key.
     bindR (ExpandWithLabel std s senderDataSecret ''nonce'' sample (AEADNonceSize s)) (\<lambda>nonce.
       Ok (key, nonce))))"

abbreviation HandshakeRatchet :: int where "HandshakeRatchet \<equiv> 0"
abbreviation ApplicationRatchet :: int where "ApplicationRatchet \<equiv> 1"

record SecretTree =
  st_suite :: Suite
  st_nLeaves :: u32
  handshakeBase :: "u32 \<rightharpoonup> bytes"
  applicationBase :: "u32 \<rightharpoonup> bytes"

function deriveNode :: "Std \<Rightarrow> SecretTree \<Rightarrow> u32 \<Rightarrow> bytes \<Rightarrow> SecretTree res" where
  "deriveNode std st nd secret =
    (let s = st_suite st; nh = HashLen s in
     if \<not> snd (Left nd) then
       let leaf = nd div 2 in
       bindR (ExpandWithLabel std s secret ''handshake'' [] nh) (\<lambda>hs.
       bindR (ExpandWithLabel std s secret ''application'' [] nh) (\<lambda>app.
         Ok (st\<lparr>handshakeBase := (handshakeBase st)(leaf \<mapsto> hs),
                applicationBase := (applicationBase st)(leaf \<mapsto> app)\<rparr>)))
     else
       bindR (Right nd (st_nLeaves st)) (\<lambda>(right, _).
       bindR (ExpandWithLabel std s secret ''tree'' (bytesOf ''left'') nh) (\<lambda>ls.
       bindR (ExpandWithLabel std s secret ''tree'' (bytesOf ''right'') nh) (\<lambda>rs.
       bindR (deriveNode std st (fst (Left nd)) ls) (\<lambda>st.
         deriveNode std st right rs)))))"
  by pat_completeness auto
termination
  by (relation "measure (\<lambda>(std, st, nd, secret). level nd)") (auto dest: child_levels)

declare deriveNode.simps [simp del]

definition NewSecretTree :: "Std \<Rightarrow> Suite \<Rightarrow> u32 \<Rightarrow> bytes \<Rightarrow> SecretTree res" where
  "NewSecretTree std s nLeaves encryptionSecret =
    (if nLeaves = 0 then Err ''keyschedule: secret tree requires at least one leaf''
     else deriveNode std \<lparr>st_suite = s, st_nLeaves = nLeaves, handshakeBase = Map.empty,
       applicationBase = Map.empty\<rparr> (Root nLeaves) encryptionSecret)"

definition ratchetTo :: "Std \<Rightarrow> Suite \<Rightarrow> bytes \<Rightarrow> u32 \<Rightarrow> bytes res" where
  "ratchetTo std s base generation =
    foldR (\<lambda>secret j. DeriveTreeSecret std s secret ''secret'' (of_nat j) (HashLen s)) base
      [0..<unat generation]"

definition KeyNonce :: "Std \<Rightarrow> SecretTree \<Rightarrow> u32 \<Rightarrow> int \<Rightarrow> u32 \<Rightarrow> (bytes \<times> bytes) res" where
  "KeyNonce std st leaf rt generation =
    (let s = st_suite st in
     bindR
       (if rt = HandshakeRatchet then Ok (handshakeBase st leaf)
        else if rt = ApplicationRatchet then Ok (applicationBase st leaf)
        else Err ''keyschedule: invalid ratchet type'') (\<lambda>base.
     bindR (fromOption (Error ''keyschedule: no ratchet for leaf'') base) (\<lambda>base.
     bindR (ratchetTo std s base generation) (\<lambda>secret.
     bindR (DeriveTreeSecret std s secret ''key'' generation (AEADKeySize s)) (\<lambda>key.
     bindR (DeriveTreeSecret std s secret ''nonce'' generation (AEADNonceSize s)) (\<lambda>nonce.
       Ok (key, nonce)))))))"

end
