(* ===== verification/SecretTree_Spec.thy ===== *)
theory SecretTree_Spec
  imports KeySchedule TreeResolution
begin

text \<open>
  The secret tree against a reference definition: the ratchet roots of a leaf are derived
  along the path from the root to the leaf, one step per bit of the leaf index.  The code
  builds all of them in one traversal of the array tree.
\<close>

section \<open>Derivation along a path\<close>

text \<open>The secret of a leaf, from the secret of its ancestor at level \<open>k\<close>.\<close>

primrec treeSecret :: "Std \<Rightarrow> Suite \<Rightarrow> nat \<Rightarrow> bytes \<Rightarrow> nat \<Rightarrow> bytes res" where
  "treeSecret std s 0 secret leaf = Ok secret"
| "treeSecret std s (Suc k) secret leaf =
    bindR (ExpandWithLabel std s secret ''tree'' (bytesOf (if bit leaf k then ''right'' else ''left''))
      (HashLen s)) (\<lambda>x. treeSecret std s k x leaf)"

definition ratchetRoot :: "Std \<Rightarrow> Suite \<Rightarrow> string \<Rightarrow> nat \<Rightarrow> bytes \<Rightarrow> nat \<Rightarrow> bytes res" where
  "ratchetRoot std s label k secret leaf =
    bindR (treeSecret std s k secret leaf) (\<lambda>x. ExpandWithLabel std s x label [] (HashLen s))"

text \<open>HKDF-Expand succeeds up to its documented output limit.\<close>

definition expandOK :: "Std \<Rightarrow> bool" where
  "expandOK std \<longleftrightarrow>
    (\<forall>secret info len. 0 \<le> len \<longrightarrow> len \<le> 255 * 32 \<longrightarrow> (\<exists>x. hkdfExpand std secret info len = Ok x))"

lemma ExpandWithLabel_ok:
  assumes "expandOK std" "length label < 50" "length ctx < 64" "0 \<le> len" "len \<le> 32"
  shows "\<exists>x. ExpandWithLabel std s secret label ctx len = Ok x"
  using assms
  by (simp add: ExpandWithLabel_def kdfLabel_def short_strings bytesOf_def mlsLabelPrefix_def kdfExpand_def
      expandOK_def)

lemma child_of_leaf:
  "l div 2 ^ Suc k = q \<longleftrightarrow> (if bit l k then l div 2 ^ k = 2 * q + 1 else l div 2 ^ k = 2 * (q :: nat))"
proof -
  have "l div 2 ^ Suc k = l div 2 ^ k div 2" by (simp add: div_mult2_eq [symmetric] mult.commute)
  moreover have "bit l k \<longleftrightarrow> odd (l div 2 ^ k)" by (simp add: bit_iff_odd)
  moreover have "a div 2 = q \<longleftrightarrow> (if odd a then a = 2 * q + 1 else a = 2 * q)" for a :: nat by presburger
  ultimately show ?thesis by simp
qed

section \<open>One traversal derives every leaf\<close>

definition extends :: "Std \<Rightarrow> nat \<Rightarrow> nat \<Rightarrow> bytes \<Rightarrow> SecretTree \<Rightarrow> SecretTree \<Rightarrow> bool" where
  "extends std k q secret st st' \<longleftrightarrow> st_suite st' = st_suite st \<and> st_nLeaves st' = st_nLeaves st \<and>
    (\<forall>leaf. if unat leaf div 2 ^ k = q
      then map_option Inr (handshakeBase st' leaf) =
          Some (ratchetRoot std (st_suite st) ''handshake'' k secret (unat leaf)) \<and>
        map_option Inr (applicationBase st' leaf) =
          Some (ratchetRoot std (st_suite st) ''application'' k secret (unat leaf))
      else handshakeBase st' leaf = handshakeBase st leaf \<and>
        applicationBase st' leaf = applicationBase st leaf)"

lemma extends_join:
  assumes "ExpandWithLabel std (st_suite st) secret ''tree'' (bytesOf ''left'') 32 = Ok ls"
    and "ExpandWithLabel std (st_suite st) secret ''tree'' (bytesOf ''right'') 32 = Ok rs"
    and "extends std k (2 * q) ls st st1" "extends std k (2 * q + 1) rs st1 st2"
  shows "extends std (Suc k) q secret st st2"
  unfolding extends_def
proof (intro conjI allI)
  fix leaf :: u32
  show "st_suite st2 = st_suite st" "st_nLeaves st2 = st_nLeaves st"
    using assms(3,4) by (simp_all add: extends_def)
  have r: "ratchetRoot std (st_suite st) lb (Suc k) secret (unat leaf) =
      ratchetRoot std (st_suite st) lb k (if bit (unat leaf) k then rs else ls) (unat leaf)" for lb
    using assms(1,2) by (simp add: ratchetRoot_def)
  have s: "st_suite st1 = st_suite st" using assms(3) by (simp add: extends_def)
  note a = assms(3) [unfolded extends_def, THEN conjunct2, THEN conjunct2, THEN spec, of leaf]
  note b = assms(4) [unfolded extends_def, THEN conjunct2, THEN conjunct2, THEN spec, of leaf]
  show "if unat leaf div 2 ^ Suc k = q
      then map_option Inr (handshakeBase st2 leaf) =
          Some (ratchetRoot std (st_suite st) ''handshake'' (Suc k) secret (unat leaf)) \<and>
        map_option Inr (applicationBase st2 leaf) =
          Some (ratchetRoot std (st_suite st) ''application'' (Suc k) secret (unat leaf))
      else handshakeBase st2 leaf = handshakeBase st leaf \<and>
        applicationBase st2 leaf = applicationBase st leaf"
  proof (cases "bit (unat leaf) k")
    case True
    then have o: "odd (unat leaf div 2 ^ k)" by (simp add: bit_iff_odd)
    then have "unat leaf div 2 ^ k \<noteq> 2 * q" by auto
    then show ?thesis
      unfolding child_of_leaf [of "unat leaf" k q] r using True a b s by (simp split: if_splits)
  next
    case False
    then have o: "even (unat leaf div 2 ^ k)" by (simp add: bit_iff_odd)
    then have "unat leaf div 2 ^ k \<noteq> 2 * q + 1" by auto
    then show ?thesis
      unfolding child_of_leaf [of "unat leaf" k q] r using False a b s by (simp split: if_splits)
  qed
qed

lemma deriveNode_extends:
  assumes ok: "expandOK std" and n: "unat (st_nLeaves st) = 2 ^ h" "h \<le> 31"
    and nd: "nd < NodeWidth (st_nLeaves st)" "unat nd = node k q"
  shows "\<exists>st'. deriveNode std st nd secret = Ok st' \<and> extends std k q secret st st'"
  using n(1) nd
proof (induction k arbitrary: st nd q secret)
  case 0
  have l: "unat (nd div 2) = q" using 0(3) by (simp add: unat_div node_def)
  obtain hs app where e: "ExpandWithLabel std (st_suite st) secret ''handshake'' [] 32 = Ok hs"
    "ExpandWithLabel std (st_suite st) secret ''application'' [] 32 = Ok app"
    using ExpandWithLabel_ok [OF ok, of "''handshake''" "[]" 32] ExpandWithLabel_ok [OF ok, of "''application''" "[]" 32]
    by fastforce
  have q: "unat leaf = q \<longleftrightarrow> leaf = nd div 2" for leaf using l by (auto simp: word_unat_eq_iff)
  show ?case
    using e Left_leaf [OF 0(3)]
    by (auto simp: deriveNode.simps [of std st nd] Let_def extends_def ratchetRoot_def q)
next
  case (Suc k)
  obtain l r where lr: "Left nd = (l, True)" "Right nd (st_nLeaves st) = Ok (r, True)"
    "unat l = node k (2 * q)" "unat r = node k (2 * q + 1)"
    "l < NodeWidth (st_nLeaves st)" "r < NodeWidth (st_nLeaves st)"
    using full_children [OF Suc.prems(1) n(2) Suc.prems(2,3)] by blast
  obtain ls rs where e: "ExpandWithLabel std (st_suite st) secret ''tree'' (bytesOf ''left'') 32 = Ok ls"
    "ExpandWithLabel std (st_suite st) secret ''tree'' (bytesOf ''right'') 32 = Ok rs"
    using ExpandWithLabel_ok [OF ok, of "''tree''" "bytesOf ''left''" 32]
      ExpandWithLabel_ok [OF ok, of "''tree''" "bytesOf ''right''" 32]
    by (fastforce simp: bytesOf_def)
  obtain st1 where st1: "deriveNode std st l ls = Ok st1" "extends std k (2 * q) ls st st1"
    using Suc.IH [OF Suc.prems(1) lr(5,3)] by blast
  have n1: "st_nLeaves st1 = st_nLeaves st" "st_suite st1 = st_suite st"
    using st1(2) by (simp_all add: extends_def)
  obtain st2 where st2: "deriveNode std st1 r rs = Ok st2" "extends std k (2 * q + 1) rs st1 st2"
    using Suc.IH [of st1 r "2 * q + 1" rs] Suc.prems(1) lr(4,6) n1 by auto
  have "deriveNode std st nd secret = Ok st2"
    using lr(1,2) e st1(1) st2(1) by (simp add: deriveNode.simps [of std st nd] Let_def)
  then show ?case using extends_join [OF e st1(2) st2(2)] by blast
qed

text \<open>C30: for a complete number of leaves \<^verbatim>\<open>NewSecretTree\<close> succeeds and holds, for every leaf of the
  group and no other, the handshake and application ratchet roots obtained by deriving left
  or right along the bits of the leaf index from the encryption secret.
\<close>
theorem secret_tree_by_path:
  assumes "expandOK std" "unat n = 2 ^ h" "h \<le> 31"
  shows "\<exists>st. NewSecretTree std s n enc = Ok st \<and>
    (\<forall>leaf. if leaf < n
      then map_option Inr (handshakeBase st leaf) =
          Some (ratchetRoot std s ''handshake'' h enc (unat leaf)) \<and>
        map_option Inr (applicationBase st leaf) =
          Some (ratchetRoot std s ''application'' h enc (unat leaf))
      else handshakeBase st leaf = None \<and> applicationBase st leaf = None)"
proof -
  note w = full_count [OF assms(2,3)]
  let ?st = "\<lparr>st_suite = s, st_nLeaves = n, handshakeBase = Map.empty, applicationBase = Map.empty\<rparr>"
  have r: "unat (Root n) = node h 0" using Root_nat [OF w(1)] w(3) by simp
  have "Root n < NodeWidth n" using r root_in_tree [OF w(1)] w(3) by (simp add: word_less_nat_alt)
  then obtain st where st: "deriveNode std ?st (Root n) enc = Ok st" "extends std h 0 enc ?st st"
    using deriveNode_extends [of std ?st h "Root n" h 0 enc] assms r by auto
  have "n \<noteq> 0" using assms(2) by auto
  then have "NewSecretTree std s n enc = Ok st" using st(1) by (simp add: NewSecretTree_def)
  moreover have "unat leaf div 2 ^ h = 0 \<longleftrightarrow> leaf < n" for leaf :: u32
    using assms(2) by (simp add: div_eq_0_iff word_less_nat_alt)
  ultimately show ?thesis using st(2) by (simp add: extends_def)
qed

theorem secret_tree_by_path_witness:
  "\<exists>st. NewSecretTree demoStd sampleSuite 2 [5] = Ok st \<and> handshakeBase st 2 = None"
proof -
  have "expandOK demoStd" by (simp add: expandOK_def demoStd_def)
  then obtain st where "NewSecretTree demoStd sampleSuite 2 [5] = Ok st"
    "\<forall>leaf. if leaf < 2
      then map_option Inr (handshakeBase st leaf) =
          Some (ratchetRoot demoStd sampleSuite ''handshake'' 1 [5] (unat leaf)) \<and>
        map_option Inr (applicationBase st leaf) =
          Some (ratchetRoot demoStd sampleSuite ''application'' 1 [5] (unat leaf))
      else handshakeBase st leaf = None \<and> applicationBase st leaf = None"
    using secret_tree_by_path [of demoStd 2 1 sampleSuite "[5]"] by auto
  moreover from this(2) have "handshakeBase st 2 = None" by (metis less_irrefl)
  ultimately show ?thesis by blast
qed

end
