(* ===== verification/Sequencer.thy ===== *)
theory Sequencer
  imports Wire Cipher "HOL-Library.List_Lexorder"
begin

text \<open>
  The ordering authority of \<^verbatim>\<open>src/ironcore/sequencer\<close>: the in-memory register
  (\<^verbatim>\<open>sequencer.go\<close>), leases and fencing (\<^verbatim>\<open>fencing.go\<close>), fork detection (\<^verbatim>\<open>fork.go\<close>) and the
  tie-break (\<^verbatim>\<open>tiebreak.go\<close>).  Every method runs under its object's mutex and is a function
  from the object to its result and the changed object; the reading of a clock is an argument.
  Times and durations are integers.
\<close>

section \<open>The register\<close>

definition seqKey :: "bytes \<Rightarrow> u64 \<Rightarrow> bytes" where
  "seqKey g epoch = be64 epoch @ g"

record MemorySequencer =
  ms_decided :: "bytes \<rightharpoonup> bytes"

definition NewMemorySequencer :: MemorySequencer where
  "NewMemorySequencer = \<lparr>ms_decided = Map.empty\<rparr>"

definition MemorySequencer_AcceptCommit ::
  "MemorySequencer \<Rightarrow> bytes \<Rightarrow> u64 \<Rightarrow> bytes \<Rightarrow> bool \<times> MemorySequencer" where
  "MemorySequencer_AcceptCommit s g epoch commit =
    (let key = seqKey g epoch in
     case ms_decided s key of
       Some ex \<Rightarrow> (ex = commit, s)
     | None \<Rightarrow> (True, s\<lparr>ms_decided := (ms_decided s)(key \<mapsto> commit)\<rparr>))"

definition MemorySequencer_Decided :: "MemorySequencer \<Rightarrow> bytes \<Rightarrow> u64 \<Rightarrow> bytes option" where
  "MemorySequencer_Decided s g epoch = ms_decided s (seqKey g epoch)"

section \<open>Leases\<close>

record Lease =
  ls_VNI :: u32
  Owner :: string
  Token :: u64
  Expiry :: int

definition Valid :: "Lease \<Rightarrow> int \<Rightarrow> bool" where
  "Valid l now = (now < Expiry l)"

record MemoryLeaseStore =
  ls_held :: "u32 \<rightharpoonup> Lease"
  ls_next :: "u32 \<Rightarrow> u64"

text \<open>A missing entry of \<^verbatim>\<open>next\<close> reads as zero.\<close>

definition NewMemoryLeaseStore :: MemoryLeaseStore where
  "NewMemoryLeaseStore = \<lparr>ls_held = Map.empty, ls_next = (\<lambda>_. 0)\<rparr>"

definition Acquire ::
  "int \<Rightarrow> MemoryLeaseStore \<Rightarrow> u32 \<Rightarrow> string \<Rightarrow> int \<Rightarrow> Lease option \<times> MemoryLeaseStore" where
  "Acquire now s vni owner ttl =
    (if (case ls_held s vni of Some cur \<Rightarrow> Owner cur \<noteq> owner \<and> Valid cur now | None \<Rightarrow> False)
     then (None, s)
     else
       let token = ls_next s vni + 1;
           l = \<lparr>ls_VNI = vni, Owner = owner, Token = token, Expiry = now + ttl\<rparr> in
       (Some l, s\<lparr>ls_next := (ls_next s)(vni := token), ls_held := (ls_held s)(vni \<mapsto> l)\<rparr>))"

definition Renew ::
  "int \<Rightarrow> MemoryLeaseStore \<Rightarrow> u32 \<Rightarrow> string \<Rightarrow> u64 \<Rightarrow> int \<Rightarrow> Lease option \<times> MemoryLeaseStore" where
  "Renew now s vni owner token ttl =
    (case ls_held s vni of
       None \<Rightarrow> (None, s)
     | Some cur \<Rightarrow>
         if Owner cur \<noteq> owner \<or> Token cur \<noteq> token then (None, s)
         else
           let cur = cur\<lparr>Expiry := now + ttl\<rparr> in
           (Some cur, s\<lparr>ls_held := (ls_held s)(vni \<mapsto> cur)\<rparr>))"

definition Release :: "MemoryLeaseStore \<Rightarrow> u32 \<Rightarrow> string \<Rightarrow> u64 \<Rightarrow> MemoryLeaseStore" where
  "Release s vni owner token =
    (case ls_held s vni of
       Some cur \<Rightarrow>
         if Owner cur = owner \<and> Token cur = token then s\<lparr>ls_held := (ls_held s)(vni := None)\<rparr> else s
     | None \<Rightarrow> s)"

section \<open>The fenced register and sequencer\<close>

record FencedRegister =
  fr_decided :: "bytes \<rightharpoonup> bytes"
  maxToken :: "u32 \<Rightarrow> u64"

definition NewFencedRegister :: FencedRegister where
  "NewFencedRegister = \<lparr>fr_decided = Map.empty, maxToken = (\<lambda>_. 0)\<rparr>"

definition FencedRegister_Accept ::
  "FencedRegister \<Rightarrow> u32 \<Rightarrow> u64 \<Rightarrow> bytes \<Rightarrow> u64 \<Rightarrow> bytes \<Rightarrow> bool res \<times> FencedRegister" where
  "FencedRegister_Accept r vni token g epoch commit =
    (if token < maxToken r vni then (Err ''sequencer: write fenced by stale token'', r)
     else
       let r = r\<lparr>maxToken := (maxToken r)(vni := token)\<rparr>; key = seqKey g epoch in
       case fr_decided r key of
         Some ex \<Rightarrow> (Ok (ex = commit), r)
       | None \<Rightarrow> (Ok True, r\<lparr>fr_decided := (fr_decided r)(key \<mapsto> commit)\<rparr>))"

definition FencedRegister_Decided :: "FencedRegister \<Rightarrow> bytes \<Rightarrow> u64 \<Rightarrow> bytes option" where
  "FencedRegister_Decided r g epoch = fr_decided r (seqKey g epoch)"

record FencedSequencer =
  fs_owner :: string
  fs_vni :: u32
  fs_group :: bytes
  fs_ttl :: int
  fs_lease :: Lease
  fs_held :: bool

definition NewFencedSequencer :: "string \<Rightarrow> u32 \<Rightarrow> bytes \<Rightarrow> int \<Rightarrow> FencedSequencer" where
  "NewFencedSequencer owner vni g ttl =
    \<lparr>fs_owner = owner, fs_vni = vni, fs_group = g, fs_ttl = ttl,
     fs_lease = \<lparr>ls_VNI = 0, Owner = [], Token = 0, Expiry = 0\<rparr>, fs_held = False\<rparr>"

text \<open>The lease check at the start of \<^verbatim>\<open>AcceptCommit\<close>: the sequencer's clock reads \<open>now\<close>, the
  store's clock \<open>storeNow\<close>.  The result says whether the sequencer may write.\<close>

definition ensureLease ::
  "int \<Rightarrow> int \<Rightarrow> FencedSequencer \<Rightarrow> MemoryLeaseStore \<Rightarrow> bool \<times> FencedSequencer \<times> MemoryLeaseStore" where
  "ensureLease now storeNow s store =
    (if \<not> fs_held s \<or> \<not> Valid (fs_lease s) now then
       (case Acquire storeNow store (fs_vni s) (fs_owner s) (fs_ttl s) of
          (None, store) \<Rightarrow> (False, s\<lparr>fs_held := False\<rparr>, store)
        | (Some l, store) \<Rightarrow> (True, s\<lparr>fs_lease := l, fs_held := True\<rparr>, store))
     else (True, s, store))"

definition FencedSequencer_AcceptCommit ::
  "int \<Rightarrow> int \<Rightarrow> FencedSequencer \<Rightarrow> MemoryLeaseStore \<Rightarrow> FencedRegister \<Rightarrow> bytes \<Rightarrow> u64 \<Rightarrow> bytes \<Rightarrow>
   bool res \<times> FencedSequencer \<times> MemoryLeaseStore \<times> FencedRegister" where
  "FencedSequencer_AcceptCommit now storeNow s store reg g epoch commit =
    (if g \<noteq> fs_group s then (Err ''sequencer: group not owned by fencer'', s, store, reg)
     else
       case ensureLease now storeNow s store of
         (False, s, store) \<Rightarrow> (Ok False, s, store, reg)
       | (True, s, store) \<Rightarrow>
           let (r, reg) = FencedRegister_Accept reg (fs_vni s) (Token (fs_lease s)) g epoch commit in
           (r, s, store, reg))"

section \<open>Fork detection\<close>

record EpochAuthenticatorRegistry =
  seen :: "bytes \<Rightarrow> bytes list"

definition NewEpochAuthenticatorRegistry :: EpochAuthenticatorRegistry where
  "NewEpochAuthenticatorRegistry = \<lparr>seen = (\<lambda>_. [])\<rparr>"

definition Report ::
  "EpochAuthenticatorRegistry \<Rightarrow> bytes \<Rightarrow> u64 \<Rightarrow> bytes \<Rightarrow> bool \<times> EpochAuthenticatorRegistry" where
  "Report r g epoch auth =
    (let key = seqKey g epoch in
     if auth \<in> set (seen r key) then (length (seen r key) > 1, r)
     else
       let r = r\<lparr>seen := (seen r)(key := seen r key @ [auth])\<rparr> in
       (length (seen r key) > 1, r))"

definition Divergent :: "EpochAuthenticatorRegistry \<Rightarrow> bytes \<Rightarrow> u64 \<Rightarrow> bool" where
  "Divergent r g epoch = (length (seen r (seqKey g epoch)) > 1)"

section \<open>Tie-break\<close>

text \<open>A \<^verbatim>\<open>nil\<close> reference is \<open>None\<close>; its bytes are empty.\<close>

definition refBytes :: "bytes option \<Rightarrow> bytes" where
  "refBytes c = (case c of None \<Rightarrow> [] | Some b \<Rightarrow> b)"

definition tieKey :: "Std \<Rightarrow> Suite \<Rightarrow> bytes option \<Rightarrow> bytes" where
  "tieKey std s c = Hash std s (refBytes c) @ refBytes c"

primrec canonicalLoop ::
  "Std \<Rightarrow> Suite \<Rightarrow> bytes option \<Rightarrow> bytes \<Rightarrow> bytes option list \<Rightarrow> bytes option" where
  "canonicalLoop std s best bestKey [] = best"
| "canonicalLoop std s best bestKey (c # cs) =
    (let key = tieKey std s c in
     if best = None \<or> key < bestKey then canonicalLoop std s c key cs
     else canonicalLoop std s best bestKey cs)"

definition CanonicalCommit :: "Std \<Rightarrow> Suite \<Rightarrow> bytes option list \<Rightarrow> bytes option" where
  "CanonicalCommit std s candidates = canonicalLoop std s None [] candidates"

end
