(* ===== verification/Ordering.thy ===== *)
theory Ordering
  imports Sequencer
begin

text \<open>
  What the ordering authority promises.  The contract of \<^verbatim>\<open>group.Ordering\<close>
  (\<^verbatim>\<open>src/mls/group/ports.go\<close>) is a locale: an accepted commit is decided, and a decision never
  changes.  The in-memory register and the group of fenced sequencers that share a lease
  store and a register both satisfy it, so no two commits are ever accepted for one epoch
  of a group.
\<close>

section \<open>Keys\<close>

lemma seqKey_inject [simp]: "seqKey g e = seqKey g' e' \<longleftrightarrow> g = g' \<and> e = e'"
proof
  assume a: "seqKey g e = seqKey g' e'"
  have l: "length (be64 e) = length (be64 e')" by (simp add: be64_def)
  then have "be64 e = be64 e' \<and> g = g'" using a by (simp add: seqKey_def)
  then show "g = g' \<and> e = e'" by (metis unbe64_be64)
qed simp

section \<open>The contract\<close>

text \<open>The accepted calls of a sequence of calls, each made by a writer \<open>w\<close>.\<close>

primrec acceptedCalls ::
  "('w \<Rightarrow> 's \<Rightarrow> bytes \<Rightarrow> u64 \<Rightarrow> bytes \<Rightarrow> bool res \<times> 's) \<Rightarrow> 's \<Rightarrow> ('w \<times> bytes \<times> u64 \<times> bytes) list \<Rightarrow>
   (bytes \<times> u64 \<times> bytes) set" where
  "acceptedCalls accept s [] = {}"
| "acceptedCalls accept s (call # calls) =
    (case call of (w, g, e, c) \<Rightarrow>
       case accept w s g e c of (r, s') \<Rightarrow>
         (if r = Ok True then {(g, e, c)} else {}) \<union> acceptedCalls accept s' calls)"

locale ordering =
  fixes accept :: "'w \<Rightarrow> 's \<Rightarrow> bytes \<Rightarrow> u64 \<Rightarrow> bytes \<Rightarrow> bool res \<times> 's"
    and decided :: "'s \<Rightarrow> bytes \<Rightarrow> u64 \<Rightarrow> bytes option"
  assumes accepted: "accept w s g e c = (Ok True, s') \<Longrightarrow> decided s' g e = Some c"
    and stable: "accept w s g e c = (r, s') \<Longrightarrow> decided s g' e' = Some d \<Longrightarrow> decided s' g' e' = Some d"
begin

lemma accepted_was_decided:
  "(g, e, c) \<in> acceptedCalls accept s calls \<Longrightarrow> decided s g e = Some d \<Longrightarrow> c = d"
proof (induction calls arbitrary: s)
  case (Cons call calls)
  obtain w g' e' c' where call: "call = (w, g', e', c')" by (cases call)
  obtain r s' where a: "accept w s g' e' c' = (r, s')" by (cases "accept w s g' e' c'")
  have d: "decided s' g e = Some d" by (rule stable [OF a Cons.prems(2)])
  show ?case
  proof (cases "(g, e, c) \<in> acceptedCalls accept s' calls")
    case True
    then show ?thesis using Cons.IH d by blast
  next
    case False
    then have "r = Ok True" "g = g'" "e = e'" "c = c'"
      using Cons.prems(1) by (auto simp: call a split: if_splits)
    then show ?thesis using accepted a d by fastforce
  qed
qed simp

lemma agreement:
  "(g, e, c) \<in> acceptedCalls accept s calls \<Longrightarrow> (g, e, c') \<in> acceptedCalls accept s calls \<Longrightarrow> c = c'"
proof (induction calls arbitrary: s)
  case (Cons call calls)
  obtain w g' e' d where call: "call = (w, g', e', d)" by (cases call)
  obtain r s' where a: "accept w s g' e' d = (r, s')" by (cases "accept w s g' e' d")
  have "decided s' g' e' = Some d" if "r = Ok True" using that a accepted by blast
  then show ?case
    using Cons accepted_was_decided [of g e _ s' calls d] by (auto simp: call a split: if_splits)
qed simp

end

section \<open>The in-memory register\<close>

text \<open>The abstract object: a map that keeps the first value written to a key.\<close>

definition propose :: "('k \<rightharpoonup> 'v) \<Rightarrow> 'k \<Rightarrow> 'v \<Rightarrow> bool \<times> ('k \<rightharpoonup> 'v)" where
  "propose m k v = (case m k of None \<Rightarrow> (True, m(k \<mapsto> v)) | Some d \<Rightarrow> (d = v, m))"

definition abs_decided :: "(bytes \<rightharpoonup> bytes) \<Rightarrow> bytes \<times> u64 \<rightharpoonup> bytes" where
  "abs_decided m = (\<lambda>(g, e). m (seqKey g e))"

lemma abs_decided_upd: "abs_decided (m(seqKey g e \<mapsto> c)) = (abs_decided m)((g, e) \<mapsto> c)"
  by (auto simp: abs_decided_def fun_eq_iff)

definition memAccept :: "unit \<Rightarrow> MemorySequencer \<Rightarrow> bytes \<Rightarrow> u64 \<Rightarrow> bytes \<Rightarrow> bool res \<times> MemorySequencer" where
  "memAccept w s g e c = map_prod Inr id (MemorySequencer_AcceptCommit s g e c)"

interpretation memory: ordering memAccept MemorySequencer_Decided
  by unfold_locales
    (auto simp: memAccept_def MemorySequencer_AcceptCommit_def MemorySequencer_Decided_def Let_def
      split: option.splits)

section \<open>Fenced sequencers over one store and one register\<close>

record Cluster =
  cl_seqs :: "nat \<Rightarrow> FencedSequencer"
  cl_store :: MemoryLeaseStore
  cl_reg :: FencedRegister

text \<open>A whole call of sequencer \<open>i\<close>, whose clock reads \<open>now\<close> when the store's reads \<open>storeNow\<close>.\<close>

definition clusterAccept ::
  "nat \<times> int \<times> int \<Rightarrow> Cluster \<Rightarrow> bytes \<Rightarrow> u64 \<Rightarrow> bytes \<Rightarrow> bool res \<times> Cluster" where
  "clusterAccept w cl g e c =
    (case w of (i, now, storeNow) \<Rightarrow>
     case FencedSequencer_AcceptCommit now storeNow (cl_seqs cl i) (cl_store cl) (cl_reg cl) g e c of
       (r, s, store, reg) \<Rightarrow>
         (r, cl\<lparr>cl_seqs := (cl_seqs cl)(i := s), cl_store := store, cl_reg := reg\<rparr>))"

definition clusterDecided :: "Cluster \<Rightarrow> bytes \<Rightarrow> u64 \<Rightarrow> bytes option" where
  "clusterDecided cl g e = FencedRegister_Decided (cl_reg cl) g e"

lemma Accept_decides:
  "FencedRegister_Accept r vni t g e c = (Ok True, r') \<Longrightarrow> FencedRegister_Decided r' g e = Some c"
  by (auto simp: FencedRegister_Accept_def FencedRegister_Decided_def Let_def
      split: if_splits option.splits)

lemma Accept_stable:
  "FencedRegister_Accept r vni t g e c = (x, r') \<Longrightarrow> FencedRegister_Decided r g' e' = Some d \<Longrightarrow>
    FencedRegister_Decided r' g' e' = Some d"
  by (auto simp: FencedRegister_Accept_def FencedRegister_Decided_def Let_def
      split: if_splits option.splits)

lemma FencedSequencer_reg:
  assumes "FencedSequencer_AcceptCommit n1 n2 s store reg g e c = (r, s', store', reg')"
  shows "reg' = reg \<and> r \<noteq> Ok True \<or>
    (\<exists>vni t. FencedRegister_Accept reg vni t g e c = (r, reg'))"
  using assms
  by (auto simp: FencedSequencer_AcceptCommit_def split: if_splits prod.splits bool.splits)

interpretation fenced: ordering clusterAccept clusterDecided
proof
  fix w :: "nat \<times> int \<times> int" and cl cl' :: Cluster and g c :: bytes and e :: u64
  obtain i n1 n2 where w: "w = (i, n1, n2)" by (cases w)
  obtain r s store reg where f: "FencedSequencer_AcceptCommit n1 n2 (cl_seqs cl i) (cl_store cl)
      (cl_reg cl) g e c = (r, s, store, reg)" by (metis prod_cases4)
  note k = FencedSequencer_reg [OF f]
  show "clusterAccept w cl g e c = (Ok True, cl') \<Longrightarrow> clusterDecided cl' g e = Some c"
    using k Accept_decides by (auto simp: clusterAccept_def w f clusterDecided_def)
  show "clusterDecided cl' g' e' = Some d"
    if "clusterAccept w cl g e c = (x, cl')" "clusterDecided cl g' e' = Some d" for x g' e' d
    using that k Accept_stable by (auto simp: clusterAccept_def w f clusterDecided_def)
qed

section \<open>Properties\<close>

text \<open>the in-memory sequencer is the abstract first-writer-wins object: with the register read
  as a map on pairs of group and epoch, \<^verbatim>\<open>AcceptCommit\<close> returns and stores exactly what
  the abstract operation does.
\<close>
theorem memory_sequencer_refines:
  "map_prod id (\<lambda>s. abs_decided (ms_decided s)) (MemorySequencer_AcceptCommit s g e c) =
    propose (abs_decided (ms_decided s)) (g, e) c"
proof (cases "ms_decided s (seqKey g e)")
  case None
  then have "abs_decided (ms_decided s) (g, e) = None" by (simp add: abs_decided_def)
  then show ?thesis
    using None by (simp add: MemorySequencer_AcceptCommit_def propose_def abs_decided_upd)
next
  case (Some d)
  then have "abs_decided (ms_decided s) (g, e) = Some d" by (simp add: abs_decided_def)
  then show ?thesis using Some by (simp add: MemorySequencer_AcceptCommit_def propose_def)
qed

text \<open>in any sequence of calls to the in-memory sequencer, no two different commits are accepted
  for one epoch of a group.
\<close>
theorem memory_sequencer_agreement:
  assumes "(g, e, c) \<in> acceptedCalls memAccept s calls"
    and "(g, e, c') \<in> acceptedCalls memAccept s calls"
  shows "c = c'"
  by (rule memory.agreement [OF assms])

theorem memory_sequencer_agreement_witness:
  "([], 0, [1]) \<in> acceptedCalls memAccept NewMemorySequencer [((), [], 0, [1]), ((), [], 0, [2])] \<and>
    ([], 0, [2]) \<notin> acceptedCalls memAccept NewMemorySequencer [((), [], 0, [1]), ((), [], 0, [2])]"
proof -
  have a: "([], 0, [1]) \<in> acceptedCalls memAccept NewMemorySequencer [((), [], 0, [1]), ((), [], 0, [2])]"
    by (simp add: memAccept_def MemorySequencer_AcceptCommit_def NewMemorySequencer_def Let_def)
  then show ?thesis using memory_sequencer_agreement [OF a, of "[2]"] by auto
qed

text \<open>whatever sequencers call, with whatever clock readings and in whatever order, the fenced
  sequencers that share a store and a register never accept two different commits for one
  epoch of a group.
\<close>
theorem fenced_sequencers_agreement:
  assumes "(g, e, c) \<in> acceptedCalls clusterAccept cl calls"
    and "(g, e, c') \<in> acceptedCalls clusterAccept cl calls"
  shows "c = c'"
  by (rule fenced.agreement [OF assms])

definition demoCluster :: Cluster where
  "demoCluster = \<lparr>cl_seqs = (\<lambda>i. NewFencedSequencer (if i = 0 then ''a'' else ''b'') 7 [] 10),
     cl_store = NewMemoryLeaseStore, cl_reg = NewFencedRegister\<rparr>"

theorem fenced_sequencers_agreement_witness:
  "([], 0, [1]) \<in> acceptedCalls clusterAccept demoCluster [((0, 0, 0), [], 0, [1]), ((1, 20, 20), [], 0, [2])] \<and>
    ([], 0, [2]) \<notin> acceptedCalls clusterAccept demoCluster [((0, 0, 0), [], 0, [1]), ((1, 20, 20), [], 0, [2])]"
proof -
  have a: "([], 0, [1]) \<in> acceptedCalls clusterAccept demoCluster
      [((0, 0, 0), [], 0, [1]), ((1, 20, 20), [], 0, [2])]"
    by (simp add: clusterAccept_def demoCluster_def FencedSequencer_AcceptCommit_def ensureLease_def
        NewFencedSequencer_def Acquire_def NewMemoryLeaseStore_def NewFencedRegister_def
        FencedRegister_Accept_def Let_def)
  then show ?thesis
    using fenced_sequencers_agreement [OF a, of "[2]"] by auto
qed

end
