(* ===== verification/Fencing.thy ===== *)
theory Fencing
  imports Ordering
begin

text \<open>
  Leases and fencing tokens, with the calls of different sequencers interleaved: a call holds
  its sequencer's mutex from the lease check to the register write, and other sequencers may
  take any number of steps in between.  At most one sequencer of a network has a valid lease
  at a time, and the register accepts no token below one it has seen.
\<close>

section \<open>The lease store\<close>

text \<open>The possible outcomes of \<^verbatim>\<open>Acquire\<close>.\<close>

lemma Acquire_cases:
  assumes "Acquire now s vni owner ttl = (r, s')"
  obtains (refused) cur where "r = None" "s' = s" "ls_held s vni = Some cur" "Owner cur \<noteq> owner" "Valid cur now"
  | (granted) l where "r = Some l" "ls_VNI l = vni" "Owner l = owner" "Token l = ls_next s vni + 1"
      "Expiry l = now + ttl" "ls_held s' = (ls_held s)(vni \<mapsto> l)"
      "ls_next s' = (ls_next s)(vni := ls_next s vni + 1)"
      "\<And>cur. ls_held s vni = Some cur \<Longrightarrow> Owner cur = owner \<or> \<not> Valid cur now"
  using assms unfolding Acquire_def Let_def by (fastforce split: if_splits option.splits)

section \<open>Interleaved calls\<close>

record World =
  seqs :: "nat \<Rightarrow> FencedSequencer"
  pend :: "nat \<rightharpoonup> bytes \<times> u64 \<times> bytes"
  store :: MemoryLeaseStore
  reg :: FencedRegister
  clock :: int
  acceptLog :: "(bytes \<times> u64 \<times> bytes) set"

text \<open>A step: time passes; a call passes its lease check and is pending; a call is refused at
  the lease check; a pending call writes to the register.\<close>

inductive step :: "World \<Rightarrow> World \<Rightarrow> bool" where
  tick: "clock w \<le> t \<Longrightarrow> step w (w\<lparr>clock := t\<rparr>)"
| checked: "pend w i = None \<Longrightarrow> g = fs_group (seqs w i) \<Longrightarrow>
    ensureLease (clock w) (clock w) (seqs w i) (store w) = (True, s, st) \<Longrightarrow>
    step w (w\<lparr>seqs := (seqs w)(i := s), store := st, pend := (pend w)(i \<mapsto> (g, e, c))\<rparr>)"
| refused: "pend w i = None \<Longrightarrow>
    ensureLease (clock w) (clock w) (seqs w i) (store w) = (False, s, st) \<Longrightarrow>
    step w (w\<lparr>seqs := (seqs w)(i := s), store := st\<rparr>)"
| written: "pend w i = Some (g, e, c) \<Longrightarrow>
    FencedRegister_Accept (reg w) (fs_vni (seqs w i)) (Token (fs_lease (seqs w i))) g e c = (r, rg) \<Longrightarrow>
    step w (w\<lparr>reg := rg, pend := (pend w)(i := None),
      acceptLog := (if r = Ok True then insert (g, e, c) (acceptLog w) else acceptLog w)\<rparr>)"

inductive_cases stepE: "step w w'"

definition start :: "(nat \<Rightarrow> string) \<Rightarrow> (nat \<Rightarrow> u32) \<Rightarrow> (nat \<Rightarrow> bytes) \<Rightarrow> int \<Rightarrow> World \<Rightarrow> bool" where
  "start owner vni grp ttl w \<longleftrightarrow> seqs w = (\<lambda>i. NewFencedSequencer (owner i) (vni i) (grp i) ttl) \<and>
    pend w = Map.empty \<and> store w = NewMemoryLeaseStore \<and> reg w = NewFencedRegister \<and> acceptLog w = {}"

inductive reachable :: "World \<Rightarrow> World \<Rightarrow> bool" for w0 where
  init: "reachable w0 w0"
| step: "reachable w0 w \<Longrightarrow> step w w' \<Longrightarrow> reachable w0 w'"

section \<open>Invariants\<close>

text \<open>Owner and network of a sequencer never change, a held lease is its own, and a lease that
  is still valid is the one in the store.\<close>

definition leaseInv :: "(nat \<Rightarrow> string) \<Rightarrow> (nat \<Rightarrow> u32) \<Rightarrow> World \<Rightarrow> bool" where
  "leaseInv owner vni w \<longleftrightarrow>
    (\<forall>i. fs_owner (seqs w i) = owner i \<and> fs_vni (seqs w i) = vni i \<and>
      (fs_held (seqs w i) \<longrightarrow> Owner (fs_lease (seqs w i)) = owner i) \<and>
      (fs_held (seqs w i) \<longrightarrow> Valid (fs_lease (seqs w i)) (clock w) \<longrightarrow>
        ls_held (store w) (vni i) = Some (fs_lease (seqs w i))))"

lemma leaseInv_start: "start owner vni grp ttl w \<Longrightarrow> leaseInv owner vni w"
  by (simp add: start_def leaseInv_def NewFencedSequencer_def)

lemma ensureLease_inv:
  assumes inv: "leaseInv owner vni w" and inj: "inj owner"
    and e: "ensureLease (clock w) (clock w) (seqs w i) (store w) = (b, s, st)"
  shows "leaseInv owner vni (w\<lparr>seqs := (seqs w)(i := s), store := st\<rparr>)"
proof (cases "fs_held (seqs w i) \<and> Valid (fs_lease (seqs w i)) (clock w)")
  case True
  then have "s = seqs w i" "st = store w" using e by (auto simp: ensureLease_def)
  then show ?thesis using inv by (simp add: leaseInv_def)
next
  case False
  obtain r st' where a: "Acquire (clock w) (store w) (vni i) (owner i) (fs_ttl (seqs w i)) = (r, st')"
    by (cases "Acquire (clock w) (store w) (vni i) (owner i) (fs_ttl (seqs w i))")
  have i: "fs_owner (seqs w i) = owner i" "fs_vni (seqs w i) = vni i"
    using inv by (simp_all add: leaseInv_def)
  from a show ?thesis
  proof (cases rule: Acquire_cases)
    case refused
    then have "s = (seqs w i)\<lparr>fs_held := False\<rparr>" "st = store w"
      using e a False i by (auto simp: ensureLease_def)
    then show ?thesis using inv by (auto simp: leaseInv_def)
  next
    case (granted l)
    then have s: "s = (seqs w i)\<lparr>fs_lease := l, fs_held := True\<rparr>" "st = st'"
      using e a False i by (auto simp: ensureLease_def)
    have "ls_held st (vni j) = Some (fs_lease (seqs w j))"
      if "j \<noteq> i" "fs_held (seqs w j)" "Valid (fs_lease (seqs w j)) (clock w)" for j
    proof -
      have h: "ls_held (store w) (vni j) = Some (fs_lease (seqs w j))" "Owner (fs_lease (seqs w j)) = owner j"
        using inv that by (auto simp: leaseInv_def)
      have "vni j \<noteq> vni i"
      proof
        assume "vni j = vni i"
        then have "Owner (fs_lease (seqs w j)) = owner i" using granted(8) h(1) that(3) by auto
        then show False using h(2) inj that(1) by (auto dest: injD)
      qed
      then show ?thesis using h(1) granted(6) s(2) by simp
    qed
    then show ?thesis using inv s granted by (auto simp: leaseInv_def)
  qed
qed

lemma leaseInv_step:
  assumes "step w w'" "leaseInv owner vni w" "inj owner"
  shows "leaseInv owner vni w'"
  using assms(1)
proof (cases rule: step.cases)
  case (tick t)
  then show ?thesis using assms(2) by (auto simp: leaseInv_def Valid_def)
next
  case (checked i g s st e c)
  then show ?thesis using ensureLease_inv [OF assms(2,3) checked(4)] by (simp add: leaseInv_def)
next
  case (refused i s st)
  then show ?thesis using ensureLease_inv [OF assms(2,3) refused(3)] by simp
next
  case written
  then show ?thesis using assms(2) by (simp add: leaseInv_def)
qed

definition logInv :: "World \<Rightarrow> bool" where
  "logInv w \<longleftrightarrow> (\<forall>(g, e, c)\<in>acceptLog w. FencedRegister_Decided (reg w) g e = Some c)"

lemma logInv_step: "step w w' \<Longrightarrow> logInv w \<Longrightarrow> logInv w'"
proof (induction rule: step.induct)
  case (written w i g e c r rg)
  then show ?case
    using Accept_decides [of "reg w" _ _ g e c rg] Accept_stable [OF written(2)]
    by (auto simp: logInv_def)
qed (auto simp: logInv_def)

lemma maxToken_step: "step w w' \<Longrightarrow> maxToken (reg w) v \<le> maxToken (reg w') v"
proof (induction rule: step.induct)
  case (written w i g e c r rg)
  then show ?case
    by (auto simp: FencedRegister_Accept_def Let_def split: if_splits option.splits)
qed auto

lemma reachable_inv:
  assumes "reachable w0 w" "start owner vni grp ttl w0" "inj owner"
  shows "leaseInv owner vni w \<and> logInv w"
  using assms
proof (induction rule: reachable.induct)
  case init
  then show ?case using leaseInv_start by (auto simp: start_def logInv_def)
next
  case (step w w')
  then show ?case using leaseInv_step logInv_step by blast
qed

section \<open>Properties of fencing\<close>

text \<open>C31: however the calls of the sequencers interleave, at most one sequencer of a network holds a
  lease that is valid at the current time, as long as no two sequencers share an owner name.
\<close>
theorem one_valid_primary:
  assumes "start owner vni grp ttl w0" "inj owner" "reachable w0 w"
    and "vni i = vni j" "fs_held (seqs w i)" "fs_held (seqs w j)"
    and "Valid (fs_lease (seqs w i)) (clock w)" "Valid (fs_lease (seqs w j)) (clock w)"
  shows "i = j"
proof -
  have "leaseInv owner vni w" using reachable_inv assms by blast
  then have "Owner (fs_lease (seqs w k)) = owner k"
      "ls_held (store w) (vni k) = Some (fs_lease (seqs w k))"
    if "fs_held (seqs w k)" "Valid (fs_lease (seqs w k)) (clock w)" for k
    using that by (simp_all add: leaseInv_def)
  note h = this
  have "owner i = owner j"
    using h [OF assms(5,7)] h [OF assms(6,8)] assms(4) by simp
  then show ?thesis using assms(2) by (simp add: injD)
qed

text \<open>C32: however the calls interleave, the commits accepted so far contain at most one commit for
  each epoch of a group, and it is the one the register has decided.
\<close>
theorem interleaved_agreement:
  assumes "start owner vni grp ttl w0" "inj owner" "reachable w0 w"
    and "(g, e, c) \<in> acceptLog w" "(g, e, c') \<in> acceptLog w"
  shows "c = c' \<and> FencedRegister_Decided (reg w) g e = Some c"
proof -
  have "FencedRegister_Decided (reg w) g e = Some d" if "(g, e, d) \<in> acceptLog w" for d
    using reachable_inv [OF assms(3,1,2)] that by (auto simp: logInv_def)
  from this [OF assms(4)] this [OF assms(5)] show ?thesis by simp
qed

text \<open>once the register has accepted a write under some token, a write to the same network with
  a smaller token is refused from then on and changes nothing.
\<close>
theorem stale_writer_fenced:
  assumes "FencedRegister_Accept (reg w) v t g e c = (Ok b, rg)" "reachable (w\<lparr>reg := rg\<rparr>) w'"
    and "t' < t"
  shows "FencedRegister_Accept (reg w') v t' g' e' c' =
    (Err ''sequencer: write fenced by stale token'', reg w')"
proof -
  have "maxToken rg v = t"
    using assms(1) by (auto simp: FencedRegister_Accept_def Let_def split: if_splits option.splits)
  moreover have "maxToken rg v \<le> maxToken (reg w') v"
    using assms(2) by (induction rule: reachable.induct) (auto dest: maxToken_step intro: order_trans)
  ultimately have "t' < maxToken (reg w') v" using assms(3) by (metis order_less_le_trans)
  then show ?thesis by (simp add: FencedRegister_Accept_def)
qed

section \<open>A run of two sequencers\<close>

text \<open>Two sequencers of one network: the first passes the lease check and writes; the lease
  expires; the second takes it over with the next token.\<close>

definition owner2 :: "nat \<Rightarrow> string" where
  "owner2 i = replicate i CHR ''a''"

definition w0 :: World where
  "w0 = \<lparr>seqs = (\<lambda>i. NewFencedSequencer (owner2 i) 7 [] 10), pend = Map.empty,
    store = NewMemoryLeaseStore, reg = NewFencedRegister, clock = 0, acceptLog = {}\<rparr>"

definition leaseOf :: "nat \<Rightarrow> u64 \<Rightarrow> int \<Rightarrow> Lease" where
  "leaseOf i t x = \<lparr>ls_VNI = 7, Owner = owner2 i, Token = t, Expiry = x\<rparr>"

definition w1 :: World where
  "w1 = w0\<lparr>seqs := (seqs w0)(0 := (seqs w0 0)\<lparr>fs_lease := leaseOf 0 1 10, fs_held := True\<rparr>),
    store := \<lparr>ls_held = [7 \<mapsto> leaseOf 0 1 10], ls_next = (\<lambda>_. 0)(7 := 1)\<rparr>,
    pend := [0 \<mapsto> ([], 3, [1])]\<rparr>"

definition w2 :: World where
  "w2 = w1\<lparr>reg := \<lparr>fr_decided = [seqKey [] 3 \<mapsto> [1]], maxToken = (\<lambda>_. 0)(7 := 1)\<rparr>,
    pend := Map.empty, acceptLog := {([], 3, [1])}\<rparr>"

lemmas run_defs = w0_def w1_def w2_def leaseOf_def NewFencedSequencer_def NewMemoryLeaseStore_def
  NewFencedRegister_def

lemma w0_start: "start owner2 (\<lambda>_. 7) (\<lambda>_. []) 10 w0"
  by (simp add: start_def w0_def)

lemma owner2_inj: "inj owner2"
  by (rule injI) (simp add: owner2_def)

lemma w1_step: "step w0 w1"
proof -
  have "ensureLease (clock w0) (clock w0) (seqs w0 0) (store w0) = (True, seqs w1 0, store w1)"
    by (simp add: run_defs ensureLease_def Acquire_def Let_def owner2_def)
  from step.checked [OF _ _ this, of "[]" 3 "[1]"] show ?thesis
    by (simp add: run_defs fun_upd_def)
qed

lemma w2_step: "step w1 w2"
proof -
  have "FencedRegister_Accept (reg w1) (fs_vni (seqs w1 0)) (Token (fs_lease (seqs w1 0))) [] 3 [1] =
      (Ok True, reg w2)"
    by (simp add: run_defs FencedRegister_Accept_def Let_def)
  from step.written [OF _ this] show ?thesis by (simp add: run_defs)
qed

lemma w2_reachable: "reachable w0 w2"
  using reachable.init reachable.step w1_step w2_step by blast

theorem one_valid_primary_witness:
  "fs_held (seqs w2 0) \<and> Valid (fs_lease (seqs w2 0)) (clock w2) \<and>
    \<not> (fs_held (seqs w2 1) \<and> Valid (fs_lease (seqs w2 1)) (clock w2))"
proof -
  have h: "fs_held (seqs w2 0)" "Valid (fs_lease (seqs w2 0)) (clock w2)"
    by (simp_all add: run_defs Valid_def)
  then show ?thesis
    using one_valid_primary [OF w0_start owner2_inj w2_reachable, of 0 1] by auto
qed

theorem interleaved_agreement_witness:
  "([], 3, [1]) \<in> acceptLog w2 \<and> FencedRegister_Decided (reg w2) [] 3 = Some [1]"
proof -
  have l: "([], 3, [1]) \<in> acceptLog w2" by (simp add: run_defs)
  then show ?thesis
    using interleaved_agreement [OF w0_start owner2_inj w2_reachable l l] by simp
qed

theorem stale_writer_fenced_witness:
  "FencedRegister_Accept (reg w2) 7 0 [] 4 [2] = (Err ''sequencer: write fenced by stale token'', reg w2)"
proof -
  have a: "FencedRegister_Accept (reg w1) 7 1 [] 3 [1] = (Ok True, reg w2)"
    by (simp add: run_defs FencedRegister_Accept_def Let_def)
  show ?thesis
    using stale_writer_fenced [OF a reachable.init, of 0 "[]" 4 "[2]"] by simp
qed

end
