(* ===== verification/Forks.thy ===== *)
theory Forks
  imports Ordering
begin

text \<open>
  Fork detection and the tie-break of \<^verbatim>\<open>src/ironcore/sequencer\<close>: the registry reports divergence
  for an epoch exactly when two members reported different authenticators for it, and the
  canonical commit is the candidate with the least key, whatever the order of the candidates.
\<close>

section \<open>The registry\<close>

text \<open>A sequence of reports from an empty registry.\<close>

definition reportAll :: "(bytes \<times> u64 \<times> bytes) list \<Rightarrow> EpochAuthenticatorRegistry" where
  "reportAll rs = fold (\<lambda>(g, e, a) r. snd (Report r g e a)) rs NewEpochAuthenticatorRegistry"

lemma reportAll_snoc: "reportAll (rs @ [(g, e, a)]) = snd (Report (reportAll rs) g e a)"
  by (simp add: reportAll_def)

text \<open>The registry holds each authenticator reported for an epoch once.\<close>

lemma reportAll_seen:
  "distinct (seen (reportAll rs) (seqKey g e)) \<and>
    set (seen (reportAll rs) (seqKey g e)) = {a. (g, e, a) \<in> set rs}"
proof (induction rs rule: rev_induct)
  case Nil
  then show ?case by (simp add: reportAll_def NewEpochAuthenticatorRegistry_def)
next
  case (snoc x rs)
  obtain g' e' a where x: "x = (g', e', a)" by (cases x)
  have "set (seen (reportAll rs) (seqKey g e)) = {a. (g, e, a) \<in> set rs}" using snoc by simp
  then show ?case using snoc by (auto simp: x reportAll_snoc Report_def Let_def)
qed

lemma length_distinct_more:
  "distinct xs \<Longrightarrow> 1 < length xs \<longleftrightarrow> (\<exists>x\<in>set xs. \<exists>y\<in>set xs. x \<noteq> y)"
  by (cases xs rule: remdups_adj.cases) auto

lemma Report_says: "fst (Report r g e a) = Divergent (snd (Report r g e a)) g e"
  by (simp add: Report_def Divergent_def Let_def)

text \<open>after any sequence of reports, the registry calls an epoch of a group divergent exactly when
  two different authenticators have been reported for it, and the answer to the next report is
  what the registry then says.
\<close>
theorem divergence_detected:
  "(Divergent (reportAll rs) g e \<longleftrightarrow> (\<exists>a b. (g, e, a) \<in> set rs \<and> (g, e, b) \<in> set rs \<and> a \<noteq> b)) \<and>
    fst (Report (reportAll rs) g e a) = Divergent (reportAll (rs @ [(g, e, a)])) g e"
  using length_distinct_more [of "seen (reportAll rs) (seqKey g e)"] reportAll_seen [of rs g e]
  by (simp add: Divergent_def [of "reportAll rs"] Report_says reportAll_snoc)

section \<open>The canonical commit\<close>

text \<open>After a non-nil best candidate the loop computes the candidate with the least key.\<close>

lemma canonicalLoop_min:
  "\<exists>b. canonicalLoop std s (Some a) (tieKey std s (Some a)) (map Some cs) = Some b \<and>
    b \<in> set (a # cs) \<and> (\<forall>c\<in>set (a # cs). tieKey std s (Some b) \<le> tieKey std s (Some c))"
proof (induction cs arbitrary: a)
  case (Cons c cs)
  show ?case
  proof (cases "tieKey std s (Some c) < tieKey std s (Some a)")
    case True
    obtain b where b: "canonicalLoop std s (Some c) (tieKey std s (Some c)) (map Some cs) = Some b"
      "b \<in> set (c # cs)" "\<forall>d\<in>set (c # cs). tieKey std s (Some b) \<le> tieKey std s (Some d)"
      using Cons by blast
    then have "tieKey std s (Some b) \<le> tieKey std s (Some a)" using True by fastforce
    then show ?thesis using b True by (auto simp: Let_def)
  next
    case False
    obtain b where b: "canonicalLoop std s (Some a) (tieKey std s (Some a)) (map Some cs) = Some b"
      "b \<in> set (a # cs)" "\<forall>d\<in>set (a # cs). tieKey std s (Some b) \<le> tieKey std s (Some d)"
      using Cons by blast
    then have "tieKey std s (Some b) \<le> tieKey std s (Some c)" using False by fastforce
    then show ?thesis using b False by (auto simp: Let_def)
  qed
qed simp

lemma CanonicalCommit_min:
  assumes "cs \<noteq> []"
  obtains b where "CanonicalCommit std s (map Some cs) = Some b" "b \<in> set cs"
    "\<And>c. c \<in> set cs \<Longrightarrow> tieKey std s (Some b) \<le> tieKey std s (Some c)"
proof -
  obtain a ds where cs: "cs = a # ds" using assms by (cases cs) auto
  then show ?thesis
    using canonicalLoop_min [of std s a ds] that by (auto simp: CanonicalCommit_def Let_def)
qed

lemma tieKey_inject:
  assumes "\<And>x. length (Hash std s x) = n" "tieKey std s (Some b) = tieKey std s (Some c)"
  shows "b = c"
  using assms by (simp add: tieKey_def refBytes_def)

text \<open>C33: for candidates that are not nil, \<^verbatim>\<open>CanonicalCommit\<close> depends only on the set of candidates,
  so that members who saw them in different orders, or some of them twice, choose the same one.
  The hash function is assumed to have a fixed output length.
\<close>
theorem canonical_commit_order_free:
  assumes len: "\<And>x. length (Hash std s x) = n" and same: "set cs = set ds"
  shows "CanonicalCommit std s (map Some cs) = CanonicalCommit std s (map Some ds)"
proof (cases "cs = []")
  case True
  then show ?thesis using same by simp
next
  case False
  then have "ds \<noteq> []" using same by auto
  obtain b where b: "CanonicalCommit std s (map Some cs) = Some b" "b \<in> set cs"
    "\<And>c. c \<in> set cs \<Longrightarrow> tieKey std s (Some b) \<le> tieKey std s (Some c)"
    using CanonicalCommit_min [OF False] by blast
  obtain d where d: "CanonicalCommit std s (map Some ds) = Some d" "d \<in> set ds"
    "\<And>c. c \<in> set ds \<Longrightarrow> tieKey std s (Some d) \<le> tieKey std s (Some c)"
    using CanonicalCommit_min [OF \<open>ds \<noteq> []\<close>] by blast
  have "tieKey std s (Some b) = tieKey std s (Some d)"
    using b d same by (simp add: order_antisym)
  then show ?thesis using tieKey_inject [OF len] b(1) d(1) by simp
qed

definition fixedHashStd :: Std where
  "fixedHashStd = demoStd\<lparr>sha256 := (\<lambda>x. take 4 (x @ replicate 4 0))\<rparr>"

theorem canonical_commit_order_free_witness:
  "CanonicalCommit fixedHashStd sampleSuite [Some [2], Some [1]] =
    CanonicalCommit fixedHashStd sampleSuite [Some [1], Some [2], Some [1]]"
proof -
  have "length (Hash fixedHashStd sampleSuite x) = 4" for x
    by (simp add: Hash_def fixedHashStd_def sampleSuite_def min_def)
  from canonical_commit_order_free [of fixedHashStd sampleSuite 4 "[[2], [1]]" "[[1], [2], [1]]", OF this]
  show ?thesis by (simp add: insert_commute)
qed

text \<open>with a nil candidate the choice does depend on the order: nil after another candidate
  competes by its key, and nil before it is always replaced.
\<close>
theorem canonical_commit_nil_order:
  "CanonicalCommit fixedHashStd sampleSuite [Some [1], None] = None \<and>
    CanonicalCommit fixedHashStd sampleSuite [None, Some [1]] = Some [1]"
  by (simp add: CanonicalCommit_def tieKey_def refBytes_def Hash_def fixedHashStd_def
      sampleSuite_def Let_def numeral_eq_Suc)

end
