(* ===== verification/Framing.thy ===== *)
theory Framing
  imports KeySchedule
begin

text \<open>
  Message framing, \<^verbatim>\<open>src/mls/framing\<close>: senders, framed content with its signature and tags
  (\<^verbatim>\<open>framing.go\<close>), public messages (\<^verbatim>\<open>public.go\<close>), private messages (\<^verbatim>\<open>private.go\<close>), the outer
  envelope (\<^verbatim>\<open>message.go\<close>) and the two-step construction of commits (\<^verbatim>\<open>generate.go\<close>).  An inline
  proposal or commit has no length prefix; the decoder skims it to find its end.
\<close>

section \<open>Senders\<close>

abbreviation WireFormatPublicMessage :: u16 where "WireFormatPublicMessage \<equiv> 1"
abbreviation WireFormatPrivateMessage :: u16 where "WireFormatPrivateMessage \<equiv> 2"
abbreviation WireFormatWelcome :: u16 where "WireFormatWelcome \<equiv> 3"
abbreviation WireFormatGroupInfo :: u16 where "WireFormatGroupInfo \<equiv> 4"
abbreviation WireFormatKeyPackage :: u16 where "WireFormatKeyPackage \<equiv> 5"

abbreviation ContentTypeApplication :: byte where "ContentTypeApplication \<equiv> 1"
abbreviation ContentTypeProposal :: byte where "ContentTypeProposal \<equiv> 2"
abbreviation ContentTypeCommit :: byte where "ContentTypeCommit \<equiv> 3"

abbreviation SenderTypeMember :: byte where "SenderTypeMember \<equiv> 1"
abbreviation SenderTypeExternal :: byte where "SenderTypeExternal \<equiv> 2"
abbreviation SenderTypeNewMemberProposal :: byte where "SenderTypeNewMemberProposal \<equiv> 3"
abbreviation SenderTypeNewMemberCommit :: byte where "SenderTypeNewMemberCommit \<equiv> 4"

record Sender =
  SenderType :: byte
  snd_LeafIndex :: u32
  snd_Index :: u32

definition Sender_marshal :: "Sender \<Rightarrow> builder \<Rightarrow> builder res" where
  "Sender_marshal s b =
    bindR (WriteUint8 (SenderType s) b) (\<lambda>b.
    if SenderType s = SenderTypeMember then WriteUint32 (snd_LeafIndex s) b
    else if SenderType s = SenderTypeExternal then WriteUint32 (snd_Index s) b
    else if SenderType s = SenderTypeNewMemberProposal \<or> SenderType s = SenderTypeNewMemberCommit then Ok b
    else Err ''framing: invalid sender type'')"

definition decodeSender :: "cursor \<Rightarrow> (Sender \<times> cursor) res" where
  "decodeSender c =
    bindR (ReadUint8 c) (\<lambda>(t, c).
    if t = SenderTypeMember then
      bindR (ReadUint32 c) (\<lambda>(i, c). Ok (\<lparr>SenderType = t, snd_LeafIndex = i, snd_Index = 0\<rparr>, c))
    else if t = SenderTypeExternal then
      bindR (ReadUint32 c) (\<lambda>(i, c). Ok (\<lparr>SenderType = t, snd_LeafIndex = 0, snd_Index = i\<rparr>, c))
    else if t = SenderTypeNewMemberProposal \<or> t = SenderTypeNewMemberCommit then
      Ok (\<lparr>SenderType = t, snd_LeafIndex = 0, snd_Index = 0\<rparr>, c)
    else Err ''framing: invalid sender type'')"

definition wfSender :: "Sender \<Rightarrow> bool" where
  "wfSender s \<longleftrightarrow> (SenderType s \<noteq> SenderTypeMember \<longrightarrow> snd_LeafIndex s = 0) \<and>
    (SenderType s \<noteq> SenderTypeExternal \<longrightarrow> snd_Index s = 0)"

interpretation sender: codec_elem Sender_marshal decodeSender wfSender
proof (rule codec_elemI)
  fix x :: Sender and c c' out
  show "framed (Sender_marshal x)"
    unfolding Sender_marshal_def [abs_def] by (intro framed_intros)
  show "wfSender x \<and> reads (Sender_marshal x) c c'" if "decodeSender c = Ok (x, c')"
    using that unfolding Sender_marshal_def [abs_def] decodeSender_def wfSender_def
    by (cases x) (auto simp: res_simps codec_iff reads_simps framed_intros variant_simps
        reads_one_point)
  show "decodeSender c = Ok (x, c')" if "wfSender x" "reads (Sender_marshal x) c c'"
    using that unfolding Sender_marshal_def [abs_def] decodeSender_def wfSender_def
    by (cases x) (auto simp: codec_dec reads_simps framed_intros split: if_splits option.splits)
  show "emits (Sender_marshal x) out \<Longrightarrow> out \<noteq> []"
    unfolding Sender_marshal_def [abs_def]
    by (erule emits_head_nonempty [rotated 2]) (intro framed_intros | erule uint8.nonempty)+
qed

declare sender.frame [framed_intros] sender.decode_iff [codec_iff] sender.decodeI [codec_dec]
  sender.vec.frame [framed_intros] sender.vec.decode_iff [codec_iff] sender.vec.decodeI [codec_dec]

section \<open>Skimming an inline structure\<close>

text \<open>A skimmer moves the cursor over one structure.\<close>

definition skimPreSharedKeyID :: "cursor \<Rightarrow> cursor res" where
  "skimPreSharedKeyID c =
    bindR (ReadUint8 c) (\<lambda>(t, c).
    bindR
      (if t = 1 then bindR (Cursor_ReadOpaqueV c) (\<lambda>(_, c). Ok c)
       else if t = 2 then
         bindR (ReadUint8 c) (\<lambda>(_, c).
         bindR (Cursor_ReadOpaqueV c) (\<lambda>(_, c).
         bindR (ReadUint64 c) (\<lambda>(_, c). Ok c)))
       else Err ''framing: unknown PSKType'') (\<lambda>c.
    bindR (Cursor_ReadOpaqueV c) (\<lambda>(_, c). Ok c)))"

definition skimKeyPackage :: "cursor \<Rightarrow> cursor res" where
  "skimKeyPackage c =
    bindR (ReadUint16 c) (\<lambda>(_, c).
    bindR (ReadUint16 c) (\<lambda>(_, c).
    bindR (Cursor_ReadOpaqueV c) (\<lambda>(_, c).
    bindR (decodeLeafNode c) (\<lambda>(_, c).
    bindR (ReadVectorV decodeExtension c) (\<lambda>(_, c).
    bindR (Cursor_ReadOpaqueV c) (\<lambda>(_, c). Ok c))))))"

definition skimProposal :: "cursor \<Rightarrow> cursor res" where
  "skimProposal c =
    bindR (ReadUint16 c) (\<lambda>(pt, c).
    if pt = 1 then skimKeyPackage c
    else if pt = 2 then bindR (decodeLeafNode c) (\<lambda>(_, c). Ok c)
    else if pt = 3 then bindR (ReadUint32 c) (\<lambda>(_, c). Ok c)
    else if pt = 4 then skimPreSharedKeyID c
    else if pt = 5 then
      bindR (Cursor_ReadOpaqueV c) (\<lambda>(_, c).
      bindR (ReadUint16 c) (\<lambda>(_, c).
      bindR (ReadUint16 c) (\<lambda>(_, c).
      bindR (Cursor_ReadOpaqueV c) (\<lambda>(_, c). Ok c))))
    else if pt = 6 then bindR (Cursor_ReadOpaqueV c) (\<lambda>(_, c). Ok c)
    else if pt = 7 then bindR (Cursor_ReadOpaqueV c) (\<lambda>(_, c). Ok c)
    else Err ''framing: unknown proposal type'')"

definition skimCommit :: "cursor \<Rightarrow> cursor res" where
  "skimCommit c =
    bindR (Cursor_ReadOpaqueV c) (\<lambda>(_, c).
    bindR (ReadUint8 c) (\<lambda>(present, c).
    if present = 0 then Ok c
    else if present = 1 then bindR (decodeUpdatePath c) (\<lambda>(_, c). Ok c)
    else Err ''framing: invalid optional<UpdatePath> presence''))"

definition skim :: "(cursor \<Rightarrow> cursor res) \<Rightarrow> cursor \<Rightarrow> (bytes \<times> cursor) res" where
  "skim f c = bindR (f c) (\<lambda>c'. Ok (take (length c - length c') c, c'))"

text \<open>A skimmer is \<open>local\<close> when what it passes over determines its success: on the same
  bytes followed by anything else it stops at the same place.\<close>

definition local :: "(cursor \<Rightarrow> cursor res) \<Rightarrow> bool" where
  "local f \<longleftrightarrow> (\<forall>c c'. f c = Ok c' \<longrightarrow> (\<exists>out. c = out @ c' \<and> (\<forall>r. f (out @ r) = Ok r)))"

named_theorems local_intros \<open>skimmers that are local\<close>

lemma local_Ok [local_intros]: "local Inr"
  by (auto simp: local_def)

lemma local_Err [local_intros]: "local (\<lambda>c. Inl e)"
  by (auto simp: local_def)

lemma local_if [local_intros]: "local f \<Longrightarrow> local g \<Longrightarrow> local (\<lambda>c. if b then f c else g c)"
  by (cases b) auto

lemma local_bind [local_intros]: "local f \<Longrightarrow> local g \<Longrightarrow> local (\<lambda>c. bindR (f c) g)"
  unfolding local_def
proof (intro allI impI)
  fix c c'
  assume f: "\<forall>c c'. f c = Ok c' \<longrightarrow> (\<exists>out. c = out @ c' \<and> (\<forall>r. f (out @ r) = Ok r))"
    and g: "\<forall>c c'. g c = Ok c' \<longrightarrow> (\<exists>out. c = out @ c' \<and> (\<forall>r. g (out @ r) = Ok r))"
    and "bindR (f c) g = Ok c'"
  then obtain c1 where c1: "f c = Ok c1" "g c1 = Ok c'" by (auto simp: bindR_Inr_iff)
  obtain o1 o2 where o1: "c = o1 @ c1" "\<And>r. f (o1 @ r) = Ok r"
    and o2: "c1 = o2 @ c'" "\<And>r. g (o2 @ r) = Ok r" using f g c1 by blast
  then show "\<exists>out. c = out @ c' \<and> (\<forall>r. bindR (f (out @ r)) g = Ok r)"
    by (intro exI [of _ "o1 @ o2"]) simp
qed

lemma local_read:
  assumes "codec enc dec valid" "\<And>x. local (g x)"
  shows "local (\<lambda>c. bindR (dec c) (\<lambda>(x, c). g x c))"
  unfolding local_def
proof (intro allI impI)
  fix c c'
  assume "bindR (dec c) (\<lambda>(x, c). g x c) = Ok c'"
  then obtain x c1 where c1: "dec c = Ok (x, c1)" "g x c1 = Ok c'" by (auto simp: bindR_Inr_iff)
  obtain o1 where o1: "c = o1 @ c1" "\<And>r. dec (o1 @ r) = Ok (x, r)"
    using codec.encode_decode [OF assms(1) c1(1)] codec.decode_encode [OF assms(1)] by metis
  obtain o2 where o2: "c1 = o2 @ c'" "\<And>r. g x (o2 @ r) = Ok r"
    using assms(2) c1(2) unfolding local_def by blast
  show "\<exists>out. c = out @ c' \<and> (\<forall>r. bindR (dec (out @ r)) (\<lambda>(x, c). g x c) = Ok r)"
    using o1 o2 by (intro exI [of _ "o1 @ o2"]) simp
qed

lemmas local_reads [local_intros] =
  local_read [OF uint8.codec_axioms] local_read [OF uint16.codec_axioms]
  local_read [OF uint32.codec_axioms] local_read [OF uint64.codec_axioms]
  local_read [OF opaque.codec_axioms] local_read [OF leafnode.codec_axioms]
  local_read [OF updatepath.codec_axioms] local_read [OF extension.vec.codec_axioms]

lemma skimPreSharedKeyID_local [local_intros]: "local skimPreSharedKeyID"
  unfolding skimPreSharedKeyID_def [abs_def] by (intro local_intros)

lemma skimKeyPackage_local [local_intros]: "local skimKeyPackage"
  unfolding skimKeyPackage_def [abs_def] by (intro local_intros)

lemma skimProposal_local: "local skimProposal"
  unfolding skimProposal_def [abs_def] by (intro local_intros)

lemma skimCommit_local: "local skimCommit"
  unfolding skimCommit_def [abs_def] by (intro local_intros)

lemma skim_iff:
  assumes "local f"
  shows "skim f c = Ok (out, c') \<longleftrightarrow> f out = Ok [] \<and> c = out @ c'"
proof
  assume "skim f c = Ok (out, c')"
  then have f: "f c = Ok c'" "out = take (length c - length c') c" by (auto simp: skim_def bindR_Inr_iff)
  obtain p where p: "c = p @ c'" "\<And>r. f (p @ r) = Ok r" using assms f(1) unfolding local_def by blast
  show "f out = Ok [] \<and> c = out @ c'" using f(2) p p(2) [of "[]"] by simp
next
  assume a: "f out = Ok [] \<and> c = out @ c'"
  then obtain p where "out = p" "\<And>r. f (p @ r) = Ok r" using assms unfolding local_def by force
  then show "skim f c = Ok (out, c')" using a by (simp add: skim_def)
qed

section \<open>Framed content\<close>

definition marshalContent :: "byte \<Rightarrow> bytes \<Rightarrow> builder \<Rightarrow> builder res" where
  "marshalContent ct content b =
    (if ct = ContentTypeApplication then Builder_WriteOpaqueV content b
     else if ct = ContentTypeProposal \<or> ct = ContentTypeCommit then WriteRaw content b
     else Err ''framing: invalid content type'')"

definition decodeContent :: "byte \<Rightarrow> cursor \<Rightarrow> (bytes \<times> cursor) res" where
  "decodeContent ct c =
    (if ct = ContentTypeApplication then Cursor_ReadOpaqueV c
     else if ct = ContentTypeProposal then skim skimProposal c
     else if ct = ContentTypeCommit then skim skimCommit c
     else Err ''framing: invalid content type'')"

text \<open>Content that is exactly one inline structure.\<close>

definition wfContent :: "byte \<Rightarrow> bytes \<Rightarrow> bool" where
  "wfContent ct content \<longleftrightarrow>
    (ct = ContentTypeProposal \<longrightarrow> skimProposal content = Ok []) \<and>
    (ct = ContentTypeCommit \<longrightarrow> skimCommit content = Ok [])"

interpretation content: codec "marshalContent ct" "decodeContent ct" "wfContent ct" for ct
proof
  show "framed (marshalContent ct x)" for x
    unfolding marshalContent_def [abs_def] write_fun by (intro framed_intros)
  show "decodeContent ct c = Ok (x, c') \<longleftrightarrow> wfContent ct x \<and> reads (marshalContent ct x) c c'" for c x c'
    unfolding marshalContent_def [abs_def] decodeContent_def wfContent_def write_fun
    by (auto simp: skim_iff [OF skimProposal_local] skim_iff [OF skimCommit_local] codec_iff
        reads_simps reads_Ok_iff)
qed

declare content.frame [framed_intros] content.decode_iff [codec_iff] content.decodeI [codec_dec]

record FramedContent =
  fc_GroupID :: bytes
  fc_Epoch :: u64
  fc_Sender :: Sender
  fc_AuthenticatedData :: bytes
  fc_ContentType :: byte
  fc_Content :: bytes

definition FramedContent_marshal :: "FramedContent \<Rightarrow> builder \<Rightarrow> builder res" where
  "FramedContent_marshal fc b =
    bindR (Builder_WriteOpaqueV (fc_GroupID fc) b) (\<lambda>b.
    bindR (WriteUint64 (fc_Epoch fc) b) (\<lambda>b.
    bindR (Sender_marshal (fc_Sender fc) b) (\<lambda>b.
    bindR (Builder_WriteOpaqueV (fc_AuthenticatedData fc) b) (\<lambda>b.
    bindR (WriteUint8 (fc_ContentType fc) b) (\<lambda>b.
    marshalContent (fc_ContentType fc) (fc_Content fc) b)))))"

definition decodeFramedContent :: "cursor \<Rightarrow> (FramedContent \<times> cursor) res" where
  "decodeFramedContent c =
    bindR (Cursor_ReadOpaqueV c) (\<lambda>(gid, c).
    bindR (ReadUint64 c) (\<lambda>(e, c).
    bindR (decodeSender c) (\<lambda>(s, c).
    bindR (Cursor_ReadOpaqueV c) (\<lambda>(ad, c).
    bindR (ReadUint8 c) (\<lambda>(ct, c).
    bindR (decodeContent ct c) (\<lambda>(content, c).
      Ok (\<lparr>fc_GroupID = gid, fc_Epoch = e, fc_Sender = s, fc_AuthenticatedData = ad,
            fc_ContentType = ct, fc_Content = content\<rparr>, c)))))))"

definition wfFramedContent :: "FramedContent \<Rightarrow> bool" where
  "wfFramedContent fc \<longleftrightarrow> wfSender (fc_Sender fc) \<and> wfContent (fc_ContentType fc) (fc_Content fc)"

interpretation framedcontent: codec_elem FramedContent_marshal decodeFramedContent wfFramedContent
proof (rule codec_elemI)
  fix x :: FramedContent and c c' out
  show "framed (FramedContent_marshal x)"
    unfolding FramedContent_marshal_def [abs_def] by (intro framed_intros)
  show "wfFramedContent x \<and> reads (FramedContent_marshal x) c c'" if "decodeFramedContent c = Ok (x, c')"
    using that unfolding FramedContent_marshal_def [abs_def] decodeFramedContent_def wfFramedContent_def
    by (cases x) (auto simp: res_simps codec_iff reads_simps framed_intros variant_simps
        reads_one_point)
  show "decodeFramedContent c = Ok (x, c')" if "wfFramedContent x" "reads (FramedContent_marshal x) c c'"
    using that unfolding FramedContent_marshal_def [abs_def] decodeFramedContent_def wfFramedContent_def
    by (cases x) (auto simp: codec_dec reads_simps framed_intros split: if_splits option.splits)
  show "emits (FramedContent_marshal x) out \<Longrightarrow> out \<noteq> []"
    unfolding FramedContent_marshal_def [abs_def]
    by (erule emits_head_nonempty [rotated 2]) (intro framed_intros | erule opaque.nonempty)+
qed

declare framedcontent.frame [framed_intros] framedcontent.decode_iff [codec_iff] framedcontent.decodeI [codec_dec]
  framedcontent.vec.frame [framed_intros] framedcontent.vec.decode_iff [codec_iff] framedcontent.vec.decodeI [codec_dec]

record FramedContentAuthData =
  auth_Signature :: bytes
  auth_ConfirmationTag :: bytes

definition FramedContentAuthData_marshal ::
  "byte \<Rightarrow> FramedContentAuthData \<Rightarrow> builder \<Rightarrow> builder res" where
  "FramedContentAuthData_marshal ct a b =
    bindR (Builder_WriteOpaqueV (auth_Signature a) b) (\<lambda>b.
    if ct = ContentTypeCommit then Builder_WriteOpaqueV (auth_ConfirmationTag a) b else Ok b)"

definition decodeFramedContentAuthData ::
  "byte \<Rightarrow> cursor \<Rightarrow> (FramedContentAuthData \<times> cursor) res" where
  "decodeFramedContentAuthData ct c =
    bindR (Cursor_ReadOpaqueV c) (\<lambda>(sig, c).
    if ct = ContentTypeCommit then
      bindR (Cursor_ReadOpaqueV c) (\<lambda>(tag, c).
        Ok (\<lparr>auth_Signature = sig, auth_ConfirmationTag = tag\<rparr>, c))
    else Ok (\<lparr>auth_Signature = sig, auth_ConfirmationTag = []\<rparr>, c))"

definition wfAuthData :: "byte \<Rightarrow> FramedContentAuthData \<Rightarrow> bool" where
  "wfAuthData ct a \<longleftrightarrow> (ct \<noteq> ContentTypeCommit \<longrightarrow> auth_ConfirmationTag a = [])"

interpretation authdata: codec_elem "FramedContentAuthData_marshal ct"
  "decodeFramedContentAuthData ct" "wfAuthData ct" for ct
proof (rule codec_elemI)
  fix x :: FramedContentAuthData and c c' out
  note defs = FramedContentAuthData_marshal_def [abs_def] decodeFramedContentAuthData_def wfAuthData_def
  show "framed (FramedContentAuthData_marshal ct x)"
    unfolding defs by (intro framed_intros)
  show "wfAuthData ct x \<and> reads (FramedContentAuthData_marshal ct x) c c'"
    if "decodeFramedContentAuthData ct c = Ok (x, c')"
    using that unfolding defs
    by (cases x) (auto simp: res_simps codec_iff reads_simps framed_intros reads_one_point)
  show "decodeFramedContentAuthData ct c = Ok (x, c')"
    if "wfAuthData ct x" "reads (FramedContentAuthData_marshal ct x) c c'"
    using that unfolding defs
    by (cases x) (auto simp: codec_dec reads_simps framed_intros split: if_splits)
  show "emits (FramedContentAuthData_marshal ct x) out \<Longrightarrow> out \<noteq> []"
    unfolding defs
    by (erule emits_head_nonempty [rotated 2]) (intro framed_intros | erule opaque.nonempty)+
qed

declare authdata.frame [framed_intros] authdata.decode_iff [codec_iff] authdata.decodeI [codec_dec]

record AuthenticatedContent =
  ac_WireFormat :: u16
  ac_Content :: FramedContent
  ac_Auth :: FramedContentAuthData

definition AuthenticatedContent_MarshalMLS :: "AuthenticatedContent \<Rightarrow> bytes res" where
  "AuthenticatedContent_MarshalMLS ac =
    bindR (WriteUint16 (ac_WireFormat ac) NewBuilder) (\<lambda>b.
    bindR (FramedContent_marshal (ac_Content ac) b) (\<lambda>b.
    FramedContentAuthData_marshal (fc_ContentType (ac_Content ac)) (ac_Auth ac) b))"

definition framedContentTBS :: "u16 \<Rightarrow> FramedContent \<Rightarrow> GroupContext option \<Rightarrow> bytes res" where
  "framedContentTBS wfmt fc gc =
    bindR (WriteUint16 ProtocolVersionMLS10 NewBuilder) (\<lambda>b.
    bindR (WriteUint16 wfmt b) (\<lambda>b.
    bindR (FramedContent_marshal fc b) (\<lambda>b.
    if SenderType (fc_Sender fc) = SenderTypeMember \<or>
        SenderType (fc_Sender fc) = SenderTypeNewMemberCommit then
      (case gc of
         None \<Rightarrow> Err ''framing: sender requires a GroupContext for the signature''
       | Some gc \<Rightarrow> bindR (GroupContext_MarshalMLS gc) (\<lambda>gcb. WriteRaw gcb b))
    else Ok b)))"

definition ac_sign :: "Std \<Rightarrow> Suite \<Rightarrow> Signer \<Rightarrow> GroupContext option \<Rightarrow> AuthenticatedContent \<Rightarrow>
  AuthenticatedContent res" where
  "ac_sign std s signer gc ac =
    bindR (framedContentTBS (ac_WireFormat ac) (ac_Content ac) gc) (\<lambda>tbs.
    bindR (SignWithLabel std s signer ''FramedContentTBS'' tbs) (\<lambda>sig.
      Ok (ac\<lparr>ac_Auth := (ac_Auth ac)\<lparr>auth_Signature := sig\<rparr>\<rparr>)))"

definition ac_verify ::
  "Std \<Rightarrow> Suite \<Rightarrow> bytes \<Rightarrow> GroupContext option \<Rightarrow> AuthenticatedContent \<Rightarrow> bool" where
  "ac_verify std s signaturePub gc ac =
    (case framedContentTBS (ac_WireFormat ac) (ac_Content ac) gc of
       Inl _ \<Rightarrow> False
     | Inr tbs \<Rightarrow>
         VerifyWithLabel std s signaturePub ''FramedContentTBS'' tbs (auth_Signature (ac_Auth ac)))"

section \<open>Public messages\<close>

record PublicMessage =
  pub_Content :: FramedContent
  pub_Auth :: FramedContentAuthData
  MembershipTag :: bytes

definition PublicMessage_marshal :: "PublicMessage \<Rightarrow> builder \<Rightarrow> builder res" where
  "PublicMessage_marshal m b =
    bindR (FramedContent_marshal (pub_Content m) b) (\<lambda>b.
    bindR (FramedContentAuthData_marshal (fc_ContentType (pub_Content m)) (pub_Auth m) b) (\<lambda>b.
    if SenderType (fc_Sender (pub_Content m)) = SenderTypeMember
    then Builder_WriteOpaqueV (MembershipTag m) b else Ok b))"

definition decodePublicMessage :: "cursor \<Rightarrow> (PublicMessage \<times> cursor) res" where
  "decodePublicMessage c =
    bindR (decodeFramedContent c) (\<lambda>(fc, c).
    bindR (decodeFramedContentAuthData (fc_ContentType fc) c) (\<lambda>(auth, c).
    if SenderType (fc_Sender fc) = SenderTypeMember then
      bindR (Cursor_ReadOpaqueV c) (\<lambda>(tag, c).
        Ok (\<lparr>pub_Content = fc, pub_Auth = auth, MembershipTag = tag\<rparr>, c))
    else Ok (\<lparr>pub_Content = fc, pub_Auth = auth, MembershipTag = []\<rparr>, c)))"

definition wfPublicMessage :: "PublicMessage \<Rightarrow> bool" where
  "wfPublicMessage m \<longleftrightarrow> wfFramedContent (pub_Content m) \<and>
    wfAuthData (fc_ContentType (pub_Content m)) (pub_Auth m) \<and>
    (SenderType (fc_Sender (pub_Content m)) \<noteq> SenderTypeMember \<longrightarrow> MembershipTag m = [])"

interpretation publicmessage: codec_elem PublicMessage_marshal decodePublicMessage wfPublicMessage
proof (rule codec_elemI)
  fix x :: PublicMessage and c c' out
  show "framed (PublicMessage_marshal x)"
    unfolding PublicMessage_marshal_def [abs_def] by (intro framed_intros)
  show "wfPublicMessage x \<and> reads (PublicMessage_marshal x) c c'" if "decodePublicMessage c = Ok (x, c')"
    using that unfolding PublicMessage_marshal_def [abs_def] decodePublicMessage_def wfPublicMessage_def
    by (cases x) (auto simp: res_simps codec_iff reads_simps framed_intros variant_simps
        reads_one_point)
  show "decodePublicMessage c = Ok (x, c')" if "wfPublicMessage x" "reads (PublicMessage_marshal x) c c'"
    using that unfolding PublicMessage_marshal_def [abs_def] decodePublicMessage_def wfPublicMessage_def
    by (cases x) (auto simp: codec_dec reads_simps framed_intros split: if_splits option.splits)
  show "emits (PublicMessage_marshal x) out \<Longrightarrow> out \<noteq> []"
    unfolding PublicMessage_marshal_def [abs_def]
    by (erule emits_head_nonempty [rotated 2]) (intro framed_intros | erule framedcontent.nonempty)+
qed

declare publicmessage.frame [framed_intros] publicmessage.decode_iff [codec_iff] publicmessage.decodeI [codec_dec]
  publicmessage.vec.frame [framed_intros] publicmessage.vec.decode_iff [codec_iff] publicmessage.vec.decodeI [codec_dec]

definition authenticatedContentTBM ::
  "u16 \<Rightarrow> FramedContent \<Rightarrow> FramedContentAuthData \<Rightarrow> GroupContext option \<Rightarrow> bytes res" where
  "authenticatedContentTBM wfmt fc auth gc =
    bindR (framedContentTBS wfmt fc gc) (\<lambda>tbs.
    bindR (WriteRaw tbs NewBuilder) (\<lambda>b.
    FramedContentAuthData_marshal (fc_ContentType fc) auth b))"

text \<open>The fields of a fresh \<^verbatim>\<open>AuthenticatedContent\<close>: the confirmation tag is set for commits only.\<close>

definition newContent :: "u16 \<Rightarrow> FramedContent \<Rightarrow> bytes \<Rightarrow> AuthenticatedContent" where
  "newContent wfmt fc confirmationTag =
    \<lparr>ac_WireFormat = wfmt, ac_Content = fc, ac_Auth = \<lparr>auth_Signature = [], auth_ConfirmationTag =
      (if fc_ContentType fc = ContentTypeCommit then confirmationTag else [])\<rparr>\<rparr>"

definition ProtectPublic :: "Std \<Rightarrow> Suite \<Rightarrow> Signer \<Rightarrow> GroupContext option \<Rightarrow> bytes \<Rightarrow> FramedContent \<Rightarrow>
  bytes \<Rightarrow> PublicMessage res" where
  "ProtectPublic std s signer gc membershipKey fc confirmationTag =
    bindR (ac_sign std s signer gc (newContent WireFormatPublicMessage fc confirmationTag)) (\<lambda>ac.
    if SenderType (fc_Sender fc) = SenderTypeMember then
      bindR (authenticatedContentTBM WireFormatPublicMessage fc (ac_Auth ac) gc) (\<lambda>tbm.
        Ok \<lparr>pub_Content = ac_Content ac, pub_Auth = ac_Auth ac, MembershipTag = MAC std s membershipKey tbm\<rparr>)
    else Ok \<lparr>pub_Content = ac_Content ac, pub_Auth = ac_Auth ac, MembershipTag = []\<rparr>)"

definition UnprotectPublic :: "Std \<Rightarrow> Suite \<Rightarrow> bytes \<Rightarrow> GroupContext option \<Rightarrow> bytes \<Rightarrow> PublicMessage \<Rightarrow>
  AuthenticatedContent res" where
  "UnprotectPublic std s signaturePub gc membershipKey m =
    bindR
      (if SenderType (fc_Sender (pub_Content m)) = SenderTypeMember then
         bindR (authenticatedContentTBM WireFormatPublicMessage (pub_Content m) (pub_Auth m) gc) (\<lambda>tbm.
           require (MAC std s membershipKey tbm = MembershipTag m)
             ''framing: membership_tag verification failed'')
       else Ok ()) (\<lambda>_.
    let ac = \<lparr>ac_WireFormat = WireFormatPublicMessage, ac_Content = pub_Content m, ac_Auth = pub_Auth m\<rparr> in
    if \<not> ac_verify std s signaturePub gc ac then Err ''framing: signature verification failed''
    else Ok ac)"

definition SignCommit :: "Std \<Rightarrow> Suite \<Rightarrow> Signer \<Rightarrow> GroupContext option \<Rightarrow> FramedContent \<Rightarrow> u16 \<Rightarrow>
  (bytes \<times> bytes) res" where
  "SignCommit std s signer gc fc wfmt =
    bindR (ac_sign std s signer gc \<lparr>ac_WireFormat = wfmt, ac_Content = fc,
      ac_Auth = \<lparr>auth_Signature = [], auth_ConfirmationTag = []\<rparr>\<rparr>) (\<lambda>ac.
    bindR (WriteUint16 wfmt NewBuilder) (\<lambda>b.
    bindR (FramedContent_marshal fc b) (\<lambda>b.
    bindR (Builder_WriteOpaqueV (auth_Signature (ac_Auth ac)) b) (\<lambda>b.
      Ok (b, auth_Signature (ac_Auth ac))))))"

definition AssembleCommitPublic :: "Std \<Rightarrow> Suite \<Rightarrow> GroupContext option \<Rightarrow> bytes \<Rightarrow> FramedContent \<Rightarrow>
  bytes \<Rightarrow> bytes \<Rightarrow> PublicMessage res" where
  "AssembleCommitPublic std s gc membershipKey fc signature confTag =
    (let auth = \<lparr>auth_Signature = signature, auth_ConfirmationTag = confTag\<rparr> in
     bindR (authenticatedContentTBM WireFormatPublicMessage fc auth gc) (\<lambda>tbm.
       Ok \<lparr>pub_Content = fc, pub_Auth = auth, MembershipTag = MAC std s membershipKey tbm\<rparr>))"

section \<open>Private messages\<close>

record PrivateMessage =
  prv_GroupID :: bytes
  prv_Epoch :: u64
  prv_ContentType :: byte
  prv_AuthenticatedData :: bytes
  EncryptedSenderData :: bytes
  prv_Ciphertext :: bytes

definition PrivateMessage_marshal :: "PrivateMessage \<Rightarrow> builder \<Rightarrow> builder res" where
  "PrivateMessage_marshal m b =
    bindR (Builder_WriteOpaqueV (prv_GroupID m) b) (\<lambda>b.
    bindR (WriteUint64 (prv_Epoch m) b) (\<lambda>b.
    bindR (WriteUint8 (prv_ContentType m) b) (\<lambda>b.
    bindR (Builder_WriteOpaqueV (prv_AuthenticatedData m) b) (\<lambda>b.
    bindR (Builder_WriteOpaqueV (EncryptedSenderData m) b) (\<lambda>b.
    Builder_WriteOpaqueV (prv_Ciphertext m) b)))))"

definition decodePrivateMessage :: "cursor \<Rightarrow> (PrivateMessage \<times> cursor) res" where
  "decodePrivateMessage c =
    bindR (Cursor_ReadOpaqueV c) (\<lambda>(gid, c).
    bindR (ReadUint64 c) (\<lambda>(e, c).
    bindR (ReadUint8 c) (\<lambda>(ct, c).
    bindR (Cursor_ReadOpaqueV c) (\<lambda>(ad, c).
    bindR (Cursor_ReadOpaqueV c) (\<lambda>(esd, c).
    bindR (Cursor_ReadOpaqueV c) (\<lambda>(ciph, c).
      Ok (\<lparr>prv_GroupID = gid, prv_Epoch = e, prv_ContentType = ct, prv_AuthenticatedData = ad,
            EncryptedSenderData = esd, prv_Ciphertext = ciph\<rparr>, c)))))))"

interpretation privatemessage: codec_elem PrivateMessage_marshal decodePrivateMessage anyval
proof (rule codec_elemI)
  fix x :: PrivateMessage and c c' out
  show "framed (PrivateMessage_marshal x)"
    unfolding PrivateMessage_marshal_def [abs_def] by (intro framed_intros)
  show "anyval x \<and> reads (PrivateMessage_marshal x) c c'" if "decodePrivateMessage c = Ok (x, c')"
    using that unfolding PrivateMessage_marshal_def [abs_def] decodePrivateMessage_def
    by (cases x) (auto simp: res_simps codec_iff reads_simps framed_intros variant_simps
        reads_one_point)
  show "decodePrivateMessage c = Ok (x, c')" if "anyval x" "reads (PrivateMessage_marshal x) c c'"
    using that unfolding PrivateMessage_marshal_def [abs_def] decodePrivateMessage_def
    by (cases x) (auto simp: codec_dec reads_simps framed_intros split: if_splits option.splits)
  show "emits (PrivateMessage_marshal x) out \<Longrightarrow> out \<noteq> []"
    unfolding PrivateMessage_marshal_def [abs_def]
    by (erule emits_head_nonempty [rotated 2]) (intro framed_intros | erule opaque.nonempty)+
qed

declare privatemessage.frame [framed_intros] privatemessage.decode_iff [codec_iff] privatemessage.decodeI [codec_dec]
  privatemessage.vec.frame [framed_intros] privatemessage.vec.decode_iff [codec_iff] privatemessage.vec.decodeI [codec_dec]

record senderData =
  sd_LeafIndex :: u32
  sd_Generation :: u32
  ReuseGuard :: bytes

definition senderData_marshal :: "senderData \<Rightarrow> builder \<Rightarrow> builder res" where
  "senderData_marshal sd b =
    bindR (WriteUint32 (sd_LeafIndex sd) b) (\<lambda>b.
    bindR (WriteUint32 (sd_Generation sd) b) (\<lambda>b.
    WriteRaw (ReuseGuard sd) b))"

definition decodeSenderData :: "cursor \<Rightarrow> (senderData \<times> cursor) res" where
  "decodeSenderData c =
    bindR (ReadUint32 c) (\<lambda>(i, c).
    bindR (ReadUint32 c) (\<lambda>(g, c).
    bindR (ReadRaw 4 c) (\<lambda>(r, c).
      Ok (\<lparr>sd_LeafIndex = i, sd_Generation = g, ReuseGuard = r\<rparr>, c))))"

text \<open>The reuse guard is an array of four bytes.\<close>

definition wfSenderData :: "senderData \<Rightarrow> bool" where
  "wfSenderData sd \<longleftrightarrow> length (ReuseGuard sd) = 4"

interpretation senderdata: codec_elem senderData_marshal decodeSenderData wfSenderData
proof (rule codec_elemI)
  fix x :: senderData and c c' out
  note defs = senderData_marshal_def [abs_def] decodeSenderData_def wfSenderData_def ReadRaw_def WriteRaw_fun
  show "framed (senderData_marshal x)"
    unfolding defs by (intro framed_intros)
  show "wfSenderData x \<and> reads (senderData_marshal x) c c'" if "decodeSenderData c = Ok (x, c')"
    using that unfolding defs
    by (cases x) (auto simp: res_simps codec_iff reads_simps framed_intros reads_one_point
        take_c_Ok_iff reads_Ok_iff)
  show "decodeSenderData c = Ok (x, c')" if "wfSenderData x" "reads (senderData_marshal x) c c'"
    using that unfolding defs
    by (cases x) (auto simp: codec_dec reads_simps framed_intros take_c_def reads_Ok_iff)
  show "emits (senderData_marshal x) out \<Longrightarrow> out \<noteq> []"
    unfolding defs
    by (erule emits_head_nonempty [rotated 2]) (intro framed_intros | erule uint32.nonempty)+
qed

definition senderDataAAD :: "bytes \<Rightarrow> u64 \<Rightarrow> byte \<Rightarrow> bytes res" where
  "senderDataAAD groupID epoch ct =
    bindR (Builder_WriteOpaqueV groupID NewBuilder) (\<lambda>b.
    bindR (WriteUint64 epoch b) (\<lambda>b. WriteUint8 ct b))"

definition privateContentAAD :: "bytes \<Rightarrow> u64 \<Rightarrow> byte \<Rightarrow> bytes \<Rightarrow> bytes res" where
  "privateContentAAD groupID epoch ct ad =
    bindR (Builder_WriteOpaqueV groupID NewBuilder) (\<lambda>b.
    bindR (WriteUint64 epoch b) (\<lambda>b.
    bindR (WriteUint8 ct b) (\<lambda>b. Builder_WriteOpaqueV ad b)))"

definition ratchetTypeFor :: "byte \<Rightarrow> int" where
  "ratchetTypeFor ct = (if ct = ContentTypeApplication then ApplicationRatchet else HandshakeRatchet)"

definition applyReuseGuard :: "bytes \<Rightarrow> bytes \<Rightarrow> bytes res" where
  "applyReuseGuard nonce guard =
    foldR (\<lambda>n i. bindR (goIndex n i) (\<lambda>x. goUpdate n i (x XOR guard ! i))) nonce [0, 1, 2, 3]"

definition privateMessageContent :: "FramedContent \<Rightarrow> FramedContentAuthData \<Rightarrow> int \<Rightarrow> bytes res" where
  "privateMessageContent fc auth paddingSize =
    bindR (marshalContent (fc_ContentType fc) (fc_Content fc) NewBuilder) (\<lambda>b.
    bindR (FramedContentAuthData_marshal (fc_ContentType fc) auth b) (\<lambda>b.
    if paddingSize > 0 then WriteRaw (replicate (nat paddingSize) 0) b else Ok b))"

definition decodePrivateMessageContent ::
  "bytes \<Rightarrow> byte \<Rightarrow> (bytes \<times> FramedContentAuthData) res" where
  "decodePrivateMessageContent pt ct =
    bindR (decodeContent ct pt) (\<lambda>(content, c).
    bindR (decodeFramedContentAuthData ct c) (\<lambda>(auth, c).
    if \<not> list_all (\<lambda>x. x = 0) c then Err ''framing: non-zero padding in PrivateMessageContent''
    else Ok (content, auth)))"

definition sealPrivate :: "Std \<Rightarrow> Suite \<Rightarrow> SecretTree \<Rightarrow> bytes \<Rightarrow> FramedContent \<Rightarrow>
  FramedContentAuthData \<Rightarrow> u32 \<Rightarrow> bytes \<Rightarrow> int \<Rightarrow> PrivateMessage res" where
  "sealPrivate std s st senderDataSecret fc auth generation reuseGuard paddingSize =
    bindR (KeyNonce std st (snd_LeafIndex (fc_Sender fc)) (ratchetTypeFor (fc_ContentType fc)) generation) (\<lambda>(key, nonce).
    bindR (privateContentAAD (fc_GroupID fc) (fc_Epoch fc) (fc_ContentType fc) (fc_AuthenticatedData fc)) (\<lambda>contentAAD.
    bindR (privateMessageContent fc auth paddingSize) (\<lambda>pt.
    bindR (applyReuseGuard nonce reuseGuard) (\<lambda>guarded.
    bindR (Seal std s key guarded contentAAD pt) (\<lambda>ciphertext.
    bindR (SenderDataKeyNonce std s senderDataSecret ciphertext) (\<lambda>(sdKey, sdNonce).
    bindR (senderDataAAD (fc_GroupID fc) (fc_Epoch fc) (fc_ContentType fc)) (\<lambda>sdAAD.
    bindR (senderData_marshal \<lparr>sd_LeafIndex = snd_LeafIndex (fc_Sender fc), sd_Generation = generation,
      ReuseGuard = reuseGuard\<rparr> NewBuilder) (\<lambda>sdb.
    bindR (Seal std s sdKey sdNonce sdAAD sdb) (\<lambda>encSD.
      Ok \<lparr>prv_GroupID = fc_GroupID fc, prv_Epoch = fc_Epoch fc, prv_ContentType = fc_ContentType fc,
           prv_AuthenticatedData = fc_AuthenticatedData fc, EncryptedSenderData = encSD,
           prv_Ciphertext = ciphertext\<rparr>)))))))))"

definition ProtectPrivate :: "Std \<Rightarrow> Suite \<Rightarrow> Signer \<Rightarrow> GroupContext option \<Rightarrow> SecretTree \<Rightarrow> bytes \<Rightarrow>
  FramedContent \<Rightarrow> u32 \<Rightarrow> bytes \<Rightarrow> int \<Rightarrow> bytes \<Rightarrow> PrivateMessage res" where
  "ProtectPrivate std s signer gc st senderDataSecret fc generation reuseGuard paddingSize confirmationTag =
    (if SenderType (fc_Sender fc) \<noteq> SenderTypeMember
     then Err ''framing: PrivateMessage requires a member sender''
     else
       bindR (ac_sign std s signer gc (newContent WireFormatPrivateMessage fc confirmationTag)) (\<lambda>ac.
         sealPrivate std s st senderDataSecret fc (ac_Auth ac) generation reuseGuard paddingSize))"

definition AssembleCommitPrivate :: "Std \<Rightarrow> Suite \<Rightarrow> SecretTree \<Rightarrow> bytes \<Rightarrow> FramedContent \<Rightarrow> u32 \<Rightarrow>
  bytes \<Rightarrow> int \<Rightarrow> bytes \<Rightarrow> bytes \<Rightarrow> PrivateMessage res" where
  "AssembleCommitPrivate std s st senderDataSecret fc generation reuseGuard paddingSize signature confTag =
    (if SenderType (fc_Sender fc) \<noteq> SenderTypeMember
     then Err ''framing: AssembleCommitPrivate requires a member sender''
     else sealPrivate std s st senderDataSecret fc
       \<lparr>auth_Signature = signature, auth_ConfirmationTag = confTag\<rparr> generation reuseGuard paddingSize)"

definition UnprotectPrivate :: "Std \<Rightarrow> Suite \<Rightarrow> (u32 \<Rightarrow> bytes res) \<Rightarrow> GroupContext option \<Rightarrow> SecretTree \<Rightarrow>
  bytes \<Rightarrow> PrivateMessage \<Rightarrow> AuthenticatedContent res" where
  "UnprotectPrivate std s signaturePub gc st senderDataSecret m =
    bindR (SenderDataKeyNonce std s senderDataSecret (prv_Ciphertext m)) (\<lambda>(sdKey, sdNonce).
    bindR (senderDataAAD (prv_GroupID m) (prv_Epoch m) (prv_ContentType m)) (\<lambda>sdAAD.
    bindR (Open std s sdKey sdNonce sdAAD (EncryptedSenderData m)) (\<lambda>sdPlain.
    bindR (decodeSenderData sdPlain) (\<lambda>(sd, sdc).
    if sdc \<noteq> [] then Err ''framing: trailing bytes after SenderData''
    else
      bindR (KeyNonce std st (sd_LeafIndex sd) (ratchetTypeFor (prv_ContentType m)) (sd_Generation sd)) (\<lambda>(key, nonce).
      bindR (privateContentAAD (prv_GroupID m) (prv_Epoch m) (prv_ContentType m) (prv_AuthenticatedData m)) (\<lambda>contentAAD.
      bindR (applyReuseGuard nonce (ReuseGuard sd)) (\<lambda>guarded.
      bindR (Open std s key guarded contentAAD (prv_Ciphertext m)) (\<lambda>pt.
      bindR (decodePrivateMessageContent pt (prv_ContentType m)) (\<lambda>(content, auth).
      let fc = \<lparr>fc_GroupID = prv_GroupID m, fc_Epoch = prv_Epoch m,
            fc_Sender = \<lparr>SenderType = SenderTypeMember, snd_LeafIndex = sd_LeafIndex sd, snd_Index = 0\<rparr>,
            fc_AuthenticatedData = prv_AuthenticatedData m, fc_ContentType = prv_ContentType m,
            fc_Content = content\<rparr>;
          ac = \<lparr>ac_WireFormat = WireFormatPrivateMessage, ac_Content = fc, ac_Auth = auth\<rparr> in
      bindR (signaturePub (sd_LeafIndex sd)) (\<lambda>pub.
      if \<not> ac_verify std s pub gc ac then Err ''framing: signature verification failed''
      else Ok ac))))))))))"

section \<open>The envelope\<close>

record MLSMessage =
  msg_Version :: u16
  msg_WireFormat :: u16
  msg_Public :: "PublicMessage option"
  msg_Private :: "PrivateMessage option"

text \<open>The zero value, into which callers decode.\<close>

definition noMessage :: MLSMessage where
  "noMessage = \<lparr>msg_Version = 0, msg_WireFormat = 0, msg_Public = None, msg_Private = None\<rparr>"

definition MLSMessage_MarshalMLS :: "MLSMessage \<Rightarrow> bytes res" where
  "MLSMessage_MarshalMLS m =
    bindR (WriteUint16 (msg_Version m) NewBuilder) (\<lambda>b.
    bindR (WriteUint16 (msg_WireFormat m) b) (\<lambda>b.
    if msg_WireFormat m = WireFormatPublicMessage then
      bindR (fromOption (Error ''framing: MLSMessage public body missing'') (msg_Public m)) (\<lambda>p.
        PublicMessage_marshal p b)
    else if msg_WireFormat m = WireFormatPrivateMessage then
      bindR (fromOption (Error ''framing: MLSMessage private body missing'') (msg_Private m)) (\<lambda>p.
        PrivateMessage_marshal p b)
    else Err ''framing: unsupported wire format''))"

text \<open>Decoding into a message \<open>m\<close>: the body of the other wire format keeps what \<open>m\<close> had.\<close>

definition MLSMessage_UnmarshalMLS :: "MLSMessage \<Rightarrow> bytes \<Rightarrow> MLSMessage res" where
  "MLSMessage_UnmarshalMLS m data =
    bindR (ReadUint16 data) (\<lambda>(v, c).
    bindR (ReadUint16 c) (\<lambda>(wfmt, c).
    let m = m\<lparr>msg_Version := v, msg_WireFormat := wfmt\<rparr> in
    bindR
      (if wfmt = WireFormatPublicMessage then
         bindR (decodePublicMessage c) (\<lambda>(pm, c). Ok (m\<lparr>msg_Public := Some pm\<rparr>, c))
       else if wfmt = WireFormatPrivateMessage then
         bindR (decodePrivateMessage c) (\<lambda>(pm, c). Ok (m\<lparr>msg_Private := Some pm\<rparr>, c))
       else Err ''framing: unsupported wire format'') (\<lambda>(m, c).
    if c \<noteq> [] then Err ''framing: trailing bytes after MLSMessage'' else Ok m)))"

end
