(* ===== verification/GroupWire.thy ===== *)
theory GroupWire
  imports Framing TreeKEM
begin

text \<open>
  The protocol objects of \<^verbatim>\<open>src/mls/group\<close> and their encodings: key packages
  (\<^verbatim>\<open>keypackage.go\<close>), proposals (\<^verbatim>\<open>proposal.go\<close>), commits (\<^verbatim>\<open>commit.go\<close>), group information
  (\<^verbatim>\<open>groupinfo.go\<close>), welcome messages and the envelopes around them (\<^verbatim>\<open>welcome.go\<close>).  A struct
  with one field (\<^verbatim>\<open>Add\<close>, \<^verbatim>\<open>Update\<close>, \<^verbatim>\<open>Remove\<close>, \<^verbatim>\<open>PreSharedKey\<close>, \<^verbatim>\<open>ExternalInit\<close>,
  \<^verbatim>\<open>GroupContextExtensions\<close>, \<^verbatim>\<open>PathSecret\<close>) is that field; a pointer to a body is an option.
\<close>

section \<open>Inline structures and envelopes\<close>

context codec
begin

text \<open>Serialising a structure on its own and writing the result raw is writing it inline.\<close>

lemma inline: "bindR (enc x NewBuilder) (\<lambda>out. WriteRaw out b) = enc x b"
  using frame [of x] by (auto simp: framed_def emits_def NewBuilder_def WriteRaw_def)

end

abbreviation wireVersion :: u16 where "wireVersion \<equiv> 1"

definition decodeEnvelopeHeader :: "u16 \<Rightarrow> cursor \<Rightarrow> cursor res" where
  "decodeEnvelopeHeader expectedWireFormat c =
    bindR (ReadUint16 c) (\<lambda>(ver, c).
    if ver \<noteq> wireVersion then Err ''group: MLSMessage version''
    else
      bindR (ReadUint16 c) (\<lambda>(wfmt, c).
      if wfmt \<noteq> expectedWireFormat then Err ''group: MLSMessage wire_format'' else Ok c))"

definition writeEnvelopeHeader :: "u16 \<Rightarrow> builder \<Rightarrow> builder res" where
  "writeEnvelopeHeader wireFormat b =
    bindR (WriteUint16 wireVersion b) (\<lambda>b. WriteUint16 wireFormat b)"

lemma decodeEnvelopeHeader_iff:
  "decodeEnvelopeHeader wfmt c = Ok c' \<longleftrightarrow> c = be16 wireVersion @ be16 wfmt @ c'"
  by (auto simp: decodeEnvelopeHeader_def res_simps codec_iff write_fun reads_Ok_iff)

context codec
begin

lemma envelope_iff:
  "bindR (decodeEnvelopeHeader wfmt data) (\<lambda>c. bindR (dec c) (\<lambda>(v, c). if c \<noteq> [] then Err m else Ok v)) = Ok x
    \<longleftrightarrow> wf x \<and> bindR (writeEnvelopeHeader wfmt NewBuilder) (enc x) = Ok data"
proof -
  have "bindR (writeEnvelopeHeader wfmt NewBuilder) (enc x) = Ok data \<longleftrightarrow>
      (\<exists>out. emits (enc x) out \<and> data = be16 wireVersion @ be16 wfmt @ out)"
    using frame [of x] by (auto simp: writeEnvelopeHeader_def write_fun NewBuilder_def framed_def emits_def)
  then show ?thesis
    by (auto simp: bindR_Inr_iff decodeEnvelopeHeader_iff decode_iff reads_def)
qed

end

section \<open>Key packages\<close>

record KeyPackage =
  kp_Version :: u16
  kp_CipherSuite :: u16
  InitKey :: bytes
  kp_LeafNode :: LeafNode
  kp_Extensions :: "Extension list"
  kp_Signature :: bytes

definition KeyPackage_marshalTBS :: "KeyPackage \<Rightarrow> builder \<Rightarrow> builder res" where
  "KeyPackage_marshalTBS kp b =
    bindR (WriteUint16 (kp_Version kp) b) (\<lambda>b.
    bindR (WriteUint16 (kp_CipherSuite kp) b) (\<lambda>b.
    bindR (Builder_WriteOpaqueV (InitKey kp) b) (\<lambda>b.
    bindR (bindR (LeafNode_MarshalMLS (kp_LeafNode kp)) (\<lambda>lnb. WriteRaw lnb b)) (\<lambda>b.
    WriteVectorV Extension_marshal (kp_Extensions kp) b))))"

definition KeyPackage_marshal :: "KeyPackage \<Rightarrow> builder \<Rightarrow> builder res" where
  "KeyPackage_marshal kp b =
    bindR (KeyPackage_marshalTBS kp b) (\<lambda>b. Builder_WriteOpaqueV (kp_Signature kp) b)"

definition decodeKeyPackage :: "cursor \<Rightarrow> (KeyPackage \<times> cursor) res" where
  "decodeKeyPackage c =
    bindR (ReadUint16 c) (\<lambda>(v, c).
    bindR (ReadUint16 c) (\<lambda>(cs, c).
    bindR (Cursor_ReadOpaqueV c) (\<lambda>(ik, c).
    bindR (decodeLeafNode c) (\<lambda>(ln, c).
    bindR (ReadVectorV decodeExtension c) (\<lambda>(exts, c).
    bindR (Cursor_ReadOpaqueV c) (\<lambda>(sig, c).
      Ok (\<lparr>kp_Version = v, kp_CipherSuite = cs, InitKey = ik, kp_LeafNode = ln,
            kp_Extensions = exts, kp_Signature = sig\<rparr>, c)))))))"

definition wfKeyPackage :: "KeyPackage \<Rightarrow> bool" where
  "wfKeyPackage kp \<longleftrightarrow> wfLeafNode (kp_LeafNode kp)"

lemmas kp_tbs = KeyPackage_marshalTBS_def [abs_def] LeafNode_MarshalMLS_def leafnode.inline

lemma kpTBS_frame [framed_intros]: "framed (KeyPackage_marshalTBS kp)"
  unfolding kp_tbs by (intro framed_intros)

lemma kpTBS_nonempty: "emits (KeyPackage_marshalTBS kp) out \<Longrightarrow> out \<noteq> []"
  unfolding kp_tbs
  by (erule emits_head_nonempty [rotated 2]) (intro framed_intros | erule uint16.nonempty)+

interpretation keypackage: codec_elem KeyPackage_marshal decodeKeyPackage wfKeyPackage
proof (rule codec_elemI)
  fix x :: KeyPackage and c c' out
  show "framed (KeyPackage_marshal x)"
    unfolding KeyPackage_marshal_def [abs_def] by (intro framed_intros)
  show "wfKeyPackage x \<and> reads (KeyPackage_marshal x) c c'" if "decodeKeyPackage c = Ok (x, c')"
    using that unfolding KeyPackage_marshal_def [abs_def] decodeKeyPackage_def wfKeyPackage_def kp_tbs
    by (cases x) (auto simp: res_simps codec_iff reads_simps framed_intros variant_simps
        reads_one_point)
  show "decodeKeyPackage c = Ok (x, c')" if "wfKeyPackage x" "reads (KeyPackage_marshal x) c c'"
    using that unfolding KeyPackage_marshal_def [abs_def] decodeKeyPackage_def wfKeyPackage_def kp_tbs
    by (cases x) (auto simp: codec_dec reads_simps framed_intros split: if_splits option.splits)
  show "emits (KeyPackage_marshal x) out \<Longrightarrow> out \<noteq> []"
    unfolding KeyPackage_marshal_def [abs_def]
    by (erule emits_head_nonempty [rotated 2]) (intro framed_intros | erule kpTBS_nonempty)+
qed

declare keypackage.frame [framed_intros] keypackage.decode_iff [codec_iff] keypackage.decodeI [codec_dec]
  keypackage.vec.frame [framed_intros] keypackage.vec.decode_iff [codec_iff] keypackage.vec.decodeI [codec_dec]

definition KeyPackage_MarshalMLS :: "KeyPackage \<Rightarrow> bytes res" where
  "KeyPackage_MarshalMLS kp = KeyPackage_marshal kp NewBuilder"

definition KeyPackage_UnmarshalMLS :: "bytes \<Rightarrow> KeyPackage res" where
  "KeyPackage_UnmarshalMLS data = bindR (decodeKeyPackage data) (\<lambda>(v, c).
     if c \<noteq> [] then Err ''group: trailing bytes after KeyPackage'' else Ok v)"

definition KeyPackage_tbsBytes :: "KeyPackage \<Rightarrow> bytes res" where
  "KeyPackage_tbsBytes kp = KeyPackage_marshalTBS kp NewBuilder"

definition KeyPackage_VerifySignature :: "Std \<Rightarrow> Suite \<Rightarrow> KeyPackage \<Rightarrow> bool res" where
  "KeyPackage_VerifySignature std s kp =
    bindR (KeyPackage_tbsBytes kp) (\<lambda>tbs.
      Ok (VerifyWithLabel std s (SignatureKey (kp_LeafNode kp)) ''KeyPackageTBS'' tbs (kp_Signature kp)))"

definition KeyPackage_Ref :: "Std \<Rightarrow> Suite \<Rightarrow> KeyPackage \<Rightarrow> bytes res" where
  "KeyPackage_Ref std s kp =
    bindR (KeyPackage_MarshalMLS kp) (\<lambda>raw. RefHash std s ''MLS 1.0 KeyPackage Reference'' raw)"

definition defaultCapabilities :: "Suite \<Rightarrow> Capabilities" where
  "defaultCapabilities s = \<lparr>Versions = [ProtocolVersionMLS10], CipherSuites = [ID s],
     caps_Extensions = [], Proposals = [], Credentials = [CredentialTypeBasic]\<rparr>"

text \<open>The randomness of the init key and of the leaf key are \<open>rnd1\<close> and \<open>rnd2\<close>; the result is the
  package, the init private key and the leaf private key.\<close>

definition NewKeyPackage :: "Std \<Rightarrow> bytes \<Rightarrow> bytes \<Rightarrow> Suite \<Rightarrow> Credential \<Rightarrow> Signer \<Rightarrow> Lifetime \<Rightarrow>
  (KeyPackage \<times> bytes \<times> bytes) res" where
  "NewKeyPackage std rnd1 rnd2 s cred signer lifetime =
    bindR (GenerateHPKEKeyPair std s rnd1) (\<lambda>(initPriv, initPub).
    bindR (GenerateHPKEKeyPair std s rnd2) (\<lambda>(leafPriv, leafPub).
    bindR (SignaturePublicKey s signer) (\<lambda>sigPub.
    bindR (SignLeafNode std s signer
      \<lparr>leaf_EncryptionKey = leafPub, SignatureKey = sigPub, leaf_Credential = cred,
       leaf_Capabilities = defaultCapabilities s, LeafNodeSource = LeafNodeSourceKeyPackage,
       leaf_Lifetime = Some lifetime, leaf_ParentHash = [], leaf_Extensions = [],
       leaf_Signature = []\<rparr> [] 0) (\<lambda>ln.
    let kp = \<lparr>kp_Version = ProtocolVersionMLS10, kp_CipherSuite = ID s, InitKey = initPub,
              kp_LeafNode = ln, kp_Extensions = [], kp_Signature = []\<rparr> in
    bindR (KeyPackage_tbsBytes kp) (\<lambda>tbs.
    bindR (SignWithLabel std s signer ''KeyPackageTBS'' tbs) (\<lambda>sig.
      Ok (kp\<lparr>kp_Signature := sig\<rparr>, initPriv, leafPriv)))))))"

section \<open>Proposals\<close>

abbreviation ProposalTypeAdd :: u16 where "ProposalTypeAdd \<equiv> 1"
abbreviation ProposalTypeUpdate :: u16 where "ProposalTypeUpdate \<equiv> 2"
abbreviation ProposalTypeRemove :: u16 where "ProposalTypeRemove \<equiv> 3"
abbreviation ProposalTypePreSharedKey :: u16 where "ProposalTypePreSharedKey \<equiv> 4"
abbreviation ProposalTypeReInit :: u16 where "ProposalTypeReInit \<equiv> 5"
abbreviation ProposalTypeExternalInit :: u16 where "ProposalTypeExternalInit \<equiv> 6"
abbreviation ProposalTypeGroupContextExtensions :: u16 where "ProposalTypeGroupContextExtensions \<equiv> 7"

record ReInit =
  ri_GroupID :: bytes
  ri_Version :: u16
  ri_CipherSuite :: u16
  ri_Extensions :: "Extension list"

record Proposal =
  ProposalType :: u16
  p_Add :: "KeyPackage option"
  p_Update :: "LeafNode option"
  p_Remove :: "u32 option"
  p_PreSharedKey :: "PreSharedKeyID option"
  p_ReInit :: "ReInit option"
  p_ExternalInit :: "bytes option"
  p_GroupContextExtensions :: "Extension list option"

text \<open>A proposal with its type set and no body.\<close>

definition emptyProposal :: "u16 \<Rightarrow> Proposal" where
  "emptyProposal t = \<lparr>ProposalType = t, p_Add = None, p_Update = None, p_Remove = None,
     p_PreSharedKey = None, p_ReInit = None, p_ExternalInit = None, p_GroupContextExtensions = None\<rparr>"

definition Proposal_marshal :: "Proposal \<Rightarrow> builder \<Rightarrow> builder res" where
  "Proposal_marshal p b =
    bindR (WriteUint16 (ProposalType p) b) (\<lambda>b.
    if ProposalType p = ProposalTypeAdd then
      bindR (fromOption (Error ''group: Proposal.Add is nil'') (p_Add p)) (\<lambda>kp. KeyPackage_marshal kp b)
    else if ProposalType p = ProposalTypeUpdate then
      bindR (fromOption (Error ''group: Proposal.Update is nil'') (p_Update p)) (\<lambda>ln.
        bindR (LeafNode_MarshalMLS ln) (\<lambda>lnb. WriteRaw lnb b))
    else if ProposalType p = ProposalTypeRemove then
      bindR (fromOption (Error ''group: Proposal.Remove is nil'') (p_Remove p)) (\<lambda>i. WriteUint32 i b)
    else if ProposalType p = ProposalTypePreSharedKey then
      bindR (fromOption (Error ''group: Proposal.PreSharedKey is nil'') (p_PreSharedKey p)) (\<lambda>i.
        PreSharedKeyID_marshal i b)
    else if ProposalType p = ProposalTypeReInit then
      bindR (fromOption (Error ''group: Proposal.ReInit is nil'') (p_ReInit p)) (\<lambda>r.
        bindR (Builder_WriteOpaqueV (ri_GroupID r) b) (\<lambda>b.
        bindR (WriteUint16 (ri_Version r) b) (\<lambda>b.
        bindR (WriteUint16 (ri_CipherSuite r) b) (\<lambda>b.
        WriteVectorV Extension_marshal (ri_Extensions r) b))))
    else if ProposalType p = ProposalTypeExternalInit then
      bindR (fromOption (Error ''group: Proposal.ExternalInit is nil'') (p_ExternalInit p)) (\<lambda>k.
        Builder_WriteOpaqueV k b)
    else if ProposalType p = ProposalTypeGroupContextExtensions then
      bindR (fromOption (Error ''group: Proposal.GroupContextExtensions is nil'')
        (p_GroupContextExtensions p)) (\<lambda>e. WriteVectorV Extension_marshal e b)
    else Err ''group: unknown proposal type'')"

definition decodeProposal :: "cursor \<Rightarrow> (Proposal \<times> cursor) res" where
  "decodeProposal c =
    bindR (ReadUint16 c) (\<lambda>(pt, c).
    let p = emptyProposal pt in
    if pt = ProposalTypeAdd then
      bindR (decodeKeyPackage c) (\<lambda>(kp, c). Ok (p\<lparr>p_Add := Some kp\<rparr>, c))
    else if pt = ProposalTypeUpdate then
      bindR (decodeLeafNode c) (\<lambda>(ln, c). Ok (p\<lparr>p_Update := Some ln\<rparr>, c))
    else if pt = ProposalTypeRemove then
      bindR (ReadUint32 c) (\<lambda>(i, c). Ok (p\<lparr>p_Remove := Some i\<rparr>, c))
    else if pt = ProposalTypePreSharedKey then
      bindR (decodePreSharedKeyID c) (\<lambda>(i, c). Ok (p\<lparr>p_PreSharedKey := Some i\<rparr>, c))
    else if pt = ProposalTypeReInit then
      bindR (Cursor_ReadOpaqueV c) (\<lambda>(gid, c).
      bindR (ReadUint16 c) (\<lambda>(v, c).
      bindR (ReadUint16 c) (\<lambda>(cs, c).
      bindR (ReadVectorV decodeExtension c) (\<lambda>(exts, c).
        Ok (p\<lparr>p_ReInit := Some \<lparr>ri_GroupID = gid, ri_Version = v, ri_CipherSuite = cs,
              ri_Extensions = exts\<rparr>\<rparr>, c)))))
    else if pt = ProposalTypeExternalInit then
      bindR (Cursor_ReadOpaqueV c) (\<lambda>(k, c). Ok (p\<lparr>p_ExternalInit := Some k\<rparr>, c))
    else if pt = ProposalTypeGroupContextExtensions then
      bindR (ReadVectorV decodeExtension c) (\<lambda>(exts, c). Ok (p\<lparr>p_GroupContextExtensions := Some exts\<rparr>, c))
    else Err ''group: unknown proposal type'')"

text \<open>Exactly the body of the type is set.\<close>

definition wfProposal :: "Proposal \<Rightarrow> bool" where
  "wfProposal p \<longleftrightarrow>
    (p_Add p \<noteq> None \<longrightarrow> ProposalType p = ProposalTypeAdd) \<and> pred_option wfKeyPackage (p_Add p) \<and>
    (p_Update p \<noteq> None \<longrightarrow> ProposalType p = ProposalTypeUpdate) \<and> pred_option wfLeafNode (p_Update p) \<and>
    (p_Remove p \<noteq> None \<longrightarrow> ProposalType p = ProposalTypeRemove) \<and>
    (p_PreSharedKey p \<noteq> None \<longrightarrow> ProposalType p = ProposalTypePreSharedKey) \<and>
    pred_option wfPreSharedKeyID (p_PreSharedKey p) \<and>
    (p_ReInit p \<noteq> None \<longrightarrow> ProposalType p = ProposalTypeReInit) \<and>
    (p_ExternalInit p \<noteq> None \<longrightarrow> ProposalType p = ProposalTypeExternalInit) \<and>
    (p_GroupContextExtensions p \<noteq> None \<longrightarrow> ProposalType p = ProposalTypeGroupContextExtensions)"

interpretation proposal: codec_elem Proposal_marshal decodeProposal wfProposal
proof (rule codec_elemI)
  fix x :: Proposal and c c' out
  note defs = Proposal_marshal_def [abs_def] decodeProposal_def wfProposal_def LeafNode_MarshalMLS_def
    leafnode.inline emptyProposal_def Let_def
  show "framed (Proposal_marshal x)"
    unfolding defs by (intro framed_intros)
  show "wfProposal x \<and> reads (Proposal_marshal x) c c'" if "decodeProposal c = Ok (x, c')"
    using that unfolding defs
    by (cases x) (auto simp: res_simps codec_iff reads_simps framed_intros reads_one_point)
  show "decodeProposal c = Ok (x, c')" if "wfProposal x" "reads (Proposal_marshal x) c c'"
    using that unfolding defs
    by (cases x) (auto simp: codec_dec reads_simps framed_intros fromOption_Inr_iff split: if_splits)
  show "emits (Proposal_marshal x) out \<Longrightarrow> out \<noteq> []"
    unfolding defs
    by (erule emits_head_nonempty [rotated 2]) (intro framed_intros | erule uint16.nonempty)+
qed

declare proposal.frame [framed_intros] proposal.decode_iff [codec_iff] proposal.decodeI [codec_dec]

definition Proposal_MarshalMLS :: "Proposal \<Rightarrow> bytes res" where
  "Proposal_MarshalMLS p = Proposal_marshal p NewBuilder"

definition Proposal_UnmarshalMLS :: "bytes \<Rightarrow> Proposal res" where
  "Proposal_UnmarshalMLS data = bindR (decodeProposal data) (\<lambda>(v, c).
     if c \<noteq> [] then Err ''group: trailing bytes after Proposal'' else Ok v)"

definition Proposal_Ref :: "Std \<Rightarrow> Suite \<Rightarrow> Proposal \<Rightarrow> bytes res" where
  "Proposal_Ref std s p =
    bindR (Proposal_MarshalMLS p) (\<lambda>raw. RefHash std s ''MLS 1.0 Proposal Reference'' raw)"

abbreviation ProposalOrRefTypeProposal :: byte where "ProposalOrRefTypeProposal \<equiv> 1"
abbreviation ProposalOrRefTypeReference :: byte where "ProposalOrRefTypeReference \<equiv> 2"

record ProposalOrRef =
  por_Type :: byte
  por_Proposal :: "Proposal option"
  por_Reference :: bytes

definition ProposalOrRef_marshal :: "ProposalOrRef \<Rightarrow> builder \<Rightarrow> builder res" where
  "ProposalOrRef_marshal r b =
    bindR (WriteUint8 (por_Type r) b) (\<lambda>b.
    if por_Type r = ProposalOrRefTypeProposal then
      bindR (fromOption (Error ''group: ProposalOrRef.Proposal is nil'') (por_Proposal r)) (\<lambda>p. Proposal_marshal p b)
    else if por_Type r = ProposalOrRefTypeReference then Builder_WriteOpaqueV (por_Reference r) b
    else Err ''group: unknown ProposalOrRefType'')"

definition decodeProposalOrRef :: "cursor \<Rightarrow> (ProposalOrRef \<times> cursor) res" where
  "decodeProposalOrRef c =
    bindR (ReadUint8 c) (\<lambda>(t, c).
    if t = ProposalOrRefTypeProposal then
      bindR (decodeProposal c) (\<lambda>(p, c).
        Ok (\<lparr>por_Type = t, por_Proposal = Some p, por_Reference = []\<rparr>, c))
    else if t = ProposalOrRefTypeReference then
      bindR (Cursor_ReadOpaqueV c) (\<lambda>(r, c).
        Ok (\<lparr>por_Type = t, por_Proposal = None, por_Reference = r\<rparr>, c))
    else Err ''group: unknown ProposalOrRefType'')"

definition wfProposalOrRef :: "ProposalOrRef \<Rightarrow> bool" where
  "wfProposalOrRef r \<longleftrightarrow>
    (por_Type r = ProposalOrRefTypeProposal \<longrightarrow> por_Reference r = [] \<and> pred_option wfProposal (por_Proposal r)) \<and>
    (por_Type r = ProposalOrRefTypeReference \<longrightarrow> por_Proposal r = None)"

interpretation proposalorref: codec_elem ProposalOrRef_marshal decodeProposalOrRef wfProposalOrRef
proof (rule codec_elemI)
  fix x :: ProposalOrRef and c c' out
  show "framed (ProposalOrRef_marshal x)"
    unfolding ProposalOrRef_marshal_def [abs_def] by (intro framed_intros)
  show "wfProposalOrRef x \<and> reads (ProposalOrRef_marshal x) c c'" if "decodeProposalOrRef c = Ok (x, c')"
    using that unfolding ProposalOrRef_marshal_def [abs_def] decodeProposalOrRef_def wfProposalOrRef_def
    by (cases x) (auto simp: res_simps codec_iff reads_simps framed_intros variant_simps
        reads_one_point)
  show "decodeProposalOrRef c = Ok (x, c')" if "wfProposalOrRef x" "reads (ProposalOrRef_marshal x) c c'"
    using that unfolding ProposalOrRef_marshal_def [abs_def] decodeProposalOrRef_def wfProposalOrRef_def
    by (cases x) (auto simp: codec_dec reads_simps framed_intros fromOption_Inr_iff split: if_splits option.splits)
  show "emits (ProposalOrRef_marshal x) out \<Longrightarrow> out \<noteq> []"
    unfolding ProposalOrRef_marshal_def [abs_def]
    by (erule emits_head_nonempty [rotated 2]) (intro framed_intros | erule uint8.nonempty)+
qed

declare proposalorref.frame [framed_intros] proposalorref.decode_iff [codec_iff] proposalorref.decodeI [codec_dec]
  proposalorref.vec.frame [framed_intros] proposalorref.vec.decode_iff [codec_iff] proposalorref.vec.decodeI [codec_dec]

definition ProposalOrRef_MarshalMLS :: "ProposalOrRef \<Rightarrow> bytes res" where
  "ProposalOrRef_MarshalMLS r = ProposalOrRef_marshal r NewBuilder"

definition ProposalOrRef_UnmarshalMLS :: "bytes \<Rightarrow> ProposalOrRef res" where
  "ProposalOrRef_UnmarshalMLS data = bindR (decodeProposalOrRef data) (\<lambda>(v, c).
     if c \<noteq> [] then Err ''group: trailing bytes after ProposalOrRef'' else Ok v)"

section \<open>Commits\<close>

record Commit =
  cm_Proposals :: "ProposalOrRef list"
  cm_Path :: "UpdatePath option"

definition Commit_marshal :: "Commit \<Rightarrow> builder \<Rightarrow> builder res" where
  "Commit_marshal cm b =
    bindR (WriteVectorV ProposalOrRef_marshal (cm_Proposals cm) b) (\<lambda>b.
    case cm_Path cm of
      None \<Rightarrow> WriteUint8 0 b
    | Some path \<Rightarrow>
        bindR (WriteUint8 1 b) (\<lambda>b. bindR (UpdatePath_MarshalMLS path) (\<lambda>up. WriteRaw up b)))"

definition decodeCommit :: "cursor \<Rightarrow> (Commit \<times> cursor) res" where
  "decodeCommit c =
    bindR (ReadVectorV decodeProposalOrRef c) (\<lambda>(ps, c).
    bindR (ReadUint8 c) (\<lambda>(present, c).
    if present = 0 then Ok (\<lparr>cm_Proposals = ps, cm_Path = None\<rparr>, c)
    else if present = 1 then
      bindR (decodeUpdatePath c) (\<lambda>(up, c). Ok (\<lparr>cm_Proposals = ps, cm_Path = Some up\<rparr>, c))
    else Err ''group: invalid optional<UpdatePath> presence''))"

definition wfCommit :: "Commit \<Rightarrow> bool" where
  "wfCommit cm \<longleftrightarrow> list_all wfProposalOrRef (cm_Proposals cm) \<and> pred_option wfUpdatePath (cm_Path cm)"

interpretation commit: codec_elem Commit_marshal decodeCommit wfCommit
proof (rule codec_elemI)
  fix x :: Commit and c c' out
  show "framed (Commit_marshal x)"
    unfolding Commit_marshal_def [abs_def] UpdatePath_MarshalMLS_def updatepath.inline by (intro framed_intros)
  show "wfCommit x \<and> reads (Commit_marshal x) c c'" if "decodeCommit c = Ok (x, c')"
    using that unfolding Commit_marshal_def [abs_def] decodeCommit_def wfCommit_def UpdatePath_MarshalMLS_def updatepath.inline
    by (cases "cm_Path x"; cases x) (auto simp: res_simps codec_iff reads_simps framed_intros variant_simps
        reads_one_point)
  show "decodeCommit c = Ok (x, c')" if "wfCommit x" "reads (Commit_marshal x) c c'"
    using that unfolding Commit_marshal_def [abs_def] decodeCommit_def wfCommit_def UpdatePath_MarshalMLS_def updatepath.inline
    by (cases "cm_Path x"; cases x) (auto simp: codec_dec reads_simps framed_intros split: if_splits option.splits)
  show "emits (Commit_marshal x) out \<Longrightarrow> out \<noteq> []"
    unfolding Commit_marshal_def [abs_def] UpdatePath_MarshalMLS_def updatepath.inline
    by (erule emits_head_nonempty [rotated 2]) (intro framed_intros | erule proposalorref.vector_nonempty)+
qed

declare commit.frame [framed_intros] commit.decode_iff [codec_iff] commit.decodeI [codec_dec]
  commit.vec.frame [framed_intros] commit.vec.decode_iff [codec_iff] commit.vec.decodeI [codec_dec]

definition Commit_MarshalMLS :: "Commit \<Rightarrow> bytes res" where
  "Commit_MarshalMLS cm = Commit_marshal cm NewBuilder"

definition Commit_UnmarshalMLS :: "bytes \<Rightarrow> Commit res" where
  "Commit_UnmarshalMLS data = bindR (decodeCommit data) (\<lambda>(v, c).
     if c \<noteq> [] then Err ''group: trailing bytes after Commit'' else Ok v)"

section \<open>Group information\<close>

abbreviation ExtensionTypeRatchetTree :: u16 where "ExtensionTypeRatchetTree \<equiv> 2"
abbreviation ExtensionTypeExternalPub :: u16 where "ExtensionTypeExternalPub \<equiv> 4"

record GroupInfo =
  gi_GroupContext :: GroupContext
  gi_Extensions :: "Extension list"
  gi_ConfirmationTag :: bytes
  gi_Signer :: u32
  gi_Signature :: bytes

definition GroupInfo_marshalTBS :: "GroupInfo \<Rightarrow> builder \<Rightarrow> builder res" where
  "GroupInfo_marshalTBS gi b =
    bindR (bindR (GroupContext_MarshalMLS (gi_GroupContext gi)) (\<lambda>gcb. WriteRaw gcb b)) (\<lambda>b.
    bindR (WriteVectorV Extension_marshal (gi_Extensions gi) b) (\<lambda>b.
    bindR (Builder_WriteOpaqueV (gi_ConfirmationTag gi) b) (\<lambda>b.
    WriteUint32 (gi_Signer gi) b)))"

definition GroupInfo_marshal :: "GroupInfo \<Rightarrow> builder \<Rightarrow> builder res" where
  "GroupInfo_marshal gi b =
    bindR (GroupInfo_marshalTBS gi b) (\<lambda>b. Builder_WriteOpaqueV (gi_Signature gi) b)"

definition decodeGroupInfo :: "cursor \<Rightarrow> (GroupInfo \<times> cursor) res" where
  "decodeGroupInfo c =
    bindR (decodeGroupContext c) (\<lambda>(gc, c).
    bindR (ReadVectorV decodeExtension c) (\<lambda>(exts, c).
    bindR (Cursor_ReadOpaqueV c) (\<lambda>(tag, c).
    bindR (ReadUint32 c) (\<lambda>(signer, c).
    bindR (Cursor_ReadOpaqueV c) (\<lambda>(sig, c).
      Ok (\<lparr>gi_GroupContext = gc, gi_Extensions = exts, gi_ConfirmationTag = tag,
            gi_Signer = signer, gi_Signature = sig\<rparr>, c))))))"

lemmas gi_tbs = GroupInfo_marshalTBS_def [abs_def] GroupContext_MarshalMLS_def groupcontext.inline

lemma giTBS_frame [framed_intros]: "framed (GroupInfo_marshalTBS gi)"
  unfolding gi_tbs by (intro framed_intros)

lemma giTBS_nonempty: "emits (GroupInfo_marshalTBS gi) out \<Longrightarrow> out \<noteq> []"
  unfolding gi_tbs
  by (erule emits_head_nonempty [rotated 2]) (intro framed_intros | erule groupcontext.nonempty)+

interpretation groupinfo: codec_elem GroupInfo_marshal decodeGroupInfo anyval
proof (rule codec_elemI)
  fix x :: GroupInfo and c c' out
  show "framed (GroupInfo_marshal x)"
    unfolding GroupInfo_marshal_def [abs_def] by (intro framed_intros)
  show "anyval x \<and> reads (GroupInfo_marshal x) c c'" if "decodeGroupInfo c = Ok (x, c')"
    using that unfolding GroupInfo_marshal_def [abs_def] decodeGroupInfo_def gi_tbs
    by (cases x) (auto simp: res_simps codec_iff reads_simps framed_intros variant_simps
        reads_one_point)
  show "decodeGroupInfo c = Ok (x, c')" if "anyval x" "reads (GroupInfo_marshal x) c c'"
    using that unfolding GroupInfo_marshal_def [abs_def] decodeGroupInfo_def gi_tbs
    by (cases x) (auto simp: codec_dec reads_simps framed_intros split: if_splits option.splits)
  show "emits (GroupInfo_marshal x) out \<Longrightarrow> out \<noteq> []"
    unfolding GroupInfo_marshal_def [abs_def]
    by (erule emits_head_nonempty [rotated 2]) (intro framed_intros | erule giTBS_nonempty)+
qed

declare groupinfo.frame [framed_intros] groupinfo.decode_iff [codec_iff] groupinfo.decodeI [codec_dec]
  groupinfo.vec.frame [framed_intros] groupinfo.vec.decode_iff [codec_iff] groupinfo.vec.decodeI [codec_dec]

definition GroupInfo_MarshalMLS :: "GroupInfo \<Rightarrow> bytes res" where
  "GroupInfo_MarshalMLS gi = GroupInfo_marshal gi NewBuilder"

definition GroupInfo_UnmarshalMLS :: "bytes \<Rightarrow> GroupInfo res" where
  "GroupInfo_UnmarshalMLS data = bindR (decodeGroupInfo data) (\<lambda>(v, c).
     if c \<noteq> [] then Err ''group: trailing bytes after GroupInfo'' else Ok v)"

definition GroupInfo_tbsBytes :: "GroupInfo \<Rightarrow> bytes res" where
  "GroupInfo_tbsBytes gi = GroupInfo_marshalTBS gi NewBuilder"

definition GroupInfo_Sign :: "Std \<Rightarrow> Suite \<Rightarrow> Signer \<Rightarrow> GroupInfo \<Rightarrow> GroupInfo res" where
  "GroupInfo_Sign std s signer gi =
    bindR (GroupInfo_tbsBytes gi) (\<lambda>tbs.
    bindR (SignWithLabel std s signer ''GroupInfoTBS'' tbs) (\<lambda>sig. Ok (gi\<lparr>gi_Signature := sig\<rparr>)))"

definition GroupInfo_VerifySignature :: "Std \<Rightarrow> Suite \<Rightarrow> bytes \<Rightarrow> GroupInfo \<Rightarrow> bool res" where
  "GroupInfo_VerifySignature std s signerPub gi =
    bindR (GroupInfo_tbsBytes gi) (\<lambda>tbs.
      Ok (VerifyWithLabel std s signerPub ''GroupInfoTBS'' tbs (gi_Signature gi)))"

text \<open>The first extension of a type.\<close>

primrec extensionData :: "u16 \<Rightarrow> Extension list \<Rightarrow> bytes option" where
  "extensionData t [] = None"
| "extensionData t (e # es) = (if ExtensionType e = t then Some (ExtensionData e) else extensionData t es)"

definition RatchetTreeExtension :: "GroupInfo \<Rightarrow> bytes option" where
  "RatchetTreeExtension gi = extensionData ExtensionTypeRatchetTree (gi_Extensions gi)"

definition ExternalPubExtension :: "GroupInfo \<Rightarrow> bytes option" where
  "ExternalPubExtension gi = extensionData ExtensionTypeExternalPub (gi_Extensions gi)"

section \<open>Welcome messages\<close>

definition PathSecret_marshal :: "bytes \<Rightarrow> builder \<Rightarrow> builder res" where
  "PathSecret_marshal ps b = Builder_WriteOpaqueV ps b"

definition decodePathSecret :: "cursor \<Rightarrow> (bytes \<times> cursor) res" where
  "decodePathSecret c = Cursor_ReadOpaqueV c"

definition PathSecret_MarshalMLS :: "bytes \<Rightarrow> bytes res" where
  "PathSecret_MarshalMLS ps = PathSecret_marshal ps NewBuilder"

definition PathSecret_UnmarshalMLS :: "bytes \<Rightarrow> bytes res" where
  "PathSecret_UnmarshalMLS data = bindR (decodePathSecret data) (\<lambda>(v, c).
     if c \<noteq> [] then Err ''group: trailing bytes after PathSecret'' else Ok v)"

record GroupSecrets =
  gs_JoinerSecret :: bytes
  gs_PathSecret :: "bytes option"
  PSKs :: "PreSharedKeyID list"

definition GroupSecrets_marshal :: "GroupSecrets \<Rightarrow> builder \<Rightarrow> builder res" where
  "GroupSecrets_marshal gs b =
    bindR (Builder_WriteOpaqueV (gs_JoinerSecret gs) b) (\<lambda>b.
    bindR
      (case gs_PathSecret gs of
         None \<Rightarrow> WriteUint8 0 b
       | Some ps \<Rightarrow> bindR (WriteUint8 1 b) (\<lambda>b. PathSecret_marshal ps b)) (\<lambda>b.
    WriteVectorV PreSharedKeyID_marshal (PSKs gs) b))"

definition decodeGroupSecrets :: "cursor \<Rightarrow> (GroupSecrets \<times> cursor) res" where
  "decodeGroupSecrets c =
    bindR (Cursor_ReadOpaqueV c) (\<lambda>(js, c).
    bindR (ReadUint8 c) (\<lambda>(present, c).
    bindR
      (if present = 0 then Ok (None, c)
       else if present = 1 then bindR (decodePathSecret c) (\<lambda>(ps, c). Ok (Some ps, c))
       else Err ''group: invalid optional<PathSecret> presence'') (\<lambda>(ps, c).
    bindR (ReadVectorV decodePreSharedKeyID c) (\<lambda>(psks, c).
      Ok (\<lparr>gs_JoinerSecret = js, gs_PathSecret = ps, PSKs = psks\<rparr>, c)))))"

definition wfGroupSecrets :: "GroupSecrets \<Rightarrow> bool" where
  "wfGroupSecrets gs \<longleftrightarrow> list_all wfPreSharedKeyID (PSKs gs)"

interpretation groupsecrets: codec_elem GroupSecrets_marshal decodeGroupSecrets wfGroupSecrets
proof (rule codec_elemI)
  fix x :: GroupSecrets and c c' out
  show "framed (GroupSecrets_marshal x)"
    unfolding GroupSecrets_marshal_def [abs_def] PathSecret_marshal_def by (intro framed_intros)
  show "wfGroupSecrets x \<and> reads (GroupSecrets_marshal x) c c'" if "decodeGroupSecrets c = Ok (x, c')"
    using that unfolding GroupSecrets_marshal_def [abs_def] decodeGroupSecrets_def wfGroupSecrets_def PathSecret_marshal_def decodePathSecret_def
    by (cases "gs_PathSecret x"; cases x) (auto simp: res_simps codec_iff reads_simps framed_intros variant_simps
        reads_one_point)
  show "decodeGroupSecrets c = Ok (x, c')" if "wfGroupSecrets x" "reads (GroupSecrets_marshal x) c c'"
    using that unfolding GroupSecrets_marshal_def [abs_def] decodeGroupSecrets_def wfGroupSecrets_def PathSecret_marshal_def decodePathSecret_def
    by (cases "gs_PathSecret x"; cases x) (auto simp: codec_dec reads_simps framed_intros split: if_splits option.splits)
  show "emits (GroupSecrets_marshal x) out \<Longrightarrow> out \<noteq> []"
    unfolding GroupSecrets_marshal_def [abs_def] PathSecret_marshal_def
    by (erule emits_head_nonempty [rotated 2]) (intro framed_intros | erule opaque.nonempty)+
qed

declare groupsecrets.frame [framed_intros] groupsecrets.decode_iff [codec_iff] groupsecrets.decodeI [codec_dec]
  groupsecrets.vec.frame [framed_intros] groupsecrets.vec.decode_iff [codec_iff] groupsecrets.vec.decodeI [codec_dec]

definition GroupSecrets_MarshalMLS :: "GroupSecrets \<Rightarrow> bytes res" where
  "GroupSecrets_MarshalMLS gs = GroupSecrets_marshal gs NewBuilder"

definition GroupSecrets_UnmarshalMLS :: "bytes \<Rightarrow> GroupSecrets res" where
  "GroupSecrets_UnmarshalMLS data = bindR (decodeGroupSecrets data) (\<lambda>(v, c).
     if c \<noteq> [] then Err ''group: trailing bytes after GroupSecrets'' else Ok v)"

record EncryptedGroupSecrets =
  NewMember :: bytes
  egs_Ciphertext :: HPKECiphertext

definition EncryptedGroupSecrets_marshal :: "EncryptedGroupSecrets \<Rightarrow> builder \<Rightarrow> builder res" where
  "EncryptedGroupSecrets_marshal e b =
    bindR (Builder_WriteOpaqueV (NewMember e) b) (\<lambda>b. HPKECiphertext_marshal (egs_Ciphertext e) b)"

definition decodeEncryptedGroupSecrets :: "cursor \<Rightarrow> (EncryptedGroupSecrets \<times> cursor) res" where
  "decodeEncryptedGroupSecrets c =
    bindR (Cursor_ReadOpaqueV c) (\<lambda>(nm, c).
    bindR (decodeHPKECiphertext c) (\<lambda>(ct, c). Ok (\<lparr>NewMember = nm, egs_Ciphertext = ct\<rparr>, c)))"

interpretation encryptedgroupsecrets: codec_elem EncryptedGroupSecrets_marshal decodeEncryptedGroupSecrets anyval
proof (rule codec_elemI)
  fix x :: EncryptedGroupSecrets and c c' out
  show "framed (EncryptedGroupSecrets_marshal x)"
    unfolding EncryptedGroupSecrets_marshal_def [abs_def] by (intro framed_intros)
  show "anyval x \<and> reads (EncryptedGroupSecrets_marshal x) c c'" if "decodeEncryptedGroupSecrets c = Ok (x, c')"
    using that unfolding EncryptedGroupSecrets_marshal_def [abs_def] decodeEncryptedGroupSecrets_def
    by (cases x) (auto simp: res_simps codec_iff reads_simps framed_intros variant_simps
        reads_one_point)
  show "decodeEncryptedGroupSecrets c = Ok (x, c')" if "anyval x" "reads (EncryptedGroupSecrets_marshal x) c c'"
    using that unfolding EncryptedGroupSecrets_marshal_def [abs_def] decodeEncryptedGroupSecrets_def
    by (cases x) (auto simp: codec_dec reads_simps framed_intros split: if_splits option.splits)
  show "emits (EncryptedGroupSecrets_marshal x) out \<Longrightarrow> out \<noteq> []"
    unfolding EncryptedGroupSecrets_marshal_def [abs_def]
    by (erule emits_head_nonempty [rotated 2]) (intro framed_intros | erule opaque.nonempty)+
qed

declare encryptedgroupsecrets.frame [framed_intros] encryptedgroupsecrets.decode_iff [codec_iff] encryptedgroupsecrets.decodeI [codec_dec]
  encryptedgroupsecrets.vec.frame [framed_intros] encryptedgroupsecrets.vec.decode_iff [codec_iff] encryptedgroupsecrets.vec.decodeI [codec_dec]

definition EncryptedGroupSecrets_MarshalMLS :: "EncryptedGroupSecrets \<Rightarrow> bytes res" where
  "EncryptedGroupSecrets_MarshalMLS e = EncryptedGroupSecrets_marshal e NewBuilder"

definition EncryptedGroupSecrets_UnmarshalMLS :: "bytes \<Rightarrow> EncryptedGroupSecrets res" where
  "EncryptedGroupSecrets_UnmarshalMLS data = bindR (decodeEncryptedGroupSecrets data) (\<lambda>(v, c).
     if c \<noteq> [] then Err ''group: trailing bytes after EncryptedGroupSecrets'' else Ok v)"

record Welcome =
  w_CipherSuite :: u16
  Secrets :: "EncryptedGroupSecrets list"
  EncryptedGroupInfo :: bytes

definition Welcome_marshal :: "Welcome \<Rightarrow> builder \<Rightarrow> builder res" where
  "Welcome_marshal w b =
    bindR (WriteUint16 (w_CipherSuite w) b) (\<lambda>b.
    bindR (WriteVectorV EncryptedGroupSecrets_marshal (Secrets w) b) (\<lambda>b.
    Builder_WriteOpaqueV (EncryptedGroupInfo w) b))"

definition decodeWelcome :: "cursor \<Rightarrow> (Welcome \<times> cursor) res" where
  "decodeWelcome c =
    bindR (ReadUint16 c) (\<lambda>(cs, c).
    bindR (ReadVectorV decodeEncryptedGroupSecrets c) (\<lambda>(ss, c).
    bindR (Cursor_ReadOpaqueV c) (\<lambda>(egi, c).
      Ok (\<lparr>w_CipherSuite = cs, Secrets = ss, EncryptedGroupInfo = egi\<rparr>, c))))"

interpretation welcomemsg: codec_elem Welcome_marshal decodeWelcome anyval
proof (rule codec_elemI)
  fix x :: Welcome and c c' out
  show "framed (Welcome_marshal x)"
    unfolding Welcome_marshal_def [abs_def] by (intro framed_intros)
  show "anyval x \<and> reads (Welcome_marshal x) c c'" if "decodeWelcome c = Ok (x, c')"
    using that unfolding Welcome_marshal_def [abs_def] decodeWelcome_def
    by (cases x) (auto simp: res_simps codec_iff reads_simps framed_intros variant_simps
        reads_one_point)
  show "decodeWelcome c = Ok (x, c')" if "anyval x" "reads (Welcome_marshal x) c c'"
    using that unfolding Welcome_marshal_def [abs_def] decodeWelcome_def
    by (cases x) (auto simp: codec_dec reads_simps framed_intros split: if_splits option.splits)
  show "emits (Welcome_marshal x) out \<Longrightarrow> out \<noteq> []"
    unfolding Welcome_marshal_def [abs_def]
    by (erule emits_head_nonempty [rotated 2]) (intro framed_intros | erule uint16.nonempty)+
qed

declare welcomemsg.frame [framed_intros] welcomemsg.decode_iff [codec_iff] welcomemsg.decodeI [codec_dec]
  welcomemsg.vec.frame [framed_intros] welcomemsg.vec.decode_iff [codec_iff] welcomemsg.vec.decodeI [codec_dec]

definition Welcome_MarshalMLS :: "Welcome \<Rightarrow> bytes res" where
  "Welcome_MarshalMLS w = Welcome_marshal w NewBuilder"

definition Welcome_UnmarshalMLS :: "bytes \<Rightarrow> Welcome res" where
  "Welcome_UnmarshalMLS data = bindR (decodeWelcome data) (\<lambda>(v, c).
     if c \<noteq> [] then Err ''group: trailing bytes after Welcome'' else Ok v)"

section \<open>Envelopes\<close>

definition EncodeWelcomeMessage :: "Welcome \<Rightarrow> bytes res" where
  "EncodeWelcomeMessage w = bindR (writeEnvelopeHeader WireFormatWelcome NewBuilder) (\<lambda>b. Welcome_marshal w b)"

definition DecodeWelcomeMessage :: "bytes \<Rightarrow> Welcome res" where
  "DecodeWelcomeMessage data =
    bindR (decodeEnvelopeHeader WireFormatWelcome data) (\<lambda>c.
    bindR (decodeWelcome c) (\<lambda>(w, c).
      if c \<noteq> [] then Err ''group: trailing bytes after Welcome envelope body'' else Ok w))"

definition EncodeGroupInfoMessage :: "GroupInfo \<Rightarrow> bytes res" where
  "EncodeGroupInfoMessage gi = bindR (writeEnvelopeHeader WireFormatGroupInfo NewBuilder) (\<lambda>b. GroupInfo_marshal gi b)"

definition DecodeGroupInfoMessage :: "bytes \<Rightarrow> GroupInfo res" where
  "DecodeGroupInfoMessage data =
    bindR (decodeEnvelopeHeader WireFormatGroupInfo data) (\<lambda>c.
    bindR (decodeGroupInfo c) (\<lambda>(gi, c).
      if c \<noteq> [] then Err ''group: trailing bytes after GroupInfo envelope body'' else Ok gi))"

definition EncodeKeyPackageMessage :: "KeyPackage \<Rightarrow> bytes res" where
  "EncodeKeyPackageMessage kp = bindR (writeEnvelopeHeader WireFormatKeyPackage NewBuilder) (\<lambda>b. KeyPackage_marshal kp b)"

definition DecodeKeyPackageMessage :: "bytes \<Rightarrow> KeyPackage res" where
  "DecodeKeyPackageMessage data =
    bindR (decodeEnvelopeHeader WireFormatKeyPackage data) (\<lambda>c.
    bindR (decodeKeyPackage c) (\<lambda>(kp, c).
      if c \<noteq> [] then Err ''group: trailing bytes after KeyPackage envelope body'' else Ok kp))"

section \<open>Skimming\<close>

lemma vector_is_opaque: "ReadVectorV dec c = Ok (xs, c') \<Longrightarrow> \<exists>body. Cursor_ReadOpaqueV c = Ok (body, c')"
  by (auto simp: ReadVectorV_def bindR_Inr_iff)

lemma skimKeyPackage_decode: "decodeKeyPackage c = Ok (kp, c') \<Longrightarrow> skimKeyPackage c = Ok c'"
  by (auto simp: decodeKeyPackage_def skimKeyPackage_def bindR_Inr_iff)

lemma skimPreSharedKeyID_decode: "decodePreSharedKeyID c = Ok (p, c') \<Longrightarrow> skimPreSharedKeyID c = Ok c'"
  by (auto simp: decodePreSharedKeyID_def bindR_Inr_iff split: if_splits)
    (simp_all add: skimPreSharedKeyID_def)

lemma skimProposal_decode: "decodeProposal c = Ok (p, c') \<Longrightarrow> skimProposal c = Ok c'"
  by (auto simp: decodeProposal_def bindR_Inr_iff Let_def
      dest!: vector_is_opaque skimKeyPackage_decode skimPreSharedKeyID_decode split: if_splits)
    (simp_all add: skimProposal_def)

lemma skimCommit_decode: "decodeCommit c = Ok (cm, c') \<Longrightarrow> skimCommit c = Ok c'"
  by (auto simp: decodeCommit_def bindR_Inr_iff dest!: vector_is_opaque split: if_splits)
    (simp_all add: skimCommit_def)

lemma commit_content_wf:
  "wfCommit cm \<Longrightarrow> Commit_MarshalMLS cm = Ok body \<Longrightarrow> wfContent ContentTypeCommit body"
  using commit.roundtrip [of cm body "[]"] skimCommit_decode
  by (simp add: Commit_MarshalMLS_def wfContent_def)

section \<open>Properties\<close>

text \<open>the framing layer finds the end of an inline proposal or commit without the decoders of
  the group layer.  Wherever the group layer decodes a proposal or commit, the skimmer stops
  at the same byte, so the content handed up is exactly the encoded structure.
\<close>
theorem skimmers_agree_with_decoders:
  assumes "decodeProposal c = Ok (p, r)" and "decodeCommit d = Ok (cm, r)"
  shows "\<exists>b1 b2. decodeContent ContentTypeProposal c = Ok (b1, r) \<and> c = b1 @ r \<and>
    decodeContent ContentTypeCommit d = Ok (b2, r) \<and> d = b2 @ r"
proof -
  obtain b1 b2 where b: "c = b1 @ r" "d = b2 @ r" "decodeProposal b1 = Ok (p, [])" "decodeCommit b2 = Ok (cm, [])"
    using proposal.encode_decode [OF assms(1)] commit.encode_decode [OF assms(2)]
      proposal.decode_encode [of p _ "[]"] commit.decode_encode [of cm _ "[]"] by auto
  then have "skimProposal b1 = Ok []" "skimCommit b2 = Ok []"
    using skimProposal_decode skimCommit_decode by blast+
  then show ?thesis
    using b by (simp add: decodeContent_def skim_iff [OF skimProposal_local] skim_iff [OF skimCommit_local])
qed

theorem skimmers_agree_with_decoders_witness:
  "\<exists>b1 b2. decodeContent ContentTypeProposal (be16 3 @ be32 7 @ [9]) = Ok (b1, [9]) \<and>
    decodeContent ContentTypeCommit ([0, 0, 9]) = Ok (b2, [9])"
proof -
  have "emits (Proposal_marshal ((emptyProposal 3)\<lparr>p_Remove := Some 7\<rparr>)) (be16 3 @ be32 7)"
    by (simp add: emits_def Proposal_marshal_def emptyProposal_def write_fun)
  then have "decodeProposal ((be16 3 @ be32 7) @ [9]) = Ok ((emptyProposal 3)\<lparr>p_Remove := Some 7\<rparr>, [9])"
    by (intro proposal.decode_encode) (simp_all add: wfProposal_def emptyProposal_def)
  moreover have "emits (Commit_marshal \<lparr>cm_Proposals = [], cm_Path = None\<rparr>) [0, 0]"
    by (simp add: emits_def Commit_marshal_def WriteVectorV_def NewBuilder_def short_strings write_fun)
  then have "decodeCommit ([0, 0] @ [9]) = Ok (\<lparr>cm_Proposals = [], cm_Path = None\<rparr>, [9])"
    by (intro commit.decode_encode) (simp_all add: wfCommit_def)
  ultimately show ?thesis
    using skimmers_agree_with_decoders [of "be16 3 @ be32 7 @ [9]" _ "[9]" "[0, 0, 9]"] by fastforce
qed

text \<open>the decoders of the envelopes for welcome messages, group information and key packages
  accept exactly what the encoders produce, and return the encoded object; for a key
  package the leaf node must be well formed.
\<close>
theorem handshake_envelopes_codec:
  "(DecodeWelcomeMessage d1 = Ok w \<longleftrightarrow> EncodeWelcomeMessage w = Ok d1) \<and>
    (DecodeGroupInfoMessage d2 = Ok gi \<longleftrightarrow> EncodeGroupInfoMessage gi = Ok d2) \<and>
    (DecodeKeyPackageMessage d3 = Ok kp \<longleftrightarrow> wfKeyPackage kp \<and> EncodeKeyPackageMessage kp = Ok d3)"
  unfolding DecodeWelcomeMessage_def EncodeWelcomeMessage_def DecodeGroupInfoMessage_def
    EncodeGroupInfoMessage_def DecodeKeyPackageMessage_def EncodeKeyPackageMessage_def
    welcomemsg.envelope_iff groupinfo.envelope_iff keypackage.envelope_iff
  by simp

text \<open>C40: \<^verbatim>\<open>Commit.UnmarshalMLS\<close> and \<^verbatim>\<open>Proposal.UnmarshalMLS\<close> accept exactly the encodings of
  well-formed commits and proposals and return them.
\<close>
theorem commit_and_proposal_codec:
  "(Commit_UnmarshalMLS d1 = Ok cm \<longleftrightarrow> wfCommit cm \<and> Commit_MarshalMLS cm = Ok d1) \<and>
    (Proposal_UnmarshalMLS d2 = Ok p \<longleftrightarrow> wfProposal p \<and> Proposal_MarshalMLS p = Ok d2)"
  unfolding Commit_UnmarshalMLS_def Commit_MarshalMLS_def Proposal_UnmarshalMLS_def Proposal_MarshalMLS_def
    commit.unmarshal_iff proposal.unmarshal_iff by simp

end
