(* ===== verification/Group.thy ===== *)
theory Group
  imports GroupWire
begin

text \<open>
  A member's view of a group, \<^verbatim>\<open>src/mls/group\<close>: the state record and its accessors
  (\<^verbatim>\<open>group.go\<close>, \<^verbatim>\<open>members.go\<close>), creation (\<^verbatim>\<open>create.go\<close>), proposals (\<^verbatim>\<open>propose.go\<close>), application
  messages (\<^verbatim>\<open>application.go\<close>).  A method that changes the group returns the changed group; one
  that can fail after a change returns its result and the group.  Maps keyed by byte strings
  are partial functions.  Random bytes are arguments.
\<close>

section \<open>State\<close>

record Group =
  g_suite :: Suite
  groupContext :: GroupContext
  g_tree :: RatchetTree
  g_priv :: TreeKEMPrivate
  g_epoch :: EpochSecrets
  secretTree :: SecretTree
  g_interim :: bytes
  g_initSecret :: bytes
  ownLeaf :: u32
  g_signer :: "Signer option"
  externalPSKs :: "bytes \<rightharpoonup> bytes"
  resumptionPSKHistory :: "u64 \<rightharpoonup> bytes"
  appGeneration :: u32
  handshakeGeneration :: u32
  encryptHandshakes :: bool
  pendingUpdates :: "bytes \<rightharpoonup> bytes"

text \<open>Signing with a \<^verbatim>\<open>nil\<close> signer is a nil dereference at the moment of signing.\<close>

definition signerOf_g :: "Group \<Rightarrow> Signer" where
  "signerOf_g g = (case g_signer g of
     Some signer \<Rightarrow> signer
   | None \<Rightarrow> \<lparr>Public = OtherPublic, Sign = (\<lambda>_. Inl PanicNil)\<rparr>)"

definition Epoch :: "Group \<Rightarrow> u64" where
  "Epoch g = gc_Epoch (groupContext g)"

definition Group_EpochAuthenticator :: "Group \<Rightarrow> bytes" where
  "Group_EpochAuthenticator g = EpochAuthenticator (g_epoch g)"

definition SetEncryptHandshakes :: "Group \<Rightarrow> bool \<Rightarrow> Group" where
  "SetEncryptHandshakes g v = g\<lparr>encryptHandshakes := v\<rparr>"

definition sigPubByLeaf :: "Group \<Rightarrow> u32 \<Rightarrow> bytes res" where
  "sigPubByLeaf g leaf = bindR (LeafNodeAt (g_tree g) leaf) (\<lambda>ln. Ok (SignatureKey ln))"

definition Exporter :: "Std \<Rightarrow> Group \<Rightarrow> string \<Rightarrow> bytes \<Rightarrow> int \<Rightarrow> bytes res" where
  "Exporter std g label context len =
    MLSExporter std (g_suite g) (ExporterSecret (g_epoch g)) label context len"

text \<open>\<^verbatim>\<open>LeafNodeAt\<close> fails on a blank leaf only by an error; the loop skips those.\<close>

definition ActiveLeaves :: "Group \<Rightarrow> u32 list" where
  "ActiveLeaves g =
    filter (\<lambda>i. case LeafNodeAt (g_tree g) i of Inr _ \<Rightarrow> True | Inl _ \<Rightarrow> False)
      (map of_nat [0..<unat (leafCount (g_tree g))])"

definition LeafCredential :: "Group \<Rightarrow> u32 \<Rightarrow> (Credential \<times> bytes) res" where
  "LeafCredential g leaf =
    bindR (LeafNodeAt (g_tree g) leaf) (\<lambda>ln. Ok (leaf_Credential ln, SignatureKey ln))"

section \<open>Common ancestors and path secrets\<close>

definition levelOf :: "u32 \<Rightarrow> nat" where
  "levelOf x = (if x AND 1 = 0 then 0 else levelLoop x 0)"

lemma levelOf_level [simp]: "levelOf x = level x"
  by (simp add: levelOf_def level_def)

text \<open>At the root \<^verbatim>\<open>Parent\<close> returns zero, so a loop that has passed the root starts again at leaf 0
  and may run forever.\<close>

partial_function (option) climbTo :: "u32 \<Rightarrow> u32 \<Rightarrow> nat \<Rightarrow> u32 res option" where
  "climbTo n x l =
    (if levelOf x < l then
       (case Parent x n of
          Inl e \<Rightarrow> Some (Inl e)
        | Inr (p, _) \<Rightarrow> climbTo n p l)
     else Some (Ok x))"

partial_function (option) meet :: "u32 \<Rightarrow> u32 \<Rightarrow> u32 \<Rightarrow> u32 res option" where
  "meet n x y =
    (if x \<noteq> y then
       (case Parent x n of
          Inl e \<Rightarrow> Some (Inl e)
        | Inr (x', _) \<Rightarrow>
            (case Parent y n of
               Inl e \<Rightarrow> Some (Inl e)
             | Inr (y', _) \<Rightarrow> meet n x' y'))
     else Some (Ok x))"

fun returning :: "'a res option \<Rightarrow> 'a res" where
  "returning None = Inl NoReturn"
| "returning (Some r) = r"

definition commonAncestor :: "u32 \<Rightarrow> u32 \<Rightarrow> u32 \<Rightarrow> u32 res" where
  "commonAncestor x y nLeaves =
    bindR (returning (climbTo nLeaves x (levelOf y))) (\<lambda>x.
    bindR (returning (climbTo nLeaves y (levelOf x))) (\<lambda>y. returning (meet nLeaves x y)))"

function installFrom :: "Std \<Rightarrow> Suite \<Rightarrow> u32 \<Rightarrow> TreeKEMPrivate \<Rightarrow> u32 \<Rightarrow> bytes \<Rightarrow> TreeKEMPrivate res" where
  "installFrom std s nLeaves priv nd sec =
    bindR (AddPathSecret std s priv nd sec) (\<lambda>priv.
      if nd = Root nLeaves then Ok priv
      else
        bindR (DeriveSecret std s sec ''path'') (\<lambda>sec.
        bindR (Parent nd nLeaves) (\<lambda>(nd, _). installFrom std s nLeaves priv nd sec)))"
  by pat_completeness auto
termination
proof (relation "measure (\<lambda>(std, s, n, priv, nd, sec). 32 - level nd)")
  fix std s n nd y p ok and priv priv' :: TreeKEMPrivate and sec sec' :: bytes
  assume "nd \<noteq> Root n" "Parent nd n = Inr y" "(p, ok) = y"
  then have "level nd < level p" using climb_level by auto
  then show "((std, s, n, priv', p, sec'), std, s, n, priv, nd, sec) \<in>
      measure (\<lambda>(std, s, n, priv, nd, sec). 32 - level nd)"
    using level_le [of p] by simp
qed simp

declare installFrom.simps [simp del]

definition installJoinerPriv ::
  "Std \<Rightarrow> Suite \<Rightarrow> TreeKEMPrivate \<Rightarrow> bytes \<Rightarrow> u32 \<Rightarrow> u32 \<Rightarrow> u32 \<Rightarrow> TreeKEMPrivate res" where
  "installJoinerPriv std s priv pathSecret own senderLeaf nLeaves =
    bindR (commonAncestor (2 * own) (2 * senderLeaf) nLeaves) (\<lambda>nd.
      installFrom std s nLeaves priv nd pathSecret)"

text \<open>\<^verbatim>\<open>AddPathSecret\<close> for every entry of a map.  Go ranges over a map in any order; the entries
  are distinct nodes, so the order shows only in which of several errors is returned.\<close>

definition addPathSecrets ::
  "Std \<Rightarrow> Suite \<Rightarrow> TreeKEMPrivate \<Rightarrow> (u32 \<rightharpoonup> bytes) \<Rightarrow> TreeKEMPrivate res" where
  "addPathSecrets std s priv m =
    foldR (\<lambda>p nd. AddPathSecret std s p nd (the (m nd))) priv (sorted_list_of_set (dom m))"

section \<open>Creation\<close>

definition NewGroup :: "Std \<Rightarrow> bytes \<Rightarrow> bytes \<Rightarrow> Suite \<Rightarrow> bytes \<Rightarrow> Credential \<Rightarrow> Signer \<Rightarrow> Lifetime \<Rightarrow>
  Group res" where
  "NewGroup std rnd1 rnd2 s groupID cred signer lifetime =
    bindR (NewKeyPackage std rnd1 rnd2 s cred signer lifetime) (\<lambda>(kp, _, leafPriv).
    let rt = NewRatchetTree s (kp_LeafNode kp) in
    bindR (RootTreeHash std rt) (\<lambda>treeHash.
    let gc0 = \<lparr>gc_Version = ProtocolVersionMLS10, gc_CipherSuite = ID s, gc_GroupID = groupID,
               gc_Epoch = 0, gc_TreeHash = treeHash, ConfirmedTranscriptHash = [], gc_Extensions = []\<rparr> in
    bindR (GroupContext_MarshalMLS gc0) (\<lambda>gc0Bytes.
    bindR (DeriveEpochSecrets std s (replicate (nat (HashLen s)) 0) None None gc0Bytes) (\<lambda>es0.
    bindR (NewSecretTree std s 1 (EncryptionSecret es0)) (\<lambda>st.
      Ok \<lparr>g_suite = s, groupContext = gc0, g_tree = rt, g_priv = NewTreeKEMPrivate 0 leafPriv,
           g_epoch = es0, secretTree = st, g_interim = [], g_initSecret = InitSecret es0, ownLeaf = 0,
           g_signer = Some signer, externalPSKs = Map.empty,
           resumptionPSKHistory = [0 \<mapsto> ResumptionPSK es0], appGeneration = 0,
           handshakeGeneration = 0, encryptHandshakes = False, pendingUpdates = Map.empty\<rparr>)))))"

section \<open>Application messages\<close>

definition ProtectApplication :: "Std \<Rightarrow> bytes \<Rightarrow> Group \<Rightarrow> bytes \<Rightarrow> bytes \<Rightarrow> bytes res \<times> Group" where
  "ProtectApplication std guard g plaintext authenticatedData =
    (let fc = \<lparr>fc_GroupID = gc_GroupID (groupContext g), fc_Epoch = gc_Epoch (groupContext g),
          fc_Sender = \<lparr>SenderType = SenderTypeMember, snd_LeafIndex = ownLeaf g, snd_Index = 0\<rparr>,
          fc_AuthenticatedData = authenticatedData, fc_ContentType = ContentTypeApplication,
          fc_Content = plaintext\<rparr> in
     case ProtectPrivate std (g_suite g) (signerOf_g g) (Some (groupContext g)) (secretTree g)
         (SenderDataSecret (g_epoch g)) fc (appGeneration g) guard 0 [] of
       Inl e \<Rightarrow> (Inl e, g)
     | Inr pm \<Rightarrow>
         (MLSMessage_MarshalMLS \<lparr>msg_Version = ProtocolVersionMLS10,
            msg_WireFormat = WireFormatPrivateMessage, msg_Public = None, msg_Private = Some pm\<rparr>,
          g\<lparr>appGeneration := appGeneration g + 1\<rparr>))"

definition UnprotectApplication :: "Std \<Rightarrow> Group \<Rightarrow> bytes \<Rightarrow> (bytes \<times> bytes) res" where
  "UnprotectApplication std g msg =
    bindR (MLSMessage_UnmarshalMLS noMessage msg) (\<lambda>m.
    case msg_Private m of
      None \<Rightarrow> Err ''group: not a PrivateMessage''
    | Some pm \<Rightarrow>
        if msg_WireFormat m \<noteq> WireFormatPrivateMessage then Err ''group: not a PrivateMessage''
        else if prv_ContentType pm \<noteq> ContentTypeApplication then Err ''group: not an application message''
        else
          bindR (UnprotectPrivate std (g_suite g) (sigPubByLeaf g) (Some (groupContext g)) (secretTree g)
            (SenderDataSecret (g_epoch g)) pm) (\<lambda>ac.
          Ok (fc_Content (ac_Content ac), fc_AuthenticatedData (ac_Content ac))))"

section \<open>Proposals\<close>

definition ProposeAdd :: "KeyPackage \<Rightarrow> Proposal" where
  "ProposeAdd kp = (emptyProposal ProposalTypeAdd)\<lparr>p_Add := Some kp\<rparr>"

definition ProposeRemove :: "u32 \<Rightarrow> Proposal" where
  "ProposeRemove leaf = (emptyProposal ProposalTypeRemove)\<lparr>p_Remove := Some leaf\<rparr>"

definition ProposeGroupContextExtensions :: "Extension list \<Rightarrow> Proposal" where
  "ProposeGroupContextExtensions ext =
    (emptyProposal ProposalTypeGroupContextExtensions)\<lparr>p_GroupContextExtensions := Some ext\<rparr>"

definition ProposeUpdate :: "Std \<Rightarrow> bytes \<Rightarrow> Group \<Rightarrow> (Proposal \<times> Group) res" where
  "ProposeUpdate std rnd g =
    bindR (GenerateHPKEKeyPair std (g_suite g) rnd) (\<lambda>(leafPriv, leafPub).
    bindR (LeafNodeAt (g_tree g) (ownLeaf g)) (\<lambda>cur.
    bindR (SignLeafNode std (g_suite g) (signerOf_g g)
      (cur\<lparr>leaf_EncryptionKey := leafPub, LeafNodeSource := LeafNodeSourceUpdate,
           leaf_Lifetime := None, leaf_ParentHash := []\<rparr>)
      (gc_GroupID (groupContext g)) (ownLeaf g)) (\<lambda>ln.
      Ok ((emptyProposal ProposalTypeUpdate)\<lparr>p_Update := Some ln\<rparr>,
          g\<lparr>pendingUpdates := (pendingUpdates g)(leafPub \<mapsto> leafPriv)\<rparr>))))"

definition memberContent :: "Group \<Rightarrow> byte \<Rightarrow> bytes \<Rightarrow> FramedContent" where
  "memberContent g ct body =
    \<lparr>fc_GroupID = gc_GroupID (groupContext g), fc_Epoch = gc_Epoch (groupContext g),
     fc_Sender = \<lparr>SenderType = SenderTypeMember, snd_LeafIndex = ownLeaf g, snd_Index = 0\<rparr>,
     fc_AuthenticatedData = [], fc_ContentType = ct, fc_Content = body\<rparr>"

definition FrameProposal :: "Std \<Rightarrow> bytes \<Rightarrow> Group \<Rightarrow> Proposal \<Rightarrow> bytes res \<times> Group" where
  "FrameProposal std guard g p =
    (case Proposal_MarshalMLS p of
       Inl e \<Rightarrow> (Inl e, g)
     | Inr body \<Rightarrow>
         let fc = memberContent g ContentTypeProposal body in
         if encryptHandshakes g then
           (case ProtectPrivate std (g_suite g) (signerOf_g g) (Some (groupContext g)) (secretTree g)
               (SenderDataSecret (g_epoch g)) fc (handshakeGeneration g) guard 0 [] of
              Inl e \<Rightarrow> (Inl e, g)
            | Inr pm \<Rightarrow>
                (MLSMessage_MarshalMLS \<lparr>msg_Version = ProtocolVersionMLS10,
                   msg_WireFormat = WireFormatPrivateMessage, msg_Public = None, msg_Private = Some pm\<rparr>,
                 g\<lparr>handshakeGeneration := handshakeGeneration g + 1\<rparr>))
         else
           (bindR (ProtectPublic std (g_suite g) (signerOf_g g) (Some (groupContext g))
              (MembershipKey (g_epoch g)) fc []) (\<lambda>pm.
            MLSMessage_MarshalMLS \<lparr>msg_Version = ProtocolVersionMLS10,
              msg_WireFormat = WireFormatPublicMessage, msg_Public = Some pm, msg_Private = None\<rparr>), g))"

end
