(* ===== verification/GroupProcess.thy ===== *)
theory GroupProcess
  imports Group
begin

text \<open>
  Receiving commits, \<^verbatim>\<open>src/mls/group/process.go\<close> and \<^verbatim>\<open>external_join.go\<close>: the application of
  proposals in their prescribed order, the authentication of proposals and commits in either
  wire format, and the two ways in which a member moves to the next epoch.
\<close>

section \<open>Applying proposals\<close>

record cachedProposal =
  cp_proposal :: Proposal
  cp_sender :: u32

definition resolveProposal ::
  "(bytes \<rightharpoonup> cachedProposal) \<Rightarrow> u32 \<Rightarrow> ProposalOrRef \<Rightarrow> cachedProposal res" where
  "resolveProposal cache committerLeaf r =
    (if por_Type r = ProposalOrRefTypeProposal then
       bindR (fromOption (Error ''group: applyProposals: by-value ProposalOrRef has nil Proposal'')
         (por_Proposal r)) (\<lambda>p. Ok \<lparr>cp_proposal = p, cp_sender = committerLeaf\<rparr>)
     else if por_Type r = ProposalOrRefTypeReference then
       fromOption (Error ''group: applyProposals: ProposalRef not in cache'') (cache (por_Reference r))
     else Err ''group: applyProposals: unknown ProposalOrRefType'')"

definition ofType :: "u16 \<Rightarrow> cachedProposal list \<Rightarrow> cachedProposal list" where
  "ofType t rs = filter (\<lambda>r. ProposalType (cp_proposal r) = t) rs"

definition applyUpdate :: "RatchetTree \<Rightarrow> cachedProposal \<Rightarrow> RatchetTree res" where
  "applyUpdate wt r =
    bindR (fromOption (Error ''group: applyProposals: Update proposal body is nil'')
      (p_Update (cp_proposal r))) (\<lambda>ln. UpdateLeaf wt (cp_sender r) ln)"

definition applyRemove :: "RatchetTree \<Rightarrow> cachedProposal \<Rightarrow> RatchetTree res" where
  "applyRemove wt r =
    bindR (fromOption (Error ''group: applyProposals: Remove proposal body is nil'')
      (p_Remove (cp_proposal r))) (\<lambda>i. RemoveLeaf wt i)"

text \<open>The tree, the new leaves and their key packages so far.\<close>

definition applyAdd :: "RatchetTree \<times> u32 list \<times> KeyPackage list \<Rightarrow> cachedProposal \<Rightarrow>
  (RatchetTree \<times> u32 list \<times> KeyPackage list) res" where
  "applyAdd st r =
    (let (wt, newlyAdded, addedKPs) = st in
     bindR (fromOption (Error ''group: applyProposals: Add proposal body is nil'')
       (p_Add (cp_proposal r))) (\<lambda>kp.
     bindR (AddLeaf wt (kp_LeafNode kp)) (\<lambda>(li, wt).
       Ok (wt, newlyAdded @ [li], addedKPs @ [kp]))))"

definition applyGCE :: "Extension list \<Rightarrow> cachedProposal \<Rightarrow> Extension list res" where
  "applyGCE ext r =
    fromOption (Error ''group: applyProposals: GCE proposal body is nil'')
      (p_GroupContextExtensions (cp_proposal r))"

definition resolvePSK ::
  "(bytes \<rightharpoonup> bytes) \<Rightarrow> (u64 \<rightharpoonup> bytes) \<Rightarrow> bytes \<Rightarrow> cachedProposal \<Rightarrow> PSK res" where
  "resolvePSK external resumption groupID r =
    bindR (fromOption (Error ''group: applyProposals: PreSharedKey proposal body is nil'')
      (p_PreSharedKey (cp_proposal r))) (\<lambda>i.
    if PSKType i = PSKTypeExternal then
      bindR (fromOption (Error ''group: applyProposals: external PSK not found'') (external (PSKID i))) (\<lambda>b.
        Ok \<lparr>psk_ID = i, psk_PSK = b\<rparr>)
    else if PSKType i = PSKTypeResumption then
      if PSKGroupID i \<noteq> groupID then Err ''group: applyProposals: resumption PSK references foreign group''
      else
        bindR (fromOption (Error ''group: applyProposals: resumption PSK not in history'') (resumption (PSKEpoch i))) (\<lambda>b.
          Ok \<lparr>psk_ID = i, psk_PSK = b\<rparr>)
    else Err ''group: applyProposals: unknown PSKType'')"

record Applied =
  ap_tree :: RatchetTree
  provisionalExt :: "Extension list"
  ap_psks :: "PSK list"
  pathRequired :: bool
  newlyAdded :: "u32 list"
  addedKPs :: "KeyPackage list"

definition applyProposals :: "RatchetTree \<Rightarrow> Commit \<Rightarrow> (bytes \<rightharpoonup> cachedProposal) \<Rightarrow> Extension list \<Rightarrow>
  (bytes \<rightharpoonup> bytes) \<Rightarrow> (u64 \<rightharpoonup> bytes) \<Rightarrow> bytes \<Rightarrow> u32 \<Rightarrow> Applied res" where
  "applyProposals wt cm cache currentExt external resumption groupID committerLeaf =
    bindR (mapR (resolveProposal cache committerLeaf) (cm_Proposals cm)) (\<lambda>rs.
    bindR (foldR applyUpdate wt (ofType ProposalTypeUpdate rs)) (\<lambda>wt.
    bindR (foldR applyRemove wt (ofType ProposalTypeRemove rs)) (\<lambda>wt.
    bindR (foldR applyAdd (wt, [], []) (ofType ProposalTypeAdd rs)) (\<lambda>(wt, newly, kps).
    bindR (foldR applyGCE currentExt (ofType ProposalTypeGroupContextExtensions rs)) (\<lambda>ext.
    bindR (mapR (resolvePSK external resumption groupID) (ofType ProposalTypePreSharedKey rs)) (\<lambda>psks.
      Ok \<lparr>ap_tree = wt, provisionalExt = ext, ap_psks = psks,
           pathRequired = list_ex (\<lambda>r. ProposalType (cp_proposal r) \<in>
             {ProposalTypeUpdate, ProposalTypeRemove, ProposalTypeAdd}) rs,
           newlyAdded = newly, addedKPs = kps\<rparr>))))))"

section \<open>Authentication\<close>

primrec resolveOwnUpdatePriv ::
  "Group \<Rightarrow> (bytes \<rightharpoonup> cachedProposal) \<Rightarrow> u32 \<Rightarrow> ProposalOrRef list \<Rightarrow> bytes option res" where
  "resolveOwnUpdatePriv g cache committerLeaf [] = Ok None"
| "resolveOwnUpdatePriv g cache committerLeaf (r # rs) =
    (case resolveProposal cache committerLeaf r of
       Inl _ \<Rightarrow> resolveOwnUpdatePriv g cache committerLeaf rs
     | Inr cp \<Rightarrow>
         (case p_Update (cp_proposal cp) of
            None \<Rightarrow> resolveOwnUpdatePriv g cache committerLeaf rs
          | Some ln \<Rightarrow>
              if ProposalType (cp_proposal cp) \<noteq> ProposalTypeUpdate \<or> cp_sender cp \<noteq> ownLeaf g
              then resolveOwnUpdatePriv g cache committerLeaf rs
              else
                bindR (fromOption (Error ''own Update committed but no pending leaf key tracked'')
                  (pendingUpdates g (leaf_EncryptionKey ln))) (\<lambda>priv. Ok (Some priv))))"

text \<open>The authenticated content of a member's message in either wire format.\<close>

definition authenticateCommit :: "Std \<Rightarrow> Group \<Rightarrow> MLSMessage \<Rightarrow> AuthenticatedContent res" where
  "authenticateCommit std g m =
    (if msg_WireFormat m = WireFormatPublicMessage \<and> msg_Public m \<noteq> None then
       let p = the (msg_Public m) in
       bindR (LeafNodeAt (g_tree g) (snd_LeafIndex (fc_Sender (pub_Content p)))) (\<lambda>ln.
         UnprotectPublic std (g_suite g) (SignatureKey ln) (Some (groupContext g))
           (MembershipKey (g_epoch g)) p)
     else if msg_WireFormat m = WireFormatPrivateMessage \<and> msg_Private m \<noteq> None then
       bindR (UnprotectPrivate std (g_suite g) (sigPubByLeaf g) (Some (groupContext g)) (secretTree g)
         (SenderDataSecret (g_epoch g)) (the (msg_Private m))) (\<lambda>ac.
         if SenderType (fc_Sender (ac_Content ac)) \<noteq> SenderTypeMember
         then Err ''authenticateCommit: external sender in PrivateMessage commit''
         else Ok ac)
     else Err ''authenticateCommit: unsupported commit wire format'')"

definition authenticateProposalMessage ::
  "Std \<Rightarrow> Group \<Rightarrow> bytes \<Rightarrow> (bytes \<times> Proposal \<times> u32) res" where
  "authenticateProposalMessage std g propBytes =
    bindR (MLSMessage_UnmarshalMLS noMessage propBytes) (\<lambda>m.
    bindR
      (if msg_WireFormat m = WireFormatPublicMessage \<and> msg_Public m \<noteq> None then
         let p = the (msg_Public m) in
         bindR (LeafNodeAt (g_tree g) (snd_LeafIndex (fc_Sender (pub_Content p)))) (\<lambda>ln.
           UnprotectPublic std (g_suite g) (SignatureKey ln) (Some (groupContext g))
             (MembershipKey (g_epoch g)) p)
       else if msg_WireFormat m = WireFormatPrivateMessage \<and> msg_Private m \<noteq> None then
         bindR (UnprotectPrivate std (g_suite g) (sigPubByLeaf g) (Some (groupContext g)) (secretTree g)
           (SenderDataSecret (g_epoch g)) (the (msg_Private m))) (\<lambda>ac.
           if SenderType (fc_Sender (ac_Content ac)) \<noteq> SenderTypeMember
           then Err ''authenticateProposalMessage: external sender in PrivateMessage proposal''
           else Ok ac)
       else Err ''authenticateProposalMessage: unsupported proposal wire format'') (\<lambda>ac.
    bindR (AuthenticatedContent_MarshalMLS ac) (\<lambda>acBytes.
    bindR (RefHash std (g_suite g) ''MLS 1.0 Proposal Reference'' acBytes) (\<lambda>ref.
    bindR (Proposal_UnmarshalMLS (fc_Content (ac_Content ac))) (\<lambda>prop.
      Ok (ref, prop, snd_LeafIndex (fc_Sender (ac_Content ac))))))))"

definition proposalCache :: "Std \<Rightarrow> Group \<Rightarrow> bytes list \<Rightarrow> (bytes \<rightharpoonup> cachedProposal) res" where
  "proposalCache std g proposals =
    foldR (\<lambda>cache propBytes.
      bindR (authenticateProposalMessage std g propBytes) (\<lambda>(ref, prop, senderLeaf).
        Ok (cache(ref \<mapsto> \<lparr>cp_proposal = prop, cp_sender = senderLeaf\<rparr>)))) Map.empty proposals"

definition PeekCommit :: "Std \<Rightarrow> Group \<Rightarrow> bytes \<Rightarrow> Commit res" where
  "PeekCommit std g commitMsg =
    bindR (MLSMessage_UnmarshalMLS noMessage commitMsg) (\<lambda>m.
    if msg_WireFormat m = WireFormatPublicMessage \<and> msg_Public m \<noteq> None \<and>
       SenderType (fc_Sender (pub_Content (the (msg_Public m)))) \<noteq> SenderTypeMember
    then Err ''group: PeekCommit: not a member commit''
    else
      bindR (authenticateCommit std g m) (\<lambda>ac.
      if fc_ContentType (ac_Content ac) \<noteq> ContentTypeCommit then Err ''group: PeekCommit: not a commit''
      else Commit_UnmarshalMLS (fc_Content (ac_Content ac))))"

section \<open>Moving to the next epoch\<close>

definition nextContext :: "GroupContext \<Rightarrow> bytes \<Rightarrow> bytes \<Rightarrow> Extension list \<Rightarrow> GroupContext" where
  "nextContext gc treeHash confirmed ext =
    \<lparr>gc_Version = gc_Version gc, gc_CipherSuite = gc_CipherSuite gc, gc_GroupID = gc_GroupID gc,
     gc_Epoch = gc_Epoch gc + 1, gc_TreeHash = treeHash, ConfirmedTranscriptHash = confirmed,
     gc_Extensions = ext\<rparr>"

definition advance :: "Group \<Rightarrow> RatchetTree \<Rightarrow> GroupContext \<Rightarrow> EpochSecrets \<Rightarrow> bytes \<Rightarrow>
  TreeKEMPrivate \<Rightarrow> SecretTree \<Rightarrow> Group" where
  "advance g wt newGC es interim newPriv st =
    g\<lparr>resumptionPSKHistory := (resumptionPSKHistory g)
        (gc_Epoch (groupContext g) \<mapsto> ResumptionPSK (g_epoch g), gc_Epoch newGC \<mapsto> ResumptionPSK es),
      g_tree := wt, groupContext := newGC, g_epoch := es, g_initSecret := InitSecret es,
      g_interim := interim, g_priv := newPriv, secretTree := st, appGeneration := 0,
      pendingUpdates := Map.empty\<rparr>"

text \<open>The path of a commit: the tree hash is taken from a merged copy, the path secret is
  decrypted against the tree before the merge.  The result is the merged tree, its hash, the
  commit secret and the decrypted path secret.\<close>

definition processPath :: "Std \<Rightarrow> Group \<Rightarrow> RatchetTree \<Rightarrow> Extension list \<Rightarrow> TreeKEMPrivate \<Rightarrow> u32 list \<Rightarrow>
  u32 \<Rightarrow> UpdatePath \<Rightarrow> (RatchetTree \<times> bytes \<times> bytes \<times> bytes option) res" where
  "processPath std g wt ext workingPriv newly committerLeaf path =
    bindR (Clone wt) (\<lambda>ct.
    bindR (Merge std ct committerLeaf path) (\<lambda>ct.
    bindR (RootTreeHash std ct) (\<lambda>newTreeHash.
    bindR (GroupContext_MarshalMLS (nextContext (groupContext g) newTreeHash
      (ConfirmedTranscriptHash (groupContext g)) ext)) (\<lambda>encGCBytes.
    bindR (ProcessUpdatePath std wt committerLeaf path workingPriv encGCBytes newly) (\<lambda>found.
    bindR (Merge std wt committerLeaf path) (\<lambda>wt.
      Ok (wt, newTreeHash,
          (case found of Some (_, cs) \<Rightarrow> cs | None \<Rightarrow> replicate (nat (HashLen (g_suite g))) 0),
          map_option fst found)))))))"

text \<open>Verifying the confirmation tag with the secrets of the next epoch.\<close>

definition epochTransition :: "Std \<Rightarrow> Group \<Rightarrow> bytes \<Rightarrow> bytes option \<Rightarrow> bytes option \<Rightarrow> bytes \<Rightarrow> bytes \<Rightarrow> bytes \<Rightarrow>
  (EpochSecrets \<times> bytes) res" where
  "epochTransition std g initSecret commitSecret pskSecret newGCBytes confirmed confTag =
    bindR (DeriveEpochSecrets std (g_suite g) initSecret commitSecret pskSecret newGCBytes) (\<lambda>es.
    if ConfirmationTag std (g_suite g) (ConfirmationKey es) confirmed \<noteq> confTag
    then Err ''confirmation_tag mismatch''
    else
      bindR (InterimTranscriptHash std (g_suite g) confirmed confTag) (\<lambda>interim.
        Ok (es, interim)))"

section \<open>External commits\<close>

primrec scanExternal :: "ProposalOrRef list \<Rightarrow> bytes list \<Rightarrow> bytes list res" where
  "scanExternal [] found = Ok found"
| "scanExternal (r # rs) found =
    (if por_Type r = ProposalOrRefTypeReference
     then Err ''group: external commit: by-reference proposals not allowed''
     else
       case por_Proposal r of
         None \<Rightarrow> Err ''group: external commit: nil inline proposal''
       | Some p \<Rightarrow>
           if ProposalType p = ProposalTypeExternalInit then
             (case p_ExternalInit p of
                None \<Rightarrow> Err ''group: external commit: ExternalInit proposal has nil body''
              | Some k \<Rightarrow> scanExternal rs (found @ [k]))
           else if ProposalType p \<in> {ProposalTypeRemove, ProposalTypePreSharedKey,
             ProposalTypeGroupContextExtensions} then scanExternal rs found
           else if ProposalType p \<in> {ProposalTypeAdd, ProposalTypeUpdate, ProposalTypeReInit}
           then Err ''group: external commit: proposal type not allowed''
           else Err ''group: external commit: unknown proposal type'')"

text \<open>The result is the \<^verbatim>\<open>kem_output\<close> of the only \<^verbatim>\<open>ExternalInit\<close>.\<close>

definition validateExternalCommit :: "Commit \<Rightarrow> bytes res" where
  "validateExternalCommit cm =
    (if cm_Path cm = None then Err ''group: external commit: path is required''
     else
       bindR (scanExternal (cm_Proposals cm) []) (\<lambda>found.
       if length found \<noteq> 1 then Err ''group: external commit: must have exactly 1 ExternalInit proposal''
       else Ok (last found)))"

text \<open>The leaves removed by the inline proposals of a commit.\<close>

definition inlineRemoves :: "Commit \<Rightarrow> u32 list" where
  "inlineRemoves cm =
    concat (map (\<lambda>r. case por_Proposal r of
        Some p \<Rightarrow>
          (case p_Remove p of
             Some i \<Rightarrow> if por_Type r = ProposalOrRefTypeProposal \<and> ProposalType p = ProposalTypeRemove then [i] else []
           | None \<Rightarrow> [])
      | None \<Rightarrow> []) (cm_Proposals cm))"

text \<open>The second half of \<^verbatim>\<open>processExternalCommit\<close>, once the joiner has its leaf \<open>liC\<close>.\<close>

definition finishExternalCommit :: "Std \<Rightarrow> Group \<Rightarrow> RatchetTree \<Rightarrow> u32 \<Rightarrow> UpdatePath \<Rightarrow> bytes \<Rightarrow> bytes \<Rightarrow> bytes \<Rightarrow>
  Group res" where
  "finishExternalCommit std g wt liC path initSecret confirmedInput confTag =
    (let s = g_suite g; ext = gc_Extensions (groupContext g) in
     bindR (processPath std g wt ext (g_priv g) [] liC path) (\<lambda>(wt, newTreeHash, commitSecret, decryptedPS).
     bindR (VerifyParentHashes std wt) (\<lambda>ok.
     if \<not> ok then Err ''group: processExternalCommit: parent hash verification failed''
     else
       let confirmed = ConfirmedTranscript std s (g_interim g) confirmedInput;
           newGC = nextContext (groupContext g) newTreeHash confirmed ext in
       bindR (GroupContext_MarshalMLS newGC) (\<lambda>newGCBytes.
       bindR (epochTransition std g initSecret (Some commitSecret) None newGCBytes confirmed confTag) (\<lambda>(es, interim).
       bindR (fromOption (Error ''group: processExternalCommit: own leaf private key missing'')
         (PrivateKeyAt (g_priv g) (2 * ownLeaf g))) (\<lambda>ownKey.
       let newPriv = NewTreeKEMPrivate (ownLeaf g) ownKey in
       bindR (case decryptedPS of
           None \<Rightarrow> Ok newPriv
         | Some ps \<Rightarrow> installJoinerPriv std s newPriv ps (ownLeaf g) liC (leafCount wt)) (\<lambda>newPriv.
       bindR (NewSecretTree std s (leafCount wt) (EncryptionSecret es)) (\<lambda>st.
         Ok (advance g wt newGC es interim newPriv st)))))))))"

definition processExternalCommit :: "Std \<Rightarrow> Group \<Rightarrow> MLSMessage \<Rightarrow> Group res" where
  "processExternalCommit std g m =
    (if msg_WireFormat m \<noteq> WireFormatPublicMessage \<or> msg_Public m = None
     then Err ''group: processExternalCommit: not a PublicMessage''
     else
       let p = the (msg_Public m); s = g_suite g in
       if SenderType (fc_Sender (pub_Content p)) \<noteq> SenderTypeNewMemberCommit
       then Err ''group: processExternalCommit: sender type''
       else if fc_ContentType (pub_Content p) \<noteq> ContentTypeCommit
       then Err ''group: processExternalCommit: content type''
       else
         bindR (Commit_UnmarshalMLS (fc_Content (pub_Content p))) (\<lambda>cm.
         bindR (validateExternalCommit cm) (\<lambda>kemOutput.
         let path = the (cm_Path cm); joinerSigKey = SignatureKey (up_LeafNode path) in
         bindR (UnprotectPublic std s joinerSigKey (Some (groupContext g)) [] p) (\<lambda>ac.
         if fc_Epoch (ac_Content ac) \<noteq> gc_Epoch (groupContext g)
         then Err ''group: processExternalCommit: commit epoch''
         else if LeafNodeSource (up_LeafNode path) \<noteq> LeafNodeSourceCommit
         then Err ''group: processExternalCommit: joiner leaf_node_source''
         else
           bindR (foldR (\<lambda>_ removed. bindR (LeafNodeAt (g_tree g) removed) (\<lambda>ln.
             require (SignatureKey ln = joinerSigKey)
               ''group: processExternalCommit: Remove of a leaf that is not the joiner'')) () (inlineRemoves cm)) (\<lambda>_.
           bindR (AuthenticatedContent_MarshalMLS ac) (\<lambda>acBytes.
           bindR (SplitAuthenticatedContent s acBytes) (\<lambda>(confirmedInput, confTag).
           bindR (ExternalPub std s (ExternalSecret (g_epoch g))) (\<lambda>(extPriv, _).
           bindR (ExternalInitDecap std s extPriv kemOutput) (\<lambda>initSecret.
           bindR (Clone (g_tree g)) (\<lambda>wt.
           bindR (foldR RemoveLeaf wt (inlineRemoves cm)) (\<lambda>wt.
           bindR (AddLeaf wt (up_LeafNode path)) (\<lambda>(liC, wt).
           bindR (LeafNode_verifySignature std s (up_LeafNode path) (gc_GroupID (groupContext g)) liC) (\<lambda>ok.
           if \<not> ok then Err ''group: processExternalCommit: joiner leaf signature invalid''
           else
             finishExternalCommit std g wt liC path initSecret confirmedInput confTag)))))))))))))"

definition ProcessExternalCommit :: "Std \<Rightarrow> Group \<Rightarrow> bytes \<Rightarrow> Group res" where
  "ProcessExternalCommit std g commit =
    bindR (MLSMessage_UnmarshalMLS noMessage commit) (\<lambda>m. processExternalCommit std g m)"

section \<open>Member commits\<close>

definition resumptionPSKs :: "Group \<Rightarrow> u64 \<rightharpoonup> bytes" where
  "resumptionPSKs g = (resumptionPSKHistory g)(gc_Epoch (groupContext g) \<mapsto> ResumptionPSK (g_epoch g))"

definition applyMemberCommit :: "Std \<Rightarrow> Group \<Rightarrow> (bytes \<rightharpoonup> cachedProposal) \<Rightarrow> AuthenticatedContent \<Rightarrow> Group res" where
  "applyMemberCommit std g cache ac =
    (let s = g_suite g; committerLeaf = snd_LeafIndex (fc_Sender (ac_Content ac)) in
     bindR (Commit_UnmarshalMLS (fc_Content (ac_Content ac))) (\<lambda>cm.
     bindR (Clone (g_tree g)) (\<lambda>wt.
     bindR (applyProposals wt cm cache (gc_Extensions (groupContext g)) (externalPSKs g)
       (resumptionPSKs g) (gc_GroupID (groupContext g)) committerLeaf) (\<lambda>ap.
     bindR (resolveOwnUpdatePriv g cache committerLeaf (cm_Proposals cm)) (\<lambda>ownUpdatePriv.
     let workingPriv = (case ownUpdatePriv of
           None \<Rightarrow> g_priv g
         | Some k \<Rightarrow> NewTreeKEMPrivate (ownLeaf g) k) in
     bindR (AuthenticatedContent_MarshalMLS ac) (\<lambda>acBytes.
     bindR (SplitAuthenticatedContent s acBytes) (\<lambda>(confirmedInput, confTag).
     let confirmed = ConfirmedTranscript std s (g_interim g) confirmedInput in
     bindR (case cm_Path cm of
         Some path \<Rightarrow>
           bindR (processPath std g (ap_tree ap) (provisionalExt ap) workingPriv (newlyAdded ap) committerLeaf path)
             (\<lambda>(wt, th, cs, ps). Ok (wt, th, Some cs, ps))
       | None \<Rightarrow>
           bindR (RootTreeHash std (ap_tree ap)) (\<lambda>th. Ok (ap_tree ap, th, None, None))) (\<lambda>(wt, newTreeHash, commitSecret, decryptedPS).
     let newGC = nextContext (groupContext g) newTreeHash confirmed (provisionalExt ap) in
     bindR (GroupContext_MarshalMLS newGC) (\<lambda>newGCBytes.
     bindR (PSKSecret std s (ap_psks ap)) (\<lambda>pskSecret.
     bindR (epochTransition std g (g_initSecret g) commitSecret (Some pskSecret) newGCBytes confirmed confTag) (\<lambda>(es, interim).
     bindR (case decryptedPS of
         Some ps \<Rightarrow>
           bindR (fromOption (Error ''group: ProcessCommit: own leaf private key missing'')
             (PrivateKeyAt workingPriv (2 * ownLeaf g))) (\<lambda>ownKey.
             installJoinerPriv std s (NewTreeKEMPrivate (ownLeaf g) ownKey) ps (ownLeaf g) committerLeaf (leafCount wt))
       | None \<Rightarrow> Ok workingPriv) (\<lambda>newPriv.
     bindR (NewSecretTree std s (leafCount wt) (EncryptionSecret es)) (\<lambda>st.
       Ok ((advance g wt newGC es interim newPriv st)\<lparr>handshakeGeneration := 0\<rparr>))))))))))))))"

definition ProcessCommit :: "Std \<Rightarrow> Group \<Rightarrow> bytes list \<Rightarrow> bytes \<Rightarrow> Group res" where
  "ProcessCommit std g proposals commit =
    bindR (proposalCache std g proposals) (\<lambda>cache.
    bindR (MLSMessage_UnmarshalMLS noMessage commit) (\<lambda>m.
    if msg_WireFormat m = WireFormatPublicMessage \<and> msg_Public m \<noteq> None \<and>
       SenderType (fc_Sender (pub_Content (the (msg_Public m)))) = SenderTypeNewMemberCommit
    then processExternalCommit std g m
    else
      bindR (authenticateCommit std g m) (\<lambda>ac.
      if fc_Epoch (ac_Content ac) \<noteq> gc_Epoch (groupContext g)
      then Err ''group: ProcessCommit: commit epoch''
      else applyMemberCommit std g cache ac)))"

end
