(* ===== verification/GroupCommit.thy ===== *)
theory GroupCommit
  imports GroupProcess
begin

text \<open>
  Producing commits and joining, \<^verbatim>\<open>src/mls/group\<close>: the member commit (\<^verbatim>\<open>commit_gen.go\<close>), the
  welcome for new members (\<^verbatim>\<open>welcome_gen.go\<close>) and joining from it (\<^verbatim>\<open>join.go\<close>), published group
  information (\<^verbatim>\<open>external_join.go\<close>) and the external commit of a joiner (\<^verbatim>\<open>external_commit.go\<close>).
\<close>

section \<open>Randomness\<close>

text \<open>What the operations draw from \<^verbatim>\<open>crypto/rand\<close>, whose reads do not fail.\<close>

record Rand =
  rnd_init :: bytes
  rnd_leaf :: bytes
  rnd_leafSecret :: bytes
  rnd_guard :: bytes
  rnd_path :: "nat \<Rightarrow> nat \<Rightarrow> bytes"
  rnd_welcome :: "nat \<Rightarrow> bytes"
  rnd_kem :: bytes

section \<open>Welcome\<close>

definition memberSecrets :: "Std \<Rightarrow> Suite \<Rightarrow> (nat \<Rightarrow> bytes) \<Rightarrow> EpochSecrets \<Rightarrow> u32 \<Rightarrow> u32 \<Rightarrow> (u32 \<rightharpoonup> bytes) \<Rightarrow>
  PreSharedKeyID list \<Rightarrow> bytes \<Rightarrow> nat \<times> u32 \<times> KeyPackage \<Rightarrow> EncryptedGroupSecrets res" where
  "memberSecrets std s rnd es committerLeaf nLeaves pathSecretByNode pskIDs encGI entry =
    (let (i, addedLeaf, kp) = entry in
     bindR (commonAncestor (2 * addedLeaf) (2 * committerLeaf) nLeaves) (\<lambda>nd.
     bindR (fromOption (Error ''group: buildWelcome: no path secret for node'') (pathSecretByNode nd)) (\<lambda>ps.
     bindR (GroupSecrets_MarshalMLS \<lparr>gs_JoinerSecret = es_JoinerSecret es, gs_PathSecret = Some ps,
       PSKs = pskIDs\<rparr>) (\<lambda>gsBytes.
     bindR (EncryptWithLabel std s (rnd i) (InitKey kp) ''Welcome'' encGI gsBytes) (\<lambda>(kem, ct).
     bindR (KeyPackage_Ref std s kp) (\<lambda>ref.
       Ok \<lparr>NewMember = ref, egs_Ciphertext = \<lparr>KemOutput = kem, Ciphertext = ct\<rparr>\<rparr>))))))"

definition buildWelcome :: "Std \<Rightarrow> (nat \<Rightarrow> bytes) \<Rightarrow> Suite \<Rightarrow> EpochSecrets \<Rightarrow> GroupContext \<Rightarrow> RatchetTree \<Rightarrow>
  u32 \<Rightarrow> Signer \<Rightarrow> u32 list \<Rightarrow> KeyPackage list \<Rightarrow> (u32 \<rightharpoonup> bytes) \<Rightarrow> bytes \<Rightarrow> PreSharedKeyID list \<Rightarrow>
  bytes res" where
  "buildWelcome std rnd s es newGC wt committerLeaf signer newly kps pathSecretByNode confTag pskIDs =
    (if length newly \<noteq> length kps then Err ''group: buildWelcome: newlyAdded len''
     else
       bindR (RatchetTree_MarshalMLS wt) (\<lambda>rtreeData.
       bindR (GroupInfo_Sign std s signer
         \<lparr>gi_GroupContext = newGC,
          gi_Extensions = [\<lparr>ExtensionType = ExtensionTypeRatchetTree, ExtensionData = rtreeData\<rparr>],
          gi_ConfirmationTag = confTag, gi_Signer = committerLeaf, gi_Signature = []\<rparr>) (\<lambda>gi.
       bindR (GroupInfo_MarshalMLS gi) (\<lambda>giBytes.
       bindR (WelcomeKeyNonce std s (WelcomeSecret es)) (\<lambda>(wk, wn).
       bindR (Seal std s wk wn [] giBytes) (\<lambda>encGI.
       bindR (mapR (memberSecrets std s rnd es committerLeaf (leafCount wt) pathSecretByNode pskIDs encGI)
         (zip [0..<length newly] (zip newly kps))) (\<lambda>secrets.
       EncodeWelcomeMessage \<lparr>w_CipherSuite = ID s, Secrets = secrets, EncryptedGroupInfo = encGI\<rparr>)))))))"

section \<open>Commit\<close>

record CommitOptions =
  ByValue :: "Proposal list"
  ByReference :: "bytes list"

text \<open>The cache and the references of the proposals included by reference.\<close>

definition referenceProposals ::
  "Std \<Rightarrow> Group \<Rightarrow> bytes list \<Rightarrow> ((bytes \<rightharpoonup> cachedProposal) \<times> ProposalOrRef list) res" where
  "referenceProposals std g msgs =
    foldR (\<lambda>(cache, ps) propBytes.
      bindR (authenticateProposalMessage std g propBytes) (\<lambda>(ref, prop, senderLeaf).
        Ok (cache(ref \<mapsto> \<lparr>cp_proposal = prop, cp_sender = senderLeaf\<rparr>),
            ps @ [\<lparr>por_Type = ProposalOrRefTypeReference, por_Proposal = None, por_Reference = ref\<rparr>])))
      (Map.empty, []) msgs"

definition inlineProposal :: "Proposal \<Rightarrow> ProposalOrRef" where
  "inlineProposal p = \<lparr>por_Type = ProposalOrRefTypeProposal, por_Proposal = Some p, por_Reference = []\<rparr>"

text \<open>Everything a commit has computed when its message is assembled.\<close>

record PreparedCommit =
  pc_tree :: RatchetTree
  pc_context :: GroupContext
  pc_epoch :: EpochSecrets
  pc_confirmed :: bytes
  pc_confTag :: bytes
  pc_pathSecrets :: "u32 \<rightharpoonup> bytes"
  pc_newlyAdded :: "u32 list"
  pc_addedKPs :: "KeyPackage list"
  pc_psks :: "PSK list"
  pc_message :: MLSMessage

definition prepareCommit :: "Std \<Rightarrow> Rand \<Rightarrow> Group \<Rightarrow> CommitOptions \<Rightarrow> PreparedCommit res" where
  "prepareCommit std rnd g opt =
    (let s = g_suite g; gc = groupContext g in
     bindR (Clone (g_tree g)) (\<lambda>wt.
     bindR (referenceProposals std g (ByReference opt)) (\<lambda>(cache, refs).
     let cm = \<lparr>cm_Proposals = refs @ map inlineProposal (ByValue opt), cm_Path = None\<rparr> in
     bindR (applyProposals wt cm cache (gc_Extensions gc) (externalPSKs g) (resumptionPSKs g)
       (gc_GroupID gc) (ownLeaf g)) (\<lambda>ap.
     bindR (GenerateUpdatePath std (rnd_path rnd) (ap_tree ap) (ownLeaf g) (rnd_leafSecret rnd) (signerOf_g g)
       (gc_GroupID gc) (newlyAdded ap)
       (\<lambda>treeHash. GroupContext_MarshalMLS (nextContext gc treeHash (ConfirmedTranscriptHash gc) (provisionalExt ap))))
       (\<lambda>(wt, up, commitSecret, pathSecretByNode).
     bindR (Commit_MarshalMLS (cm\<lparr>cm_Path := Some up\<rparr>)) (\<lambda>commitBody.
     let fc = memberContent g ContentTypeCommit commitBody;
         wfmt = (if encryptHandshakes g then WireFormatPrivateMessage else WireFormatPublicMessage) in
     bindR (SignCommit std s (signerOf_g g) (Some gc) fc wfmt) (\<lambda>(confirmedInput, sig).
     let confirmed = ConfirmedTranscript std s (g_interim g) confirmedInput in
     bindR (RootTreeHash std wt) (\<lambda>newTreeHash.
     let newGC = nextContext gc newTreeHash confirmed (provisionalExt ap) in
     bindR (GroupContext_MarshalMLS newGC) (\<lambda>newGCBytes.
     bindR (PSKSecret std s (ap_psks ap)) (\<lambda>pskSecret.
     bindR (DeriveEpochSecrets std s (g_initSecret g) (Some commitSecret) (Some pskSecret) newGCBytes) (\<lambda>es.
     let confTag = ConfirmationTag std s (ConfirmationKey es) confirmed in
     bindR
       (if wfmt = WireFormatPrivateMessage then
          bindR (AssembleCommitPrivate std s (secretTree g) (SenderDataSecret (g_epoch g)) fc
            (handshakeGeneration g) (rnd_guard rnd) 0 sig confTag) (\<lambda>pm.
            Ok \<lparr>msg_Version = ProtocolVersionMLS10, msg_WireFormat = WireFormatPrivateMessage,
                 msg_Public = None, msg_Private = Some pm\<rparr>)
        else
          bindR (AssembleCommitPublic std s (Some gc) (MembershipKey (g_epoch g)) fc sig confTag) (\<lambda>pm.
            Ok \<lparr>msg_Version = ProtocolVersionMLS10, msg_WireFormat = WireFormatPublicMessage,
                 msg_Public = Some pm, msg_Private = None\<rparr>)) (\<lambda>msg.
       Ok \<lparr>pc_tree = wt, pc_context = newGC, pc_epoch = es, pc_confirmed = confirmed,
            pc_confTag = confTag, pc_pathSecrets = pathSecretByNode, pc_newlyAdded = newlyAdded ap,
            pc_addedKPs = addedKPs ap, pc_psks = ap_psks ap, pc_message = msg\<rparr>))))))))))))"

text \<open>The private state of a committer: its new leaf key and the keys of its path.\<close>

definition committerPriv :: "Std \<Rightarrow> Suite \<Rightarrow> bytes \<Rightarrow> u32 \<Rightarrow> (u32 \<rightharpoonup> bytes) \<Rightarrow> TreeKEMPrivate res" where
  "committerPriv std s leafSecret leaf pathSecretByNode =
    bindR (DeriveSecret std s leafSecret ''node'') (\<lambda>leafNodeSecret.
    bindR (DeriveKeyPair std s leafNodeSecret) (\<lambda>(newLeafPriv, _).
      addPathSecrets std s (NewTreeKEMPrivate leaf newLeafPriv) pathSecretByNode))"

text \<open>The second half: the commit message, the welcome (if members were added) and the next state.\<close>

definition finishCommit :: "Std \<Rightarrow> Rand \<Rightarrow> Group \<Rightarrow> PreparedCommit \<Rightarrow>
  ((bytes \<times> bytes option) \<times> Group) res" where
  "finishCommit std rnd g pc =
    (let s = g_suite g in
     bindR (MLSMessage_MarshalMLS (pc_message pc)) (\<lambda>commitBytes.
     bindR
       (if pc_newlyAdded pc \<noteq> [] then
          bindR (buildWelcome std (rnd_welcome rnd) s (pc_epoch pc) (pc_context pc) (pc_tree pc) (ownLeaf g)
            (signerOf_g g) (pc_newlyAdded pc) (pc_addedKPs pc) (pc_pathSecrets pc) (pc_confTag pc)
            (map psk_ID (pc_psks pc))) (\<lambda>w. Ok (Some w))
        else Ok None) (\<lambda>welcomeBytes.
     bindR (InterimTranscriptHash std s (pc_confirmed pc) (pc_confTag pc)) (\<lambda>interim.
     bindR (committerPriv std s (rnd_leafSecret rnd) (ownLeaf g) (pc_pathSecrets pc)) (\<lambda>newPriv.
     bindR (NewSecretTree std s (leafCount (pc_tree pc)) (EncryptionSecret (pc_epoch pc))) (\<lambda>st.
       Ok ((commitBytes, welcomeBytes),
           (advance g (pc_tree pc) (pc_context pc) (pc_epoch pc) interim newPriv st)
             \<lparr>handshakeGeneration := 0\<rparr>)))))))"

definition Group_Commit :: "Std \<Rightarrow> Rand \<Rightarrow> Group \<Rightarrow> CommitOptions \<Rightarrow>
  (bytes \<times> bytes option) res \<times> Group" where
  "Group_Commit std rnd g opt =
    (case prepareCommit std rnd g opt of
       Inl e \<Rightarrow> (Inl e, g)
     | Inr pc \<Rightarrow>
         let g = (if encryptHandshakes g then g\<lparr>handshakeGeneration := handshakeGeneration g + 1\<rparr> else g) in
         case finishCommit std rnd g pc of
           Inl e \<Rightarrow> (Inl e, g)
         | Inr (out, g') \<Rightarrow> (Ok out, g'))"

section \<open>Joining from a welcome\<close>

record JoinOptions =
  jo_KeyPackage :: bytes
  jo_InitPriv :: bytes
  jo_EncryptionPriv :: bytes
  jo_Signer :: "Signer option"
  jo_RatchetTree :: bytes
  jo_ExternalPSKs :: "bytes \<rightharpoonup> bytes"

definition joinerPSK :: "(bytes \<rightharpoonup> bytes) \<Rightarrow> PreSharedKeyID \<Rightarrow> PSK res" where
  "joinerPSK external i =
    (if PSKType i \<noteq> PSKTypeExternal then Err ''group: JoinFromWelcome: resumption PSKs not supported''
     else bindR (fromOption (Error ''group: JoinFromWelcome: PSK not in ExternalPSKs'') (external (PSKID i)))
       (\<lambda>b. Ok \<lparr>psk_ID = i, psk_PSK = b\<rparr>))"

text \<open>The checks on a tree received with group information.\<close>

definition checkTree :: "Std \<Rightarrow> RatchetTree \<Rightarrow> GroupContext \<Rightarrow> unit res" where
  "checkTree std rt gc =
    bindR (VerifyParentHashes std rt) (\<lambda>ok.
    bindR (require ok ''group: parent hash verification failed'') (\<lambda>_.
    bindR (VerifyLeafSignatures std rt (gc_GroupID gc)) (\<lambda>_.
    bindR (RootTreeHash std rt) (\<lambda>treeHash.
      require (treeHash = gc_TreeHash gc) ''group: tree hash mismatch''))))"

text \<open>The last steps of \<^verbatim>\<open>JoinFromWelcome\<close>, from the search for the own leaf on.\<close>

definition finishJoin :: "Std \<Rightarrow> Suite \<Rightarrow> JoinOptions \<Rightarrow> KeyPackage \<Rightarrow> GroupSecrets \<Rightarrow> bytes \<Rightarrow> GroupInfo \<Rightarrow>
  RatchetTree \<Rightarrow> Group res" where
  "finishJoin std s opt kp gs pskSecret gi rt =
    (let gc = gi_GroupContext gi in
    let (own, found) = FindLeafByEncryptionKey rt (leaf_EncryptionKey (kp_LeafNode kp)) in
    bindR (require found ''group: JoinFromWelcome: own encryption key not found in tree'') (\<lambda>_.
    bindR
      (case gs_PathSecret gs of
         None \<Rightarrow> Ok (NewTreeKEMPrivate own (jo_EncryptionPriv opt))
       | Some ps \<Rightarrow> installJoinerPriv std s (NewTreeKEMPrivate own (jo_EncryptionPriv opt)) ps own
           (gi_Signer gi) (leafCount rt)) (\<lambda>priv.
    bindR (GroupContext_MarshalMLS gc) (\<lambda>gcBytes.
    bindR (EpochSecretsFromJoiner std s (gs_JoinerSecret gs) (Some pskSecret) gcBytes) (\<lambda>es.
    bindR (require (ConfirmationTag std s (ConfirmationKey es) (ConfirmedTranscriptHash gc) =
      gi_ConfirmationTag gi) ''group: JoinFromWelcome: confirmation_tag mismatch'') (\<lambda>_.
    bindR (InterimTranscriptHash std s (ConfirmedTranscriptHash gc) (gi_ConfirmationTag gi)) (\<lambda>interim.
    bindR (NewSecretTree std s (leafCount rt) (EncryptionSecret es)) (\<lambda>st.
      Ok \<lparr>g_suite = s, groupContext = gc, g_tree = rt, g_priv = priv, g_epoch = es, secretTree = st,
           g_interim = interim, g_initSecret = InitSecret es, ownLeaf = own, g_signer = jo_Signer opt,
           externalPSKs = jo_ExternalPSKs opt,
           resumptionPSKHistory = [gc_Epoch gc \<mapsto> ResumptionPSK es], appGeneration = 0,
           handshakeGeneration = 0, encryptHandshakes = False, pendingUpdates = Map.empty\<rparr>))))))))"

definition JoinFromWelcome :: "Std \<Rightarrow> Suite \<Rightarrow> bytes \<Rightarrow> JoinOptions \<Rightarrow> Group res" where
  "JoinFromWelcome std s msg opt =
    bindR (DecodeWelcomeMessage msg) (\<lambda>w.
    bindR (DecodeKeyPackageMessage (jo_KeyPackage opt)) (\<lambda>kp.
    bindR (KeyPackage_Ref std s kp) (\<lambda>ref.
    bindR (fromOption (Error ''group: JoinFromWelcome: no EncryptedGroupSecrets for our KeyPackageRef'')
      (List.find (\<lambda>e. NewMember e = ref) (Secrets w))) (\<lambda>egs.
    bindR (DecryptWithLabel std s (jo_InitPriv opt) ''Welcome'' (EncryptedGroupInfo w)
      (KemOutput (egs_Ciphertext egs)) (Ciphertext (egs_Ciphertext egs))) (\<lambda>gsBytes.
    bindR (GroupSecrets_UnmarshalMLS gsBytes) (\<lambda>gs.
    bindR (mapR (joinerPSK (jo_ExternalPSKs opt)) (PSKs gs)) (\<lambda>psks.
    bindR (PSKSecret std s psks) (\<lambda>pskSecret.
    bindR (Extract std s (gs_JoinerSecret gs) pskSecret) (\<lambda>member.
    bindR (DeriveSecret std s member ''welcome'') (\<lambda>welcomeSecret.
    bindR (WelcomeKeyNonce std s welcomeSecret) (\<lambda>(wk, wn).
    bindR (Open std s wk wn [] (EncryptedGroupInfo w)) (\<lambda>giBytes.
    bindR (GroupInfo_UnmarshalMLS giBytes) (\<lambda>gi.
    let gc = gi_GroupContext gi in
    bindR
      (if jo_RatchetTree opt \<noteq> [] then Ok (jo_RatchetTree opt)
       else fromOption (Error ''group: JoinFromWelcome: no ratchet_tree in GroupInfo and none provided'')
         (RatchetTreeExtension gi)) (\<lambda>rtreeData.
    bindR (ParseRatchetTree s rtreeData) (\<lambda>rt.
    bindR (checkTree std rt gc) (\<lambda>_.
    bindR (LeafNodeAt rt (gi_Signer gi)) (\<lambda>signerLeaf.
    bindR (GroupInfo_VerifySignature std s (SignatureKey signerLeaf) gi) (\<lambda>ok.
    bindR (require ok ''group: JoinFromWelcome: GroupInfo signature invalid'') (\<lambda>_.
    finishJoin std s opt kp gs pskSecret gi rt)))))))))))))))))))"

section \<open>External joins\<close>

definition PublishGroupInfo :: "Std \<Rightarrow> Group \<Rightarrow> GroupInfo res" where
  "PublishGroupInfo std g =
    (case g_signer g of
       None \<Rightarrow> Err ''group: PublishGroupInfo: no signer (pure receiver)''
     | Some signer \<Rightarrow>
         bindR (RatchetTree_MarshalMLS (g_tree g)) (\<lambda>rtree.
         bindR (ExternalPub std (g_suite g) (ExternalSecret (g_epoch g))) (\<lambda>(_, extPub).
         GroupInfo_Sign std (g_suite g) signer
           \<lparr>gi_GroupContext = groupContext g,
            gi_Extensions = [\<lparr>ExtensionType = ExtensionTypeRatchetTree, ExtensionData = rtree\<rparr>,
              \<lparr>ExtensionType = ExtensionTypeExternalPub, ExtensionData = extPub\<rparr>],
            gi_ConfirmationTag = ConfirmationTag std (g_suite g) (ConfirmationKey (g_epoch g))
              (ConfirmedTranscriptHash (groupContext g)),
            gi_Signer = ownLeaf g, gi_Signature = []\<rparr>)))"

primrec findSignature :: "RatchetTree \<Rightarrow> bytes \<Rightarrow> u32 list \<Rightarrow> u32 \<times> bool" where
  "findSignature rt sigKey [] = (0, False)"
| "findSignature rt sigKey (i # is) =
    (case LeafNodeAt rt i of
       Inl _ \<Rightarrow> findSignature rt sigKey is
     | Inr ln \<Rightarrow> if SignatureKey ln = sigKey then (i, True) else findSignature rt sigKey is)"

definition findLeafBySignatureKey :: "RatchetTree \<Rightarrow> bytes \<Rightarrow> u32 \<times> bool" where
  "findLeafBySignatureKey rt sigKey =
    findSignature rt sigKey (map of_nat [0..<unat (leafCount rt)])"

text \<open>The last steps of \<^verbatim>\<open>ExternalCommit\<close>: framing the commit and the joiner's own state.\<close>

definition finishExternalJoin :: "Std \<Rightarrow> Rand \<Rightarrow> Suite \<Rightarrow> GroupInfo \<Rightarrow> Signer \<Rightarrow> RatchetTree \<Rightarrow> u32 \<Rightarrow> Commit \<Rightarrow>
  bytes \<Rightarrow> bytes \<Rightarrow> (u32 \<rightharpoonup> bytes) \<Rightarrow> (Group \<times> bytes) res" where
  "finishExternalJoin std rnd s gi signer wt liC cm initSecret commitSecret pathByNode =
    (let gc = gi_GroupContext gi in
     bindR (Commit_MarshalMLS cm) (\<lambda>commitBody.
     let fc = \<lparr>fc_GroupID = gc_GroupID gc, fc_Epoch = gc_Epoch gc,
           fc_Sender = \<lparr>SenderType = SenderTypeNewMemberCommit, snd_LeafIndex = 0, snd_Index = 0\<rparr>,
           fc_AuthenticatedData = [], fc_ContentType = ContentTypeCommit, fc_Content = commitBody\<rparr> in
     bindR (SignCommit std s signer (Some gc) fc WireFormatPublicMessage) (\<lambda>(confirmedInput, sig).
     bindR (InterimTranscriptHash std s (ConfirmedTranscriptHash gc) (gi_ConfirmationTag gi)) (\<lambda>interimN.
     let confirmed = ConfirmedTranscript std s interimN confirmedInput in
     bindR (RootTreeHash std wt) (\<lambda>newTreeHash.
     let newGC = nextContext gc newTreeHash confirmed (gc_Extensions gc) in
     bindR (GroupContext_MarshalMLS newGC) (\<lambda>newGCBytes.
     bindR (DeriveEpochSecrets std s initSecret (Some commitSecret) None newGCBytes) (\<lambda>es.
     let confTag = ConfirmationTag std s (ConfirmationKey es) confirmed in
     bindR (MLSMessage_MarshalMLS \<lparr>msg_Version = ProtocolVersionMLS10,
       msg_WireFormat = WireFormatPublicMessage,
       msg_Public = Some \<lparr>pub_Content = fc,
         pub_Auth = \<lparr>auth_Signature = sig, auth_ConfirmationTag = confTag\<rparr>, MembershipTag = []\<rparr>,
       msg_Private = None\<rparr>) (\<lambda>commitBytes.
     bindR (InterimTranscriptHash std s confirmed confTag) (\<lambda>interim.
     bindR (committerPriv std s (rnd_leafSecret rnd) liC pathByNode) (\<lambda>priv.
     bindR (NewSecretTree std s (leafCount wt) (EncryptionSecret es)) (\<lambda>st.
       Ok (\<lparr>g_suite = s, groupContext = newGC, g_tree = wt, g_priv = priv, g_epoch = es, secretTree = st,
             g_interim = interim, g_initSecret = InitSecret es, ownLeaf = liC, g_signer = Some signer,
             externalPSKs = Map.empty, resumptionPSKHistory = [gc_Epoch newGC \<mapsto> ResumptionPSK es],
             appGeneration = 0, handshakeGeneration = 0, encryptHandshakes = False,
             pendingUpdates = Map.empty\<rparr>, commitBytes))))))))))))"

definition ExternalCommit :: "Std \<Rightarrow> Rand \<Rightarrow> Suite \<Rightarrow> GroupInfo \<Rightarrow> Credential \<Rightarrow> Signer \<Rightarrow> Lifetime \<Rightarrow>
  (Group \<times> bytes) res" where
  "ExternalCommit std rnd s gi cred signer lifetime =
    (let gc = gi_GroupContext gi in
     bindR (fromOption (Error ''group: ExternalCommit: GroupInfo has no external_pub extension'')
       (ExternalPubExtension gi)) (\<lambda>extPub.
     bindR (ExternalInitEncap std s (rnd_kem rnd) extPub) (\<lambda>(kemOutput, initSecret).
     bindR (fromOption (Error ''group: ExternalCommit: GroupInfo has no ratchet_tree extension'')
       (RatchetTreeExtension gi)) (\<lambda>rtreeData.
     bindR (ParseRatchetTree s rtreeData) (\<lambda>wt.
     bindR (checkTree std wt gc) (\<lambda>_.
     bindR (SignaturePublicKey s signer) (\<lambda>sigPub.
     let (oldLeaf, stale) = findLeafBySignatureKey wt sigPub in
     bindR (if stale then RemoveLeaf wt oldLeaf else Ok wt) (\<lambda>wt.
     bindR (NewKeyPackage std (rnd_init rnd) (rnd_leaf rnd) s cred signer lifetime) (\<lambda>(kp, _, _).
     bindR (AddLeaf wt (kp_LeafNode kp)) (\<lambda>(liC, wt).
     let ps = inlineProposal ((emptyProposal ProposalTypeExternalInit)\<lparr>p_ExternalInit := Some kemOutput\<rparr>) #
           (if stale then [inlineProposal (ProposeRemove oldLeaf)] else []) in
     bindR (GenerateUpdatePath std (rnd_path rnd) wt liC (rnd_leafSecret rnd) signer (gc_GroupID gc) []
       (\<lambda>treeHash. GroupContext_MarshalMLS
         (nextContext gc treeHash (ConfirmedTranscriptHash gc) (gc_Extensions gc))))
       (\<lambda>(wt, up, commitSecret, pathByNode).
     finishExternalJoin std rnd s gi signer wt liC \<lparr>cm_Proposals = ps, cm_Path = Some up\<rparr>
       initSecret commitSecret pathByNode)))))))))))"

end
