(* ===== verification/Interop.thy ===== *)
theory Interop
  imports GroupCommit
begin

text \<open>
  The interoperability server of \<^verbatim>\<open>src/interop/server/server.go\<close>: sessions with a group each,
  transactions with the private keys of published key packages, and the remote procedures over
  them.  A procedure takes the fields of its request and returns its response and the server; its
  part before the lock does not touch the server, so that one call is one step.  Generated keys
  and random bytes are arguments.  An error that a procedure wraps has its status code and the
  operation that failed; texts are shortened, a panic of the engine stays a fault.
\<close>

section \<open>State\<close>

record state =
  state_suite :: Suite
  state_g :: Group
  pendingEpochAuth :: "bytes option"

record pendingKP =
  tx_suite :: Suite
  kpMsg :: bytes
  tx_initPriv :: bytes
  tx_encPriv :: bytes
  tx_signer :: Signer

record Server =
  states :: "u32 \<rightharpoonup> state"
  txns :: "u32 \<rightharpoonup> pendingKP"
  nextID :: u32

definition New :: Server where
  "New = \<lparr>states = Map.empty, txns = Map.empty, nextID = 1\<rparr>"

definition alloc :: "Server \<Rightarrow> u32 \<times> Server" where
  "alloc s = (nextID s, s\<lparr>nextID := nextID s + 1\<rparr>)"

section \<open>Errors\<close>

datatype code = InvalidArgument | NotFound | Internal | Unimplemented | FailedPrecondition

datatype rpcError = Status code string | Crash fault

type_synonym 'a rpc = "rpcError + 'a"

text \<open>An error of the engine becomes a status of the given code; a panic is not caught.\<close>

definition orStatus :: "code \<Rightarrow> string \<Rightarrow> 'a res \<Rightarrow> 'a rpc" where
  "orStatus c op r =
    (case r of Inr x \<Rightarrow> Inr x | Inl (Error _) \<Rightarrow> Inl (Status c op) | Inl f \<Rightarrow> Inl (Crash f))"

definition bindS :: "'a rpc \<Rightarrow> ('a \<Rightarrow> 'b rpc) \<Rightarrow> 'b rpc" where
  "bindS r f = (case r of Inl e \<Rightarrow> Inl e | Inr x \<Rightarrow> f x)"

section \<open>Helpers\<close>

text \<open>\<^verbatim>\<open>cipher.CipherSuite(cs)\<close> keeps the low 16 bits.\<close>

definition lookupSuite :: "u32 \<Rightarrow> Suite rpc" where
  "lookupSuite cs =
    (case Lookup (ucast cs) of
       None \<Rightarrow> Inl (Status InvalidArgument ''unsupported ciphersuite'')
     | Some s \<Rightarrow> Inr s)"

text \<open>The kinds of signing keys that \<^verbatim>\<open>newSigner\<close> generates; \<open>fresh\<close> is what the library returns for
  each: the signer and its raw private key.\<close>

datatype KeyKind = Ed25519Key | P256Key

definition newSigner :: "(KeyKind \<Rightarrow> (Signer \<times> bytes) res) \<Rightarrow> u16 \<Rightarrow> (Signer \<times> bytes) res" where
  "newSigner fresh cs =
    (if cs = X25519_AES128GCM_SHA256_Ed25519 \<or> cs = XWING_AES256GCM_SHA256_Ed25519 then fresh Ed25519Key
     else if cs = P256_AES128GCM_SHA256_P256 then fresh P256Key
     else Err ''no signer for suite'')"

definition interopLifetime :: Lifetime where
  "interopLifetime = \<lparr>NotBefore = 0, NotAfter = NOT 0\<rparr>"

definition basicCredential :: "bytes \<Rightarrow> Credential" where
  "basicCredential i = \<lparr>CredentialType = CredentialTypeBasic, Identity = i, Certificates = []\<rparr>"

definition getState :: "Server \<Rightarrow> u32 \<Rightarrow> state rpc" where
  "getState s i =
    (case states s i of None \<Rightarrow> Inl (Status NotFound ''unknown state_id'') | Some st \<Rightarrow> Inr st)"

text \<open>A leaf whose credential cannot be read is passed over.\<close>

definition resolveIdentity :: "state \<Rightarrow> bytes \<Rightarrow> u32 rpc" where
  "resolveIdentity st identity =
    (case List.find (\<lambda>leaf. case LeafCredential (state_g st) leaf of
         Inl _ \<Rightarrow> False
       | Inr (cred, _) \<Rightarrow> Identity cred = identity) (ActiveLeaves (state_g st)) of
       None \<Rightarrow> Inl (Status NotFound ''no member with identity'')
     | Some leaf \<Rightarrow> Inr leaf)"

section \<open>Procedures\<close>

definition Name :: string where
  "Name = ''mls-go''"

definition SupportedCiphersuites :: "u32 list" where
  "SupportedCiphersuites = [ucast X25519_AES128GCM_SHA256_Ed25519, ucast P256_AES128GCM_SHA256_P256]"

text \<open>Registering a new session.\<close>

definition addState :: "Server \<Rightarrow> Suite \<Rightarrow> Group \<Rightarrow> u32 \<times> Server" where
  "addState s su g =
    (let (i, s) = alloc s in
     (i, s\<lparr>states := (states s)(i \<mapsto> \<lparr>state_suite = su, state_g = g, pendingEpochAuth = None\<rparr>)\<rparr>))"

definition CreateGroup :: "Std \<Rightarrow> (KeyKind \<Rightarrow> (Signer \<times> bytes) res) \<Rightarrow> Rand \<Rightarrow> Server \<Rightarrow> bytes \<Rightarrow> u32 \<Rightarrow> bool \<Rightarrow> bytes \<Rightarrow>
  u32 rpc \<times> Server" where
  "CreateGroup std fresh rnd s groupId cs encryptHandshake identity =
    (case bindS (lookupSuite cs) (\<lambda>su.
       bindS (orStatus Internal ''newSigner'' (newSigner fresh (ucast cs))) (\<lambda>(signer, _).
       bindS (orStatus Internal ''NewGroup'' (NewGroup std (rnd_init rnd) (rnd_leaf rnd) su groupId
         (basicCredential identity) signer interopLifetime)) (\<lambda>g.
       Inr (su, SetEncryptHandshakes g encryptHandshake)))) of
       Inl e \<Rightarrow> (Inl e, s)
     | Inr (su, g) \<Rightarrow> let (i, s) = addState s su g in (Inr i, s))"

definition StateAuth :: "Server \<Rightarrow> u32 \<Rightarrow> bytes rpc" where
  "StateAuth s i = bindS (getState s i) (\<lambda>st. Inr (Group_EpochAuthenticator (state_g st)))"

record CreateKeyPackageResponse =
  TransactionId :: u32
  resp_KeyPackage :: bytes
  resp_InitPriv :: bytes
  EncryptionPriv :: bytes
  SignaturePriv :: bytes

definition CreateKeyPackage :: "Std \<Rightarrow> (KeyKind \<Rightarrow> (Signer \<times> bytes) res) \<Rightarrow> Rand \<Rightarrow> Server \<Rightarrow> u32 \<Rightarrow> bytes \<Rightarrow>
  CreateKeyPackageResponse rpc \<times> Server" where
  "CreateKeyPackage std fresh rnd s cs identity =
    (case bindS (lookupSuite cs) (\<lambda>su.
       bindS (orStatus Internal ''newSigner'' (newSigner fresh (ucast cs))) (\<lambda>(signer, sigSeed).
       bindS (orStatus Internal ''NewKeyPackage'' (NewKeyPackage std (rnd_init rnd) (rnd_leaf rnd) su
         (basicCredential identity) signer interopLifetime)) (\<lambda>(kp, initPriv, leafPriv).
       bindS (orStatus Internal ''EncodeKeyPackageMessage'' (EncodeKeyPackageMessage kp)) (\<lambda>kpm.
       Inr (\<lparr>tx_suite = su, kpMsg = kpm, tx_initPriv = initPriv, tx_encPriv = leafPriv, tx_signer = signer\<rparr>, sigSeed))))) of
       Inl e \<Rightarrow> (Inl e, s)
     | Inr (tx, sigSeed) \<Rightarrow>
         let (tid, s) = alloc s in
         (Inr \<lparr>TransactionId = tid, resp_KeyPackage = kpMsg tx, resp_InitPriv = tx_initPriv tx,
            EncryptionPriv = tx_encPriv tx, SignaturePriv = sigSeed\<rparr>, s\<lparr>txns := (txns s)(tid \<mapsto> tx)\<rparr>))"

definition JoinGroup :: "Std \<Rightarrow> Server \<Rightarrow> u32 \<Rightarrow> bytes \<Rightarrow> bytes \<Rightarrow> bool \<Rightarrow> (u32 \<times> bytes) rpc \<times> Server" where
  "JoinGroup std s tid welcomeMsg ratchetTree encryptHandshake =
    (case txns s tid of
       None \<Rightarrow> (Inl (Status NotFound ''unknown transaction_id''), s)
     | Some tx \<Rightarrow>
         (case orStatus Internal ''JoinFromWelcome'' (JoinFromWelcome std (tx_suite tx) welcomeMsg
            \<lparr>jo_KeyPackage = kpMsg tx, jo_InitPriv = tx_initPriv tx, jo_EncryptionPriv = tx_encPriv tx,
             jo_Signer = Some (tx_signer tx), jo_RatchetTree = ratchetTree, jo_ExternalPSKs = Map.empty\<rparr>) of
            Inl e \<Rightarrow> (Inl e, s)
          | Inr g \<Rightarrow>
              let g = SetEncryptHandshakes g encryptHandshake;
                  (i, s) = addState s (tx_suite tx) g;
                  s = s\<lparr>txns := (txns s)(tid := None)\<rparr> in
              (Inr (i, Group_EpochAuthenticator g), s)))"

text \<open>Putting a group back into its session.\<close>

definition setGroup :: "Server \<Rightarrow> u32 \<Rightarrow> Group \<Rightarrow> Server" where
  "setGroup s i g = s\<lparr>states := (states s)(i := map_option (\<lambda>st. st\<lparr>state_g := g\<rparr>) (states s i))\<rparr>"

definition AddProposal :: "Std \<Rightarrow> Rand \<Rightarrow> Server \<Rightarrow> u32 \<Rightarrow> bytes \<Rightarrow> bytes rpc \<times> Server" where
  "AddProposal std rnd s i keyPackageMsg =
    (case bindS (getState s i) (\<lambda>st.
       bindS (orStatus InvalidArgument ''DecodeKeyPackageMessage'' (DecodeKeyPackageMessage keyPackageMsg)) (\<lambda>kp. Inr (st, kp))) of
       Inl e \<Rightarrow> (Inl e, s)
     | Inr (st, kp) \<Rightarrow>
         let (r, g) = FrameProposal std (rnd_guard rnd) (state_g st) (ProposeAdd kp) in
         (orStatus Internal ''FrameProposal'' r, setGroup s i g))"

definition UpdateProposal :: "Std \<Rightarrow> Rand \<Rightarrow> Server \<Rightarrow> u32 \<Rightarrow> bytes rpc \<times> Server" where
  "UpdateProposal std rnd s i =
    (case bindS (getState s i) (\<lambda>st.
       orStatus Internal ''ProposeUpdate'' (ProposeUpdate std (rnd_leaf rnd) (state_g st))) of
       Inl e \<Rightarrow> (Inl e, s)
     | Inr (prop, g) \<Rightarrow>
         let (r, g) = FrameProposal std (rnd_guard rnd) g prop in
         (orStatus Internal ''FrameProposal'' r, setGroup s i g))"

definition RemoveProposal :: "Std \<Rightarrow> Rand \<Rightarrow> Server \<Rightarrow> u32 \<Rightarrow> bytes \<Rightarrow> bytes rpc \<times> Server" where
  "RemoveProposal std rnd s i removedId =
    (case bindS (getState s i) (\<lambda>st. bindS (resolveIdentity st removedId) (\<lambda>leaf. Inr (st, leaf))) of
       Inl e \<Rightarrow> (Inl e, s)
     | Inr (st, leaf) \<Rightarrow>
         let (r, g) = FrameProposal std (rnd_guard rnd) (state_g st) (ProposeRemove leaf) in
         (orStatus Internal ''FrameProposal'' r, setGroup s i g))"

record ProposalDescription =
  pd_ProposalType :: bytes
  pd_KeyPackage :: bytes
  RemovedId :: bytes

definition describedProposal :: "state \<Rightarrow> ProposalDescription \<Rightarrow> Proposal rpc" where
  "describedProposal st pd =
    (if pd_ProposalType pd = bytesOf ''add'' then
       bindS (orStatus InvalidArgument ''by_value add'' (DecodeKeyPackageMessage (pd_KeyPackage pd))) (\<lambda>kp. Inr (ProposeAdd kp))
     else if pd_ProposalType pd = bytesOf ''remove'' then
       bindS (resolveIdentity st (RemovedId pd)) (\<lambda>leaf. Inr (ProposeRemove leaf))
     else Inl (Status Unimplemented ''by_value proposal_type not supported''))"

primrec describedProposals :: "state \<Rightarrow> ProposalDescription list \<Rightarrow> Proposal list rpc" where
  "describedProposals st [] = Inr []"
| "describedProposals st (pd # pds) =
    bindS (describedProposal st pd) (\<lambda>p. bindS (describedProposals st pds) (\<lambda>ps. Inr (p # ps)))"

definition Server_Commit :: "Std \<Rightarrow> Rand \<Rightarrow> Server \<Rightarrow> u32 \<Rightarrow> bytes list \<Rightarrow> ProposalDescription list \<Rightarrow>
  (bytes \<times> bytes option) rpc \<times> Server" where
  "Server_Commit std rnd s i byReference byValue =
    (case bindS (getState s i) (\<lambda>st. bindS (describedProposals st byValue) (\<lambda>ps. Inr (st, ps))) of
       Inl e \<Rightarrow> (Inl e, s)
     | Inr (st, ps) \<Rightarrow>
         (case Group_Commit std rnd (state_g st) \<lparr>ByValue = ps, ByReference = byReference\<rparr> of
            (Inl e, g) \<Rightarrow> (orStatus Internal ''Commit'' (Inl e), setGroup s i g)
          | (Inr out, g) \<Rightarrow>
              (Inr out, s\<lparr>states := (states s)(i \<mapsto>
                 st\<lparr>state_g := g, pendingEpochAuth := Some (Group_EpochAuthenticator g)\<rparr>)\<rparr>)))"

definition Server_HandleCommit :: "Std \<Rightarrow> Server \<Rightarrow> u32 \<Rightarrow> bytes list \<Rightarrow> bytes \<Rightarrow> (u32 \<times> bytes) rpc \<times> Server" where
  "Server_HandleCommit std s i proposals commit =
    (case bindS (getState s i) (\<lambda>st. orStatus Internal ''ProcessCommit'' (ProcessCommit std (state_g st) proposals commit)) of
       Inl e \<Rightarrow> (Inl e, s)
     | Inr g \<Rightarrow> (Inr (i, Group_EpochAuthenticator g), setGroup s i g))"

definition HandlePendingCommit :: "Server \<Rightarrow> u32 \<Rightarrow> (u32 \<times> bytes) rpc \<times> Server" where
  "HandlePendingCommit s i =
    (case getState s i of
       Inl e \<Rightarrow> (Inl e, s)
     | Inr st \<Rightarrow>
         (case pendingEpochAuth st of
            None \<Rightarrow> (Inl (Status FailedPrecondition ''no pending commit''), s)
          | Some ea \<Rightarrow> (Inr (i, ea), s\<lparr>states := (states s)(i \<mapsto> st\<lparr>pendingEpochAuth := None\<rparr>)\<rparr>)))"

definition Export :: "Std \<Rightarrow> Server \<Rightarrow> u32 \<Rightarrow> string \<Rightarrow> bytes \<Rightarrow> u32 \<Rightarrow> bytes rpc" where
  "Export std s i label context keyLength =
    bindS (getState s i) (\<lambda>st.
      orStatus Internal ''Exporter'' (Exporter std (state_g st) label context (uint keyLength)))"

definition Protect :: "Std \<Rightarrow> Rand \<Rightarrow> Server \<Rightarrow> u32 \<Rightarrow> bytes \<Rightarrow> bytes \<Rightarrow> bytes rpc \<times> Server" where
  "Protect std rnd s i plaintext authenticatedData =
    (case getState s i of
       Inl e \<Rightarrow> (Inl e, s)
     | Inr st \<Rightarrow>
         let (r, g) = ProtectApplication std (rnd_guard rnd) (state_g st) plaintext authenticatedData in
         (orStatus Internal ''ProtectApplication'' r, setGroup s i g))"

definition Unprotect :: "Std \<Rightarrow> Server \<Rightarrow> u32 \<Rightarrow> bytes \<Rightarrow> (bytes \<times> bytes) rpc" where
  "Unprotect std s i ciphertext =
    bindS (getState s i) (\<lambda>st.
      orStatus Internal ''UnprotectApplication'' (UnprotectApplication std (state_g st) ciphertext))"

definition Server_GroupInfo :: "Std \<Rightarrow> Server \<Rightarrow> u32 \<Rightarrow> (bytes \<times> bytes option) rpc" where
  "Server_GroupInfo std s i =
    bindS (getState s i) (\<lambda>st.
    bindS (orStatus Internal ''PublishGroupInfo'' (PublishGroupInfo std (state_g st))) (\<lambda>gi.
    bindS (orStatus Internal ''marshal group_info'' (GroupInfo_MarshalMLS gi)) (\<lambda>b.
    Inr (b, RatchetTreeExtension gi))))"

definition ExternalJoin :: "Std \<Rightarrow> (KeyKind \<Rightarrow> (Signer \<times> bytes) res) \<Rightarrow> Rand \<Rightarrow> Server \<Rightarrow> bytes list \<Rightarrow> bytes \<Rightarrow> bytes \<Rightarrow> bool \<Rightarrow>
  (u32 \<times> bytes \<times> bytes) rpc \<times> Server" where
  "ExternalJoin std fresh rnd s psks groupInfo identity encryptHandshake =
    (case
       (if psks \<noteq> [] then Inl (Status Unimplemented ''PSKs in external join not supported'')
        else
          bindS (orStatus InvalidArgument ''parse group_info'' (GroupInfo_UnmarshalMLS groupInfo)) (\<lambda>gi.
          let cs = gc_CipherSuite (gi_GroupContext gi) in
          bindS (lookupSuite (ucast cs)) (\<lambda>su.
          bindS (orStatus Internal ''newSigner'' (newSigner fresh cs)) (\<lambda>(signer, _).
          bindS (orStatus Internal ''ExternalCommit'' (ExternalCommit std rnd su gi (basicCredential identity) signer
            interopLifetime)) (\<lambda>(g, commit).
          Inr (su, SetEncryptHandshakes g encryptHandshake, commit)))))) of
       Inl e \<Rightarrow> (Inl e, s)
     | Inr (su, g, commit) \<Rightarrow>
         let (i, s) = addState s su g in
         (Inr (i, commit, Group_EpochAuthenticator g), s))"

definition Free :: "Server \<Rightarrow> u32 \<Rightarrow> Server" where
  "Free s i = s\<lparr>states := (states s)(i := None)\<rparr>"

end
