(* ===== verification/PrivatePath.thy ===== *)
theory PrivatePath
  imports GroupCommit KEMDemo
begin

text \<open>
  The private keys of a member across commits: the lowest common ancestor that
  \<^verbatim>\<open>commonAncestor\<close> finds, and the keys that \<^verbatim>\<open>installJoinerPriv\<close> leaves the member with.
\<close>

section \<open>Lowest common ancestors\<close>

lemma meet_finds:
  assumes n: "unat n = 2 ^ h" "h \<le> 31" and "x < NodeWidth n" "y < NodeWidth n"
    and "unat x = node k q" "unat y = node k q'"
  shows "\<exists>z. meet n x y = Some (Ok z) \<and> z < NodeWidth n \<and> below (unat z) (unat x) \<and> below (unat z) (unat y) \<and>
    (\<forall>w. below w (unat x) \<longrightarrow> below w (unat y) \<longrightarrow> below w (unat z))"
  using assms(3-6)
proof (induction "h - k" arbitrary: x y k q q' rule: less_induct)
  case less
  show ?case
  proof (cases "x = y")
    case True
    then show ?thesis using less.prems by (intro exI [of _ x]) (simp add: meet.simps)
  next
    case False
    have kq: "k \<le> h" "q < 2 ^ (h - k)" "q' < 2 ^ (h - k)"
      using less.prems coord_in_root [of n] full_count [OF n] by metis+
    have "k \<noteq> h"
    proof
      assume "k = h"
      with kq have "q = q'" by simp
      with less.prems(3,4) False show False by (simp add: word_unat_eq_iff)
    qed
    moreover have "unat (Root n) = node h 0" using Root_nat full_count [OF n] by simp
    then have "level (Root n) = h" by (rule level_coord)
    ultimately have nr: "x \<noteq> Root n" "y \<noteq> Root n"
      using level_coord [OF less.prems(3)] level_coord [OF less.prems(4)] by auto
    obtain px where px: "k < h" "Parent x n = Ok (px, True)" "unat px = node (Suc k) (q div 2)" "px < NodeWidth n"
      using full_parent [OF n less.prems(1) nr(1) less.prems(3)] by blast
    obtain py where py: "Parent y n = Ok (py, True)" "unat py = node (Suc k) (q' div 2)" "py < NodeWidth n"
      using full_parent [OF n less.prems(2) nr(2) less.prems(4)] by blast
    have "h - Suc k < h - k" using px(1) by simp
    from less.hyps [OF this px(4) py(3) px(3) py(2)] obtain z where z: "meet n px py = Some (Ok z)"
        "z < NodeWidth n" "below (unat z) (unat px)" "below (unat z) (unat py)"
        "\<forall>w. below w (unat px) \<longrightarrow> below w (unat py) \<longrightarrow> below w (unat z)"
      by blast
    have "meet n x y = Some (Ok z)"
      using False px(2) py(1) z(1) by (simp add: meet.simps [of n x y])
    moreover have "below (unat px) (unat x)" "below (unat py) (unat y)"
      unfolding px(3) py(2) less.prems(3,4) by (rule below_parent)+
    moreover have "below w (unat px) \<and> below w (unat py)" if w: "below w (unat x)" "below w (unat y)" for w
    proof -
      obtain j r where jr: "w = node j r" using node_nlevel [of w] by metis
      have b: "k \<le> j" "r = q div 2 ^ (j - k)" "r = q' div 2 ^ (j - k)"
        using w unfolding jr less.prems(3,4) below_node by auto
      have "j \<noteq> k"
      proof
        assume "j = k"
        then have "q = q'" using b by simp
        with less.prems(3,4) False show False by (simp add: word_unat_eq_iff)
      qed
      with b(1) have "Suc k \<le> j" "j - k = Suc (j - Suc k)" by simp_all
      then show ?thesis
        using b(2,3) unfolding jr px(3) py(2) below_node by (simp add: div_mult2_eq)
    qed
    ultimately show ?thesis using z(2-5) below_trans by blast
  qed
qed

lemma common_ancestor:
  assumes t: "fullTree h t" and "r < leafCount t" "s < leafCount t"
  obtains z where "commonAncestor (2 * r) (2 * s) (leafCount t) = Ok z" "unat z < length (nodes t)"
    "\<And>w. below w (unat z) \<longleftrightarrow> below w (2 * unat r) \<and> below w (2 * unat s)"
proof -
  note b = fullTree_leaf [OF t]
  have w: "unat (leafCount t) = 2 ^ h" "h \<le> 31" "unat (NodeWidth (leafCount t)) = length (nodes t)"
    using fullTree_width [OF t] t by (auto simp: fullTree_def)
  have c: "unat (2 * r) = node 0 (unat r)" "unat (2 * s) = node 0 (unat s)"
    using b(2) assms(2,3) by (simp_all add: node_def)
  have "2 * r < NodeWidth (leafCount t)" "2 * s < NodeWidth (leafCount t)"
    using b assms(2,3) w(3) by (simp_all add: word_less_nat_alt)
  from meet_finds [OF w(1,2) this c] obtain z where z: "meet (leafCount t) (2 * r) (2 * s) = Some (Ok z)"
      "z < NodeWidth (leafCount t)" "below (unat z) (unat (2 * r))" "below (unat z) (unat (2 * s))"
      "\<forall>w. below w (unat (2 * r)) \<longrightarrow> below w (unat (2 * s)) \<longrightarrow> below w (unat z)"
    by blast
  have l: "level (2 * r) = 0" "level (2 * s) = 0" using c level_coord by blast+
  then have "commonAncestor (2 * r) (2 * s) (leafCount t) = Ok z"
    using z(1) by (simp add: commonAncestor_def climbTo.simps)
  moreover have "unat z < length (nodes t)" using z(2) w(3) by (simp add: word_less_nat_alt)
  moreover have "below w (unat z) \<longleftrightarrow> below w (2 * unat r) \<and> below w (2 * unat s)" for w
    using z(3-5) b(2) assms(2,3) below_trans by auto
  ultimately show ?thesis using that by blast
qed

section \<open>Installing path secrets\<close>

text \<open>Deriving the secret of the parent and the key pair of a node does not fail.\<close>

definition derives :: "Std \<Rightarrow> Suite \<Rightarrow> bool" where
  "derives std s \<longleftrightarrow> (\<forall>sec. (\<exists>sec'. DeriveSecret std s sec ''path'' = Ok sec') \<and>
    (\<exists>kp. nodeKeyPair std s sec = Ok kp))"

lemma AddPathSecret_derives:
  assumes "derives std s"
  obtains k where "AddPathSecret std s priv nd sec = Ok (priv\<lparr>privs := (privs priv)(nd \<mapsto> k)\<rparr>)"
proof -
  obtain k pub where "nodeKeyPair std s sec = Ok (k, pub)" using assms unfolding derives_def by (metis surj_pair)
  then have "AddPathSecret std s priv nd sec = Ok (priv\<lparr>privs := (privs priv)(nd \<mapsto> k)\<rparr>)"
    by (simp add: AddPathSecret_def)
  then show ?thesis by (rule that)
qed

lemma installFrom_installs:
  assumes t: "fullTree h t" and d: "derives std s" and "unat nd < length (nodes t)"
  shows "\<exists>p. installFrom std s (leafCount t) priv nd sec = Ok p \<and>
    (\<forall>d. privs p d \<noteq> None \<longleftrightarrow> privs priv d \<noteq> None \<or> below (unat d) (unat nd) \<and> unat d < length (nodes t))"
  using assms(3)
proof (induction "32 - level nd" arbitrary: nd sec priv rule: less_induct)
  case less
  obtain k where k: "AddPathSecret std s priv nd sec = Ok (priv\<lparr>privs := (privs priv)(nd \<mapsto> k)\<rparr>)"
    by (rule AddPathSecret_derives [OF d])
  let ?p = "priv\<lparr>privs := (privs priv)(nd \<mapsto> k)\<rparr>"
  have w: "unat (leafCount t) = 2 ^ h" "h \<le> 31" "unat (NodeWidth (leafCount t)) = length (nodes t)"
    using fullTree_width [OF t] t by (auto simp: fullTree_def)
  have nw: "nd < NodeWidth (leafCount t)" using less.prems w(3) by (simp add: word_less_nat_alt)
  obtain j q where jq: "unat nd = node j q" by (rule coord_exists)
  show ?case
  proof (cases "nd = Root (leafCount t)")
    case True
    have "d = nd" if "below (unat d) (unat nd)" "unat d < length (nodes t)" for d
    proof -
      obtain i r where ir: "unat d = node i r" by (rule coord_exists)
      have root: "unat nd = node h 0" using True Root_nat full_count [OF w(1,2)] by simp
      have "d < NodeWidth (leafCount t)" using that(2) w(3) by (simp add: word_less_nat_alt)
      then have "i \<le> h" "r < 2 ^ (h - i)" using coord_in_root [OF _ _ ir] full_count [OF w(1,2)] by auto
      moreover have "h \<le> i" "r = 0" using that(1) unfolding ir root below_node by auto
      ultimately show ?thesis using ir root by (simp add: word_unat_eq_iff)
    qed
    then have "privs ?p d \<noteq> None \<longleftrightarrow> privs priv d \<noteq> None \<or> below (unat d) (unat nd) \<and> unat d < length (nodes t)" for d
      using less.prems by auto
    then show ?thesis using k True by (intro exI [of _ ?p]) (simp add: installFrom.simps [of std s "leafCount t" priv])
  next
    case False
    obtain sec' where sec': "DeriveSecret std s sec ''path'' = Ok sec'" using d by (auto simp: derives_def)
    obtain p where p: "Parent nd (leafCount t) = Ok (p, True)" "unat p = node (Suc j) (q div 2)"
        "p < NodeWidth (leafCount t)"
      using full_parent [OF w(1,2) nw False jq] by blast
    have pl: "unat p < length (nodes t)" using p(3) w(3) by (simp add: word_less_nat_alt)
    have "32 - level p < 32 - level nd"
      using level_coord [OF jq] level_coord [OF p(2)] level_le [of p] by simp
    from less.hyps [OF this pl, of ?p sec'] obtain p' where p': "installFrom std s (leafCount t) ?p p sec' = Ok p'"
        "\<forall>d. privs p' d \<noteq> None \<longleftrightarrow> privs ?p d \<noteq> None \<or> below (unat d) (unat p) \<and> unat d < length (nodes t)"
      by blast
    have "below (unat d) (unat nd) \<longleftrightarrow> d = nd \<or> below (unat d) (unat p)" for d
    proof -
      obtain i r where ir: "unat d = node i r" by (rule coord_exists)
      have "r = q \<and> i = j \<longleftrightarrow> d = nd" using ir jq by (metis word_unat_eq_iff nlevel_node npos_node)
      moreover have "j \<le> i \<longleftrightarrow> i = j \<or> Suc j \<le> i" by auto
      moreover have "q div 2 ^ (i - j) = q div 2 div 2 ^ (i - Suc j)" if "Suc j \<le> i"
      proof -
        have "i - j = Suc (i - Suc j)" using that by simp
        then show ?thesis by (simp add: div_mult2_eq)
      qed
      ultimately show ?thesis unfolding ir jq p(2) below_node by auto
    qed
    then have "privs p' d \<noteq> None \<longleftrightarrow> privs priv d \<noteq> None \<or> below (unat d) (unat nd) \<and> unat d < length (nodes t)" for d
      using p'(2) less.prems by auto
    moreover have "installFrom std s (leafCount t) priv nd sec = Ok p'"
      using k False sec' p(1) p'(1) by (simp add: installFrom.simps [of std s "leafCount t" priv])
    ultimately show ?thesis by blast
  qed
qed

lemma installJoinerPriv_keys:
  assumes t: "fullTree h t" and l: "own < leafCount t" "sender < leafCount t" and "derives std s"
  shows "\<exists>p. installJoinerPriv std s (NewTreeKEMPrivate own key) ps own sender (leafCount t) = Ok p \<and>
    (\<forall>d. privs p d \<noteq> None \<longleftrightarrow> d = 2 * own \<or> unat d < length (nodes t) \<and>
      below (unat d) (2 * unat own) \<and> below (unat d) (2 * unat sender))"
proof -
  obtain z where z: "commonAncestor (2 * own) (2 * sender) (leafCount t) = Ok z" "unat z < length (nodes t)"
      "\<And>w. below w (unat z) \<longleftrightarrow> below w (2 * unat own) \<and> below w (2 * unat sender)"
    using common_ancestor [OF t l] by blast
  from installFrom_installs [OF t assms(4) z(2), of "NewTreeKEMPrivate own key" ps] z(1,3) show ?thesis
    by (auto simp: installJoinerPriv_def NewTreeKEMPrivate_def)
qed

section \<open>Properties\<close>



end
