(* ===== verification/CipherProps.thy ===== *)
theory CipherProps
  imports Cipher
begin

text \<open>
  What the operations of \<^verbatim>\<open>src/mls/cipher\<close> guarantee: the labelled encodings keep different uses
  of a key apart, and both ends of an external initialisation compute the same secret.
\<close>

section \<open>Domain separation\<close>

lemma Builder_WriteOpaqueV_empty: "Builder_WriteOpaqueV p NewBuilder = WriteOpaqueV p"
  by (cases "goLen p"; cases "WriteVarint (case goLen p of Inr n \<Rightarrow> n)")
    (auto simp: Builder_WriteOpaqueV_def WriteOpaqueV_def Builder_WriteVarint_def NewBuilder_def)

lemma opaque_prefix_free:
  assumes "WriteOpaqueV x = Ok a" "WriteOpaqueV y = Ok b" "a @ r = b @ r'"
  shows "x = y \<and> r = r'"
  using opaque.prefix_free [of x y a b r r'] assms by (simp add: Builder_WriteOpaqueV_empty)

lemma bytesOf_inject [simp]: "bytesOf a = bytesOf b \<longleftrightarrow> a = b"
proof -
  have "inj (of_char :: char \<Rightarrow> byte)"
  proof (rule injI)
    fix c d :: char assume "(of_char c :: byte) = of_char d"
    then have "unat (of_nat (of_char c) :: byte) = unat (of_nat (of_char d) :: byte)"
      by (metis of_nat_of_char)
    then have "(of_char c :: nat) mod 256 = of_char d mod 256" unfolding unat_of_nat by simp
    then show "c = d" by simp
  qed
  then show ?thesis by (simp add: bytesOf_def inj_map_eq_map)
qed

lemma bytesOf_append: "bytesOf (a @ b) = bytesOf a @ bytesOf b"
  by (simp add: bytesOf_def)

lemma labeledContext_inject:
  assumes "labeledContext l d = Ok x" "labeledContext l' d' = Ok x"
  shows "l = l' \<and> d = d'"
proof -
  obtain a b where 1: "WriteOpaqueV (bytesOf (mlsLabelPrefix @ l)) = Ok a" "WriteOpaqueV d = Ok b" "x = a @ b"
    using assms(1) by (auto simp: labeledContext_def bindR_Inr_iff)
  obtain a' b' where 2: "WriteOpaqueV (bytesOf (mlsLabelPrefix @ l')) = Ok a'" "WriteOpaqueV d' = Ok b'" "x = a' @ b'"
    using assms(2) by (auto simp: labeledContext_def bindR_Inr_iff)
  from opaque_prefix_free [OF 1(1) 2(1), of b b'] 1(3) 2(3)
  have "l = l'" "b = b'" by (auto simp: bytesOf_append)
  with opaque_prefix_free [OF 1(2) 2(2), of "[]" "[]"] show ?thesis by simp
qed

lemma kdfLabel_inject:
  assumes "kdfLabel l c n = Ok x" "kdfLabel l' c' n' = Ok x"
  shows "l = l' \<and> c = c'"
proof -
  obtain a b where 1: "WriteOpaqueV (bytesOf (mlsLabelPrefix @ l)) = Ok a" "WriteOpaqueV c = Ok b"
      "x = be16 (of_int n) @ a @ b"
    using assms(1) by (auto simp: kdfLabel_def bindR_Inr_iff)
  obtain a' b' where 2: "WriteOpaqueV (bytesOf (mlsLabelPrefix @ l')) = Ok a'" "WriteOpaqueV c' = Ok b'"
      "x = be16 (of_int n') @ a' @ b'"
    using assms(2) by (auto simp: kdfLabel_def bindR_Inr_iff)
  from opaque_prefix_free [OF 1(1) 2(1), of b b'] 1(3) 2(3)
  have "l = l'" "b = b'" by (auto simp: bytesOf_append)
  with opaque_prefix_free [OF 1(2) 2(2), of "[]" "[]"] show ?thesis by simp
qed

section \<open>Laws of the primitives\<close>

text \<open>Diffie-Hellman commutes and a public key parses as itself; the ephemeral public keys of X25519
  have 32 bytes.\<close>

definition dhLaw :: "Std \<Rightarrow> Curve \<Rightarrow> bool" where
  "dhLaw std cv \<longleftrightarrow>
    (\<forall>sk. ecdhNewPublicKey std cv (ecdhPublic std cv sk) = Ok (ecdhPublic std cv sk)) \<and>
    (\<forall>sk sk'. ecdh std cv sk (ecdhPublic std cv sk') = ecdh std cv sk' (ecdhPublic std cv sk)) \<and>
    (\<forall>rnd sk. ecdhGenerate std cv rnd = Ok sk \<longrightarrow> cv = X25519 \<longrightarrow> length (ecdhPublic std cv sk) = 32)"

text \<open>Decapsulation with the key that belongs to an encapsulation key returns the encapsulated
  secret; ciphertexts have 1088 bytes.\<close>

definition mlkemPair :: "Std \<Rightarrow> bytes \<Rightarrow> bytes \<Rightarrow> bool" where
  "mlkemPair std dk ek \<longleftrightarrow>
    (\<forall>pk rnd. mlkemNewEncapsulationKey std ek = Ok pk \<longrightarrow>
      mlkemDecapsulate std dk (snd (mlkemEncapsulate std rnd pk)) = Ok (fst (mlkemEncapsulate std rnd pk)) \<and>
      length (snd (mlkemEncapsulate std rnd pk)) = 1088)"

text \<open>The public key \<^verbatim>\<open>pub\<close> belongs to the private key \<^verbatim>\<open>priv\<close>, for the KEM of the suite.\<close>

definition externalKeyPair :: "Std \<Rightarrow> Suite \<Rightarrow> bytes \<Rightarrow> bytes \<Rightarrow> bool" where
  "externalKeyPair std s priv pub \<longleftrightarrow>
    (case curve s of
       Some cv \<Rightarrow> dhLaw std cv \<and> (\<exists>sk. ecdhNewPrivateKey std cv priv = Ok sk \<and> ecdhPublic std cv sk = pub)
     | None \<Rightarrow> dhLaw std X25519 \<and>
         (\<exists>dkM skX. xwingExpandSeed std priv = Ok (dkM, skX) \<and> drop 1184 pub = ecdhPublic std X25519 skX \<and>
           mlkemPair std dkM (take 1184 pub)))"

section \<open>Properties\<close>

text \<open>C38: uses of a key under different labels or contexts never meet: the bytes that are signed or
  bound to an HPKE ciphertext determine label and content, and the input of the key derivation
  determines label and context.
\<close>
theorem labels_separate:
  "(labeledContext l d = Ok x \<longrightarrow> labeledContext l' d' = Ok x \<longrightarrow> l = l' \<and> d = d') \<and>
   (kdfLabel l d n = Ok x \<longrightarrow> kdfLabel l' d' n' = Ok x \<longrightarrow> l = l' \<and> d = d')"
  using labeledContext_inject kdfLabel_inject by blast

theorem labels_separate_witness:
  "labeledContext ''a'' [1] = Ok [9, 77, 76, 83, 32, 49, 46, 48, 32, 97, 1, 1] \<and>
   labeledContext ''b'' [1] \<noteq> Ok [9, 77, 76, 83, 32, 49, 46, 48, 32, 97, 1, 1]"
proof -
  have "labeledContext ''a'' [1] = Ok [9, 77, 76, 83, 32, 49, 46, 48, 32, 97, 1, 1]"
    by (simp add: labeledContext_def mlsLabelPrefix_def bytesOf_def short_strings)
  then show ?thesis
    using labels_separate [of "''a''" "[1]" "[9, 77, 76, 83, 32, 49, 46, 48, 32, 97, 1, 1]" "''b''" "[1]" 0 0]
    by auto
qed

text \<open>the two ends of an external commit agree on the initial secret: what a member decapsulates
  with the private key of the published external key is what the joiner encapsulated, for the
  Diffie-Hellman suites and for X-Wing.
\<close>
theorem external_init_agreement:
  assumes "externalKeyPair std s priv pub" "ExternalInitEncap std s rnd pub = Ok (enc, ss)"
  shows "ExternalInitDecap std s priv enc = Ok ss"
proof (cases "curve s")
  case None
  then obtain dkM skX where k: "dhLaw std X25519" "xwingExpandSeed std priv = Ok (dkM, skX)"
      "drop 1184 pub = ecdhPublic std X25519 skX" "mlkemPair std dkM (take 1184 pub)"
    using assms(1) by (auto simp: externalKeyPair_def)
  from assms(2) None have x: "KEM_ID (kem s) = 0x647a" "xwingEncap std rnd pub = Ok (enc, ss)"
    by (auto simp: ExternalInitEncap_def split: if_splits)
  then obtain pkM ek ssX where e: "mlkemNewEncapsulationKey std (take 1184 pub) = Ok pkM"
      "ecdhGenerate std X25519 rnd = Ok ek" "ecdh std X25519 ek (ecdhPublic std X25519 skX) = Ok ssX"
      "enc = snd (mlkemEncapsulate std rnd pkM) @ ecdhPublic std X25519 ek"
      "ss = xwingCombiner std (fst (mlkemEncapsulate std rnd pkM)) ssX (ecdhPublic std X25519 ek)
        (ecdhPublic std X25519 skX)"
    using k by (auto simp: xwingEncap_def Let_def bindR_Inr_iff dhLaw_def case_prod_beta split: if_splits)
  have "mlkemDecapsulate std dkM (snd (mlkemEncapsulate std rnd pkM)) = Ok (fst (mlkemEncapsulate std rnd pkM))"
      "length (snd (mlkemEncapsulate std rnd pkM)) = 1088" "length (ecdhPublic std X25519 ek) = 32"
      "ecdh std X25519 skX (ecdhPublic std X25519 ek) = Ok ssX"
      "ecdhNewPublicKey std X25519 (ecdhPublic std X25519 ek) = Ok (ecdhPublic std X25519 ek)"
    using k(1,4) e(1,2,3) by (auto simp: mlkemPair_def dhLaw_def)
  with None k(2) e(4,5) x(1) show ?thesis
    by (simp add: ExternalInitDecap_def xwingDecap_def)
next
  case (Some cv)
  with assms show ?thesis
    by (auto simp: externalKeyPair_def dhLaw_def ExternalInitEncap_def ExternalInitDecap_def bindR_Inr_iff Let_def)
qed

lemma joinBytes_commute: "joinBytes a b = joinBytes b a"
  by (induction a b rule: list_induct2') (auto simp: joinBytes_def or.commute)

theorem external_init_agreement_witness:
  "\<exists>enc ss. ExternalInitEncap demoStd sampleSuite [5] [1, 2] = Ok (enc, ss) \<and>
    ExternalInitDecap demoStd sampleSuite [1, 2] enc = Ok ss"
proof -
  have "\<exists>enc ss. ExternalInitEncap demoStd sampleSuite [5] [1, 2] = Ok (enc, ss)"
    by (simp add: ExternalInitEncap_def sampleSuite_def demoStd_def extractAndExpand_def labeledExtract_def
        labeledExpand_def kdfExpand_def)
  moreover have "externalKeyPair demoStd sampleSuite [1, 2] [1, 2]"
    by (auto simp: externalKeyPair_def dhLaw_def sampleSuite_def demoStd_def joinBytes_commute)
  ultimately show ?thesis using external_init_agreement by blast
qed

end
