(* ===== verification/FramingProps.thy ===== *)
theory FramingProps
  imports Framing CipherProps
begin

text \<open>
  What the framing of \<^verbatim>\<open>src/mls/framing\<close> guarantees: the envelope is read exactly as it was
  written, the signed bytes determine what was signed, a protected message is accepted by a
  receiver with the same secrets and returns the content that was protected, and an accepted
  message carries a signature that verifies.
\<close>

section \<open>Laws of the primitives\<close>

text \<open>Signatures made with the signer verify under the public key; opening undoes sealing.\<close>

definition signerOf :: "Std \<Rightarrow> Suite \<Rightarrow> Signer \<Rightarrow> bytes \<Rightarrow> bool" where
  "signerOf std s signer pub \<longleftrightarrow>
    (\<forall>msg sig. signClassical std s signer msg = Ok sig \<longrightarrow> verifyClassical std s pub msg sig)"

definition gcmLaw :: "Std \<Rightarrow> bool" where
  "gcmLaw std \<longleftrightarrow> (\<forall>k n pt aad. gcmOpen std k n (gcmSeal std k n pt aad) aad = Ok pt)"

lemma sign_verify:
  assumes "signerOf std s signer pub" "SignWithLabel std s signer label msg = Ok sig"
  shows "VerifyWithLabel std s pub label msg sig"
  using assms by (auto simp: SignWithLabel_def VerifyWithLabel_def signerOf_def bindR_Inr_iff)

lemma seal_open:
  assumes "gcmLaw std" "Seal std s key nonce aad pt = Ok ct"
  shows "Open std s key nonce aad ct = Ok pt"
  using assms by (auto simp: Seal_def Open_def gcmLaw_def bindR_Inr_iff split: if_splits)

section \<open>Signing\<close>

text \<open>Signing sets the signature and nothing else, and the result verifies.\<close>

lemma ac_sign_verifies:
  assumes "ac_sign std s signer gc ac = Ok ac'" "signerOf std s signer pub"
  shows "ac_verify std s pub gc ac' \<and> ac_Content ac' = ac_Content ac \<and>
    ac_WireFormat ac' = ac_WireFormat ac \<and>
    auth_ConfirmationTag (ac_Auth ac') = auth_ConfirmationTag (ac_Auth ac)"
  using assms by (auto simp: ac_sign_def ac_verify_def bindR_Inr_iff sign_verify)

text \<open>The signed bytes, part by part.\<close>

definition bindsContext :: "FramedContent \<Rightarrow> bool" where
  "bindsContext fc \<longleftrightarrow> SenderType (fc_Sender fc) \<in> {SenderTypeMember, SenderTypeNewMemberCommit}"

lemma tbs_parts:
  assumes "framedContentTBS wfmt fc gc = Ok t"
  obtains out rest where "FramedContent_marshal fc NewBuilder = Ok out"
    "t = be16 ProtocolVersionMLS10 @ be16 wfmt @ out @ rest"
    "bindsContext fc \<Longrightarrow> \<exists>g. gc = Some g \<and> GroupContext_marshal g NewBuilder = Ok rest"
    "\<not> bindsContext fc \<Longrightarrow> rest = []"
proof -
  obtain b where b: "FramedContent_marshal fc (be16 ProtocolVersionMLS10 @ be16 wfmt) = Ok b"
    using assms by (auto simp: framedContentTBS_def bindR_Inr_iff write_fun NewBuilder_def)
  then obtain out where out: "emits (FramedContent_marshal fc) out"
    using framedcontent.frame [of fc] by (auto simp: framed_def)
  then have "b = be16 ProtocolVersionMLS10 @ be16 wfmt @ out"
    using b by (simp add: emits_def)
  then show thesis
    using assms b out that [of out] framedcontent.marshal_emits [of fc out]
    by (cases gc) (auto simp: framedContentTBS_def bindR_Inr_iff write_fun NewBuilder_def
        bindsContext_def GroupContext_MarshalMLS_def split: if_splits)
qed

lemma be16_inject [simp]: "be16 v = be16 w \<longleftrightarrow> v = w"
  by (metis unbe16_be16)

section \<open>Sealing and opening\<close>

lemma private_content_decodes:
  assumes "privateMessageContent fc auth pad = Ok pt"
    and "wfContent (fc_ContentType fc) (fc_Content fc)" "wfAuthData (fc_ContentType fc) auth"
  shows "decodePrivateMessageContent pt (fc_ContentType fc) = Ok (fc_Content fc, auth)"
proof -
  let ?ct = "fc_ContentType fc"
  obtain b b2 where b: "marshalContent ?ct (fc_Content fc) NewBuilder = Ok b"
    "FramedContentAuthData_marshal ?ct auth b = Ok b2"
    and pt: "pt = b2 @ (if pad > 0 then replicate (nat pad) 0 else [])"
    using assms(1) by (auto simp: privateMessageContent_def bindR_Inr_iff write_fun split: if_splits)
  obtain a where a: "emits (FramedContentAuthData_marshal ?ct auth) a"
    using b(2) authdata.frame [of ?ct auth] by (auto simp: framed_def)
  then have b2: "b2 = b @ a" using b(2) by (simp add: emits_def)
  define p where "p = (if pad > 0 then replicate (nat pad) (0 :: byte) else [])"
  have z: "list_all (\<lambda>x. x = 0) p" by (simp add: p_def list_all_iff)
  have "decodeContent ?ct (b @ a @ p) = Ok (fc_Content fc, a @ p)"
    using content.roundtrip [OF assms(2) b(1)] by simp
  moreover have "decodeFramedContentAuthData ?ct (a @ p) = Ok (auth, p)"
    using authdata.decode_encode [OF assms(3) a] by simp
  ultimately show ?thesis
    using z by (simp add: decodePrivateMessageContent_def pt b2 p_def [symmetric])
qed

text \<open>Opening a sealed message leads to the signature check on what was sealed.\<close>

lemma sealed_opens:
  assumes "sealPrivate std s st sds fc auth generation guard pad = Ok m" and "gcmLaw std"
    and wf: "wfFramedContent fc" "wfAuthData (fc_ContentType fc) auth"
    and member: "SenderType (fc_Sender fc) = SenderTypeMember" and "length guard = 4"
  shows "UnprotectPrivate std s signaturePub gc st sds m =
    bindR (signaturePub (snd_LeafIndex (fc_Sender fc))) (\<lambda>pub.
      let ac = \<lparr>ac_WireFormat = WireFormatPrivateMessage, ac_Content = fc, ac_Auth = auth\<rparr> in
      if \<not> ac_verify std s pub gc ac then Err ''framing: signature verification failed'' else Ok ac)"
proof -
  let ?leaf = "snd_LeafIndex (fc_Sender fc)" and ?ct = "fc_ContentType fc"
  let ?sd = "\<lparr>sd_LeafIndex = ?leaf, sd_Generation = generation, ReuseGuard = guard\<rparr>"
  obtain key nonce aad pt guarded ct sdKey sdNonce sdAAD sdb enc where
    k: "KeyNonce std st ?leaf (ratchetTypeFor ?ct) generation = Ok (key, nonce)"
    and aad: "privateContentAAD (fc_GroupID fc) (fc_Epoch fc) ?ct (fc_AuthenticatedData fc) = Ok aad"
    and pt: "privateMessageContent fc auth pad = Ok pt"
    and g: "applyReuseGuard nonce guard = Ok guarded"
    and ct: "Seal std s key guarded aad pt = Ok ct"
    and sk: "SenderDataKeyNonce std s sds ct = Ok (sdKey, sdNonce)"
    and sa: "senderDataAAD (fc_GroupID fc) (fc_Epoch fc) ?ct = Ok sdAAD"
    and sb: "senderData_marshal ?sd NewBuilder = Ok sdb"
    and enc: "Seal std s sdKey sdNonce sdAAD sdb = Ok enc"
    and m: "m = \<lparr>prv_GroupID = fc_GroupID fc, prv_Epoch = fc_Epoch fc, prv_ContentType = ?ct,
      prv_AuthenticatedData = fc_AuthenticatedData fc, EncryptedSenderData = enc, prv_Ciphertext = ct\<rparr>"
    using assms(1) unfolding sealPrivate_def by (auto simp: bindR_Inr_iff)
  have sd: "decodeSenderData sdb = Ok (?sd, [])"
    using senderdata.roundtrip [OF _ sb, of "[]"] assms(6) by (simp add: wfSenderData_def)
  have dec: "decodePrivateMessageContent pt ?ct = Ok (fc_Content fc, auth)"
    using private_content_decodes [OF pt _ wf(2)] wf(1) by (simp add: wfFramedContent_def)
  have "fc_Sender fc = \<lparr>SenderType = SenderTypeMember, snd_LeafIndex = ?leaf, snd_Index = 0\<rparr>"
    using wf(1) member by (cases "fc_Sender fc") (simp add: wfFramedContent_def wfSender_def)
  then have "\<lparr>fc_GroupID = fc_GroupID fc, fc_Epoch = fc_Epoch fc,
      fc_Sender = \<lparr>SenderType = SenderTypeMember, snd_LeafIndex = ?leaf, snd_Index = 0\<rparr>,
      fc_AuthenticatedData = fc_AuthenticatedData fc, fc_ContentType = ?ct, fc_Content = fc_Content fc\<rparr> = fc"
    by (cases fc) simp
  then show ?thesis
    unfolding UnprotectPrivate_def m
    by (simp add: k aad g sk sa sd dec seal_open [OF assms(2) ct] seal_open [OF assms(2) enc] Let_def
        cong: if_cong)
qed

text \<open>Under the key only what is in \<open>sent\<close> has been signed: a list of wire formats, contents and
  contexts.\<close>

definition unforged :: "Std \<Rightarrow> Suite \<Rightarrow> bytes \<Rightarrow> (u16 \<times> FramedContent \<times> GroupContext option) set \<Rightarrow> bool" where
  "unforged std s pub sent \<longleftrightarrow>
    (\<forall>tbs sig. VerifyWithLabel std s pub ''FramedContentTBS'' tbs sig \<longrightarrow>
      (\<exists>(wfmt, fc, gc) \<in> sent. wfFramedContent fc \<and> framedContentTBS wfmt fc gc = Ok tbs))"

lemma signed_bytes_inject:
  assumes "framedContentTBS wfmt fc gc = Ok t" "framedContentTBS wfmt' fc' gc' = Ok t"
    and wf: "wfFramedContent fc" "wfFramedContent fc'"
  shows "wfmt = wfmt' \<and> fc = fc' \<and> (bindsContext fc \<longrightarrow> gc = gc')"
proof -
  obtain o1 r1 where o1: "FramedContent_marshal fc NewBuilder = Ok o1"
    "t = be16 ProtocolVersionMLS10 @ be16 wfmt @ o1 @ r1"
    "bindsContext fc \<Longrightarrow> \<exists>g. gc = Some g \<and> GroupContext_marshal g NewBuilder = Ok r1"
    using tbs_parts [OF assms(1)] by metis
  obtain o2 r2 where o2: "FramedContent_marshal fc' NewBuilder = Ok o2"
    "t = be16 ProtocolVersionMLS10 @ be16 wfmt' @ o2 @ r2"
    "bindsContext fc' \<Longrightarrow> \<exists>g. gc' = Some g \<and> GroupContext_marshal g NewBuilder = Ok r2"
    using tbs_parts [OF assms(2)] by metis
  have "wfmt = wfmt'" "o1 @ r1 = o2 @ r2" using o1(2) o2(2) by simp_all
  moreover from this have "fc = fc' \<and> r1 = r2"
    using framedcontent.prefix_free [OF wf o1(1) o2(1)] by blast
  ultimately show ?thesis using o1(3) o2(3) groupcontext.encode_inj by fastforce
qed

lemma verified_was_sent:
  assumes "ac_verify std s pub gc ac" "unforged std s pub sent" "wfFramedContent (ac_Content ac)"
  shows "\<exists>gc'. (ac_WireFormat ac, ac_Content ac, gc') \<in> sent \<and> (bindsContext (ac_Content ac) \<longrightarrow> gc' = gc)"
proof -
  obtain tbs where t: "framedContentTBS (ac_WireFormat ac) (ac_Content ac) gc = Ok tbs"
      "VerifyWithLabel std s pub ''FramedContentTBS'' tbs (auth_Signature (ac_Auth ac))"
    using assms(1) by (auto simp: ac_verify_def split: sum.splits)
  then obtain wfmt fc gc' where f: "(wfmt, fc, gc') \<in> sent" "wfFramedContent fc" "framedContentTBS wfmt fc gc' = Ok tbs"
    using assms(2) unfolding unforged_def by blast
  from signed_bytes_inject [OF t(1) f(3) assms(3) f(2)] f(1) show ?thesis by auto
qed

text \<open>The committer's view of a commit and a receiver's.\<close>

lemma commit_input_split:
  assumes "SignCommit std s signer gc fc wfmt = Ok (confirmedInput, sig)"
    and "fc_ContentType fc = ContentTypeCommit" and "length tag = 32"
    and "AuthenticatedContent_MarshalMLS \<lparr>ac_WireFormat = wfmt, ac_Content = fc,
      ac_Auth = \<lparr>auth_Signature = sig, auth_ConfirmationTag = tag\<rparr>\<rparr> = Ok bytes"
  shows "SplitAuthenticatedContent s bytes = Ok (confirmedInput, tag)"
proof -
  have h: "WriteVarint (of_nat 32) = Ok [32]" by (simp add: WriteVarint_def)
  then have t: "emits (Builder_WriteOpaqueV tag) (32 # tag)"
    using assms(3) by (simp add: opaque_emits_iff)
  have b: "bytes = confirmedInput @ 32 # tag"
    using assms(1,2,4) t
    by (auto simp: SignCommit_def AuthenticatedContent_MarshalMLS_def ac_sign_def bindR_Inr_iff
        FramedContentAuthData_marshal_def emits_def)
  have w: "WriteOpaqueV (replicate 32 0) = Ok (32 # replicate 32 0)"
    using h by (simp add: WriteOpaqueV_def goLen_def)
  show ?thesis using assms(3) w by (simp add: SplitAuthenticatedContent_def b Let_def)
qed

lemma signed_commit_verifies:
  assumes "SignCommit std s signer gc fc wfmt = Ok (confirmedInput, sig)" "signerOf std s signer pub"
  shows "ac_verify std s pub gc \<lparr>ac_WireFormat = wfmt, ac_Content = fc,
    ac_Auth = \<lparr>auth_Signature = sig, auth_ConfirmationTag = tag\<rparr>\<rparr>"
  using assms by (auto simp: SignCommit_def ac_sign_def ac_verify_def bindR_Inr_iff sign_verify)

lemma commit_public_opens:
  assumes "SignCommit std s signer gc fc WireFormatPublicMessage = Ok (confirmedInput, sig)"
    and "AssembleCommitPublic std s gc mkey fc sig tag = Ok pm" "signerOf std s signer pub"
  shows "UnprotectPublic std s pub gc mkey pm = Ok \<lparr>ac_WireFormat = WireFormatPublicMessage,
    ac_Content = fc, ac_Auth = \<lparr>auth_Signature = sig, auth_ConfirmationTag = tag\<rparr>\<rparr>"
  using assms(2) signed_commit_verifies [OF assms(1,3)]
  by (auto simp: AssembleCommitPublic_def UnprotectPublic_def Let_def bindR_Inr_iff)

lemma commit_private_opens:
  assumes "SignCommit std s signer gc fc WireFormatPrivateMessage = Ok (confirmedInput, sig)"
    and "AssembleCommitPrivate std s st sds fc generation guard pad sig tag = Ok pm"
    and "signerOf std s signer pub" "signaturePub (snd_LeafIndex (fc_Sender fc)) = Ok pub" "gcmLaw std"
    and "wfFramedContent fc" "fc_ContentType fc = ContentTypeCommit" "length guard = 4"
  shows "UnprotectPrivate std s signaturePub gc st sds pm = Ok \<lparr>ac_WireFormat = WireFormatPrivateMessage,
    ac_Content = fc, ac_Auth = \<lparr>auth_Signature = sig, auth_ConfirmationTag = tag\<rparr>\<rparr>"
  using assms sealed_opens [of std s st sds fc "\<lparr>auth_Signature = sig, auth_ConfirmationTag = tag\<rparr>"
      generation guard pad pm signaturePub gc] signed_commit_verifies [OF assms(1,3), of tag]
  by (simp add: AssembleCommitPrivate_def wfAuthData_def Let_def split: if_splits)

section \<open>Properties\<close>

text \<open>C34: a public message made by \<^verbatim>\<open>ProtectPublic\<close> is accepted by \<^verbatim>\<open>UnprotectPublic\<close> with the same
  context and membership key and the signer's public key, and yields the content that was
  protected together with its confirmation tag if it is a commit.
\<close>
theorem public_message_accepted:
  assumes "ProtectPublic std s signer gc mkey fc tag = Ok m" and "signerOf std s signer pub"
  shows "\<exists>ac. UnprotectPublic std s pub gc mkey m = Ok ac \<and> ac_Content ac = fc \<and>
    (fc_ContentType fc = ContentTypeCommit \<longrightarrow> auth_ConfirmationTag (ac_Auth ac) = tag)"
proof -
  obtain ac where ac: "ac_sign std s signer gc (newContent WireFormatPublicMessage fc tag) = Ok ac"
    using assms(1) by (auto simp: ProtectPublic_def bindR_Inr_iff)
  from ac_sign_verifies [OF this assms(2)]
  have v: "ac_verify std s pub gc ac" "ac_Content ac = fc" "ac_WireFormat ac = WireFormatPublicMessage"
    "auth_ConfirmationTag (ac_Auth ac) = (if fc_ContentType fc = ContentTypeCommit then tag else [])"
    by (simp_all add: newContent_def)
  then obtain a where a: "ac = \<lparr>ac_WireFormat = WireFormatPublicMessage, ac_Content = fc, ac_Auth = a\<rparr>"
    by (cases ac) simp
  show ?thesis
    using assms(1) v unfolding ProtectPublic_def UnprotectPublic_def ac a
    by (auto simp: bindR_Inr_iff Let_def split: if_splits)
qed

text \<open>C35: a public message is accepted only if the owner of the key has signed exactly this content:
  if every signature that verifies under the key is one of the owner's, then an accepted message
  carries a content that the owner framed as a public message, for members and external
  joiners in the receiver's own group context; a member's message also carries the membership
  tag of that content.
\<close>
theorem public_message_unforged:
  assumes "UnprotectPublic std s pub gc mkey m = Ok ac" and "unforged std s pub sent"
    and "wfFramedContent (pub_Content m)"
  shows "ac_Content ac = pub_Content m \<and>
    (\<exists>gc'. (WireFormatPublicMessage, pub_Content m, gc') \<in> sent \<and>
      (bindsContext (pub_Content m) \<longrightarrow> gc' = gc)) \<and>
    (SenderType (fc_Sender (pub_Content m)) = SenderTypeMember \<longrightarrow>
      (\<exists>tbm. authenticatedContentTBM WireFormatPublicMessage (pub_Content m) (pub_Auth m) gc = Ok tbm \<and>
        MembershipTag m = MAC std s mkey tbm))"
proof -
  have "ac = \<lparr>ac_WireFormat = WireFormatPublicMessage, ac_Content = pub_Content m, ac_Auth = pub_Auth m\<rparr>"
    and "ac_verify std s pub gc ac"
    and "SenderType (fc_Sender (pub_Content m)) = SenderTypeMember \<longrightarrow>
      (\<exists>tbm. authenticatedContentTBM WireFormatPublicMessage (pub_Content m) (pub_Auth m) gc = Ok tbm \<and>
        MembershipTag m = MAC std s mkey tbm)"
    using assms(1) by (auto simp: UnprotectPublic_def Let_def res_simps)
  then show ?thesis using verified_was_sent [OF _ assms(2), of gc ac] assms(3) by simp
qed

text \<open>the confirmed transcript input that a committer computes before the confirmation tag
  exists is the one a receiver cuts off the complete authenticated content.
\<close>
theorem commit_input_agrees:
  assumes "SignCommit std s signer gc fc wfmt = Ok (confirmedInput, sig)"
    and "fc_ContentType fc = ContentTypeCommit" and "length tag = 32"
    and "AuthenticatedContent_MarshalMLS \<lparr>ac_WireFormat = wfmt, ac_Content = fc,
      ac_Auth = \<lparr>auth_Signature = sig, auth_ConfirmationTag = tag\<rparr>\<rparr> = Ok bytes"
  shows "SplitAuthenticatedContent s bytes = Ok (confirmedInput, tag)"
  by (rule commit_input_split [OF assms])

text \<open>C36: a private message made by \<^verbatim>\<open>ProtectPrivate\<close> is decrypted and accepted by
  \<^verbatim>\<open>UnprotectPrivate\<close> with the same secret tree, sender-data secret and group context, for any
  generation, reuse guard and amount of padding, and yields exactly the protected content.
\<close>
theorem private_message_accepted:
  assumes "ProtectPrivate std s signer gc st sds fc generation guard pad tag = Ok m"
    and "signerOf std s signer pub" and "signaturePub (snd_LeafIndex (fc_Sender fc)) = Ok pub"
    and "gcmLaw std" and "wfFramedContent fc" and "length guard = 4"
  shows "\<exists>ac. UnprotectPrivate std s signaturePub gc st sds m = Ok ac \<and> ac_Content ac = fc \<and>
    (fc_ContentType fc = ContentTypeCommit \<longrightarrow> auth_ConfirmationTag (ac_Auth ac) = tag)"
proof -
  obtain ac where ac: "ac_sign std s signer gc (newContent WireFormatPrivateMessage fc tag) = Ok ac"
    and seal: "sealPrivate std s st sds fc (ac_Auth ac) generation guard pad = Ok m"
    and member: "SenderType (fc_Sender fc) = SenderTypeMember"
    using assms(1) by (auto simp: ProtectPrivate_def bindR_Inr_iff split: if_splits)
  from ac_sign_verifies [OF ac assms(2)]
  have v: "ac_verify std s pub gc ac" "ac_Content ac = fc" "ac_WireFormat ac = WireFormatPrivateMessage"
    "auth_ConfirmationTag (ac_Auth ac) = (if fc_ContentType fc = ContentTypeCommit then tag else [])"
    by (simp_all add: newContent_def)
  then have "wfAuthData (fc_ContentType fc) (ac_Auth ac)" by (simp add: wfAuthData_def)
  moreover obtain a where a: "ac = \<lparr>ac_WireFormat = WireFormatPrivateMessage, ac_Content = fc, ac_Auth = a\<rparr>"
    using v by (cases ac) simp
  ultimately show ?thesis
    using sealed_opens [OF seal assms(4,5) _ member assms(6), of signaturePub gc] v assms(3)
    by (auto simp: Let_def)
qed

text \<open>C37: a private message is accepted only if the member at its leaf has signed exactly what is
  returned: the accepted content names a member leaf, the group, epoch, content type and
  authenticated data of the message, and the owner of that leaf's key has framed this very
  content as a private message in the receiver's group context.
\<close>
theorem private_message_unforged:
  assumes "UnprotectPrivate std s signaturePub gc st sds m = Ok ac"
    and "\<And>leaf pub. signaturePub leaf = Ok pub \<Longrightarrow> unforged std s pub (sent leaf)"
  shows "\<exists>leaf content. ac_Content ac =
      \<lparr>fc_GroupID = prv_GroupID m, fc_Epoch = prv_Epoch m,
       fc_Sender = \<lparr>SenderType = SenderTypeMember, snd_LeafIndex = leaf, snd_Index = 0\<rparr>,
       fc_AuthenticatedData = prv_AuthenticatedData m, fc_ContentType = prv_ContentType m,
       fc_Content = content\<rparr> \<and>
    (WireFormatPrivateMessage, ac_Content ac, gc) \<in> sent leaf"
proof -
  obtain leaf pt content auth pub where u: "decodePrivateMessageContent pt (prv_ContentType m) = Ok (content, auth)"
    "ac = \<lparr>ac_WireFormat = WireFormatPrivateMessage,
       ac_Content = \<lparr>fc_GroupID = prv_GroupID m, fc_Epoch = prv_Epoch m,
         fc_Sender = \<lparr>SenderType = SenderTypeMember, snd_LeafIndex = leaf, snd_Index = 0\<rparr>,
         fc_AuthenticatedData = prv_AuthenticatedData m, fc_ContentType = prv_ContentType m,
         fc_Content = content\<rparr>, ac_Auth = auth\<rparr>"
    "signaturePub leaf = Ok pub" "ac_verify std s pub gc ac"
    using assms(1) by (auto simp: UnprotectPrivate_def Let_def res_simps)
  then have "wfContent (prv_ContentType m) content"
    by (auto simp: decodePrivateMessageContent_def content.decode_iff res_simps)
  with u(2) have "wfFramedContent (ac_Content ac)" by (simp add: wfFramedContent_def wfSender_def)
  with verified_was_sent [OF u(4) assms(2) [OF u(3)]] u(2) show ?thesis by (auto simp: bindsContext_def)
qed

text \<open>Messages with exactly the body of their wire format.\<close>

definition wfMLSMessage :: "MLSMessage \<Rightarrow> bool" where
  "wfMLSMessage m \<longleftrightarrow>
    (msg_WireFormat m = WireFormatPublicMessage \<longrightarrow> msg_Private m = None \<and> pred_option wfPublicMessage (msg_Public m)) \<and>
    (msg_WireFormat m = WireFormatPrivateMessage \<longrightarrow> msg_Public m = None)"

definition MLSMessage_enc :: "MLSMessage \<Rightarrow> builder \<Rightarrow> builder res" where
  "MLSMessage_enc m b =
    bindR (WriteUint16 (msg_Version m) b) (\<lambda>b.
    bindR (WriteUint16 (msg_WireFormat m) b) (\<lambda>b.
    if msg_WireFormat m = WireFormatPublicMessage then
      bindR (fromOption (Error ''framing: MLSMessage public body missing'') (msg_Public m)) (\<lambda>p.
        PublicMessage_marshal p b)
    else if msg_WireFormat m = WireFormatPrivateMessage then
      bindR (fromOption (Error ''framing: MLSMessage private body missing'') (msg_Private m)) (\<lambda>p.
        PrivateMessage_marshal p b)
    else Err ''framing: unsupported wire format''))"

lemma MLSMessage_emits: "MLSMessage_MarshalMLS m = Ok data \<longleftrightarrow> reads (MLSMessage_enc m) data []"
proof -
  have "framed (MLSMessage_enc m)"
    unfolding MLSMessage_enc_def [abs_def] by (intro framed_intros)
  moreover have "MLSMessage_MarshalMLS m = MLSMessage_enc m NewBuilder"
    by (simp add: MLSMessage_MarshalMLS_def MLSMessage_enc_def)
  ultimately show ?thesis
    using framed_emits_iff [of "MLSMessage_enc m" data "[]"] by (simp add: reads_def NewBuilder_def)
qed

lemma MLSMessage_unmarshal_iff:
  "MLSMessage_UnmarshalMLS noMessage data = Ok m \<longleftrightarrow> wfMLSMessage m \<and> MLSMessage_MarshalMLS m = Ok data"
proof
  note defs = MLSMessage_emits MLSMessage_enc_def [abs_def] MLSMessage_UnmarshalMLS_def noMessage_def
    wfMLSMessage_def Let_def
  show "wfMLSMessage m \<and> MLSMessage_MarshalMLS m = Ok data"
    if "MLSMessage_UnmarshalMLS noMessage data = Ok m"
    using that unfolding defs
    by (cases m) (auto simp: res_simps codec_iff reads_simps framed_intros reads_one_point)
  show "MLSMessage_UnmarshalMLS noMessage data = Ok m"
    if "wfMLSMessage m \<and> MLSMessage_MarshalMLS m = Ok data"
    using that unfolding defs
    by (cases m) (auto simp: codec_dec reads_simps framed_intros fromOption_Inr_iff split: if_splits)
qed

text \<open>decoding an envelope accepts exactly the encodings of well-formed messages, and returns the
  encoded message.
\<close>
theorem mls_message_codec:
  "MLSMessage_UnmarshalMLS noMessage data = Ok m \<longleftrightarrow> wfMLSMessage m \<and> MLSMessage_MarshalMLS m = Ok data"
  by (rule MLSMessage_unmarshal_iff)

section \<open>Instances\<close>

definition demoKey :: bytes where
  "demoKey = replicate 32 9"

definition demoGC :: GroupContext where
  "demoGC = \<lparr>gc_Version = 1, gc_CipherSuite = 1, gc_GroupID = [], gc_Epoch = 0, gc_TreeHash = [],
     ConfirmedTranscriptHash = [], gc_Extensions = []\<rparr>"

text \<open>Application data \<open>[5]\<close> from leaf 0, and an empty commit.\<close>

definition demoFC :: "byte \<Rightarrow> bytes \<Rightarrow> FramedContent" where
  "demoFC ct content = \<lparr>fc_GroupID = [], fc_Epoch = 0,
     fc_Sender = \<lparr>SenderType = SenderTypeMember, snd_LeafIndex = 0, snd_Index = 0\<rparr>,
     fc_AuthenticatedData = [], fc_ContentType = ct, fc_Content = content\<rparr>"

definition demoSecretTree :: SecretTree where
  "demoSecretTree = \<lparr>st_suite = sampleSuite, st_nLeaves = 1, handshakeBase = [0 \<mapsto> [1]],
     applicationBase = [0 \<mapsto> [2]]\<rparr>"

lemma demo_signerOf: "signerOf demoStd sampleSuite (demoSigner demoKey) demoKey"
  by (simp add: signerOf_def signClassical_def verifyClassical_def sampleSuite_def demoSigner_def
      demoStd_def demoKey_def)

lemma demo_gcmLaw: "gcmLaw demoStd"
  by (simp add: gcmLaw_def demoStd_def)

lemma demo_wf: "wfFramedContent (demoFC ContentTypeApplication [5])"
  by (simp add: wfFramedContent_def demoFC_def wfSender_def wfContent_def)

lemmas frame_eval = framedContentTBS_def FramedContent_marshal_def Sender_marshal_def marshalContent_def
  write_fun be16_def be32_def be64_def GroupContext_MarshalMLS_def GroupContext_marshal_def
  WriteVectorV_def NewBuilder_def short_strings demoFC_def demoGC_def FramedContentAuthData_marshal_def

lemmas sign_eval = ac_sign_def SignWithLabel_def labeledContext_def bytesOf_def mlsLabelPrefix_def
  signClassical_def sampleSuite_def demoSigner_def demoKey_def

lemma demo_tbs: "wfmt < 64 \<Longrightarrow> framedContentTBS wfmt (demoFC ContentTypeApplication [5]) (Some demoGC) =
    Ok ([0, 1] @ be16 wfmt @ [0, 0, 0, 0, 0, 0, 0, 0, 0, 1, 0, 0, 0, 0, 0, 1, 1, 5, 0, 1, 0, 1, 0, 0, 0, 0,
      0, 0, 0, 0, 0, 0, 0, 0])"
  by (simp add: frame_eval)

theorem public_message_accepted_witness:
  "\<exists>m ac. ProtectPublic demoStd sampleSuite (demoSigner demoKey) (Some demoGC) [1]
      (demoFC ContentTypeApplication [5]) [] = Ok m \<and>
    UnprotectPublic demoStd sampleSuite demoKey (Some demoGC) [1] m = Ok ac \<and>
    ac_Content ac = demoFC ContentTypeApplication [5]"
proof -
  have "\<exists>m. ProtectPublic demoStd sampleSuite (demoSigner demoKey) (Some demoGC) [1]
      (demoFC ContentTypeApplication [5]) [] = Ok m"
    by (simp add: ProtectPublic_def newContent_def demo_tbs authenticatedContentTBM_def frame_eval sign_eval)
  then show ?thesis using public_message_accepted [OF _ demo_signerOf] by blast
qed

theorem commit_input_agrees_witness:
  "\<exists>inp sig bytes. SignCommit demoStd sampleSuite (demoSigner demoKey) (Some demoGC)
      (demoFC ContentTypeCommit [0, 0]) WireFormatPublicMessage = Ok (inp, sig) \<and>
    SplitAuthenticatedContent sampleSuite bytes = Ok (inp, replicate 32 3)"
proof -
  let ?fc = "demoFC ContentTypeCommit [0, 0]"
  have "\<exists>inp sig. SignCommit demoStd sampleSuite (demoSigner demoKey) (Some demoGC) ?fc
      WireFormatPublicMessage = Ok (inp, sig) \<and> length sig = 36"
    by (simp add: SignCommit_def frame_eval sign_eval)
  then obtain inp sig where c: "SignCommit demoStd sampleSuite (demoSigner demoKey) (Some demoGC) ?fc
      WireFormatPublicMessage = Ok (inp, sig)" and l: "length sig = 36" by blast
  have "\<exists>bytes. AuthenticatedContent_MarshalMLS \<lparr>ac_WireFormat = WireFormatPublicMessage,
      ac_Content = ?fc, ac_Auth = \<lparr>auth_Signature = sig, auth_ConfirmationTag = replicate 32 3\<rparr>\<rparr> = Ok bytes"
    using l by (simp add: AuthenticatedContent_MarshalMLS_def frame_eval)
  then obtain bytes where b: "AuthenticatedContent_MarshalMLS \<lparr>ac_WireFormat = WireFormatPublicMessage,
      ac_Content = ?fc, ac_Auth = \<lparr>auth_Signature = sig, auth_ConfirmationTag = replicate 32 3\<rparr>\<rparr> = Ok bytes"
    by blast
  have "SplitAuthenticatedContent sampleSuite bytes = Ok (inp, replicate 32 3)"
    by (rule commit_input_agrees [OF c _ _ b]) (simp_all add: demoFC_def)
  then show ?thesis using c by blast
qed

lemma demo_expand:
  assumes "length label < 50" "length ctx < 64" "0 \<le> len" "len \<le> 16"
  shows "\<exists>out. ExpandWithLabel demoStd s secret label ctx len = Ok out \<and> length out = nat len"
  using assms by (simp add: ExpandWithLabel_def kdfLabel_def kdfExpand_def short_strings demoStd_def
      bytesOf_def mlsLabelPrefix_def)

lemma demo_seal:
  "length key = 16 \<Longrightarrow> length nonce = 12 \<Longrightarrow> Seal demoStd s key nonce aad pt = Ok (key @ nonce @ pt)"
  by (simp add: Seal_def aeadCipher_def demoStd_def)

text \<open>A protected message, and the signed content in it.\<close>

lemma demo_protected:
  "\<exists>m ac. ProtectPrivate demoStd sampleSuite (demoSigner demoKey) (Some demoGC) demoSecretTree [3]
      (demoFC ContentTypeApplication [5]) 0 [1, 2, 3, 4] 2 [] = Ok m \<and>
    ac_sign demoStd sampleSuite (demoSigner demoKey) (Some demoGC)
      (newContent WireFormatPrivateMessage (demoFC ContentTypeApplication [5]) []) = Ok ac \<and>
    sealPrivate demoStd sampleSuite demoSecretTree [3] (demoFC ContentTypeApplication [5])
      (ac_Auth ac) 0 [1, 2, 3, 4] 2 = Ok m"
proof -
  have sz: "AEADKeySize sampleSuite = 16" "AEADNonceSize sampleSuite = 12"
    by (simp_all add: AEADKeySize_def AEADNonceSize_def sampleSuite_def)
  obtain key nonce where k: "DeriveTreeSecret demoStd sampleSuite [2] ''key'' 0 16 = Ok key"
      "length key = 16" "DeriveTreeSecret demoStd sampleSuite [2] ''nonce'' 0 12 = Ok nonce" "length nonce = 12"
    using demo_expand [of "''key''" "be32 0" 16] demo_expand [of "''nonce''" "be32 0" 12]
    by (fastforce simp: DeriveTreeSecret_def)
  have k2: "KeyNonce demoStd demoSecretTree 0 ApplicationRatchet 0 = Ok (key, nonce)"
    using k sz by (simp add: KeyNonce_def demoSecretTree_def ratchetTo_def Let_def)
  have sd: "\<exists>sk sn. SenderDataKeyNonce demoStd sampleSuite [3] ct = Ok (sk, sn) \<and> length sk = 16 \<and> length sn = 12" for ct
    using demo_expand [of "''key''" "take 32 ct" 16 sampleSuite "[3]"]
      demo_expand [of "''nonce''" "take 32 ct" 12 sampleSuite "[3]"] sz
    by (auto simp: SenderDataKeyNonce_def Let_def min_less_iff_disj)
  have g: "\<exists>n'. applyReuseGuard nonce [1, 2, 3, 4] = Ok n' \<and> length n' = 12"
    using k(4) by (simp add: applyReuseGuard_def goIndex_def goUpdate_def)
  have seal: "\<exists>m. sealPrivate demoStd sampleSuite demoSecretTree [3] (demoFC ContentTypeApplication [5]) auth 0 [1, 2, 3, 4] 2 = Ok m"
    if "length (auth_Signature auth) < 64" for auth
  proof -
    have "\<exists>pt. privateMessageContent (demoFC ContentTypeApplication [5]) auth 2 = Ok pt"
      using that by (simp add: privateMessageContent_def frame_eval)
    then obtain pt n' where "privateMessageContent (demoFC ContentTypeApplication [5]) auth 2 = Ok pt"
        "applyReuseGuard nonce [1, 2, 3, 4] = Ok n'" "length n' = 12" using g by blast
    moreover obtain sk sn where "SenderDataKeyNonce demoStd sampleSuite [3] (key @ n' @ pt) = Ok (sk, sn)"
        "length sk = 16" "length sn = 12" using sd by blast
    ultimately show ?thesis
      using k2 k(2) by (simp add: sealPrivate_def demoFC_def ratchetTypeFor_def demo_seal
          privateContentAAD_def senderDataAAD_def senderData_marshal_def frame_eval)
  qed
  have "\<exists>ac. ac_sign demoStd sampleSuite (demoSigner demoKey) (Some demoGC)
      (newContent WireFormatPrivateMessage (demoFC ContentTypeApplication [5]) []) = Ok ac \<and>
      length (auth_Signature (ac_Auth ac)) < 64"
    by (simp add: newContent_def demo_tbs frame_eval sign_eval)
  then obtain ac where "ac_sign demoStd sampleSuite (demoSigner demoKey) (Some demoGC)
      (newContent WireFormatPrivateMessage (demoFC ContentTypeApplication [5]) []) = Ok ac"
    "length (auth_Signature (ac_Auth ac)) < 64" by blast
  with seal show ?thesis by (auto simp: ProtectPrivate_def demoFC_def)
qed

theorem private_message_accepted_witness:
  "\<exists>m ac. ProtectPrivate demoStd sampleSuite (demoSigner demoKey) (Some demoGC) demoSecretTree [3]
      (demoFC ContentTypeApplication [5]) 0 [1, 2, 3, 4] 2 [] = Ok m \<and>
    UnprotectPrivate demoStd sampleSuite (\<lambda>_. Ok demoKey) (Some demoGC) demoSecretTree [3] m = Ok ac \<and>
    ac_Content ac = demoFC ContentTypeApplication [5]"
proof -
  obtain m where m: "ProtectPrivate demoStd sampleSuite (demoSigner demoKey) (Some demoGC) demoSecretTree [3]
      (demoFC ContentTypeApplication [5]) 0 [1, 2, 3, 4] 2 [] = Ok m"
    using demo_protected by blast
  from private_message_accepted [OF this demo_signerOf _ demo_gcmLaw demo_wf, of "\<lambda>_. Ok demoKey"] m
  show ?thesis by auto
qed

text \<open>Primitives under which only one message verifies.\<close>

definition onlySigned :: "bytes \<Rightarrow> Std" where
  "onlySigned tbs = demoStd\<lparr>ed25519Verify := (\<lambda>pk msg sig. labeledContext ''FramedContentTBS'' tbs = Ok msg)\<rparr>"

lemma onlySigned_unforged:
  assumes "framedContentTBS wfmt fc gc = Ok tbs" "wfFramedContent fc"
  shows "unforged (onlySigned tbs) sampleSuite pub {(wfmt, fc, gc)}"
proof -
  have "t = tbs" if "VerifyWithLabel (onlySigned tbs) sampleSuite pub ''FramedContentTBS'' t sig" for t sig
    using that labeledContext_inject [of "''FramedContentTBS''" t _ "''FramedContentTBS''" tbs]
    by (cases "labeledContext ''FramedContentTBS'' t")
      (auto simp: VerifyWithLabel_def verifyClassical_def onlySigned_def sampleSuite_def)
  with assms show ?thesis by (auto simp: unforged_def)
qed

lemma onlySigned_expand: "ExpandWithLabel (onlySigned tbs) s = ExpandWithLabel demoStd s"
  by (intro ext) (simp add: ExpandWithLabel_def kdfExpand_def onlySigned_def)

lemma onlySigned_seal:
  "sealPrivate (onlySigned tbs) s st sds fc auth gen guard pad = sealPrivate demoStd s st sds fc auth gen guard pad"
proof -
  have "Seal (onlySigned tbs) s = Seal demoStd s" by (intro ext) (simp add: Seal_def onlySigned_def)
  moreover have "KeyNonce (onlySigned tbs) st leaf rt g = KeyNonce demoStd st leaf rt g" for leaf rt g
    by (simp add: KeyNonce_def ratchetTo_def DeriveTreeSecret_def onlySigned_expand)
  ultimately show ?thesis by (simp add: sealPrivate_def SenderDataKeyNonce_def onlySigned_expand)
qed

lemma onlySigned_gcmLaw: "gcmLaw (onlySigned tbs)"
  using demo_gcmLaw by (simp add: gcmLaw_def onlySigned_def)

lemma onlySigned_verifies:
  assumes "framedContentTBS (ac_WireFormat ac) (ac_Content ac) gc = Ok tbs" "length tbs < 64"
  shows "ac_verify (onlySigned tbs) sampleSuite demoKey gc ac"
  using assms by (simp add: ac_verify_def VerifyWithLabel_def verifyClassical_def onlySigned_def sampleSuite_def
      labeledContext_def short_strings bytesOf_def mlsLabelPrefix_def demoKey_def)

theorem public_message_unforged_witness:
  "\<exists>std m ac. UnprotectPublic std sampleSuite demoKey (Some demoGC) [1] m = Ok ac \<and>
    ac_Content ac = demoFC ContentTypeApplication [5] \<and>
    (\<exists>gc'. (WireFormatPublicMessage, demoFC ContentTypeApplication [5], gc') \<in>
      {(WireFormatPublicMessage, demoFC ContentTypeApplication [5], Some demoGC)} \<and> gc' = Some demoGC)"
proof -
  obtain tbs where tbs: "framedContentTBS WireFormatPublicMessage (demoFC ContentTypeApplication [5]) (Some demoGC) = Ok tbs"
      "length tbs < 64"
    by (simp add: demo_tbs)
  let ?fc = "demoFC ContentTypeApplication [5]" and ?auth = "\<lparr>auth_Signature = [], auth_ConfirmationTag = []\<rparr>"
  obtain tbm where tbm: "authenticatedContentTBM WireFormatPublicMessage ?fc ?auth (Some demoGC) = Ok tbm"
    using tbs by (auto simp: authenticatedContentTBM_def frame_eval)
  let ?m = "\<lparr>pub_Content = ?fc, pub_Auth = ?auth, MembershipTag = MAC (onlySigned tbs) sampleSuite [1] tbm\<rparr>"
  let ?ac = "\<lparr>ac_WireFormat = WireFormatPublicMessage, ac_Content = ?fc, ac_Auth = ?auth\<rparr>"
  have "UnprotectPublic (onlySigned tbs) sampleSuite demoKey (Some demoGC) [1] ?m = Ok ?ac"
    using tbm onlySigned_verifies [of ?ac "Some demoGC" tbs] tbs by (simp add: UnprotectPublic_def Let_def)
  from this public_message_unforged [OF this onlySigned_unforged [OF tbs(1) demo_wf]] demo_wf
  show ?thesis by (intro exI [of _ "onlySigned tbs"] exI [of _ ?m] exI [of _ ?ac]) (simp add: bindsContext_def demoFC_def)
qed

theorem private_message_unforged_witness:
  "\<exists>std m ac. UnprotectPrivate std sampleSuite (\<lambda>_. Ok demoKey) (Some demoGC) demoSecretTree [3] m = Ok ac \<and>
    (WireFormatPrivateMessage, ac_Content ac, Some demoGC) \<in>
      {(WireFormatPrivateMessage, demoFC ContentTypeApplication [5], Some demoGC)}"
proof -
  let ?fc = "demoFC ContentTypeApplication [5]"
  obtain tbs where tbs: "framedContentTBS WireFormatPrivateMessage ?fc (Some demoGC) = Ok tbs" "length tbs < 64"
    by (simp add: demo_tbs)
  obtain m ac where seal: "sealPrivate demoStd sampleSuite demoSecretTree [3] ?fc (ac_Auth ac) 0 [1, 2, 3, 4] 2 = Ok m"
    and "ac_sign demoStd sampleSuite (demoSigner demoKey) (Some demoGC)
      (newContent WireFormatPrivateMessage ?fc []) = Ok ac"
    using demo_protected by blast
  from ac_sign_verifies [OF this(2) demo_signerOf]
  obtain a where a: "ac = \<lparr>ac_WireFormat = WireFormatPrivateMessage, ac_Content = ?fc, ac_Auth = a\<rparr>"
      "auth_ConfirmationTag a = []"
    by (cases ac) (auto simp: newContent_def demoFC_def)
  have "UnprotectPrivate (onlySigned tbs) sampleSuite (\<lambda>_. Ok demoKey) (Some demoGC) demoSecretTree [3] m = Ok ac"
    using sealed_opens [OF _ onlySigned_gcmLaw demo_wf, of tbs sampleSuite demoSecretTree "[3]" a 0 "[1, 2, 3, 4]" 2 m
        "\<lambda>_. Ok demoKey" "Some demoGC"] seal onlySigned_verifies [of ac "Some demoGC" tbs] a tbs
    by (simp add: onlySigned_seal wfAuthData_def demoFC_def Let_def)
  from this private_message_unforged [OF this, of "\<lambda>_. {(WireFormatPrivateMessage, ?fc, Some demoGC)}"]
    onlySigned_unforged [OF tbs(1) demo_wf]
  show ?thesis by blast
qed

end
