(* ===== verification/GroupSync.thy ===== *)
theory GroupSync
  imports PrivatePath FramingProps TreeParse
begin

text \<open>
  Agreement of the group layer: a commit moves its committer and every member that remains in
  the group to the same next epoch.
\<close>

section \<open>The committed path and the merged path\<close>

lemma generated_merges:
  assumes "GenerateUpdatePath std rnd t sender leafSecret signer gid newly mkGC = Ok (t', up, cs, m)"
  shows "Merge std t sender up = Ok t'"
proof -
  obtain fdp secs pubs resPubs t1 p1 gc ns ms where
    s: "filteredDirectPath t sender = Ok fdp" "derivePathSecrets std (suite t) leafSecret (length fdp) = Ok secs"
    "mapR (nodePub std (suite t)) secs = Ok pubs"
    "mapR (resolutionKeys t (2 * sender) (newlyAddedSet newly)) fdp = Ok resPubs"
    "installPath std t sender pubs = Ok (t1, p1)"
    "goUpdate (nodes t1) (unat (2 * sender)) (leafEntry (up_LeafNode up)) = Ok ms" "t' = t1\<lparr>nodes := ms\<rparr>"
    "encryptPath std (suite t) rnd gc 0 (zip pubs (zip secs resPubs)) = Ok ns" "Nodes up = ns"
    using assms by (auto simp: GenerateUpdatePath_def Let_def bindR_Inr_iff split: prod.splits)
  have "length secs = length fdp" "length pubs = length fdp" "length resPubs = length fdp"
    using derivePathSecrets_length [OF s(2)] s(3,4) by (auto simp: mapR_Inr_iff dest: list_all2_lengthD)
  then have "map upn_EncryptionKey ns = pubs"
    using encryptPath_nth [OF s(8)] by (simp add: list_eq_iff_nth_eq)
  then show ?thesis using s(5,6,7,9) by (simp add: Merge_def)
qed

lemma generated_leaf:
  assumes "GenerateUpdatePath std rnd t sender leafSecret signer gid newly mkGC = Ok (t', up, cs, m)"
    and "list_all (pred_option wfNode) (nodes t)"
  shows "wfUpdatePath up"
proof -
  obtain n orig pub ph leaf where l: "goIndex (nodes t) (unat (2 * sender)) = Ok n" "leafOf n = Some orig"
    "SignLeafNode std (suite t) signer (commitLeaf orig pub ph) gid sender = Ok leaf" "up_LeafNode up = leaf"
    using assms(1) by (auto simp: GenerateUpdatePath_def Let_def bindR_Inr_iff fromOption_Inr_iff split: prod.splits)
  have "pred_option wfNode n"
    using l(1) assms(2) by (auto simp: goIndex_def list_all_length split: if_splits)
  then have "wfCredential (leaf_Credential orig)"
    using l(2) by (cases n) (auto simp: leafOf_def wfNode_def wfLeafNode_def)
  then have "wfLeafNode leaf"
    using l(3) by (auto simp: SignLeafNode_def commitLeaf_def wfLeafNode_def bindR_Inr_iff)
  then show ?thesis using l(4) by (simp add: wfUpdatePath_def)
qed

lemma goUpdate_length: "goUpdate ns i v = Ok ms \<Longrightarrow> length ms = length ns"
  by (auto simp: goUpdate_def split: if_splits)

lemma blankPath_length: "blankPath leaves root x ns = Ok ms \<Longrightarrow> length ms = length ns"
proof (induction leaves root x ns arbitrary: ms rule: blankPath.induct)
  case (1 leaves root x ns)
  then show ?case
    by (subst (asm) blankPath.simps [of leaves root x ns])
      (auto simp: bindR_Inr_iff dest: goUpdate_length split: if_splits)
qed

lemma setParentHash_shape: "setParentHash t p ph = Ok t' \<Longrightarrow> length (nodes t') = length (nodes t) \<and> suite t' = suite t"
  by (auto simp: setParentHash_def bindR_Inr_iff)

lemma assignHashes_shape: "assignHashes std t ps = Ok t' \<Longrightarrow> length (nodes t') = length (nodes t) \<and> suite t' = suite t"
  by (induction std t ps arbitrary: t' rule: assignHashes.induct)
    (auto simp: bindR_Inr_iff dest!: setParentHash_shape)

lemma Merge_shape:
  assumes "Merge std t sender up = Ok t'"
  shows "length (nodes t') = length (nodes t)"
proof -
  obtain fdp ns ms t1 where m: "blankPath (leafCount t) (Root (leafCount t)) (2 * sender) (nodes t) = Ok ns"
    "foldR (\<lambda>ns (p, pub). goUpdate ns (unat p) (newParent pub)) ns
      (zip fdp (map upn_EncryptionKey (Nodes up))) = Ok ms"
    "assignHashes std (t\<lparr>nodes := ms\<rparr>) fdp = Ok t1" "goUpdate (nodes t1) (unat (2 * sender)) (leafEntry (up_LeafNode up)) = Ok (nodes t')"
    using assms by (auto simp: Merge_def installPath_def Let_def bindR_Inr_iff split: if_splits)
  have "length ms = length ns"
    by (rule foldR_invariant [OF m(2), of "\<lambda>x. length x = length ns"]) (auto dest: goUpdate_length split: prod.splits)
  then show ?thesis
    using blankPath_length [OF m(1)] assignHashes_shape [OF m(3)] goUpdate_length [OF m(4)] by simp
qed

section \<open>Members in the same epoch\<close>

text \<open>What two members of the same epoch share.\<close>

definition inSync :: "Group \<Rightarrow> Group \<Rightarrow> bool" where
  "inSync g h \<longleftrightarrow> g_suite g = g_suite h \<and> groupContext g = groupContext h \<and> g_tree g = g_tree h \<and>
    g_epoch g = g_epoch h \<and> secretTree g = secretTree h \<and> g_interim g = g_interim h \<and>
    g_initSecret g = g_initSecret h"

lemma inSync_sigPub: "inSync g h \<Longrightarrow> sigPubByLeaf g = sigPubByLeaf h"
  by (intro ext) (simp add: sigPubByLeaf_def inSync_def)

lemma inSync_proposals: "inSync g h \<Longrightarrow> authenticateProposalMessage std g m = authenticateProposalMessage std h m"
  using inSync_sigPub [of g h] by (simp add: authenticateProposalMessage_def inSync_def Let_def cong: if_cong)

lemma referenceProposals_cache:
  assumes "referenceProposals std g msgs = Ok (cache, refs)" "inSync g h"
  shows "proposalCache std h msgs = Ok cache \<and> list_all wfProposalOrRef refs"
proof -
  let ?f = "\<lambda>(cache, ps) propBytes. bindR (authenticateProposalMessage std g propBytes) (\<lambda>(ref, prop, senderLeaf).
        Ok (cache(ref \<mapsto> \<lparr>cp_proposal = prop, cp_sender = senderLeaf\<rparr>),
            ps @ [\<lparr>por_Type = ProposalOrRefTypeReference, por_Proposal = None, por_Reference = ref\<rparr>]))"
  let ?g = "\<lambda>cache propBytes. bindR (authenticateProposalMessage std h propBytes) (\<lambda>(ref, prop, senderLeaf).
        Ok (cache(ref \<mapsto> \<lparr>cp_proposal = prop, cp_sender = senderLeaf\<rparr>)))"
  have "foldR ?g c msgs = Ok cache \<and> list_all wfProposalOrRef refs"
    if "foldR ?f (c, ps) msgs = Ok (cache, refs)" "list_all wfProposalOrRef ps" for c ps
    using that
    by (induction msgs arbitrary: c ps)
      (auto simp: bindR_Inr_iff inSync_proposals [OF assms(2)] wfProposalOrRef_def)
  from this [of Map.empty "[]"] assms(1) show ?thesis
    by (simp add: referenceProposals_def proposalCache_def)
qed

text \<open>The intermediate values of a successful commit.\<close>

abbreviation proposed :: "CommitOptions \<Rightarrow> ProposalOrRef list \<Rightarrow> Commit" where
  "proposed opt refs \<equiv> \<lparr>cm_Proposals = refs @ map inlineProposal (ByValue opt), cm_Path = None\<rparr>"

abbreviation committedFormat :: "Group \<Rightarrow> u16" where
  "committedFormat g \<equiv> (if encryptHandshakes g then WireFormatPrivateMessage else WireFormatPublicMessage)"

definition commitRun :: "Std \<Rightarrow> Rand \<Rightarrow> Group \<Rightarrow> CommitOptions \<Rightarrow> PreparedCommit \<Rightarrow> RatchetTree \<Rightarrow>
  (bytes \<rightharpoonup> cachedProposal) \<Rightarrow> ProposalOrRef list \<Rightarrow> Applied \<Rightarrow> UpdatePath \<Rightarrow> bytes \<Rightarrow> bytes \<Rightarrow> bytes \<Rightarrow> bytes \<Rightarrow> bytes \<Rightarrow>
  bytes \<Rightarrow> bytes \<Rightarrow> bool" where
  "commitRun std rnd g opt pc wt cache refs ap up cs body inp sig th gcb psk \<longleftrightarrow>
    (let gc = groupContext g; s = g_suite g; fc = memberContent g ContentTypeCommit body in
     Clone (g_tree g) = Ok wt \<and> referenceProposals std g (ByReference opt) = Ok (cache, refs) \<and>
     applyProposals wt (proposed opt refs) cache (gc_Extensions gc) (externalPSKs g)
       (resumptionPSKs g) (gc_GroupID gc) (ownLeaf g) = Ok ap \<and>
     GenerateUpdatePath std (rnd_path rnd) (ap_tree ap) (ownLeaf g) (rnd_leafSecret rnd) (signerOf_g g)
       (gc_GroupID gc) (newlyAdded ap)
       (\<lambda>th. GroupContext_MarshalMLS (nextContext gc th (ConfirmedTranscriptHash gc) (provisionalExt ap))) =
       Ok (pc_tree pc, up, cs, pc_pathSecrets pc) \<and>
     Commit_MarshalMLS (proposed opt refs\<lparr>cm_Path := Some up\<rparr>) = Ok body \<and>
     SignCommit std s (signerOf_g g) (Some gc) fc (committedFormat g) = Ok (inp, sig) \<and>
     pc_confirmed pc = ConfirmedTranscript std s (g_interim g) inp \<and> RootTreeHash std (pc_tree pc) = Ok th \<and>
     pc_context pc = nextContext gc th (pc_confirmed pc) (provisionalExt ap) \<and>
     GroupContext_MarshalMLS (pc_context pc) = Ok gcb \<and> PSKSecret std s (ap_psks ap) = Ok psk \<and>
     DeriveEpochSecrets std s (g_initSecret g) (Some cs) (Some psk) gcb = Ok (pc_epoch pc) \<and>
     pc_confTag pc = ConfirmationTag std s (ConfirmationKey (pc_epoch pc)) (pc_confirmed pc) \<and>
     pc_newlyAdded pc = newlyAdded ap \<and> pc_addedKPs pc = addedKPs ap \<and> pc_psks pc = ap_psks ap \<and>
     (if encryptHandshakes g then
        bindR (AssembleCommitPrivate std s (secretTree g) (SenderDataSecret (g_epoch g)) fc
          (handshakeGeneration g) (rnd_guard rnd) 0 sig (pc_confTag pc)) (\<lambda>pm.
          Ok \<lparr>msg_Version = ProtocolVersionMLS10, msg_WireFormat = WireFormatPrivateMessage,
               msg_Public = None, msg_Private = Some pm\<rparr>)
      else
        bindR (AssembleCommitPublic std s (Some gc) (MembershipKey (g_epoch g)) fc sig (pc_confTag pc)) (\<lambda>pm.
          Ok \<lparr>msg_Version = ProtocolVersionMLS10, msg_WireFormat = WireFormatPublicMessage,
               msg_Public = Some pm, msg_Private = None\<rparr>)) = Ok (pc_message pc))"

lemma prepareCommit_run:
  assumes "prepareCommit std rnd g opt = Ok pc"
  obtains wt cache refs ap up cs body inp sig th gcb psk
  where "commitRun std rnd g opt pc wt cache refs ap up cs body inp sig th gcb psk"
proof -
  have f: "(committedFormat g = WireFormatPrivateMessage) = encryptHandshakes g" by simp
  from assms have "\<exists>wt cache refs ap up cs body inp sig th gcb psk.
      commitRun std rnd g opt pc wt cache refs ap up cs body inp sig th gcb psk"
    unfolding prepareCommit_def commitRun_def Let_def bindR_Inr_iff split_paired_Ex prod.case sum.inject f
    by fastforce
  with that show ?thesis by blast
qed

lemma Group_Commit_parts:
  assumes "Group_Commit std rnd g opt = (Ok (commit, welcomeMsg), g')"
  obtains pc interim priv st where "prepareCommit std rnd g opt = Ok pc"
    "MLSMessage_MarshalMLS (pc_message pc) = Ok commit"
    "InterimTranscriptHash std (g_suite g) (pc_confirmed pc) (pc_confTag pc) = Ok interim"
    "NewSecretTree std (g_suite g) (leafCount (pc_tree pc)) (EncryptionSecret (pc_epoch pc)) = Ok st"
    "\<exists>g0. g_suite g0 = g_suite g \<and> g' = (advance g0 (pc_tree pc) (pc_context pc) (pc_epoch pc) interim priv st)
      \<lparr>handshakeGeneration := 0\<rparr>"
proof -
  obtain pc where pc: "prepareCommit std rnd g opt = Ok pc"
    using assms by (auto simp: Group_Commit_def split: sum.splits)
  define g0 where "g0 = (if encryptHandshakes g then g\<lparr>handshakeGeneration := handshakeGeneration g + 1\<rparr> else g)"
  have "finishCommit std rnd g0 pc = Ok ((commit, welcomeMsg), g')"
    using assms pc unfolding Group_Commit_def g0_def [symmetric] by (simp split: sum.splits prod.splits)
  moreover have s: "g_suite g0 = g_suite g" by (simp add: g0_def)
  ultimately show ?thesis
    using that [OF pc] unfolding finishCommit_def Let_def bindR_Inr_iff split_paired_Ex prod.case sum.inject prod.inject
    by auto
qed

lemma applyProposals_path:
  "applyProposals wt \<lparr>cm_Proposals = ps, cm_Path = Some p\<rparr> = applyProposals wt \<lparr>cm_Proposals = ps, cm_Path = None\<rparr>"
  by (intro ext) (simp add: applyProposals_def)

lemma applyMemberCommit_follows:
  fixes h ac
  defines "c \<equiv> snd_LeafIndex (fc_Sender (ac_Content ac))" and "gc \<equiv> groupContext h" and "s \<equiv> g_suite h"
  assumes "Commit_UnmarshalMLS (fc_Content (ac_Content ac)) = Ok cm" "cm_Path cm = Some up"
    and "Clone (g_tree h) = Ok wt"
    and "applyProposals wt cm cache (gc_Extensions gc) (externalPSKs h) (resumptionPSKs h) (gc_GroupID gc) c = Ok ap"
    and "resolveOwnUpdatePriv h cache c (cm_Proposals cm) = Ok upd"
    and "wp = (case upd of None \<Rightarrow> g_priv h | Some k \<Rightarrow> NewTreeKEMPrivate (ownLeaf h) k)"
    and "AuthenticatedContent_MarshalMLS ac = Ok acb" "SplitAuthenticatedContent s acb = Ok (inp, tag)"
    and "processPath std h (ap_tree ap) (provisionalExt ap) wp (newlyAdded ap) c up = Ok (wt', th, cs, Some ps)"
    and "confirmed = ConfirmedTranscript std s (g_interim h) inp"
    and "newGC = nextContext gc th confirmed (provisionalExt ap)" "GroupContext_MarshalMLS newGC = Ok gcb"
    and "PSKSecret std s (ap_psks ap) = Ok psk"
    and "DeriveEpochSecrets std s (g_initSecret h) (Some cs) (Some psk) gcb = Ok es"
    and "tag = ConfirmationTag std s (ConfirmationKey es) confirmed"
    and "InterimTranscriptHash std s confirmed tag = Ok interim" "PrivateKeyAt wp (2 * ownLeaf h) = Some k"
    and "installJoinerPriv std s (NewTreeKEMPrivate (ownLeaf h) k) ps (ownLeaf h) c (leafCount wt') = Ok newPriv"
    and "NewSecretTree std s (leafCount wt') (EncryptionSecret es) = Ok st"
  shows "applyMemberCommit std h cache ac = Ok ((advance h wt' newGC es interim newPriv st)\<lparr>handshakeGeneration := 0\<rparr>)"
  using assms by (simp add: applyMemberCommit_def Let_def epochTransition_def)

text \<open>A MAC of HMAC-SHA256 has 32 bytes.\<close>

definition hmacLaw :: "Std \<Rightarrow> bool" where
  "hmacLaw std \<longleftrightarrow> (\<forall>k x. length (hmac std k x) = 32)"

lemma commit_content_marshals:
  assumes "SignCommit std s signer gc fc wfmt = Ok (inp, sig)" "fc_ContentType fc = ContentTypeCommit" "length tag = 32"
  obtains acb where "AuthenticatedContent_MarshalMLS \<lparr>ac_WireFormat = wfmt, ac_Content = fc,
    ac_Auth = \<lparr>auth_Signature = sig, auth_ConfirmationTag = tag\<rparr>\<rparr> = Ok acb"
    "SplitAuthenticatedContent s acb = Ok (inp, tag)"
proof -
  have h: "WriteVarint (of_nat 32) = Ok [32]" by (simp add: WriteVarint_def)
  then have "emits (Builder_WriteOpaqueV tag) (32 # tag)" using assms(3) by (simp add: opaque_emits_iff)
  then have "\<exists>acb. AuthenticatedContent_MarshalMLS \<lparr>ac_WireFormat = wfmt, ac_Content = fc,
      ac_Auth = \<lparr>auth_Signature = sig, auth_ConfirmationTag = tag\<rparr>\<rparr> = Ok acb"
    using assms(1,2) by (auto simp: SignCommit_def AuthenticatedContent_MarshalMLS_def ac_sign_def bindR_Inr_iff
        FramedContentAuthData_marshal_def emits_def)
  then show ?thesis using that commit_input_split [OF assms] by blast
qed

section \<open>Receiving the commit\<close>

text \<open>The member \<open>h\<close> remains in the group through the proposals that \<open>g\<close> commits: they apply for both with
  the same result, the tree they leave is sound, has both leaves and is its own copy, and \<open>h\<close> holds
  its private keys of that tree, with the key of its own update if that is among the proposals.\<close>

definition remains :: "Std \<Rightarrow> Group \<Rightarrow> CommitOptions \<Rightarrow> Group \<Rightarrow> bool" where
  "remains std g opt h \<longleftrightarrow> (\<forall>wt cache refs ap.
    Clone (g_tree g) = Ok wt \<longrightarrow> referenceProposals std g (ByReference opt) = Ok (cache, refs) \<longrightarrow>
    applyProposals wt (proposed opt refs) cache (gc_Extensions (groupContext g)) (externalPSKs g)
      (resumptionPSKs g) (gc_GroupID (groupContext g)) (ownLeaf g) = Ok ap \<longrightarrow>
    applyProposals wt (proposed opt refs) cache (gc_Extensions (groupContext h)) (externalPSKs h)
      (resumptionPSKs h) (gc_GroupID (groupContext h)) (ownLeaf g) = Ok ap \<and>
    treeInv (ap_tree ap) \<and> Clone (ap_tree ap) = Ok (ap_tree ap) \<and>
    ownLeaf g < leafCount (ap_tree ap) \<and> ownLeaf h < leafCount (ap_tree ap) \<and> ownLeaf h \<noteq> ownLeaf g \<and>
    NodeAt (ap_tree ap) (2 * ownLeaf h) \<noteq> None \<and> ownLeaf h \<notin> set (newlyAdded ap) \<and>
    (\<forall>a\<in>set (newlyAdded ap). a < leafCount (ap_tree ap)) \<and>
    (\<exists>upd. resolveOwnUpdatePriv h cache (ownLeaf g) (refs @ map inlineProposal (ByValue opt)) = Ok upd \<and>
      memberKeys std (ap_tree ap) (ownLeaf h)
        (privs (case upd of None \<Rightarrow> g_priv h | Some k \<Rightarrow> NewTreeKEMPrivate (ownLeaf h) k))))"

lemma processPath_follows:
  assumes "treeInv t" "Clone t = Ok t" "sender < leafCount t"
    and gen: "GenerateUpdatePath std rnd t sender leafSecret signer gid newly
      (\<lambda>th. GroupContext_MarshalMLS (nextContext (groupContext h) th
        (ConfirmedTranscriptHash (groupContext h)) ext)) = Ok (t', up, cs, m)"
    and "r < leafCount t" "r \<noteq> sender" "NodeAt t (2 * r) \<noteq> None" "r \<notin> set newly"
    and "\<forall>a\<in>set newly. a < leafCount t" "memberKeys std t r (privs wp)"
  obtains th ps where "RootTreeHash std t' = Ok th" "processPath std h t ext wp newly sender up = Ok (t', th, cs, Some ps)"
proof -
  obtain th gc ps where "RootTreeHash std t' = Ok th"
    "GroupContext_MarshalMLS (nextContext (groupContext h) th (ConfirmedTranscriptHash (groupContext h)) ext) = Ok gc"
    "ProcessUpdatePath std t sender up wp gc newly = Ok (Some (ps, cs))"
    using update_path_reaches [OF assms(1,3) gen assms(5-10)] by auto
  with assms(2) generated_merges [OF gen] that show ?thesis by (simp add: processPath_def)
qed

lemma Clone_wfNodes: "Clone t = Ok t \<Longrightarrow> list_all (pred_option wfNode) (nodes t)"
  by (auto simp: Clone_def bindR_Inr_iff ParseRatchetTree_iff)

lemma authenticateCommit_follows:
  assumes sync: "inSync g h"
    and "SignCommit std (g_suite g) (signerOf_g g) (Some (groupContext g)) fc (committedFormat g) = Ok (inp, sig)"
    and msg: "(if encryptHandshakes g then
        bindR (AssembleCommitPrivate std (g_suite g) (secretTree g) (SenderDataSecret (g_epoch g)) fc gen guard 0 sig tag)
          (\<lambda>pm. Ok \<lparr>msg_Version = ProtocolVersionMLS10, msg_WireFormat = WireFormatPrivateMessage,
               msg_Public = None, msg_Private = Some pm\<rparr>)
      else
        bindR (AssembleCommitPublic std (g_suite g) (Some (groupContext g)) (MembershipKey (g_epoch g)) fc sig tag)
          (\<lambda>pm. Ok \<lparr>msg_Version = ProtocolVersionMLS10, msg_WireFormat = WireFormatPublicMessage,
               msg_Public = Some pm, msg_Private = None\<rparr>)) = Ok m"
    and "LeafNodeAt (g_tree g) (ownLeaf g) = Ok ln" "signerOf std (g_suite g) (signerOf_g g) (SignatureKey ln)"
    and "gcmLaw std" "length guard = 4" "fc = memberContent g ContentTypeCommit body" "wfContent ContentTypeCommit body"
    and "MLSMessage_MarshalMLS m = Ok data"
  shows "MLSMessage_UnmarshalMLS noMessage data = Ok m \<and>
    authenticateCommit std h m = Ok \<lparr>ac_WireFormat = committedFormat g, ac_Content = fc,
      ac_Auth = \<lparr>auth_Signature = sig, auth_ConfirmationTag = tag\<rparr>\<rparr> \<and>
    (msg_WireFormat m = WireFormatPublicMessage \<and> msg_Public m \<noteq> None \<longrightarrow>
       SenderType (fc_Sender (pub_Content (the (msg_Public m)))) = SenderTypeMember)"
proof -
  have fc: "SenderType (fc_Sender fc) = SenderTypeMember" "snd_LeafIndex (fc_Sender fc) = ownLeaf g"
    "fc_ContentType fc = ContentTypeCommit" "wfFramedContent fc"
    using assms(8,9) by (simp_all add: memberContent_def wfFramedContent_def wfSender_def)
  have pub: "sigPubByLeaf h (ownLeaf g) = Ok (SignatureKey ln)"
    using sync assms(4) by (simp add: sigPubByLeaf_def inSync_def)
  show ?thesis
  proof (cases "encryptHandshakes g")
    case True
    then obtain pm where pm: "AssembleCommitPrivate std (g_suite g) (secretTree g) (SenderDataSecret (g_epoch g)) fc gen
        guard 0 sig tag = Ok pm" "m = \<lparr>msg_Version = ProtocolVersionMLS10, msg_WireFormat = WireFormatPrivateMessage,
          msg_Public = None, msg_Private = Some pm\<rparr>" using msg by (auto simp: bindR_Inr_iff)
    have "UnprotectPrivate std (g_suite g) (sigPubByLeaf h) (Some (groupContext g)) (secretTree g)
        (SenderDataSecret (g_epoch g)) pm = Ok \<lparr>ac_WireFormat = WireFormatPrivateMessage, ac_Content = fc,
          ac_Auth = \<lparr>auth_Signature = sig, auth_ConfirmationTag = tag\<rparr>\<rparr>"
      by (rule commit_private_opens [OF _ pm(1) assms(5)]) (use assms(2,6,7) True fc pub in simp_all)
    then show ?thesis
      using True pm(2) fc(1) sync assms(10)
      by (simp add: MLSMessage_unmarshal_iff wfMLSMessage_def authenticateCommit_def inSync_def)
  next
    case False
    then obtain pm where pm: "AssembleCommitPublic std (g_suite g) (Some (groupContext g)) (MembershipKey (g_epoch g)) fc
        sig tag = Ok pm" "m = \<lparr>msg_Version = ProtocolVersionMLS10, msg_WireFormat = WireFormatPublicMessage,
          msg_Public = Some pm, msg_Private = None\<rparr>" using msg by (auto simp: bindR_Inr_iff)
    have c: "pub_Content pm = fc" "pub_Auth pm = \<lparr>auth_Signature = sig, auth_ConfirmationTag = tag\<rparr>"
      using pm(1) by (auto simp: AssembleCommitPublic_def Let_def bindR_Inr_iff)
    have "UnprotectPublic std (g_suite g) (SignatureKey ln) (Some (groupContext g)) (MembershipKey (g_epoch g)) pm =
        Ok \<lparr>ac_WireFormat = WireFormatPublicMessage, ac_Content = fc,
          ac_Auth = \<lparr>auth_Signature = sig, auth_ConfirmationTag = tag\<rparr>\<rparr>"
      by (rule commit_public_opens [OF _ pm(1) assms(5)]) (use assms(2) False in simp)
    then show ?thesis
      using False pm(2) fc c sync assms(4,10)
      by (simp add: MLSMessage_unmarshal_iff wfMLSMessage_def wfPublicMessage_def wfAuthData_def
          authenticateCommit_def inSync_def Let_def)
  qed
qed

lemma run_body:
  assumes "commitRun std rnd g opt pc wt cache refs ap up cs body inp sig th gcb psk"
    and "Clone (ap_tree ap) = Ok (ap_tree ap)" "list_all wfProposal (ByValue opt)"
  shows "Commit_UnmarshalMLS body = Ok (proposed opt refs\<lparr>cm_Path := Some up\<rparr>) \<and> wfContent ContentTypeCommit body"
proof -
  note r = assms(1) [unfolded commitRun_def Let_def]
  have refs: "list_all wfProposalOrRef refs"
    using referenceProposals_cache [of std g _ cache refs g] r by (auto simp: inSync_def)
  have "list_all wfProposalOrRef (map inlineProposal (ByValue opt))"
    using assms(3) by (auto simp: list_all_iff wfProposalOrRef_def inlineProposal_def)
  moreover have "wfUpdatePath up" using generated_leaf Clone_wfNodes [OF assms(2)] r by blast
  ultimately have "wfCommit (proposed opt refs\<lparr>cm_Path := Some up\<rparr>)" using refs by (simp add: wfCommit_def)
  moreover have "Commit_MarshalMLS (proposed opt refs\<lparr>cm_Path := Some up\<rparr>) = Ok body" using r by blast
  ultimately show ?thesis
    using commit_content_wf unfolding Commit_UnmarshalMLS_def Commit_MarshalMLS_def commit.unmarshal_iff by blast
qed

lemma memberKeys_own:
  assumes "memberKeys std t r (privs wp)" "treeInv t" "r < leafCount t" "NodeAt t (2 * r) \<noteq> None"
  obtains k where "PrivateKeyAt wp (2 * r) = Some k"
proof -
  obtain h where f: "fullTree h t" using assms(2) by (auto simp: treeInv_def)
  have u: "unat (2 * r) = 2 * unat r" using fullTree_leaf(2) [OF f assms(3)] .
  have "at (nodes t) (unat (2 * r)) \<noteq> None" using assms(4) by (simp add: fullTree_NodeAt(1) [OF f])
  then have "privs wp (2 * r) \<noteq> None"
    using assms(1) u unfolding memberKeys_def by (metis below_refl)
  then show ?thesis using that by (auto simp: PrivateKeyAt_def)
qed

text \<open>The laws of the primitives that agreement relies on, for a suite and the public key of a signer.\<close>

definition commitLaws :: "Std \<Rightarrow> Suite \<Rightarrow> Signer \<Rightarrow> bytes \<Rightarrow> bool" where
  "commitLaws std s signer pub \<longleftrightarrow> signerOf std s signer pub \<and> gcmLaw std \<and> hmacLaw std \<and> derives std s"

lemma run_applied:
  assumes run: "commitRun std rnd g opt pc wt cache refs ap up cs body inp sig th gcb psk"
    and sync: "inSync g h" and rem: "remains std g opt h" and laws: "commitLaws std (g_suite g) (signerOf_g g) pub"
    and wfp: "list_all wfProposal (ByValue opt)"
    and fin: "InterimTranscriptHash std (g_suite g) (pc_confirmed pc) (pc_confTag pc) = Ok interim"
      "NewSecretTree std (g_suite g) (leafCount (pc_tree pc)) (EncryptionSecret (pc_epoch pc)) = Ok st"
  shows "\<exists>priv. applyMemberCommit std h cache \<lparr>ac_WireFormat = committedFormat g,
      ac_Content = memberContent g ContentTypeCommit body,
      ac_Auth = \<lparr>auth_Signature = sig, auth_ConfirmationTag = pc_confTag pc\<rparr>\<rparr> =
    Ok ((advance h (pc_tree pc) (pc_context pc) (pc_epoch pc) interim priv st)\<lparr>handshakeGeneration := 0\<rparr>)"
proof -
  note r = run [unfolded commitRun_def Let_def] and eq = sync [unfolded inSync_def]
  let ?props = "refs @ map inlineProposal (ByValue opt)"
  have q: "applyProposals wt (proposed opt refs) cache (gc_Extensions (groupContext h)) (externalPSKs h)
      (resumptionPSKs h) (gc_GroupID (groupContext h)) (ownLeaf g) = Ok ap \<and>
    treeInv (ap_tree ap) \<and> Clone (ap_tree ap) = Ok (ap_tree ap) \<and>
    ownLeaf g < leafCount (ap_tree ap) \<and> ownLeaf h < leafCount (ap_tree ap) \<and> ownLeaf h \<noteq> ownLeaf g \<and>
    NodeAt (ap_tree ap) (2 * ownLeaf h) \<noteq> None \<and> ownLeaf h \<notin> set (newlyAdded ap) \<and>
    (\<forall>a\<in>set (newlyAdded ap). a < leafCount (ap_tree ap)) \<and>
    (\<exists>upd. resolveOwnUpdatePriv h cache (ownLeaf g) ?props = Ok upd \<and> memberKeys std (ap_tree ap) (ownLeaf h)
      (privs (case upd of None \<Rightarrow> g_priv h | Some k \<Rightarrow> NewTreeKEMPrivate (ownLeaf h) k)))"
    using rem r unfolding remains_def by blast
  then obtain upd wp where u: "resolveOwnUpdatePriv h cache (ownLeaf g) ?props = Ok upd"
    "memberKeys std (ap_tree ap) (ownLeaf h) (privs wp)"
    "wp = (case upd of None \<Rightarrow> g_priv h | Some k \<Rightarrow> NewTreeKEMPrivate (ownLeaf h) k)"
    by blast
  obtain k where k: "PrivateKeyAt wp (2 * ownLeaf h) = Some k" using memberKeys_own [OF u(2)] q by blast
  have gen: "GenerateUpdatePath std (rnd_path rnd) (ap_tree ap) (ownLeaf g) (rnd_leafSecret rnd) (signerOf_g g)
      (gc_GroupID (groupContext g)) (newlyAdded ap) (\<lambda>th. GroupContext_MarshalMLS (nextContext (groupContext h) th
        (ConfirmedTranscriptHash (groupContext h)) (provisionalExt ap))) = Ok (pc_tree pc, up, cs, pc_pathSecrets pc)"
    using r eq by simp
  obtain ps where path: "processPath std h (ap_tree ap) (provisionalExt ap) wp (newlyAdded ap) (ownLeaf g) up =
      Ok (pc_tree pc, th, cs, Some ps)"
    using processPath_follows [OF _ _ _ gen _ _ _ _ _ u(2)] q r by auto
  have tag: "length (pc_confTag pc) = 32"
    using r laws by (simp add: ConfirmationTag_def MAC_def commitLaws_def hmacLaw_def)
  have sign: "SignCommit std (g_suite g) (signerOf_g g) (Some (groupContext g))
      (memberContent g ContentTypeCommit body) (committedFormat g) = Ok (inp, sig)" using r by blast
  obtain acb where acb: "AuthenticatedContent_MarshalMLS \<lparr>ac_WireFormat = committedFormat g,
      ac_Content = memberContent g ContentTypeCommit body,
      ac_Auth = \<lparr>auth_Signature = sig, auth_ConfirmationTag = pc_confTag pc\<rparr>\<rparr> = Ok acb"
    "SplitAuthenticatedContent (g_suite g) acb = Ok (inp, pc_confTag pc)"
    by (rule commit_content_marshals [OF sign _ tag]) (simp add: memberContent_def)
  obtain x where x: "fullTree x (pc_tree pc)" "leafCount (pc_tree pc) = leafCount (ap_tree ap)"
    using q Merge_shape [OF generated_merges [OF gen]]
    by (auto simp: treeInv_def fullTree_def leafCount_def len32_def)
  have "derives std (g_suite h)" using laws eq by (simp add: commitLaws_def)
  from installJoinerPriv_keys [OF x(1) _ _ this, of "ownLeaf h" "ownLeaf g" k ps] x(2) q
  obtain priv where priv: "installJoinerPriv std (g_suite h) (NewTreeKEMPrivate (ownLeaf h) k) ps (ownLeaf h) (ownLeaf g)
      (leafCount (pc_tree pc)) = Ok priv"
    by auto
  show ?thesis
    by (rule exI, rule applyMemberCommit_follows [where cm = "proposed opt refs\<lparr>cm_Path := Some up\<rparr>" and up = up and
          wt = wt and upd = upd and wp = wp and k = k and newPriv = priv and gcb = gcb and psk = psk and th = th and
          inp = inp and tag = "pc_confTag pc" and cs = cs and confirmed = "pc_confirmed pc" and newGC = "pc_context pc"])
      (use r q eq u k path acb priv fin run_body [OF run _ wfp] in \<open>auto simp: memberContent_def applyProposals_path\<close>)
qed

lemma commit_follows:
  assumes "Group_Commit std rnd g opt = (Ok (commit, welcomeMsg), g')"
    and "inSync g h" and "remains std g opt h"
    and "LeafNodeAt (g_tree g) (ownLeaf g) = Ok ln" and "commitLaws std (g_suite g) (signerOf_g g) (SignatureKey ln)"
    and "list_all wfProposal (ByValue opt)" and "length (rnd_guard rnd) = 4"
  shows "(\<exists>h'. ProcessCommit std h (ByReference opt) commit = Ok h' \<and> inSync g' h' \<and> Epoch h' = Epoch h + 1) \<and>
    (\<exists>cache refs cm. referenceProposals std g (ByReference opt) = Ok (cache, refs) \<and> PeekCommit std h commit = Ok cm \<and>
      cm_Proposals cm = refs @ map inlineProposal (ByValue opt))"
proof -
  obtain pc interim priv st where f: "prepareCommit std rnd g opt = Ok pc"
    "MLSMessage_MarshalMLS (pc_message pc) = Ok commit"
    "InterimTranscriptHash std (g_suite g) (pc_confirmed pc) (pc_confTag pc) = Ok interim"
    "NewSecretTree std (g_suite g) (leafCount (pc_tree pc)) (EncryptionSecret (pc_epoch pc)) = Ok st"
    "\<exists>g0. g_suite g0 = g_suite g \<and> g' = (advance g0 (pc_tree pc) (pc_context pc) (pc_epoch pc) interim priv st)
      \<lparr>handshakeGeneration := 0\<rparr>"
    by (rule Group_Commit_parts [OF assms(1)])
  obtain wt cache refs ap up cs body inp sig th gcb psk
    where run: "commitRun std rnd g opt pc wt cache refs ap up cs body inp sig th gcb psk"
    by (rule prepareCommit_run [OF f(1)])
  note r = run [unfolded commitRun_def Let_def] and eq = assms(2) [unfolded inSync_def]
  have "Clone (ap_tree ap) = Ok (ap_tree ap)" using assms(3) r unfolding remains_def by blast
  then have body: "wfContent ContentTypeCommit body"
    "Commit_UnmarshalMLS body = Ok (proposed opt refs\<lparr>cm_Path := Some up\<rparr>)" using run_body [OF run _ assms(6)] by blast+
  have laws: "signerOf std (g_suite g) (signerOf_g g) (SignatureKey ln)" "gcmLaw std"
    using assms(5) by (simp_all add: commitLaws_def)
  have auth: "MLSMessage_UnmarshalMLS noMessage commit = Ok (pc_message pc) \<and>
    authenticateCommit std h (pc_message pc) = Ok \<lparr>ac_WireFormat = committedFormat g,
      ac_Content = memberContent g ContentTypeCommit body,
      ac_Auth = \<lparr>auth_Signature = sig, auth_ConfirmationTag = pc_confTag pc\<rparr>\<rparr> \<and>
    (msg_WireFormat (pc_message pc) = WireFormatPublicMessage \<and> msg_Public (pc_message pc) \<noteq> None \<longrightarrow>
       SenderType (fc_Sender (pub_Content (the (msg_Public (pc_message pc))))) = SenderTypeMember)"
    by (rule authenticateCommit_follows [OF assms(2) _ _ assms(4) laws assms(7) refl body(1) f(2)]) (use r in blast)+
  have "proposalCache std h (ByReference opt) = Ok cache"
    using referenceProposals_cache [OF _ assms(2)] r by blast
  moreover obtain priv' where "applyMemberCommit std h cache \<lparr>ac_WireFormat = committedFormat g,
      ac_Content = memberContent g ContentTypeCommit body,
      ac_Auth = \<lparr>auth_Signature = sig, auth_ConfirmationTag = pc_confTag pc\<rparr>\<rparr> =
    Ok ((advance h (pc_tree pc) (pc_context pc) (pc_epoch pc) interim priv' st)\<lparr>handshakeGeneration := 0\<rparr>)"
    using run_applied [OF run assms(2,3,5,6) f(3,4)] by blast
  ultimately have "ProcessCommit std h (ByReference opt) commit =
      Ok ((advance h (pc_tree pc) (pc_context pc) (pc_epoch pc) interim priv' st)\<lparr>handshakeGeneration := 0\<rparr>)"
    using auth eq by (auto simp: ProcessCommit_def memberContent_def)
  with f(5) eq r have "\<exists>h'. ProcessCommit std h (ByReference opt) commit = Ok h' \<and> inSync g' h' \<and> Epoch h' = Epoch h + 1"
    by (auto simp: inSync_def advance_def Epoch_def nextContext_def)
  moreover have "PeekCommit std h commit = Ok (proposed opt refs\<lparr>cm_Path := Some up\<rparr>)"
    using auth body(2) by (auto simp: PeekCommit_def memberContent_def)
  moreover have "referenceProposals std g (ByReference opt) = Ok (cache, refs)" using r by blast
  ultimately show ?thesis by auto
qed

section \<open>Properties\<close>


end
