(* ===== verification/Welcoming.thy ===== *)
theory Welcoming
  imports GroupSync
begin

text \<open>
  Joining from a welcome: the leaves of members that a commit adds stay in the tree, and a new
  member that processes the welcome of the commit arrives in the epoch of the committer.
\<close>

section \<open>Leaves are kept\<close>

text \<open>Every populated leaf slot of \<open>ns\<close> has the same entry in \<open>ms\<close>.\<close>

definition keepsLeaves :: "Node option list \<Rightarrow> Node option list \<Rightarrow> bool" where
  "keepsLeaves ns ms \<longleftrightarrow> length ns \<le> length ms \<and>
    (\<forall>i<length ns. even i \<longrightarrow> ns ! i \<noteq> None \<longrightarrow> ms ! i = ns ! i)"

lemma keepsLeaves_refl [intro, simp]: "keepsLeaves ns ns"
  by (simp add: keepsLeaves_def)

lemma keepsLeaves_trans: "keepsLeaves a b \<Longrightarrow> keepsLeaves b c \<Longrightarrow> keepsLeaves a c"
  unfolding keepsLeaves_def by (metis order_trans order_less_le_trans)

text \<open>All leaf slots, blank ones included, have the same entries.\<close>

definition sameLeaves :: "Node option list \<Rightarrow> Node option list \<Rightarrow> bool" where
  "sameLeaves ns ms \<longleftrightarrow> length ns = length ms \<and> (\<forall>i<length ns. even i \<longrightarrow> ms ! i = ns ! i)"

lemma sameLeaves_refl [intro, simp]: "sameLeaves ns ns"
  by (simp add: sameLeaves_def)

lemma sameLeaves_trans: "sameLeaves a b \<Longrightarrow> sameLeaves b c \<Longrightarrow> sameLeaves a c"
  by (simp add: sameLeaves_def)

lemma sameLeaves_upd: "odd i \<Longrightarrow> sameLeaves ns (ns[i := v])"
  by (auto simp: sameLeaves_def) (metis nth_list_update_neq)

lemma sameLeaves_keeps: "sameLeaves ns ms \<Longrightarrow> keepsLeaves ns ms"
  by (simp add: sameLeaves_def keepsLeaves_def)

lemma keepsLeaves_blank: "i < length ns \<Longrightarrow> ns ! i = None \<Longrightarrow> keepsLeaves ns (ns[i := v])"
  by (auto simp: keepsLeaves_def nth_list_update)

lemma level_odd: "0 < level p \<longleftrightarrow> odd (unat p)"
proof -
  obtain k q where p: "unat p = node k q" by (rule coord_exists)
  then show ?thesis using level_coord [OF p] leaf_node_level [of "unat p"] by simp
qed

lemma climb_odd: "Parent x n = Ok (p, ok) \<Longrightarrow> x \<noteq> Root n \<Longrightarrow> odd (unat p)"
  using climb_level level_odd [of p] by fastforce

lemma blankPath_leaves: "blankPath leaves root x ns = Ok ms \<Longrightarrow> root = Root leaves \<Longrightarrow> sameLeaves ns ms"
proof (induction leaves root x ns arbitrary: ms rule: blankPath.induct)
  case (1 leaves root x ns)
  show ?case
  proof (cases "x = root")
    case True
    then show ?thesis using "1.prems" by (simp add: blankPath.simps [of leaves root x ns])
  next
    case False
    then obtain p ok where p: "Parent x leaves = Ok (p, ok)"
      using "1.prems"(1) by (auto simp: blankPath.simps [of leaves root x ns] bindR_Inr_iff)
    have o: "odd (unat p)" using climb_odd [OF p] False "1.prems"(2) by simp
    show ?thesis
    proof (cases ok)
      case True
      then obtain ns' where ns': "goUpdate ns (unat p) None = Ok ns'" "blankPath leaves root p ns' = Ok ms"
        using "1.prems"(1) False p by (auto simp: blankPath.simps [of leaves root x ns] bindR_Inr_iff)
      have "sameLeaves ns' ms" by (rule "1.IH" [OF False p refl _ ns'(1,2) "1.prems"(2)]) (simp add: True)
      moreover have "sameLeaves ns ns'" using ns'(1) o by (auto simp: goUpdate_Inr_iff intro: sameLeaves_upd)
      ultimately show ?thesis using sameLeaves_trans by blast
    next
      case False
      then show ?thesis using "1.prems"(1) \<open>x \<noteq> root\<close> p by (simp add: blankPath.simps [of leaves root x ns])
    qed
  qed
qed

lemma addUnmerged_leaves: "addUnmerged l leaves root x ns = Ok ms \<Longrightarrow> root = Root leaves \<Longrightarrow> sameLeaves ns ms"
proof (induction l leaves root x ns arbitrary: ms rule: addUnmerged.induct)
  case (1 l leaves root x ns)
  show ?case
  proof (cases "x = root")
    case True
    then show ?thesis using "1.prems" by (simp add: addUnmerged.simps [of l leaves root x ns])
  next
    case False
    then obtain p ok where p: "Parent x leaves = Ok (p, ok)"
      using "1.prems"(1) by (auto simp: addUnmerged.simps [of l leaves root x ns] bindR_Inr_iff)
    have o: "odd (unat p)" using climb_odd [OF p] False "1.prems"(2) by simp
    show ?thesis
    proof (cases ok)
      case True
      then obtain n where n: "goIndex ns (unat p) = Ok n"
        using "1.prems"(1) False p by (auto simp: addUnmerged.simps [of l leaves root x ns] bindR_Inr_iff)
      let ?ns = "case n of
              Some nd \<Rightarrow>
                (case ParentN nd of
                   Some pn \<Rightarrow>
                     ns[unat p := Some (nd\<lparr>ParentN :=
                       Some (pn\<lparr>UnmergedLeaves := insertSorted l (UnmergedLeaves pn)\<rparr>)\<rparr>)]
                 | None \<Rightarrow> ns)
            | None \<Rightarrow> ns"
      have ad: "addUnmerged l leaves root p ?ns = Ok ms"
        using "1.prems"(1) False p n True by (simp add: addUnmerged.simps [of l leaves root x ns])
      have "sameLeaves ?ns ms" by (rule "1.IH" [OF False p refl _ n ad "1.prems"(2)]) (simp add: True)
      moreover have "sameLeaves ns ?ns" using o by (auto intro: sameLeaves_upd split: option.split)
      ultimately show ?thesis using sameLeaves_trans by blast
    next
      case False
      then show ?thesis using "1.prems"(1) \<open>x \<noteq> root\<close> p by (simp add: addUnmerged.simps [of l leaves root x ns])
    qed
  qed
qed

lemma repad_prefix: "repad ns = Ok ms \<Longrightarrow> \<exists>k. ms = ns @ replicate k None"
  by (auto simp: repad_def bindR_Inr_iff padTo_def intro: exI [of _ 0])

lemma keepsLeaves_append: "keepsLeaves ns (ns @ ms)"
  by (simp add: keepsLeaves_def nth_append)

lemma AddLeaf_slot:
  assumes "AddLeaf t ln = Ok (l, t')"
  obtains ns i ms where "keepsLeaves (nodes t) ns" "firstBlank 0 (evens ns) = Some i"
    "goUpdate ns (unat (2 * of_nat i :: u32)) (leafEntry ln) = Ok ms" "l = 2 * of_nat i div 2"
    "addUnmerged l ((len32 ms + 1) div 2) (Root ((len32 ms + 1) div 2)) (2 * of_nat i) ms = Ok (nodes t')"
    "suite t' = suite t"
proof -
  obtain ns i ms ms' where r: "(case firstBlank 0 (evens (nodes t)) of
         Some i \<Rightarrow> Ok (nodes t, i)
       | None \<Rightarrow>
           bindR (repad (nodes t @ [None, None])) (\<lambda>ns.
             case firstBlank 0 (evens ns) of
               Some i \<Rightarrow> Ok (ns, i)
             | None \<Rightarrow> Err ''tree: AddLeaf: no blank slot after growing'')) = Ok (ns, i)"
    "goUpdate ns (unat (2 * of_nat i :: u32)) (leafEntry ln) = Ok ms"
    "addUnmerged (2 * of_nat i div 2) ((len32 ms + 1) div 2) (Root ((len32 ms + 1) div 2)) (2 * of_nat i) ms = Ok ms'"
    "(2 * of_nat i div 2, t\<lparr>nodes := ms'\<rparr>) = (l, t')"
    using assms unfolding AddLeaf_def Let_def bindR_Inr_iff split_paired_Ex prod.case sum.inject by blast
  have "keepsLeaves (nodes t) ns \<and> firstBlank 0 (evens ns) = Some i"
  proof (cases "firstBlank 0 (evens (nodes t))")
    case (Some j)
    then show ?thesis using r(1) by auto
  next
    case None
    then obtain ns' where n: "repad (nodes t @ [None, None]) = Ok ns'"
      "(case firstBlank 0 (evens ns') of Some i \<Rightarrow> Ok (ns', i)
        | None \<Rightarrow> Err ''tree: AddLeaf: no blank slot after growing'') = Ok (ns, i)"
      using r(1) unfolding None option.case bindR_Inr_iff by blast
    then have "ns' = ns" "firstBlank 0 (evens ns) = Some i"
      by (cases "firstBlank 0 (evens ns')"; simp)+
    then show ?thesis using repad_prefix [OF n(1)] keepsLeaves_append [of "nodes t"] by auto
  qed
  with r show ?thesis by (intro that [of ns i ms]) auto
qed

lemma AddLeaf_leaves:
  assumes "AddLeaf t ln = Ok (l, t')" "length (nodes t') < 2147483648"
  shows "keepsLeaves (nodes t) (nodes t')" "2 * unat l < length (nodes t')" "nodes t' ! (2 * unat l) = leafEntry ln"
    "suite t' = suite t"
proof -
  obtain ns i ms where r: "keepsLeaves (nodes t) ns" "firstBlank 0 (evens ns) = Some i"
    "goUpdate ns (unat (2 * of_nat i :: u32)) (leafEntry ln) = Ok ms" "l = 2 * of_nat i div 2"
    "addUnmerged l ((len32 ms + 1) div 2) (Root ((len32 ms + 1) div 2)) (2 * of_nat i) ms = Ok (nodes t')"
    "suite t' = suite t"
    by (rule AddLeaf_slot [OF assms(1)])
  note b = first_blank_leaf [OF r(2)]
  have k: "keepsLeaves ms (nodes t')" by (rule sameLeaves_keeps [OF addUnmerged_leaves [OF r(5) refl]])
  have "length ns = length ms" using r(3) by (auto simp: goUpdate_Inr_iff)
  also have "\<dots> \<le> length (nodes t')" using k by (simp add: keepsLeaves_def)
  finally have i: "2 * i < 2147483648" using b(1) assms(2) by linarith
  then have u: "unat (2 * of_nat i :: u32) = 2 * i"
    by (simp add: unat_word_ariths unat_of_nat)
  then have l: "unat l = i" using r(4) by (simp add: unat_div)
  have ms: "ms = ns[2 * i := leafEntry ln]" using r(3) u by (simp add: goUpdate_Inr_iff)
  have "keepsLeaves ns ms" unfolding ms by (rule keepsLeaves_blank [OF b(1,2)])
  then show "keepsLeaves (nodes t) (nodes t')" using k r(1) keepsLeaves_trans by blast
  have m: "2 * i < length ms" "ms ! (2 * i) = leafEntry ln" using b(1) ms by auto
  then have "nodes t' ! (2 * i) = ms ! (2 * i)" using k unfolding keepsLeaves_def leafEntry_def by simp
  then show "nodes t' ! (2 * unat l) = leafEntry ln" using l m(2) by simp
  show "2 * unat l < length (nodes t')" using k l m(1) unfolding keepsLeaves_def by linarith
  show "suite t' = suite t" by (rule r(6))
qed

lemma applyAdd_leaves:
  assumes "foldR applyAdd (wt, na, ka) rs = Ok (wt', newly, kps)" "length (nodes wt') < 2147483648"
  shows "keepsLeaves (nodes wt) (nodes wt') \<and> (\<exists>na' ka'. newly = na @ na' \<and> kps = ka @ ka' \<and>
    list_all2 (\<lambda>l kp. 2 * unat l < length (nodes wt') \<and> nodes wt' ! (2 * unat l) = leafEntry (kp_LeafNode kp)) na' ka')"
  using assms
proof (induction rs arbitrary: wt na ka)
  case (Cons r rs)
  obtain kp l w where s: "AddLeaf wt (kp_LeafNode kp) = Ok (l, w)"
    "foldR applyAdd (w, na @ [l], ka @ [kp]) rs = Ok (wt', newly, kps)"
  proof -
    obtain st where st: "applyAdd (wt, na, ka) r = Ok st" "foldR applyAdd st rs = Ok (wt', newly, kps)"
      using Cons.prems(1) by (auto simp: bindR_Inr_iff)
    then show ?thesis using that by (auto simp: applyAdd_def bindR_Inr_iff)
  qed
  from Cons.IH [OF s(2) Cons.prems(2)] obtain na' ka' where k: "keepsLeaves (nodes w) (nodes wt')"
    "newly = na @ l # na'" "kps = ka @ kp # ka'"
    "list_all2 (\<lambda>l kp. 2 * unat l < length (nodes wt') \<and> nodes wt' ! (2 * unat l) = leafEntry (kp_LeafNode kp)) na' ka'"
    by auto
  have "length (nodes w) < 2147483648" using k(1) Cons.prems(2) by (simp add: keepsLeaves_def)
  note a = AddLeaf_leaves [OF s(1) this]
  have "2 * unat l < length (nodes wt')" using k(1) a(2) unfolding keepsLeaves_def by linarith
  moreover have "nodes wt' ! (2 * unat l) = leafEntry (kp_LeafNode kp)"
    using k(1) a(2,3) unfolding keepsLeaves_def leafEntry_def by simp
  ultimately show ?case using k keepsLeaves_trans [OF a(1) k(1)] by auto
qed simp

text \<open>A path changes no leaf but the sender's.\<close>

lemma fdpLoop_odd: "fdpLoop t x = Ok ps \<Longrightarrow> p \<in> set ps \<Longrightarrow> odd (unat p)"
proof (induction t x arbitrary: ps rule: fdpLoop.induct)
  case (1 t x)
  show ?case
  proof (cases "x = Root (leafCount t)")
    case True
    then have "ps = []" using "1.prems"(1) by (subst (asm) fdpLoop.simps) simp
    then show ?thesis using "1.prems"(2) by simp
  next
    case False
    obtain q ok s sk res path where r: "Parent x (leafCount t) = Ok (q, ok)" "Sibling x (leafCount t) = Ok (s, sk)"
      "Resolution t s = Ok res" "fdpLoop t q = Ok path" "ps = (if res \<noteq> [] then q # path else path)"
      using "1.prems"(1) False by (auto simp: fdpLoop.simps [of t x] bindR_Inr_iff)
    have "odd (unat q)" by (rule climb_odd [OF r(1) False])
    moreover have "p \<in> set path \<Longrightarrow> odd (unat p)" by (rule "1.IH" [OF False r(1) refl r(2) refl r(3,4)])
    ultimately show ?thesis using r(5) "1.prems"(2) by (auto split: if_splits)
  qed
qed

lemma assignHashes_leaves:
  "assignHashes std t ps = Ok t' \<Longrightarrow> (\<And>p. p \<in> set ps \<Longrightarrow> odd (unat p)) \<Longrightarrow> sameLeaves (nodes t) (nodes t')"
proof (induction std t ps arbitrary: t' rule: assignHashes.induct)
  case (2 std t p)
  then show ?case by (auto simp: setParentHash_def bindR_Inr_iff intro: sameLeaves_upd)
next
  case (3 std t p q ps)
  obtain w ph where w: "assignHashes std t (q # ps) = Ok w" "setParentHash w p ph = Ok t'"
    using "3.prems"(1) by (auto simp: bindR_Inr_iff)
  have "sameLeaves (nodes t) (nodes w)" by (rule "3.IH" [OF w(1)]) (use "3.prems"(2) in auto)
  moreover have "sameLeaves (nodes w) (nodes t')"
    using w(2) "3.prems"(2) [of p] by (auto simp: setParentHash_def bindR_Inr_iff intro: sameLeaves_upd)
  ultimately show ?case by (rule sameLeaves_trans)
qed simp

lemma installPath_leaves:
  assumes "installPath std t sender pubs = Ok (t', fdp)"
  shows "sameLeaves (nodes t) (nodes t')"
proof -
  obtain ns ms where m: "filteredDirectPath t sender = Ok fdp"
    "blankPath (leafCount t) (Root (leafCount t)) (2 * sender) (nodes t) = Ok ns"
    "foldR (\<lambda>ns (p, pub). goUpdate ns (unat p) (newParent pub)) ns (zip fdp pubs) = Ok ms"
    "assignHashes std (t\<lparr>nodes := ms\<rparr>) fdp = Ok t'"
    using assms by (auto simp: installPath_def Let_def bindR_Inr_iff split: if_splits)
  have o: "p \<in> set fdp \<Longrightarrow> odd (unat p)" for p using m(1) fdpLoop_odd by (auto simp: filteredDirectPath_def)
  have "sameLeaves ns ms"
  proof (rule foldR_invariant [OF m(3), of "sameLeaves ns"])
    fix s s' x
    assume "x \<in> set (zip fdp pubs)" "sameLeaves ns s" "(case x of (p, pub) \<Rightarrow> goUpdate s (unat p) (newParent pub)) = Ok s'"
    moreover obtain p pub where "x = (p, pub)" by (cases x)
    ultimately show "sameLeaves ns s'"
      using o [of p] sameLeaves_trans sameLeaves_upd [of "unat p" s "newParent pub"]
      by (auto simp: goUpdate_Inr_iff dest: set_zip_leftD)
  qed simp
  moreover have "sameLeaves ms (nodes t')" using assignHashes_leaves [OF m(4) o] by simp
  ultimately show ?thesis using blankPath_leaves [OF m(2) refl] sameLeaves_trans by blast
qed

lemma GenerateUpdatePath_leaves:
  assumes "GenerateUpdatePath std rnd t sender leafSecret signer gid newly mkGC = Ok (t', up, cs, m)"
  shows "i < length (nodes t) \<Longrightarrow> even i \<Longrightarrow> nodes t ! i \<noteq> None \<Longrightarrow> i \<noteq> unat (2 * sender) \<Longrightarrow> nodes t' ! i = nodes t ! i"
    and "m p = Some ps \<Longrightarrow> odd (unat p)" and "length (nodes t') = length (nodes t)"
proof -
  obtain fdp secs pubs t1 p1 ms where
    s: "filteredDirectPath t sender = Ok fdp" "m = map_of (zip fdp secs)"
    "installPath std t sender pubs = Ok (t1, p1)"
    "goUpdate (nodes t1) (unat (2 * sender)) (leafEntry (up_LeafNode up)) = Ok ms" "t' = t1\<lparr>nodes := ms\<rparr>"
    using assms by (auto simp: GenerateUpdatePath_def Let_def bindR_Inr_iff split: prod.splits)
  have k: "keepsLeaves (nodes t) (nodes t1)" by (rule sameLeaves_keeps [OF installPath_leaves [OF s(3)]])
  show "nodes t' ! i = nodes t ! i" if "i < length (nodes t)" "even i" "nodes t ! i \<noteq> None" "i \<noteq> unat (2 * sender)"
    using k that s(4,5) by (auto simp: keepsLeaves_def goUpdate_Inr_iff)
  show "odd (unat p)" if "m p = Some ps"
    using that s(1,2) fdpLoop_odd by (auto simp: filteredDirectPath_def dest!: map_of_SomeD set_zip_leftD)
  show "length (nodes t') = length (nodes t)" by (rule Merge_shape [OF generated_merges [OF assms]])
qed

section \<open>The welcome and its reader\<close>

lemma findKey_finds:
  assumes "j < length ns" "leafOf (ns ! j) = Some l" "leaf_EncryptionKey l = key"
  shows "\<exists>j l. findKey key i ns = (of_nat (i + j), True) \<and> j < length ns \<and> leafOf (ns ! j) = Some l \<and>
    leaf_EncryptionKey l = key"
  using assms
proof (induction ns arbitrary: i j)
  case (Cons n ns)
  show ?case
  proof (cases "\<exists>l. leafOf n = Some l \<and> leaf_EncryptionKey l = key")
    case True
    then show ?thesis by (intro exI [of _ 0]) auto
  next
    case False
    then obtain j' where "j = Suc j'" using Cons.prems by (cases j) auto
    with Cons.IH [of j' "Suc i"] Cons.prems obtain k l' where k: "findKey key (Suc i) ns = (of_nat (Suc i + k), True)"
      "k < length ns" "leafOf (ns ! k) = Some l'" "leaf_EncryptionKey l' = key" by auto
    moreover have "findKey key i (n # ns) = findKey key (Suc i) ns" using False by (auto split: option.split)
    ultimately show ?thesis by (intro exI [of _ "Suc k"] exI [of _ l']) simp
  qed
qed simp

text \<open>The check of the leaf signatures admits no encryption key twice.\<close>

lemma verifyLeaves_keys:
  "verifyLeaves std s gid i S E ns = Ok () \<Longrightarrow>
    distinct (map leaf_EncryptionKey (List.map_filter leafOf ns)) \<and>
    set (map leaf_EncryptionKey (List.map_filter leafOf ns)) \<inter> E = {}"
proof (induction ns arbitrary: i S E)
  case (Cons n ns)
  show ?case
  proof (cases "leafOf n")
    case None
    then have "verifyLeaves std s gid (Suc i) S E ns = Ok ()" using Cons.prems by simp
    from Cons.IH [OF this] None show ?thesis by (simp add: map_filter_simps)
  next
    case (Some l)
    have "leaf_EncryptionKey l \<notin> E" and
      v: "verifyLeaves std s gid (Suc i) (insert (SignatureKey l) S) (insert (leaf_EncryptionKey l) E) ns = Ok ()"
      using Cons.prems Some by (auto simp: bindR_Inr_iff split: if_splits)
    with Cons.IH [OF v] Some show ?thesis by (auto simp: map_filter_simps)
  qed
qed (simp add: map_filter_simps)

lemma leaves_by_key:
  assumes "VerifyLeafSignatures std t gid = Ok ()" "n \<in> set (evens (nodes t))" "n' \<in> set (evens (nodes t))"
    and "leafOf n = Some l" "leafOf n' = Some l'" "leaf_EncryptionKey l = leaf_EncryptionKey l'"
  shows "l = l'"
proof -
  have "l \<in> set (List.map_filter leafOf (evens (nodes t)))" "l' \<in> set (List.map_filter leafOf (evens (nodes t)))"
    using assms(2-5) by (force simp: List.map_filter_def)+
  then show ?thesis
    using verifyLeaves_keys [OF assms(1) [unfolded VerifyLeafSignatures_def]] assms(6)
    by (auto simp: distinct_map dest: inj_onD)
qed

lemma FindLeaf_finds:
  assumes "fullTree h t" "even i" "i < length (nodes t)" "nodes t ! i = leafEntry ln"
    and "VerifyLeafSignatures std t gid = Ok ()"
  obtains own where "FindLeafByEncryptionKey t (leaf_EncryptionKey ln) = (own, True)" "own < leafCount t"
    "LeafNodeAt t own = Ok ln"
proof -
  obtain j where j: "i = 2 * j" using assms(2) by blast
  then have e: "j < length (evens (nodes t))" "evens (nodes t) ! j = leafEntry ln"
    using assms(3,4) by (simp_all add: length_evens nth_evens)
  then obtain k l where k: "FindLeafByEncryptionKey t (leaf_EncryptionKey ln) = (of_nat k, True)"
    "k < length (evens (nodes t))" "leafOf (evens (nodes t) ! k) = Some l" "leaf_EncryptionKey l = leaf_EncryptionKey ln"
    using findKey_finds [of j "evens (nodes t)" ln "leaf_EncryptionKey ln" 0]
    by (auto simp: FindLeafByEncryptionKey_def leafEntry_def leafOf_def)
  have l: "l = ln"
    by (rule leaves_by_key [OF assms(5) nth_mem [OF k(2)] nth_mem [OF e(1)] k(3)]) (use e(2) k(4) in \<open>simp_all add: leafEntry_def leafOf_def\<close>)
  have len: "length (nodes t) < 2147483648" using assms(1) pow31 [of h] by (auto simp: fullTree_def)
  have k2: "2 * k < length (nodes t)" using k(2) by (simp add: length_evens)
  then have u: "unat (of_nat k :: u32) = k" using len by (simp add: unat_of_nat)
  have "unat (leafCount t) = (length (nodes t) + 1) div 2"
    using fullTree_width(2) [OF assms(1)] assms(1) by (auto simp: fullTree_def)
  then have own: "(of_nat k :: u32) < leafCount t" using u k2 by (simp add: word_less_nat_alt)
  have "nodes t ! (2 * k) = evens (nodes t) ! k" using k(2) by (simp add: nth_evens)
  then have "leafOf (NodeAt t (2 * of_nat k)) = Some l"
    using k(3) fullTree_NodeAt(1) [OF assms(1)] fullTree_leaf(2) [OF assms(1) own] u k2 by (simp add: at_def)
  then have "LeafNodeAt t (of_nat k) = Ok l"
    by (cases "NodeAt t (2 * of_nat k)") (simp_all add: LeafNodeAt_def leafOf_def)
  with that k own l show ?thesis by blast
qed

text \<open>What the welcome for the key package \<open>kp\<close> consists of.\<close>

lemma buildWelcome_parts:
  assumes "buildWelcome std rnd s es gc wt c signer newly kps secrets tag ids = Ok w"
  obtains rt gi gib wk wn enc egs where "RatchetTree_MarshalMLS wt = Ok rt"
    "GroupInfo_Sign std s signer \<lparr>gi_GroupContext = gc,
       gi_Extensions = [\<lparr>ExtensionType = ExtensionTypeRatchetTree, ExtensionData = rt\<rparr>],
       gi_ConfirmationTag = tag, gi_Signer = c, gi_Signature = []\<rparr> = Ok gi"
    "GroupInfo_MarshalMLS gi = Ok gib" "WelcomeKeyNonce std s (WelcomeSecret es) = Ok (wk, wn)"
    "Seal std s wk wn [] gib = Ok enc"
    "list_all2 (\<lambda>e egs. memberSecrets std s rnd es c (leafCount wt) secrets ids enc e = Ok egs)
      (zip [0..<length newly] (zip newly kps)) egs"
    "EncodeWelcomeMessage \<lparr>w_CipherSuite = ID s, Secrets = egs, EncryptedGroupInfo = enc\<rparr> = Ok w"
    "length newly = length kps"
proof -
  have "length newly = length kps" using assms by (auto simp: buildWelcome_def split: if_splits)
  with assms that show ?thesis
    unfolding buildWelcome_def Let_def bindR_Inr_iff split_paired_Ex prod.case mapR_Inr_iff by (simp add: bindR_Inr_iff mapR_Inr_iff) blast
qed

lemma memberSecrets_parts:
  assumes "memberSecrets std s rnd es c n secrets ids enc (i, l, kp) = Ok e"
  obtains nd ps gsb kout ct ref where "commonAncestor (2 * l) (2 * c) n = Ok nd" "secrets nd = Some ps"
    "GroupSecrets_MarshalMLS \<lparr>gs_JoinerSecret = es_JoinerSecret es, gs_PathSecret = Some ps, PSKs = ids\<rparr> = Ok gsb"
    "EncryptWithLabel std s (rnd i) (InitKey kp) ''Welcome'' enc gsb = Ok (kout, ct)" "KeyPackage_Ref std s kp = Ok ref"
    "e = \<lparr>NewMember = ref, egs_Ciphertext = \<lparr>KemOutput = kout, Ciphertext = ct\<rparr>\<rparr>"
  using assms by (auto simp: memberSecrets_def bindR_Inr_iff fromOption_Inr_iff)

lemma member_secrets_found:
  assumes "list_all2 (\<lambda>e egs. memberSecrets std s rnd es c n secrets ids enc e = Ok egs)
      (zip [0..<length newly] (zip newly kps)) egs"
    and "length newly = length kps" "kp \<in> set kps"
    and "\<forall>kp'\<in>set kps. KeyPackage_Ref std s kp' = KeyPackage_Ref std s kp \<longrightarrow> kp' = kp"
  obtains ref i l nd ps gsb kout ct where "KeyPackage_Ref std s kp = Ok ref" "List.find (\<lambda>e. NewMember e = ref) egs =
      Some \<lparr>NewMember = ref, egs_Ciphertext = \<lparr>KemOutput = kout, Ciphertext = ct\<rparr>\<rparr>"
    "(l, kp) \<in> set (zip newly kps)" "commonAncestor (2 * l) (2 * c) n = Ok nd" "secrets nd = Some ps"
    "GroupSecrets_MarshalMLS \<lparr>gs_JoinerSecret = es_JoinerSecret es, gs_PathSecret = Some ps, PSKs = ids\<rparr> = Ok gsb"
    "EncryptWithLabel std s (rnd i) (InitKey kp) ''Welcome'' enc gsb = Ok (kout, ct)"
proof -
  let ?z = "zip [0..<length newly] (zip newly kps)"
  have len: "length egs = length kps" using assms(1,2) by (auto dest: list_all2_lengthD)
  have nth: "memberSecrets std s rnd es c n secrets ids enc (j, newly ! j, kps ! j) = Ok (egs ! j)"
    if "j < length kps" for j
    using list_all2_nthD [OF assms(1), of j] that assms(2) by simp
  have ref: "KeyPackage_Ref std s (kps ! j) = Ok (NewMember (egs ! j))" if "j < length kps" for j
    by (rule memberSecrets_parts [OF nth [OF that]]) simp
  obtain j where j: "j < length kps" "kps ! j = kp" using assms(3) by (auto simp: in_set_conv_nth)
  let ?ref = "NewMember (egs ! j)"
  have rf: "KeyPackage_Ref std s kp = Ok ?ref" using ref [OF j(1)] j(2) by simp
  have "List.find (\<lambda>e. NewMember e = ?ref) egs \<noteq> None"
    using j(1) len by (auto simp: find_None_iff in_set_conv_nth)
  then obtain k where k: "k < length egs" "NewMember (egs ! k) = ?ref"
    "List.find (\<lambda>e. NewMember e = ?ref) egs = Some (egs ! k)" by (auto simp: find_Some_iff)
  have kp: "kps ! k = kp" using assms(4) rf ref [of k] k(1,2) len by simp
  have "(newly ! k, kp) \<in> set (zip newly kps)" using k(1) len assms(2) kp by (force simp: set_zip)
  moreover obtain nd ps gsb kout ct r where "commonAncestor (2 * newly ! k) (2 * c) n = Ok nd" "secrets nd = Some ps"
    "GroupSecrets_MarshalMLS \<lparr>gs_JoinerSecret = es_JoinerSecret es, gs_PathSecret = Some ps, PSKs = ids\<rparr> = Ok gsb"
    "EncryptWithLabel std s (rnd k) (InitKey (kps ! k)) ''Welcome'' enc gsb = Ok (kout, ct)"
    "egs ! k = \<lparr>NewMember = r, egs_Ciphertext = \<lparr>KemOutput = kout, Ciphertext = ct\<rparr>\<rparr>"
    by (rule memberSecrets_parts [OF nth]) (use k(1) len in auto)
  ultimately show ?thesis using k(2,3) kp rf by (intro that [of ?ref kout ct "newly ! k" nd ps gsb k]) auto
qed

lemma Group_Commit_welcome:
  assumes "Group_Commit std rnd g opt = (Ok (commit, Some w), g')" "prepareCommit std rnd g opt = Ok pc"
  shows "buildWelcome std (rnd_welcome rnd) (g_suite g) (pc_epoch pc) (pc_context pc) (pc_tree pc) (ownLeaf g)
    (signerOf_g g) (pc_newlyAdded pc) (pc_addedKPs pc) (pc_pathSecrets pc) (pc_confTag pc) (map psk_ID (pc_psks pc)) = Ok w"
    and "ownLeaf g' = ownLeaf g"
proof -
  define g0 where "g0 = (if encryptHandshakes g then g\<lparr>handshakeGeneration := handshakeGeneration g + 1\<rparr> else g)"
  have "finishCommit std rnd g0 pc = Ok ((commit, Some w), g')"
    using assms unfolding Group_Commit_def g0_def [symmetric] by (simp split: sum.splits prod.splits)
  moreover have "g_suite g0 = g_suite g" "ownLeaf g0 = ownLeaf g" "signerOf_g g0 = signerOf_g g"
    by (simp_all add: g0_def signerOf_g_def)
  ultimately show "buildWelcome std (rnd_welcome rnd) (g_suite g) (pc_epoch pc) (pc_context pc) (pc_tree pc) (ownLeaf g)
      (signerOf_g g) (pc_newlyAdded pc) (pc_addedKPs pc) (pc_pathSecrets pc) (pc_confTag pc) (map psk_ID (pc_psks pc)) = Ok w"
    and "ownLeaf g' = ownLeaf g"
    unfolding finishCommit_def Let_def bindR_Inr_iff split_paired_Ex prod.case sum.inject prod.inject
    by (auto simp: bindR_Inr_iff advance_def split: if_splits)
qed

text \<open>The secrets that a joiner derives from the joiner secret.\<close>

lemma DeriveEpochSecrets_joiner:
  assumes "DeriveEpochSecrets std s i c (Some psk) gc = Ok es"
  obtains member where "EpochSecretsFromJoiner std s (es_JoinerSecret es) (Some psk) gc = Ok es"
    "Extract std s (es_JoinerSecret es) psk = Ok member" "DeriveSecret std s member ''welcome'' = Ok (WelcomeSecret es)"
proof -
  obtain j where j: "EpochSecretsFromJoiner std s j (Some psk) gc = Ok es"
    using assms by (auto simp: DeriveEpochSecrets_def bindR_Inr_iff)
  then have "\<exists>member. j = es_JoinerSecret es \<and> Extract std s j psk = Ok member \<and>
      DeriveSecret std s member ''welcome'' = Ok (WelcomeSecret es)"
    unfolding EpochSecretsFromJoiner_def orZero_def option.case bindR_Inr_iff sum.inject by force
  with j that show ?thesis by blast
qed

lemma joinerPSK_all:
  assumes "\<forall>p\<in>set psks. PSKType (psk_ID p) = PSKTypeExternal \<and> external (PSKID (psk_ID p)) = Some (psk_PSK p)"
  shows "mapR (joinerPSK external) (map psk_ID psks) = Ok psks"
  using assms by (auto simp: mapR_Inr_iff list_all2_conv_all_nth joinerPSK_def)

text \<open>The tree of the group passes the checks of a joiner and survives its own encoding.\<close>

definition soundTree :: "Std \<Rightarrow> Group \<Rightarrow> bool" where
  "soundTree std g \<longleftrightarrow> suite (g_tree g) = g_suite g \<and> Clone (g_tree g) = Ok (g_tree g) \<and>
    ownLeaf g < leafCount (g_tree g) \<and> VerifyParentHashes std (g_tree g) = Ok True \<and>
    VerifyLeafSignatures std (g_tree g) (gc_GroupID (groupContext g)) = Ok ()"

text \<open>The owner of the key package \<open>kp\<close>, with its private key and the external pre-shared keys of the epoch.\<close>

definition ownerOf :: "Std \<Rightarrow> Suite \<Rightarrow> PSK list \<Rightarrow> KeyPackage \<Rightarrow> JoinOptions \<Rightarrow> bool" where
  "ownerOf std s psks kp jo \<longleftrightarrow> wfKeyPackage kp \<and> EncodeKeyPackageMessage kp = Ok (jo_KeyPackage jo) \<and>
    keyPair std (kem s) (jo_InitPriv jo) (InitKey kp) \<and> jo_RatchetTree jo = [] \<and>
    (\<forall>p\<in>set psks. wfPreSharedKeyID (psk_ID p) \<and> PSKType (psk_ID p) = PSKTypeExternal \<and>
      jo_ExternalPSKs jo (PSKID (psk_ID p)) = Some (psk_PSK p))"

text \<open>The leaf of an added member in the committed tree.\<close>

lemma added_leaf_stays:
  assumes run: "commitRun std rnd g opt pc wt cache refs ap up cs body inp sig th gcb psk"
    and "(l, kp) \<in> set (zip (pc_newlyAdded pc) (pc_addedKPs pc))" "l \<noteq> ownLeaf g"
    and "fullTree h (pc_tree pc)" "ownLeaf g < leafCount (pc_tree pc)"
  shows "2 * unat l < length (nodes (pc_tree pc))" "nodes (pc_tree pc) ! (2 * unat l) = leafEntry (kp_LeafNode kp)"
proof -
  note r = run [unfolded commitRun_def Let_def]
  have gen: "GenerateUpdatePath std (rnd_path rnd) (ap_tree ap) (ownLeaf g) (rnd_leafSecret rnd) (signerOf_g g)
       (gc_GroupID (groupContext g)) (newlyAdded ap)
       (\<lambda>th. GroupContext_MarshalMLS (nextContext (groupContext g) th (ConfirmedTranscriptHash (groupContext g)) (provisionalExt ap))) =
       Ok (pc_tree pc, up, cs, pc_pathSecrets pc)" using r by blast
  note p = GenerateUpdatePath_leaves [OF gen]
  have len: "length (nodes (pc_tree pc)) < 2147483648" using assms(4) pow31 [of h] by (auto simp: fullTree_def)
  obtain w rs where "foldR applyAdd (w, [], []) rs = Ok (ap_tree ap, newlyAdded ap, addedKPs ap)"
    using r by (auto simp: applyProposals_def bindR_Inr_iff)
  from applyAdd_leaves [OF this] len p(3) have
    "list_all2 (\<lambda>l kp. 2 * unat l < length (nodes (ap_tree ap)) \<and> nodes (ap_tree ap) ! (2 * unat l) = leafEntry (kp_LeafNode kp))
      (newlyAdded ap) (addedKPs ap)" by auto
  then have l: "2 * unat l < length (nodes (ap_tree ap))" "nodes (ap_tree ap) ! (2 * unat l) = leafEntry (kp_LeafNode kp)"
    using assms(2) r by (auto simp: list_all2_iff)
  have "2 * unat l \<noteq> unat (2 * ownLeaf g)"
    using assms(3) fullTree_leaf(2) [OF assms(4,5)] by (simp add: word_unat_eq_iff)
  then show "2 * unat l < length (nodes (pc_tree pc))" "nodes (pc_tree pc) ! (2 * unat l) = leafEntry (kp_LeafNode kp)"
    using p(1) [of "2 * unat l"] p(3) l by (auto simp: leafEntry_def)
qed

lemma finishJoin_joins:
  assumes "FindLeafByEncryptionKey rt (leaf_EncryptionKey (kp_LeafNode kp)) = (own, True)"
    and "gs_PathSecret gs = Some ps"
    and "installJoinerPriv std s (NewTreeKEMPrivate own (jo_EncryptionPriv jo)) ps own (gi_Signer gi) (leafCount rt) = Ok priv"
    and "GroupContext_MarshalMLS (gi_GroupContext gi) = Ok gcb"
    and "EpochSecretsFromJoiner std s (gs_JoinerSecret gs) (Some psk) gcb = Ok es"
    and "gi_ConfirmationTag gi = ConfirmationTag std s (ConfirmationKey es) (ConfirmedTranscriptHash (gi_GroupContext gi))"
    and "InterimTranscriptHash std s (ConfirmedTranscriptHash (gi_GroupContext gi)) (gi_ConfirmationTag gi) = Ok interim"
    and "NewSecretTree std s (leafCount rt) (EncryptionSecret es) = Ok st"
  shows "\<exists>h. finishJoin std s jo kp gs psk gi rt = Ok h \<and> g_suite h = s \<and> groupContext h = gi_GroupContext gi \<and>
    g_tree h = rt \<and> g_epoch h = es \<and> secretTree h = st \<and> g_interim h = interim \<and> g_initSecret h = InitSecret es \<and>
    ownLeaf h = own"
  using assms by (simp add: finishJoin_def Let_def require_def)

lemma checkTree_sound:
  assumes "VerifyParentHashes std t = Ok True" "VerifyLeafSignatures std t (gc_GroupID gc) = Ok ()"
    and "RootTreeHash std t = Ok (gc_TreeHash gc)"
  shows "checkTree std t gc = Ok ()"
  using assms by (simp add: checkTree_def require_def)

lemma commonAncestor_same: "even (unat x) \<Longrightarrow> commonAncestor x x n = Ok x"
  by (simp add: commonAncestor_def climbTo.simps meet.simps)

lemma even_double: "even (unat (2 * l :: u32))"
  by (simp add: unat_double_masked)

lemma join_opens:
  assumes w: "EncodeWelcomeMessage \<lparr>w_CipherSuite = ID s, Secrets = egs, EncryptedGroupInfo = enc\<rparr> = Ok w"
    and jo: "ownerOf std s psks kp jo" and ref: "KeyPackage_Ref std s kp = Ok ref"
    and f: "List.find (\<lambda>e. NewMember e = ref) egs = Some \<lparr>NewMember = ref, egs_Ciphertext = \<lparr>KemOutput = kout, Ciphertext = ct\<rparr>\<rparr>"
    and gs: "GroupSecrets_MarshalMLS gs = Ok gsb" "PSKs gs = map psk_ID psks"
    and ct: "EncryptWithLabel std s r (InitKey kp) ''Welcome'' enc gsb = Ok (kout, ct)"
    and sec: "PSKSecret std s psks = Ok psk" "Extract std s (gs_JoinerSecret gs) psk = Ok member"
      "DeriveSecret std s member ''welcome'' = Ok ws" "WelcomeKeyNonce std s ws = Ok (wk, wn)"
    and gi: "Seal std s wk wn [] gib = Ok enc" "GroupInfo_MarshalMLS gi = Ok gib" "gcmLaw std"
    and tree: "RatchetTreeExtension gi = Some rtb" "ParseRatchetTree s rtb = Ok rt"
      "checkTree std rt (gi_GroupContext gi) = Ok ()" "LeafNodeAt rt (gi_Signer gi) = Ok ln"
      "GroupInfo_VerifySignature std s (SignatureKey ln) gi = Ok True"
  shows "JoinFromWelcome std s w jo = finishJoin std s jo kp gs psk gi rt"
proof -
  have "DecodeWelcomeMessage w = Ok \<lparr>w_CipherSuite = ID s, Secrets = egs, EncryptedGroupInfo = enc\<rparr>"
    using w unfolding DecodeWelcomeMessage_def EncodeWelcomeMessage_def welcomemsg.envelope_iff by simp
  moreover have "DecodeKeyPackageMessage (jo_KeyPackage jo) = Ok kp"
    using jo unfolding ownerOf_def DecodeKeyPackageMessage_def EncodeKeyPackageMessage_def keypackage.envelope_iff by simp
  moreover have "DecryptWithLabel std s (jo_InitPriv jo) ''Welcome'' enc kout ct = Ok gsb"
    using decrypt_encrypted [OF _ ct] jo by (simp add: ownerOf_def)
  moreover have "GroupSecrets_UnmarshalMLS gsb = Ok gs"
    using gs jo unfolding GroupSecrets_UnmarshalMLS_def GroupSecrets_MarshalMLS_def groupsecrets.unmarshal_iff
    by (simp add: wfGroupSecrets_def list_all_iff ownerOf_def)
  moreover have "mapR (joinerPSK (jo_ExternalPSKs jo)) (PSKs gs) = Ok psks"
    unfolding gs(2) by (rule joinerPSK_all) (use jo in \<open>simp add: ownerOf_def\<close>)
  moreover have "Open std s wk wn [] enc = Ok gib" by (rule seal_open [OF gi(3,1)])
  moreover have "GroupInfo_UnmarshalMLS gib = Ok gi"
    using gi(2) unfolding GroupInfo_UnmarshalMLS_def GroupInfo_MarshalMLS_def groupinfo.unmarshal_iff by simp
  ultimately show ?thesis
    using jo ref f sec tree by (simp add: JoinFromWelcome_def Let_def require_def ownerOf_def)
qed

lemma run_epoch:
  assumes "commitRun std rnd g opt pc wt cache refs ap up cs body inp sig th gcb psk"
  shows "RootTreeHash std (pc_tree pc) = Ok (gc_TreeHash (pc_context pc))"
    "ConfirmedTranscriptHash (pc_context pc) = pc_confirmed pc" "GroupContext_MarshalMLS (pc_context pc) = Ok gcb"
    "PSKSecret std (g_suite g) (pc_psks pc) = Ok psk"
    "pc_confTag pc = ConfirmationTag std (g_suite g) (ConfirmationKey (pc_epoch pc)) (pc_confirmed pc)"
    "DeriveEpochSecrets std (g_suite g) (g_initSecret g) (Some cs) (Some psk) gcb = Ok (pc_epoch pc)"
proof -
  note r = assms [unfolded commitRun_def Let_def]
  have c: "pc_context pc = nextContext (groupContext g) th (pc_confirmed pc) (provisionalExt ap)" using r by blast
  have "RootTreeHash std (pc_tree pc) = Ok th" using r by blast
  then show "RootTreeHash std (pc_tree pc) = Ok (gc_TreeHash (pc_context pc))" by (simp add: c nextContext_def)
  show "ConfirmedTranscriptHash (pc_context pc) = pc_confirmed pc" by (simp add: c nextContext_def)
  have "pc_psks pc = ap_psks ap" "PSKSecret std (g_suite g) (ap_psks ap) = Ok psk" using r by blast+
  then show "PSKSecret std (g_suite g) (pc_psks pc) = Ok psk" by simp
  show "GroupContext_MarshalMLS (pc_context pc) = Ok gcb" using r by blast
  show "pc_confTag pc = ConfirmationTag std (g_suite g) (ConfirmationKey (pc_epoch pc)) (pc_confirmed pc)" using r by blast
  show "DeriveEpochSecrets std (g_suite g) (g_initSecret g) (Some cs) (Some psk) gcb = Ok (pc_epoch pc)" using r by blast
qed

lemma run_paths_odd:
  assumes "commitRun std rnd g opt pc wt cache refs ap up cs body inp sig th gcb psk" "pc_pathSecrets pc nd = Some ps"
  shows "odd (unat nd)"
proof -
  note r = assms(1) [unfolded commitRun_def Let_def]
  then have "\<exists>mk. GenerateUpdatePath std (rnd_path rnd) (ap_tree ap) (ownLeaf g) (rnd_leafSecret rnd) (signerOf_g g)
      (gc_GroupID (groupContext g)) (newlyAdded ap) mk = Ok (pc_tree pc, up, cs, pc_pathSecrets pc)" by blast
  then show ?thesis using GenerateUpdatePath_leaves(2) assms(2) by blast
qed

text \<open>The owner of the key package finds its leaf and installs its path secret.\<close>

lemma joiner_installs:
  assumes run: "commitRun std rnd g opt pc wt cache refs ap up cs body inp sig th gcb psk"
    and full: "fullTree h (pc_tree pc)" "ownLeaf g < leafCount (pc_tree pc)" and "derives std s"
    and sigs: "VerifyLeafSignatures std (pc_tree pc) gid = Ok ()" and "(l, kp) \<in> set (zip (pc_newlyAdded pc) (pc_addedKPs pc))"
    and "commonAncestor (2 * l) (2 * ownLeaf g) (leafCount (pc_tree pc)) = Ok nd" "pc_pathSecrets pc nd = Some ps"
  obtains own p where "FindLeafByEncryptionKey (pc_tree pc) (leaf_EncryptionKey (kp_LeafNode kp)) = (own, True)"
    "LeafNodeAt (pc_tree pc) own = Ok (kp_LeafNode kp)"
    "installJoinerPriv std s (NewTreeKEMPrivate own key) ps own (ownLeaf g) (leafCount (pc_tree pc)) = Ok p"
proof -
  have "l \<noteq> ownLeaf g"
    using assms(7,8) commonAncestor_same [OF even_double] run_paths_odd [OF run] even_double [of l] by auto
  note leaf = added_leaf_stays [OF run assms(6) this full]
  obtain own where own: "FindLeafByEncryptionKey (pc_tree pc) (leaf_EncryptionKey (kp_LeafNode kp)) = (own, True)"
    "own < leafCount (pc_tree pc)" "LeafNodeAt (pc_tree pc) own = Ok (kp_LeafNode kp)"
    by (rule FindLeaf_finds [OF full(1) _ leaf sigs]) simp
  from installJoinerPriv_keys [OF full(1) own(2) full(2) assms(4), of key ps] that own show ?thesis by blast
qed

text \<open>The group information in the welcome is signed by the committer.\<close>

lemma GroupInfo_signed:
  assumes "GroupInfo_Sign std s signer \<lparr>gi_GroupContext = gc, gi_Extensions = ext, gi_ConfirmationTag = tag, gi_Signer = c,
      gi_Signature = []\<rparr> = Ok gi" "signerOf std s signer pub"
  obtains sg where "gi = \<lparr>gi_GroupContext = gc, gi_Extensions = ext, gi_ConfirmationTag = tag, gi_Signer = c, gi_Signature = sg\<rparr>"
    "GroupInfo_VerifySignature std s pub gi = Ok True"
proof -
  obtain tbs sg where sg: "GroupInfo_tbsBytes gi = Ok tbs" "SignWithLabel std s signer ''GroupInfoTBS'' tbs = Ok sg"
    "gi = \<lparr>gi_GroupContext = gc, gi_Extensions = ext, gi_ConfirmationTag = tag, gi_Signer = c, gi_Signature = sg\<rparr>"
    using assms(1) by (auto simp: GroupInfo_Sign_def GroupInfo_tbsBytes_def GroupInfo_marshalTBS_def bindR_Inr_iff)
  then have "GroupInfo_VerifySignature std s pub gi = Ok True"
    using sign_verify [OF assms(2) sg(2)] by (simp add: GroupInfo_VerifySignature_def)
  with sg(3) that show ?thesis by blast
qed

text \<open>The owner of an added key package follows the committer.\<close>

lemma joiner_follows:
  assumes "Group_Commit std rnd g opt = (Ok (commit, Some w), g')" and "prepareCommit std rnd g opt = Ok pc"
    and "kp \<in> set (pc_addedKPs pc)" and "ownerOf std (g_suite g) (pc_psks pc) kp jo"
    and "\<forall>kp'\<in>set (pc_addedKPs pc). KeyPackage_Ref std (g_suite g) kp' = KeyPackage_Ref std (g_suite g) kp \<longrightarrow> kp' = kp"
    and "soundTree std g'" and "LeafNodeAt (g_tree g') (ownLeaf g') = Ok ln"
    and "commitLaws std (g_suite g) (signerOf_g g) (SignatureKey ln)"
  shows "\<exists>h. JoinFromWelcome std (g_suite g) w jo = Ok h \<and> inSync g' h \<and>
    LeafNodeAt (g_tree h) (ownLeaf h) = Ok (kp_LeafNode kp)"
proof -
  obtain pc' interim priv st where f: "prepareCommit std rnd g opt = Ok pc'"
    "InterimTranscriptHash std (g_suite g) (pc_confirmed pc') (pc_confTag pc') = Ok interim"
    "NewSecretTree std (g_suite g) (leafCount (pc_tree pc')) (EncryptionSecret (pc_epoch pc')) = Ok st"
    "\<exists>g0. g_suite g0 = g_suite g \<and> g' = (advance g0 (pc_tree pc') (pc_context pc') (pc_epoch pc') interim priv st)
      \<lparr>handshakeGeneration := 0\<rparr>"
    by (rule Group_Commit_parts [OF assms(1)])
  have pc: "pc' = pc" using f(1) assms(2) by simp
  obtain wt cache refs ap up cs body inp sig th gcb psk
    where run: "commitRun std rnd g opt pc wt cache refs ap up cs body inp sig th gcb psk"
    by (rule prepareCommit_run [OF assms(2)])
  note c = run_epoch [OF run] and bw = Group_Commit_welcome [OF assms(1,2)]
  have g': "g_tree g' = pc_tree pc" "groupContext g' = pc_context pc" "g_suite g' = g_suite g" "g_epoch g' = pc_epoch pc"
    "secretTree g' = st" "g_interim g' = interim" "g_initSecret g' = InitSecret (pc_epoch pc)"
    using f(4) pc by (auto simp: advance_def)
  have t: "suite (pc_tree pc) = g_suite g" "Clone (pc_tree pc) = Ok (pc_tree pc)" "ownLeaf g < leafCount (pc_tree pc)"
    "VerifyParentHashes std (pc_tree pc) = Ok True" "VerifyLeafSignatures std (pc_tree pc) (gc_GroupID (pc_context pc)) = Ok ()"
    using assms(6) g' bw(2) by (simp_all add: soundTree_def)
  have laws: "signerOf std (g_suite g) (signerOf_g g) (SignatureKey ln)" "gcmLaw std" "derives std (g_suite g)"
    using assms(8) by (simp_all add: commitLaws_def)
  obtain rtb gi gib wk wn enc egs where b: "RatchetTree_MarshalMLS (pc_tree pc) = Ok rtb"
    "GroupInfo_Sign std (g_suite g) (signerOf_g g) \<lparr>gi_GroupContext = pc_context pc,
       gi_Extensions = [\<lparr>ExtensionType = ExtensionTypeRatchetTree, ExtensionData = rtb\<rparr>],
       gi_ConfirmationTag = pc_confTag pc, gi_Signer = ownLeaf g, gi_Signature = []\<rparr> = Ok gi"
    "GroupInfo_MarshalMLS gi = Ok gib" "WelcomeKeyNonce std (g_suite g) (WelcomeSecret (pc_epoch pc)) = Ok (wk, wn)"
    "Seal std (g_suite g) wk wn [] gib = Ok enc"
    "list_all2 (\<lambda>e x. memberSecrets std (g_suite g) (rnd_welcome rnd) (pc_epoch pc) (ownLeaf g) (leafCount (pc_tree pc))
        (pc_pathSecrets pc) (map psk_ID (pc_psks pc)) enc e = Ok x)
      (zip [0..<length (pc_newlyAdded pc)] (zip (pc_newlyAdded pc) (pc_addedKPs pc))) egs"
    "EncodeWelcomeMessage \<lparr>w_CipherSuite = ID (g_suite g), Secrets = egs, EncryptedGroupInfo = enc\<rparr> = Ok w"
    "length (pc_newlyAdded pc) = length (pc_addedKPs pc)"
    by (rule buildWelcome_parts [OF bw(1)])
  obtain ref i l nd ps gsb kout ct where m: "KeyPackage_Ref std (g_suite g) kp = Ok ref"
    "List.find (\<lambda>e. NewMember e = ref) egs = Some \<lparr>NewMember = ref, egs_Ciphertext = \<lparr>KemOutput = kout, Ciphertext = ct\<rparr>\<rparr>"
    "(l, kp) \<in> set (zip (pc_newlyAdded pc) (pc_addedKPs pc))"
    "commonAncestor (2 * l) (2 * ownLeaf g) (leafCount (pc_tree pc)) = Ok nd" "pc_pathSecrets pc nd = Some ps"
    "GroupSecrets_MarshalMLS \<lparr>gs_JoinerSecret = es_JoinerSecret (pc_epoch pc), gs_PathSecret = Some ps,
      PSKs = map psk_ID (pc_psks pc)\<rparr> = Ok gsb"
    "EncryptWithLabel std (g_suite g) (rnd_welcome rnd i) (InitKey kp) ''Welcome'' enc gsb = Ok (kout, ct)"
    by (rule member_secrets_found [OF b(6,8) assms(3,5)])
  let ?gs = "\<lparr>gs_JoinerSecret = es_JoinerSecret (pc_epoch pc), gs_PathSecret = Some ps, PSKs = map psk_ID (pc_psks pc)\<rparr>"
  have parse: "ParseRatchetTree (g_suite g) rtb = Ok (pc_tree pc)" using t(1,2) b(1) by (simp add: Clone_def)
  then obtain h where full: "fullTree h (pc_tree pc)" by (auto simp: ParseRatchetTree_iff)
  obtain own p where own: "FindLeafByEncryptionKey (pc_tree pc) (leaf_EncryptionKey (kp_LeafNode kp)) = (own, True)"
    "LeafNodeAt (pc_tree pc) own = Ok (kp_LeafNode kp)"
    "installJoinerPriv std (g_suite g) (NewTreeKEMPrivate own (jo_EncryptionPriv jo)) ps own (ownLeaf g)
      (leafCount (pc_tree pc)) = Ok p"
    by (rule joiner_installs [OF run full t(3) laws(3) t(5) m(3-5)])
  obtain member where es: "EpochSecretsFromJoiner std (g_suite g) (es_JoinerSecret (pc_epoch pc)) (Some psk) gcb = Ok (pc_epoch pc)"
    "Extract std (g_suite g) (es_JoinerSecret (pc_epoch pc)) psk = Ok member"
    "DeriveSecret std (g_suite g) member ''welcome'' = Ok (WelcomeSecret (pc_epoch pc))"
    by (rule DeriveEpochSecrets_joiner [OF c(6)])
  obtain sg where sg: "gi = \<lparr>gi_GroupContext = pc_context pc,
       gi_Extensions = [\<lparr>ExtensionType = ExtensionTypeRatchetTree, ExtensionData = rtb\<rparr>],
       gi_ConfirmationTag = pc_confTag pc, gi_Signer = ownLeaf g, gi_Signature = sg\<rparr>"
    "GroupInfo_VerifySignature std (g_suite g) (SignatureKey ln) gi = Ok True"
    by (rule GroupInfo_signed [OF b(2) laws(1)])
  have gi: "gi_GroupContext gi = pc_context pc" "gi_ConfirmationTag gi = pc_confTag pc" "gi_Signer gi = ownLeaf g"
    "RatchetTreeExtension gi = Some rtb" by (simp_all add: sg(1) RatchetTreeExtension_def)
  have "LeafNodeAt (pc_tree pc) (gi_Signer gi) = Ok ln" using assms(7) bw(2) g'(1) gi(3) by simp
  moreover have "checkTree std (pc_tree pc) (gi_GroupContext gi) = Ok ()"
    unfolding gi(1) by (rule checkTree_sound [OF t(4,5) c(1)])
  ultimately have "JoinFromWelcome std (g_suite g) w jo = finishJoin std (g_suite g) jo kp ?gs psk gi (pc_tree pc)"
    by (intro join_opens [OF b(7) assms(4) m(1,2,6) _ m(7) c(4) _ es(3) b(4,5,3) laws(2) gi(4) parse _ _ sg(2)]) (use es(2) in simp_all)
  moreover obtain h where "finishJoin std (g_suite g) jo kp ?gs psk gi (pc_tree pc) = Ok h" "g_suite h = g_suite g"
    "groupContext h = gi_GroupContext gi" "g_tree h = pc_tree pc" "g_epoch h = pc_epoch pc" "secretTree h = st"
    "g_interim h = interim" "g_initSecret h = InitSecret (pc_epoch pc)" "ownLeaf h = own"
    using finishJoin_joins [OF own(1), of ?gs ps std "g_suite g" jo gi p gcb psk "pc_epoch pc" interim st] own(3) es(1) f(2,3)
    unfolding pc gi c(2) GroupSecrets.select_convs c(3) using c(5) by blast
  ultimately show ?thesis using own(2) g' gi(1) by (auto simp: inSync_def)
qed

section \<open>Properties\<close>


end
