(* ===== verification/GroupDemo.thy ===== *)
theory GroupDemo
  imports GroupSync
begin

text \<open>
  A two-member group run on constant primitives: one member commits and the other one
  follows, as the example of the agreement property of the group layer.
\<close>

section \<open>Primitives, suite and group\<close>

text \<open>Hashes are empty, MACs and derived secrets are zero; keys and signatures are as in the
  transparent instance.\<close>

abbreviation zeros :: bytes where "zeros \<equiv> replicate 32 0"

definition tinyStd :: Std where
  "tinyStd = demoStd\<lparr>sha256 := (\<lambda>_. []), hmac := (\<lambda>_ _. zeros), hkdfExtract := (\<lambda>_ _. Ok []),
    hkdfExpand := (\<lambda>_ _ n. Ok (replicate (nat n) 0))\<rparr>"

definition p256Suite :: Suite where
  "p256Suite = \<lparr>ID = P256_AES128GCM_SHA256_P256, NewHash = SHA256, Sig = SigECDSAP256,
     kem = DHKEM_P256, aead = AES128GCM, curve = Some P256\<rparr>"

definition pairTree :: RatchetTree where
  "pairTree = sampleTree\<lparr>suite := p256Suite\<rparr>"

definition tinyContext :: GroupContext where
  "tinyContext = \<lparr>gc_Version = ProtocolVersionMLS10, gc_CipherSuite = P256_AES128GCM_SHA256_P256, gc_GroupID = [],
     gc_Epoch = 3, gc_TreeHash = [], ConfirmedTranscriptHash = [], gc_Extensions = []\<rparr>"

definition tinySecrets :: EpochSecrets where
  "tinySecrets = \<lparr>es_JoinerSecret = zeros, WelcomeSecret = zeros, EpochSecret = zeros, SenderDataSecret = zeros,
     EncryptionSecret = zeros, ExporterSecret = zeros, ExternalSecret = zeros, ConfirmationKey = zeros,
     MembershipKey = zeros, ResumptionPSK = zeros, EpochAuthenticator = zeros, InitSecret = zeros\<rparr>"

definition tinyMember :: "u32 \<Rightarrow> bytes \<Rightarrow> Group" where
  "tinyMember leaf key = \<lparr>g_suite = p256Suite, groupContext = tinyContext, g_tree = pairTree,
     g_priv = NewTreeKEMPrivate leaf key, g_epoch = tinySecrets,
     secretTree = \<lparr>st_suite = p256Suite, st_nLeaves = 2, handshakeBase = Map.empty, applicationBase = Map.empty\<rparr>,
     g_interim = [], g_initSecret = [], ownLeaf = leaf, g_signer = Some (demoSigner key),
     externalPSKs = Map.empty, resumptionPSKHistory = Map.empty, appGeneration = 0, handshakeGeneration = 0,
     encryptHandshakes = False, pendingUpdates = Map.empty\<rparr>"

definition tinyRand :: Rand where
  "tinyRand = \<lparr>rnd_init = [], rnd_leaf = [], rnd_leafSecret = [], rnd_guard = [0, 0, 0, 0],
     rnd_path = (\<lambda>_ _. []), rnd_welcome = (\<lambda>_. []), rnd_kem = []\<rparr>"

definition noProposals :: CommitOptions where
  "noProposals = \<lparr>ByValue = [], ByReference = []\<rparr>"

section \<open>Sizes\<close>

text \<open>Strings of up to 16383 bytes have a two-byte header.\<close>

lemma WriteVarint_medium:
  assumes "64 \<le> n" "n < 16384"
  shows "WriteVarint (of_nat n) = Ok [0x40 OR ucast (drop_bit 8 (of_nat n :: u64)), of_nat n]"
proof -
  have "unat (of_nat n :: u64) = n" using assms(2) by (simp add: unat_of_nat)
  then show ?thesis
    using assms by (simp add: WriteVarint_def word_less_nat_alt word_unat_eq_iff unsigned_ucast_eq unsigned_of_nat)
qed

lemma medium_strings:
  "\<lbrakk>64 \<le> length b; length b < 16384\<rbrakk> \<Longrightarrow>
    WriteOpaqueV b = Ok ((0x40 OR ucast (drop_bit 8 (of_nat (length b) :: u64))) # of_nat (length b) # b)"
  "\<lbrakk>64 \<le> length b; length b < 16384\<rbrakk> \<Longrightarrow>
    Builder_WriteOpaqueV b out =
      Ok (out @ (0x40 OR ucast (drop_bit 8 (of_nat (length b) :: u64))) # of_nat (length b) # b)"
  by (simp_all add: WriteOpaqueV_def Builder_WriteOpaqueV_def Builder_WriteVarint_def goLen_def WriteVarint_medium)

section \<open>The committer's path\<close>

lemma tiny_expand:
  "\<lbrakk>length l < 50; length c < 64; 0 \<le> n; n < 256\<rbrakk> \<Longrightarrow> ExpandWithLabel tinyStd p256Suite x l c n = Ok (replicate (nat n) 0)"
  by (simp add: ExpandWithLabel_def kdfLabel_def short_strings p256Suite_def
      bytesOf_def mlsLabelPrefix_def kdfExpand_def tinyStd_def)

lemma tiny_extract: "Extract tinyStd p256Suite x y = Ok []"
  by (simp add: Extract_def p256Suite_def tinyStd_def)

lemma tiny_derive: "length l < 50 \<Longrightarrow> DeriveSecret tinyStd p256Suite x l = Ok zeros"
  by (simp add: DeriveSecret_def tiny_expand)

lemma tiny_keyPair: "DeriveKeyPair tinyStd p256Suite x = Ok (x, x)" "nodeKeyPair tinyStd p256Suite x = Ok (zeros, zeros)"
  "keyPair tinyStd k x x"
  by (simp_all add: nodeKeyPair_def tiny_derive DeriveKeyPair_def)
    (simp_all add: tinyStd_def demoStd_def keyPair_def)

lemma tiny_hash [simp]: "Hash tinyStd p256Suite x = []"
  by (simp add: Hash_def p256Suite_def tinyStd_def)

lemma tiny_signature: "signClassical tinyStd p256Suite (demoSigner [1]) m = Ok [1]"
  by (simp add: signClassical_def demoSigner_def) (simp add: p256Suite_def)

lemma pair_shape [simp]:
  "nodes pairTree = nodes sampleTree" "suite pairTree = p256Suite" "leafCount pairTree = 2"
  "leafCount (pairTree\<lparr>nodes := [a, b, c]\<rparr>) = 2"
  by (simp_all add: pairTree_def leafCount_def len32_def sampleTree_def)

lemma pair_paths:
  "Resolution pairTree 2 = Ok [2]" "filteredDirectPath pairTree 0 = Ok [1]" "copathChild pairTree 1 0 = Ok 2"
proof -
  show r: "Resolution pairTree 2 = Ok [2]"
    by (simp add: Resolution.simps two_leaves goIndex_def) (simp add: sampleTree_def leafEntry_def)
  then show "filteredDirectPath pairTree 0 = Ok [1]"
    by (simp add: filteredDirectPath_def fdpLoop.simps two_leaves)
  show "copathChild pairTree 1 0 = Ok 2"
    by (simp add: copathChild_def pathChild_def two_leaves two_leaf_subtrees)
qed

definition openTree :: RatchetTree where
  "openTree = pairTree\<lparr>nodes := [leafEntry (sampleLeaf [1]), newParent zeros, leafEntry (sampleLeaf [2])]\<rparr>"

definition pathLeaf :: LeafNode where
  "pathLeaf = commitLeaf (sampleLeaf [1]) zeros []\<lparr>leaf_Signature := [1]\<rparr>"

definition nextTree :: RatchetTree where
  "nextTree = pairTree\<lparr>nodes := [leafEntry pathLeaf, newParent zeros, leafEntry (sampleLeaf [2])]\<rparr>"

definition tinyPath :: UpdatePath where
  "tinyPath = \<lparr>up_LeafNode = pathLeaf, Nodes = [\<lparr>upn_EncryptionKey = zeros,
     EncryptedPathSecret = [\<lparr>KemOutput = [2], Ciphertext = zeros\<rparr>]\<rparr>]\<rparr>"

lemma tiny_install: "installPath tinyStd pairTree 0 [zeros] =
  Ok (openTree, [1])"
  by (simp add: installPath_def pair_paths blankPath.simps two_leaves goUpdate_def)
    (simp add: sampleTree_def setParentHash_def goIndex_def newParent_def openTree_def)

lemma tiny_parentHash:
  "leafParentHash tinyStd openTree 0 [1] = Ok []"
  by (simp add: leafParentHash_def pathChild_def two_leaf_subtrees two_leaves openTree_def)
    (simp add: parentHashOf_def parentAt_def goIndex_def treeHashExcept.simps two_leaves newParent_def leafSet_def
      marshal_eval medium_strings)

lemma tiny_sign:
  "SignLeafNode tinyStd p256Suite (demoSigner [1]) (commitLeaf (sampleLeaf [1]) zeros []) [] 0 = Ok pathLeaf"
  by (simp add: SignLeafNode_def LeafNode_tbs_def marshal_eval medium_strings commitLeaf_def
      SignWithLabel_def labeledContext_def bytesOf_def mlsLabelPrefix_def pathLeaf_def tiny_signature)

lemma tiny_rootHash: "RootTreeHash tinyStd nextTree = Ok []"
  by (simp add: RootTreeHash_def TreeHash_def nextTree_def)
    (simp add: two_leaves goIndex_def treeHashExcept.simps newParent_def leafSet_def marshal_eval medium_strings pathLeaf_def commitLeaf_def)

lemma tiny_encrypt:
  "length gc < 64 \<Longrightarrow> length (bytesOf l) < 50 \<Longrightarrow> EncryptWithLabel tinyStd p256Suite r pk l gc pt = Ok (pk, pt)"
  by (simp add: EncryptWithLabel_def labeledContext_def short_strings bytesOf_def mlsLabelPrefix_def)
    (simp add: tinyStd_def demoStd_def)

lemma tiny_keys: "resolutionKeys pairTree 0 {} 1 = Ok [[2]]"
  by (simp add: resolutionKeys_def pair_paths nodePublicKey_def goIndex_def)
    (simp add: sampleTree_def leafEntry_def sampleLeaf_def)

lemma tiny_generate:
  assumes "mkGC [] = Ok gc" "length gc < 64"
  shows "\<exists>m. dom m = {1} \<and> GenerateUpdatePath tinyStd (\<lambda>_ _. []) pairTree 0 [] (demoSigner [1]) [] [] mkGC =
    Ok (nextTree, tinyPath, zeros, m)"
proof -
  have s: "nodes sampleTree ! 0 = leafEntry (sampleLeaf [1])" "length (nodes sampleTree) = 3"
    by (simp_all add: sampleTree_def)
  have u: "goUpdate (nodes openTree) 0 (leafEntry pathLeaf) = Ok (nodes nextTree)"
    "openTree\<lparr>nodes := nodes nextTree\<rparr> = nextTree"
    by (simp_all add: goUpdate_def openTree_def nextTree_def)
  show ?thesis
    unfolding GenerateUpdatePath_def Let_def
    using assms
    by (simp add: s goIndex_def leafOf_def leafEntry_def [of "sampleLeaf [1]"] pair_paths tiny_derive tiny_keyPair
        CommitSecret_def newlyAddedSet_def tiny_keys tiny_install tiny_parentHash tiny_sign u tiny_rootHash tiny_encrypt bytesOf_def
        tinyPath_def)
qed

section \<open>The commit\<close>

lemma tiny_clone: "Clone pairTree = Ok pairTree"
proof -
  have "\<exists>data. RatchetTree_MarshalMLS pairTree = Ok data"
    by (simp add: RatchetTree_MarshalMLS_def)
      (simp add: sampleTree_def marshal_eval Node_marshal_def medium_strings dropBlankTail.simps)
  moreover have "fullTree 1 pairTree" by (simp add: fullTree_def sampleTree_def)
  moreover have "tightTree pairTree \<and> list_all (pred_option wfNode) (nodes pairTree)"
    by (simp add: tightTree_def sampleTree_def wfNode_def dropBlankTail.simps leafEntry_def sampleLeaf_def
        wfLeafNode_def wfCredential_def)
  ultimately show ?thesis
    using ParseRatchetTree_iff [of p256Suite _ pairTree] by (auto simp: Clone_def)
qed

lemma tiny_body: "\<exists>body. length body = 128 \<and> Commit_MarshalMLS \<lparr>cm_Proposals = [], cm_Path = Some tinyPath\<rparr> = Ok body"
  by (simp add: Commit_MarshalMLS_def Commit_marshal_def UpdatePath_MarshalMLS_def UpdatePath_marshal_def tinyPath_def
      pathLeaf_def commitLeaf_def UpdatePathNode_marshal_def HPKECiphertext_marshal_def write_fun marshal_eval medium_strings)

lemma tiny_context: "nextContext tinyContext [] [] [] = tinyContext\<lparr>gc_Epoch := 4\<rparr>"
  by (simp add: nextContext_def tinyContext_def)

lemma tiny_contextBytes: "\<exists>b. length b < 64 \<and> GroupContext_MarshalMLS (tinyContext\<lparr>gc_Epoch := 4\<rparr>) = Ok b"
  by (simp add: frame_eval tinyContext_def)

lemma tiny_applied:
  "applyProposals pairTree \<lparr>cm_Proposals = [], cm_Path = None\<rparr> cache [] ext res gid leaf =
    Ok \<lparr>ap_tree = pairTree, provisionalExt = [], ap_psks = [], pathRequired = False, newlyAdded = [], addedKPs = []\<rparr>"
  by (simp add: applyProposals_def ofType_def)

lemma tiny_signCommit:
  assumes "length body = 128"
  shows "\<exists>inp. SignCommit tinyStd p256Suite (demoSigner [1]) (Some tinyContext)
    (memberContent (tinyMember 0 [1]) ContentTypeCommit body) WireFormatPublicMessage = Ok (inp, [1])"
  using assms
  by (simp add: SignCommit_def memberContent_def tinyMember_def frame_eval tinyContext_def ac_sign_def SignWithLabel_def
      labeledContext_def bytesOf_def mlsLabelPrefix_def tiny_signature medium_strings)

lemma tiny_secrets:
  "length gcb < 64 \<Longrightarrow> DeriveEpochSecrets tinyStd p256Suite i c k gcb = Ok tinySecrets"
  by (simp add: DeriveEpochSecrets_def JoinerSecret_def EpochSecretsFromJoiner_def tiny_extract tiny_expand tiny_derive
      tinySecrets_def)

lemma tiny_secretTree: "\<exists>st. NewSecretTree tinyStd p256Suite 2 zeros = Ok st"
  by (simp add: NewSecretTree_def two_leaves deriveNode.simps tiny_expand bytesOf_def)

lemma tiny_mac: "MAC tinyStd s k x = zeros"
  by (simp add: MAC_def tinyStd_def)

lemma tiny_interim: "InterimTranscriptHash tinyStd p256Suite [] zeros = Ok []"
  by (simp add: InterimTranscriptHash_def short_strings)

lemma next_leafCount: "leafCount nextTree = 2"
  by (simp add: nextTree_def)

lemma tiny_message:
  assumes "length body = 128"
  shows "\<exists>pm b. AssembleCommitPublic tinyStd p256Suite (Some tinyContext) zeros
      (memberContent (tinyMember 0 [1]) ContentTypeCommit body) [1] zeros = Ok pm \<and>
    MLSMessage_MarshalMLS \<lparr>msg_Version = ProtocolVersionMLS10, msg_WireFormat = WireFormatPublicMessage,
      msg_Public = Some pm, msg_Private = None\<rparr> = Ok b"
  using assms
  by (simp add: AssembleCommitPublic_def authenticatedContentTBM_def memberContent_def tinyMember_def tinyContext_def
      frame_eval medium_strings tiny_mac MLSMessage_MarshalMLS_def PublicMessage_marshal_def)

lemma tiny_commit:
  "\<exists>commit g'. Group_Commit tinyStd tinyRand (tinyMember 0 [1]) noProposals = (Ok (commit, None), g') \<and>
    gc_CipherSuite (groupContext g') = P256_AES128GCM_SHA256_P256 \<and> g_suite g' = p256Suite \<and> g_tree g' = nextTree"
proof -
  obtain gcb where gcb: "length gcb < 64" "GroupContext_MarshalMLS (tinyContext\<lparr>gc_Epoch := 4\<rparr>) = Ok gcb"
    using tiny_contextBytes by blast
  obtain m where m: "dom m = {1}" "GenerateUpdatePath tinyStd (\<lambda>_ _. []) pairTree 0 [] (demoSigner [1]) [] []
      (\<lambda>th. GroupContext_MarshalMLS (nextContext tinyContext th [] [])) = Ok (nextTree, tinyPath, zeros, m)"
    using tiny_generate [of "\<lambda>th. GroupContext_MarshalMLS (nextContext tinyContext th [] [])"] gcb
    by (auto simp: tiny_context)
  obtain body where body: "length body = 128"
    "Commit_MarshalMLS \<lparr>cm_Proposals = [], cm_Path = Some tinyPath\<rparr> = Ok body"
    using tiny_body by blast
  let ?fc = "memberContent (tinyMember 0 [1]) ContentTypeCommit body"
  obtain inp where inp: "SignCommit tinyStd p256Suite (demoSigner [1]) (Some tinyContext) ?fc
      WireFormatPublicMessage = Ok (inp, [1])"
    using tiny_signCommit [OF body(1)] by blast
  obtain st where st: "NewSecretTree tinyStd p256Suite 2 zeros = Ok st" using tiny_secretTree by blast
  obtain pm b where pm: "AssembleCommitPublic tinyStd p256Suite (Some tinyContext) zeros ?fc [1] zeros = Ok pm"
    "MLSMessage_MarshalMLS \<lparr>msg_Version = ProtocolVersionMLS10, msg_WireFormat = WireFormatPublicMessage,
      msg_Public = Some pm, msg_Private = None\<rparr> = Ok b"
    using tiny_message [OF body(1)] by blast
  define pc where "pc = \<lparr>pc_tree = nextTree, pc_context = tinyContext\<lparr>gc_Epoch := 4\<rparr>, pc_epoch = tinySecrets,
    pc_confirmed = [], pc_confTag = zeros, pc_pathSecrets = m, pc_newlyAdded = [], pc_addedKPs = [],
    pc_psks = [], pc_message = \<lparr>msg_Version = ProtocolVersionMLS10, msg_WireFormat = WireFormatPublicMessage,
      msg_Public = Some pm, msg_Private = None\<rparr>\<rparr>"
  have g: "g_suite (tinyMember 0 [1]) = p256Suite" "groupContext (tinyMember 0 [1]) = tinyContext"
    "g_tree (tinyMember 0 [1]) = pairTree" "ownLeaf (tinyMember 0 [1]) = 0"
    "signerOf_g (tinyMember 0 [1]) = demoSigner [1]" "\<not> encryptHandshakes (tinyMember 0 [1])"
    "MembershipKey (g_epoch (tinyMember 0 [1])) = zeros"
    "gc_Extensions tinyContext = []" "gc_GroupID tinyContext = []" "ConfirmedTranscriptHash tinyContext = []"
    by (simp_all add: tinyMember_def signerOf_g_def tinySecrets_def tinyContext_def)
  have "prepareCommit tinyStd tinyRand (tinyMember 0 [1]) noProposals = Ok pc"
    using m(2) body(2) inp pm(1) gcb
    by (simp add: prepareCommit_def g Let_def tiny_clone referenceProposals_def noProposals_def tiny_applied tinyRand_def
        ConfirmedTranscript_def tiny_rootHash tiny_context PSKSecret_def tiny_secrets ConfirmationTag_def tiny_mac pc_def)
  moreover have "\<exists>g'. finishCommit tinyStd tinyRand (tinyMember 0 [1]) pc = Ok ((b, None), g') \<and>
      gc_CipherSuite (groupContext g') = P256_AES128GCM_SHA256_P256 \<and> g_suite g' = p256Suite \<and> g_tree g' = nextTree"
    using pm(2) st m(1)
    by (simp add: finishCommit_def g Let_def pc_def tiny_interim committerPriv_def tinyRand_def tiny_derive tiny_keyPair
        addPathSecrets_def AddPathSecret_def next_leafCount tinySecrets_def advance_def tinyContext_def)
  ultimately show ?thesis by (auto simp: Group_Commit_def g)
qed

section \<open>The other member\<close>

lemma pair_inv: "treeInv pairTree"
  using sampleTree_inv by (simp add: treeInv_def fullTree_def)

lemma pair_memberKeys: "memberKeys tinyStd pairTree 1 (privs (NewTreeKEMPrivate 1 [2]))"
proof -
  have "nodePublicKey pairTree 2 = Ok [2]"
    by (simp add: nodePublicKey_def goIndex_def) (simp add: sampleTree_def leafEntry_def sampleLeaf_def)
  then have "keysMatch tinyStd pairTree [2 \<mapsto> [2]]"
    by (auto simp: keysMatch_def tiny_keyPair split: if_splits)
  then have "keysMatch tinyStd pairTree (privs (NewTreeKEMPrivate 1 [2]))" by (simp add: NewTreeKEMPrivate_def)
  then show ?thesis using demo_memberKeys unfolding memberKeys_def pair_shape by blast
qed

lemma tiny_remains: "remains tinyStd (tinyMember 0 [1]) noProposals (tinyMember 1 [2])"
proof -
  have "NodeAt pairTree 2 \<noteq> None" by (simp add: NodeAt_def) (simp add: sampleTree_def len32_def leafEntry_def)
  then show ?thesis
    using pair_inv pair_memberKeys
    by (auto simp: remains_def tinyMember_def tinyContext_def tiny_clone referenceProposals_def noProposals_def tiny_applied)
qed

lemma tiny_laws: "commitLaws tinyStd p256Suite (demoSigner [1]) [1]"
proof -
  have "verifyClassical tinyStd p256Suite [1] m [1]" for m
    by (simp add: verifyClassical_def) (simp add: p256Suite_def tinyStd_def demoStd_def Hash_def)
  then have "signerOf tinyStd p256Suite (demoSigner [1]) [1]" by (simp add: signerOf_def tiny_signature)
  moreover have "gcmLaw tinyStd" using demo_gcmLaw by (simp add: gcmLaw_def tinyStd_def)
  moreover have "hmacLaw tinyStd" by (simp add: hmacLaw_def tinyStd_def)
  ultimately show ?thesis by (simp add: commitLaws_def derives_def tiny_derive tiny_keyPair)
qed


end
