(* ===== verification/WelcomeDemo.thy ===== *)
theory WelcomeDemo
  imports Welcoming GroupDemo
begin

text \<open>
  A founder adds a second member on the constant primitives of the two-member group: the
  example of joining from a welcome.
\<close>

section \<open>The founder and the guest\<close>

definition soloTree :: RatchetTree where
  "soloTree = NewRatchetTree p256Suite (sampleLeaf [1])"

definition founder :: Group where
  "founder = (tinyMember 0 [1])\<lparr>g_tree := soloTree\<rparr>"

definition guestLeaf :: LeafNode where
  "guestLeaf = \<lparr>leaf_EncryptionKey = [2], SignatureKey = [2],
     leaf_Credential = \<lparr>CredentialType = CredentialTypeBasic, Identity = [2], Certificates = []\<rparr>,
     leaf_Capabilities = defaultCapabilities p256Suite, LeafNodeSource = LeafNodeSourceKeyPackage,
     leaf_Lifetime = Some \<lparr>NotBefore = 0, NotAfter = NOT 0\<rparr>, leaf_ParentHash = [], leaf_Extensions = [],
     leaf_Signature = [2]\<rparr>"

definition guestPackage :: KeyPackage where
  "guestPackage = \<lparr>kp_Version = ProtocolVersionMLS10, kp_CipherSuite = P256_AES128GCM_SHA256_P256, InitKey = [3],
     kp_LeafNode = guestLeaf, kp_Extensions = [], kp_Signature = [2]\<rparr>"

definition addGuest :: CommitOptions where
  "addGuest = \<lparr>ByValue = [ProposeAdd guestPackage], ByReference = []\<rparr>"

definition grownTree :: RatchetTree where
  "grownTree = \<lparr>suite = p256Suite, nodes = [leafEntry (sampleLeaf [1]), None, leafEntry guestLeaf]\<rparr>"

definition jointTree :: RatchetTree where
  "jointTree = \<lparr>suite = p256Suite, nodes = [leafEntry pathLeaf, newParent zeros, leafEntry guestLeaf]\<rparr>"

definition guestPath :: UpdatePath where
  "guestPath = \<lparr>up_LeafNode = pathLeaf, Nodes = [\<lparr>upn_EncryptionKey = zeros, EncryptedPathSecret = []\<rparr>]\<rparr>"

lemma p256_ID: "ID p256Suite = P256_AES128GCM_SHA256_P256"
  by (simp add: p256Suite_def)

lemmas guest_eval = guestLeaf_def defaultCapabilities_def p256_ID Lifetime_marshal_def WriteUint64_def be64_def

lemma grown_shape [simp]: "suite grownTree = p256Suite" "leafCount grownTree = 2"
  "leafCount \<lparr>suite = s, nodes = [a, b, c]\<rparr> = 2"
  by (simp_all add: grownTree_def leafCount_def len32_def)

section \<open>Adding the guest\<close>

lemma solo_clone: "Clone soloTree = Ok soloTree"
proof -
  have "\<exists>data. RatchetTree_MarshalMLS soloTree = Ok data"
    by (simp add: RatchetTree_MarshalMLS_def soloTree_def NewRatchetTree_def marshal_eval Node_marshal_def medium_strings
        dropBlankTail.simps)
  moreover have "fullTree 0 soloTree" by (simp add: fullTree_def soloTree_def NewRatchetTree_def)
  moreover have "tightTree soloTree \<and> list_all (pred_option wfNode) (nodes soloTree)"
    by (simp add: tightTree_def soloTree_def NewRatchetTree_def wfNode_def dropBlankTail.simps sampleLeaf_def
        wfLeafNode_def wfCredential_def)
  ultimately show ?thesis
    using ParseRatchetTree_iff [of p256Suite _ soloTree] by (auto simp: Clone_def soloTree_def NewRatchetTree_def)
qed

lemma repad_three: "repad [x, None, None] = Ok [x, None, None]"
  by (simp add: repad_def len32_def fullWidth_def) code_simp

lemma solo_add: "AddLeaf soloTree guestLeaf = Ok (1, grownTree)"
  by (simp add: AddLeaf_def soloTree_def NewRatchetTree_def repad_three)
    (simp add: Let_def leafEntry_def goUpdate_def addUnmerged.simps two_leaves goIndex_def grownTree_def len32_def)

lemma guest_applied:
  "applyProposals soloTree \<lparr>cm_Proposals = [inlineProposal (ProposeAdd guestPackage)], cm_Path = None\<rparr> cache [] ext res gid leaf =
    Ok \<lparr>ap_tree = grownTree, provisionalExt = [], ap_psks = [], pathRequired = True, newlyAdded = [1],
      addedKPs = [guestPackage]\<rparr>"
  by (simp add: applyProposals_def resolveProposal_def inlineProposal_def ofType_def ProposeAdd_def emptyProposal_def
      applyAdd_def guestPackage_def solo_add)

lemma grown_paths:
  "Resolution grownTree 2 = Ok [2]" "filteredDirectPath grownTree 0 = Ok [1]" "copathChild grownTree 1 0 = Ok 2"
  "resolutionKeys grownTree 0 {2} 1 = Ok []"
proof -
  show r: "Resolution grownTree 2 = Ok [2]"
    by (simp add: Resolution.simps two_leaves goIndex_def) (simp add: grownTree_def leafEntry_def)
  then show "filteredDirectPath grownTree 0 = Ok [1]"
    by (simp add: filteredDirectPath_def fdpLoop.simps two_leaves)
  show c: "copathChild grownTree 1 0 = Ok 2"
    by (simp add: copathChild_def pathChild_def two_leaves two_leaf_subtrees)
  show "resolutionKeys grownTree 0 {2} 1 = Ok []" using r c by (simp add: resolutionKeys_def)
qed

definition guestOpen :: RatchetTree where
  "guestOpen = \<lparr>suite = p256Suite, nodes = [leafEntry (sampleLeaf [1]), newParent zeros, leafEntry guestLeaf]\<rparr>"

lemma guest_install: "installPath tinyStd grownTree 0 [zeros] = Ok (guestOpen, [1])"
  by (simp add: installPath_def grown_paths blankPath.simps two_leaves goUpdate_def)
    (simp add: grownTree_def setParentHash_def goIndex_def newParent_def guestOpen_def)

lemma guest_parentHash: "leafParentHash tinyStd guestOpen 0 [1] = Ok []"
  by (simp add: leafParentHash_def pathChild_def two_leaf_subtrees two_leaves guestOpen_def)
    (simp add: parentHashOf_def parentAt_def goIndex_def treeHashExcept.simps two_leaves newParent_def leafSet_def
      marshal_eval medium_strings guest_eval)

lemma guest_rootHash: "RootTreeHash tinyStd jointTree = Ok []"
  by (simp add: RootTreeHash_def TreeHash_def jointTree_def)
    (simp add: two_leaves goIndex_def treeHashExcept.simps newParent_def leafSet_def marshal_eval medium_strings pathLeaf_def
      commitLeaf_def guest_eval)

lemma guest_generate:
  assumes "mkGC [] = Ok gc" "length gc < 64"
  shows "GenerateUpdatePath tinyStd (\<lambda>_ _. []) grownTree 0 [] (demoSigner [1]) [] [1] mkGC =
    Ok (jointTree, guestPath, zeros, [1 \<mapsto> zeros])"
proof -
  have s: "nodes grownTree ! 0 = leafEntry (sampleLeaf [1])" "length (nodes grownTree) = 3"
    by (simp_all add: grownTree_def)
  have u: "goUpdate (nodes guestOpen) 0 (leafEntry pathLeaf) = Ok (nodes jointTree)"
    "guestOpen\<lparr>nodes := nodes jointTree\<rparr> = jointTree"
    by (simp_all add: goUpdate_def guestOpen_def jointTree_def)
  show ?thesis
    unfolding GenerateUpdatePath_def Let_def
    using assms
    by (simp add: s goIndex_def leafOf_def leafEntry_def [of "sampleLeaf [1]"] grown_paths tiny_derive tiny_keyPair
        CommitSecret_def newlyAddedSet_def guest_install guest_parentHash tiny_sign u guest_rootHash guestPath_def)
qed

section \<open>The messages\<close>

lemma guest_body: "\<exists>body. 64 \<le> length body \<and> length body < 1000 \<and>
  Commit_MarshalMLS \<lparr>cm_Proposals = [inlineProposal (ProposeAdd guestPackage)], cm_Path = Some guestPath\<rparr> = Ok body"
  by (simp add: Commit_MarshalMLS_def Commit_marshal_def UpdatePath_MarshalMLS_def UpdatePath_marshal_def guestPath_def
      pathLeaf_def commitLeaf_def UpdatePathNode_marshal_def HPKECiphertext_marshal_def write_fun marshal_eval medium_strings
      ProposalOrRef_marshal_def inlineProposal_def Proposal_marshal_def ProposeAdd_def emptyProposal_def KeyPackage_MarshalMLS_def
      KeyPackage_marshal_def KeyPackage_marshalTBS_def LeafNode_MarshalMLS_def guestPackage_def guest_eval)

lemma guest_signCommit:
  assumes "64 \<le> length body" "length body < 1000"
  shows "\<exists>inp. SignCommit tinyStd p256Suite (demoSigner [1]) (Some tinyContext)
    (memberContent (tinyMember 0 [1]) ContentTypeCommit body) WireFormatPublicMessage = Ok (inp, [1])"
  using assms
  by (simp add: SignCommit_def memberContent_def tinyMember_def frame_eval tinyContext_def ac_sign_def SignWithLabel_def
      labeledContext_def bytesOf_def mlsLabelPrefix_def tiny_signature medium_strings)

lemma guest_message:
  assumes "64 \<le> length body" "length body < 1000"
  shows "\<exists>pm b. AssembleCommitPublic tinyStd p256Suite (Some tinyContext) zeros
      (memberContent (tinyMember 0 [1]) ContentTypeCommit body) [1] zeros = Ok pm \<and>
    MLSMessage_MarshalMLS \<lparr>msg_Version = ProtocolVersionMLS10, msg_WireFormat = WireFormatPublicMessage,
      msg_Public = Some pm, msg_Private = None\<rparr> = Ok b"
  using assms
  by (simp add: AssembleCommitPublic_def authenticatedContentTBM_def memberContent_def tinyMember_def tinyContext_def
      frame_eval medium_strings tiny_mac MLSMessage_MarshalMLS_def PublicMessage_marshal_def)

lemma joint_bytes: "\<exists>b. 64 \<le> length b \<and> length b < 1000 \<and> RatchetTree_MarshalMLS jointTree = Ok b"
  by (simp add: RatchetTree_MarshalMLS_def jointTree_def)
    (simp add: marshal_eval Node_marshal_def medium_strings dropBlankTail.simps newParent_def pathLeaf_def commitLeaf_def guest_eval)

abbreviation guestInfo :: "bytes \<Rightarrow> bytes \<Rightarrow> GroupInfo" where
  "guestInfo b sig \<equiv> \<lparr>gi_GroupContext = tinyContext\<lparr>gc_Epoch := 4\<rparr>,
     gi_Extensions = [\<lparr>ExtensionType = ExtensionTypeRatchetTree, ExtensionData = b\<rparr>],
     gi_ConfirmationTag = zeros, gi_Signer = 0, gi_Signature = sig\<rparr>"

lemma guest_info:
  assumes "64 \<le> length b" "length b < 1000"
  shows "GroupInfo_Sign tinyStd p256Suite (demoSigner [1]) (guestInfo b []) = Ok (guestInfo b [1])"
    and "\<exists>gib. 64 \<le> length gib \<and> length gib < 3000 \<and> GroupInfo_MarshalMLS (guestInfo b [1]) = Ok gib"
  using assms
  by (simp_all add: GroupInfo_Sign_def GroupInfo_tbsBytes_def GroupInfo_MarshalMLS_def GroupInfo_marshal_def GroupInfo_marshalTBS_def
      frame_eval tinyContext_def Extension_marshal_def medium_strings SignWithLabel_def labeledContext_def bytesOf_def
      mlsLabelPrefix_def tiny_signature)

lemma guest_encrypt:
  "64 \<le> length gc \<Longrightarrow> length gc < 4000 \<Longrightarrow> EncryptWithLabel tinyStd p256Suite r pk ''Welcome'' gc pt = Ok (pk, pt)"
  by (simp add: EncryptWithLabel_def labeledContext_def short_strings medium_strings bytesOf_def mlsLabelPrefix_def)
    (simp add: tinyStd_def demoStd_def)

lemma guest_ref: "KeyPackage_Ref tinyStd p256Suite guestPackage = Ok []"
  by (simp add: KeyPackage_Ref_def KeyPackage_MarshalMLS_def KeyPackage_marshal_def KeyPackage_marshalTBS_def LeafNode_MarshalMLS_def
      guestPackage_def guest_eval write_fun marshal_eval medium_strings RefHash_def bytesOf_def)

lemma guest_ancestor: "commonAncestor 2 0 2 = Ok 1"
  by (simp add: commonAncestor_def climbTo.simps two_leaves meet.simps [of 2 2 0] meet.simps [of 2 1 1])

lemma guest_welcome:
  "\<exists>w. buildWelcome tinyStd (\<lambda>_. []) p256Suite tinySecrets (tinyContext\<lparr>gc_Epoch := 4\<rparr>) jointTree 0 (demoSigner [1]) [1] [guestPackage]
    [1 \<mapsto> zeros] zeros [] = Ok w"
proof -
  obtain b where b: "64 \<le> length b" "length b < 1000" "RatchetTree_MarshalMLS jointTree = Ok b" using joint_bytes by blast
  obtain gib where gib: "64 \<le> length gib" "length gib < 3000" "GroupInfo_MarshalMLS (guestInfo b [1]) = Ok gib"
    using guest_info(2) [OF b(1,2)] by blast
  have kn: "WelcomeKeyNonce tinyStd p256Suite zeros = Ok (replicate 16 0, replicate 12 0)"
  proof -
    have "AEADKeySize p256Suite = 16" "AEADNonceSize p256Suite = 12" by (simp_all add: AEADKeySize_def AEADNonceSize_def p256Suite_def)
    then show ?thesis by (simp add: WelcomeKeyNonce_def tiny_expand)
  qed
  have seal: "\<exists>enc. 64 \<le> length enc \<and> length enc < 4000 \<and> Seal tinyStd p256Suite (replicate 16 0) (replicate 12 0) [] gib = Ok enc"
    using gib(1,2) by (simp add: Seal_def aeadCipher_def p256Suite_def tinyStd_def demoStd_def)
  then obtain enc where enc: "64 \<le> length enc" "length enc < 4000" "Seal tinyStd p256Suite (replicate 16 0) (replicate 12 0) [] gib = Ok enc"
    by blast
  have l: "leafCount jointTree = 2" by (simp add: jointTree_def)
  have ws: "WelcomeSecret tinySecrets = zeros" "es_JoinerSecret tinySecrets = zeros" by (simp_all add: tinySecrets_def)
  have "\<exists>gsb. 64 \<le> length gsb \<and> length gsb < 100 \<and> GroupSecrets_MarshalMLS \<lparr>gs_JoinerSecret = zeros, gs_PathSecret = Some zeros, PSKs = []\<rparr> = Ok gsb"
    by (simp add: GroupSecrets_MarshalMLS_def GroupSecrets_marshal_def PathSecret_marshal_def WriteUint8_def WriteVectorV_def NewBuilder_def
        short_strings)
  then obtain gsb where gsb: "64 \<le> length gsb" "length gsb < 100" "GroupSecrets_MarshalMLS \<lparr>gs_JoinerSecret = zeros, gs_PathSecret = Some zeros, PSKs = []\<rparr> = Ok gsb"
    by blast
  have "\<exists>w. EncodeWelcomeMessage \<lparr>w_CipherSuite = ID p256Suite,
      Secrets = [\<lparr>NewMember = [], egs_Ciphertext = \<lparr>KemOutput = [3], Ciphertext = gsb\<rparr>\<rparr>], EncryptedGroupInfo = enc\<rparr> = Ok w"
    using gsb(1,2) enc(1,2)
    by (simp add: EncodeWelcomeMessage_def writeEnvelopeHeader_def Welcome_marshal_def EncryptedGroupSecrets_marshal_def
        HPKECiphertext_marshal_def WriteUint16_def WriteVectorV_def NewBuilder_def short_strings medium_strings)
  then show ?thesis
    using b(3) gib(3) enc kn gsb(3)
    by (simp add: buildWelcome_def guest_info(1) [OF b(1,2)] l ws memberSecrets_def guest_ancestor guest_encrypt guest_ref)
      (simp add: guestPackage_def)
qed

section \<open>The commit and the welcome\<close>

lemma founder_facts [simp]:
  "g_suite founder = p256Suite" "groupContext founder = tinyContext" "g_tree founder = soloTree" "ownLeaf founder = 0"
  "signerOf_g founder = demoSigner [1]" "encryptHandshakes founder = False" "MembershipKey (g_epoch founder) = zeros"
  "gc_Extensions tinyContext = []" "gc_GroupID tinyContext = []" "ConfirmedTranscriptHash tinyContext = []"
  "memberContent founder t b = memberContent (tinyMember 0 [1]) t b"
  by (simp_all add: founder_def tinyMember_def signerOf_g_def tinySecrets_def tinyContext_def memberContent_def)

lemma guest_commit:
  "\<exists>commit w g' pc. Group_Commit tinyStd tinyRand founder addGuest = (Ok (commit, Some w), g') \<and>
    prepareCommit tinyStd tinyRand founder addGuest = Ok pc \<and> pc_addedKPs pc = [guestPackage] \<and> pc_psks pc = [] \<and>
    g_tree g' = jointTree \<and> groupContext g' = tinyContext\<lparr>gc_Epoch := 4\<rparr> \<and> g_suite g' = p256Suite \<and> ownLeaf g' = 0"
proof -
  obtain gcb where gcb: "length gcb < 64" "GroupContext_MarshalMLS (tinyContext\<lparr>gc_Epoch := 4\<rparr>) = Ok gcb"
    using tiny_contextBytes by blast
  have gen: "GenerateUpdatePath tinyStd (\<lambda>_ _. []) grownTree 0 [] (demoSigner [1]) [] [1]
      (\<lambda>th. GroupContext_MarshalMLS (nextContext tinyContext th [] [])) = Ok (jointTree, guestPath, zeros, [1 \<mapsto> zeros])"
    by (rule guest_generate) (use gcb in \<open>simp_all add: tiny_context\<close>)
  obtain body where body: "64 \<le> length body" "length body < 1000"
    "Commit_MarshalMLS \<lparr>cm_Proposals = [inlineProposal (ProposeAdd guestPackage)], cm_Path = Some guestPath\<rparr> = Ok body"
    using guest_body by blast
  let ?fc = "memberContent (tinyMember 0 [1]) ContentTypeCommit body"
  obtain inp where inp: "SignCommit tinyStd p256Suite (demoSigner [1]) (Some tinyContext) ?fc WireFormatPublicMessage = Ok (inp, [1])"
    using guest_signCommit [OF body(1,2)] by blast
  obtain st where st: "NewSecretTree tinyStd p256Suite 2 zeros = Ok st" using tiny_secretTree by blast
  obtain pm b where pm: "AssembleCommitPublic tinyStd p256Suite (Some tinyContext) zeros ?fc [1] zeros = Ok pm"
    "MLSMessage_MarshalMLS \<lparr>msg_Version = ProtocolVersionMLS10, msg_WireFormat = WireFormatPublicMessage,
      msg_Public = Some pm, msg_Private = None\<rparr> = Ok b"
    using guest_message [OF body(1,2)] by blast
  obtain w where w: "buildWelcome tinyStd (\<lambda>_. []) p256Suite tinySecrets (tinyContext\<lparr>gc_Epoch := 4\<rparr>) jointTree 0 (demoSigner [1]) [1]
      [guestPackage] [1 \<mapsto> zeros] zeros [] = Ok w" using guest_welcome by blast
  define pc where "pc = \<lparr>pc_tree = jointTree, pc_context = tinyContext\<lparr>gc_Epoch := 4\<rparr>, pc_epoch = tinySecrets,
    pc_confirmed = [], pc_confTag = zeros, pc_pathSecrets = [1 \<mapsto> zeros], pc_newlyAdded = [1], pc_addedKPs = [guestPackage],
    pc_psks = [], pc_message = \<lparr>msg_Version = ProtocolVersionMLS10, msg_WireFormat = WireFormatPublicMessage,
      msg_Public = Some pm, msg_Private = None\<rparr>\<rparr>"
  have l: "leafCount jointTree = 2" "EncryptionSecret tinySecrets = zeros" by (simp_all add: jointTree_def tinySecrets_def)
  have p: "prepareCommit tinyStd tinyRand founder addGuest = Ok pc"
    using gen body(3) inp pm(1) gcb
    by (simp add: prepareCommit_def Let_def solo_clone referenceProposals_def addGuest_def guest_applied tinyRand_def
        ConfirmedTranscript_def guest_rootHash tiny_context PSKSecret_def tiny_secrets ConfirmationTag_def tiny_mac pc_def)
  moreover have "\<exists>g'. finishCommit tinyStd tinyRand founder pc = Ok ((b, Some w), g') \<and>
      g_tree g' = jointTree \<and> groupContext g' = tinyContext\<lparr>gc_Epoch := 4\<rparr> \<and> g_suite g' = p256Suite \<and> ownLeaf g' = 0"
    using pm(2) st w
    by (simp add: finishCommit_def Let_def pc_def tiny_interim committerPriv_def tinyRand_def tiny_derive tiny_keyPair
        addPathSecrets_def AddPathSecret_def l advance_def)
  moreover have "pc_addedKPs pc = [guestPackage]" "pc_psks pc = []" by (simp_all add: pc_def)
  ultimately show ?thesis by (auto simp: Group_Commit_def)
qed

section \<open>The guest joins\<close>

lemma joint_clone: "Clone jointTree = Ok jointTree"
proof -
  have "fullTree 1 jointTree" by (simp add: fullTree_def jointTree_def)
  moreover have "tightTree jointTree \<and> list_all (pred_option wfNode) (nodes jointTree)"
    by (simp add: tightTree_def jointTree_def wfNode_def dropBlankTail.simps leafEntry_def sampleLeaf_def newParent_def pathLeaf_def
        commitLeaf_def guest_eval wfLeafNode_def wfCredential_def)
  moreover obtain b where "RatchetTree_MarshalMLS jointTree = Ok b" using joint_bytes by blast
  ultimately show ?thesis using ParseRatchetTree_iff [of p256Suite _ jointTree] by (auto simp: Clone_def jointTree_def)
qed

lemma joint_hashes: "VerifyParentHashes tinyStd jointTree = Ok True"
proof -
  have r: "Resolution jointTree 0 = Ok [0]" "Resolution jointTree 2 = Ok [2]"
    by (simp_all add: Resolution.simps [of jointTree] two_leaves goIndex_def) (simp_all add: jointTree_def leafEntry_def)
  have h: "parentHashOf tinyStd jointTree 1 2 = Ok []" "parentHashOf tinyStd jointTree 1 0 = Ok []"
    by (simp_all add: parentHashOf_def parentAt_def goIndex_def jointTree_def)
      (simp_all add: treeHashExcept.simps two_leaves goIndex_def newParent_def leafSet_def marshal_eval medium_strings guest_eval
        pathLeaf_def commitLeaf_def)
  have p: "parentAt jointTree 1 = Ok \<lparr>par_EncryptionKey = zeros, par_ParentHash = [], UnmergedLeaves = []\<rparr>"
    by (simp add: parentAt_def goIndex_def jointTree_def newParent_def)
  have n: "nodeParentHash jointTree 0 = Ok ([], True)" "nodeParentHash jointTree 2 = Ok ([], False)"
    by (simp_all add: nodeParentHash_def goIndex_def jointTree_def leafEntry_def pathLeaf_def commitLeaf_def guest_eval sampleLeaf_def)
  have m: "hasParentHashMatch tinyStd jointTree 1 0 2 = Ok True" "hasParentHashMatch tinyStd jointTree 1 2 0 = Ok False"
    by (simp_all add: hasParentHashMatch_def h r p n leafSet_def)
  have "map of_nat [0..<unat (Width jointTree)] = [0, 1, 2 :: u32]"
    by (simp add: Width_def jointTree_def len32_def upt_rec)
  moreover have "leafCount jointTree = 2" by (simp add: jointTree_def)
  moreover have "nodes jointTree = [leafEntry pathLeaf, newParent zeros, leafEntry guestLeaf]" by (simp add: jointTree_def)
  ultimately show ?thesis
    by (simp add: VerifyParentHashes_def m goIndex_def two_leaves leafEntry_def newParent_def)
qed

lemma joint_signatures: "VerifyLeafSignatures tinyStd jointTree [] = Ok ()"
proof -
  have "verifyClassical tinyStd p256Suite [k] m [k]" for k m
    by (simp add: verifyClassical_def) (simp add: p256Suite_def tinyStd_def demoStd_def Hash_def)
  moreover have "\<exists>b. length b < 500 \<and> LeafNode_tbs guestLeaf [] 1 = Ok b" "\<exists>b. length b < 500 \<and> LeafNode_tbs pathLeaf [] 0 = Ok b"
    by (simp_all add: LeafNode_tbs_def marshal_eval medium_strings pathLeaf_def commitLeaf_def guest_eval)
  moreover have "\<exists>c. labeledContext ''LeafNodeTBS'' b = Ok c" if "length b < 500" for b
    using that by (cases "length b < 64") (simp_all add: labeledContext_def bytesOf_def mlsLabelPrefix_def short_strings medium_strings)
  moreover have "SignatureKey pathLeaf = [1]" "leaf_Signature pathLeaf = [1]" "SignatureKey guestLeaf = [2]" "leaf_Signature guestLeaf = [2]"
    by (simp_all add: pathLeaf_def commitLeaf_def guest_eval sampleLeaf_def)
  ultimately have "LeafNode_verifySignature tinyStd p256Suite guestLeaf [] 1 = Ok True" "LeafNode_verifySignature tinyStd p256Suite pathLeaf [] 0 = Ok True"
    by (auto simp: LeafNode_verifySignature_def VerifyWithLabel_def split: sum.split dest: sym) (metis sum.distinct(1))+
  moreover have "SignatureKey pathLeaf = [1]" "SignatureKey guestLeaf = [2]" "leaf_EncryptionKey guestLeaf = [2]" "leaf_EncryptionKey pathLeaf = zeros"
    by (simp_all add: pathLeaf_def commitLeaf_def guest_eval sampleLeaf_def)
  ultimately show ?thesis
    by (simp add: VerifyLeafSignatures_def jointTree_def leafEntry_def leafOf_def newParent_def numeral_eq_Suc)
qed

definition guestOptions :: "bytes \<Rightarrow> JoinOptions" where
  "guestOptions kpb = \<lparr>jo_KeyPackage = kpb, jo_InitPriv = [3], jo_EncryptionPriv = [2], jo_Signer = Some (demoSigner [2]),
     jo_RatchetTree = [], jo_ExternalPSKs = Map.empty\<rparr>"

lemma guest_package: "\<exists>kpb. EncodeKeyPackageMessage guestPackage = Ok kpb"
  by (simp add: EncodeKeyPackageMessage_def writeEnvelopeHeader_def KeyPackage_marshal_def KeyPackage_marshalTBS_def LeafNode_MarshalMLS_def
      guestPackage_def guest_eval write_fun marshal_eval medium_strings)

lemma guest_wf: "wfKeyPackage guestPackage"
  by (simp add: guestPackage_def wfKeyPackage_def guestLeaf_def wfLeafNode_def wfCredential_def)

lemma joint_sound:
  assumes "g_tree g' = jointTree" "groupContext g' = tinyContext\<lparr>gc_Epoch := 4\<rparr>" "g_suite g' = p256Suite" "ownLeaf g' = 0"
  shows "soundTree tinyStd g'"
  using joint_clone joint_hashes joint_signatures assms by (simp add: soundTree_def) (simp add: jointTree_def)

lemma joint_leaf: "g_tree g' = jointTree \<Longrightarrow> ownLeaf g' = 0 \<Longrightarrow> LeafNodeAt (g_tree g') (ownLeaf g') = Ok pathLeaf"
  by (simp add: LeafNodeAt_def NodeAt_def jointTree_def len32_def leafEntry_def)

lemma founder_laws: "commitLaws tinyStd (g_suite founder) (signerOf_g founder) (SignatureKey pathLeaf)"
  using tiny_laws by (simp add: pathLeaf_def commitLeaf_def sampleLeaf_def)


end
