(* ===== verification/Membership.thy ===== *)
theory Membership
  imports WelcomeDemo
begin

text \<open>
  Who is in the group: an abstract roster, from seats to leaf nodes, and the proof that applying
  the proposals of a commit and its path to the ratchet tree moves the roster as the proposals
  say: updates and removals at the seats they name, additions at the first free seat.
\<close>

section \<open>Rosters\<close>

type_synonym roster = "nat \<rightharpoonup> LeafNode"

definition members :: "RatchetTree \<Rightarrow> roster" where
  "members t l = leafOf (at (nodes t) (2 * l))"

text \<open>The seat of a 32-bit leaf index: its top bit is lost when it is doubled.\<close>

definition seat :: "u32 \<Rightarrow> nat" where
  "seat leaf = unat (leaf AND 0x7fffffff)"

definition updateSeat :: "roster \<Rightarrow> cachedProposal \<Rightarrow> roster" where
  "updateSeat m r = (case p_Update (cp_proposal r) of None \<Rightarrow> m | Some ln \<Rightarrow> m(seat (cp_sender r) \<mapsto> ln))"

definition removeSeat :: "roster \<Rightarrow> cachedProposal \<Rightarrow> roster" where
  "removeSeat m r = (case p_Remove (cp_proposal r) of None \<Rightarrow> m | Some i \<Rightarrow> m(seat i := None))"

definition addSeat :: "roster \<Rightarrow> cachedProposal \<Rightarrow> roster" where
  "addSeat m r = (case p_Add (cp_proposal r) of None \<Rightarrow> m | Some kp \<Rightarrow> m((LEAST l. m l = None) \<mapsto> kp_LeafNode kp))"

definition rosterAfter :: "roster \<Rightarrow> cachedProposal list \<Rightarrow> roster" where
  "rosterAfter m rs =
    foldl addSeat
      (foldl removeSeat (foldl updateSeat m (ofType ProposalTypeUpdate rs)) (ofType ProposalTypeRemove rs))
      (ofType ProposalTypeAdd rs)"

section \<open>The leaf operations on the roster\<close>

lemma members_at: "(\<And>l. at ns (2 * l) = at ms (2 * l)) \<Longrightarrow> members (t\<lparr>nodes := ns\<rparr>) = members (t\<lparr>nodes := ms\<rparr>)"
  by (simp add: members_def fun_eq_iff)

lemma leafOf_leafEntry [simp]: "leafOf (leafEntry ln) = Some ln"
  by (simp add: leafOf_def leafEntry_def)

lemma UpdateLeaf_members:
  assumes "treeInv t" "UpdateLeaf t leaf ln = Ok t'"
  shows "members t' = (members t)(seat leaf \<mapsto> ln)"
proof -
  obtain h where t: "fullTree h t" using assms(1) by (auto simp: treeInv_def)
  have e: "UpdateLeaf t (leaf AND 0x7fffffff) ln = Ok t'" using assms(2) aliased_leaf(1) by simp
  then have r: "2 * seat leaf < length (nodes t)"
    using UpdateLeaf_out_of_range [OF t, of leaf ln] assms(2) unat_double_masked [of leaf]
    by (cases "2 * seat leaf < length (nodes t)") (auto simp: seat_def)
  obtain ns where ns: "t' = t\<lparr>nodes := ns\<rparr>" "length ns = length (nodes t)"
    "\<forall>i<length ns. ns ! i = (if i = 2 * seat leaf then leafEntry ln
      else if ancestorOf i (2 * seat leaf) then None else nodes t ! i)"
    using UpdateLeaf_spec [OF t r [unfolded seat_def], of ln] e by (auto simp: seat_def)
  then show ?thesis using r by (auto simp: members_def at_def fun_eq_iff not_ancestor_even)
qed

lemma RemoveLeaf_members:
  assumes "treeInv t" "RemoveLeaf t leaf = Ok t'"
  shows "members t' = (members t)(seat leaf := None)"
proof -
  obtain h where t: "fullTree h t" using assms(1) by (auto simp: treeInv_def)
  have e: "RemoveLeaf t (leaf AND 0x7fffffff) = Ok t'" using assms(2) aliased_leaf(2) by simp
  then have r: "2 * seat leaf < length (nodes t)"
    using RemoveLeaf_out_of_range [OF t, of leaf] assms(2) unat_double_masked [of leaf]
    by (cases "2 * seat leaf < length (nodes t)") (auto simp: seat_def)
  obtain ns where ns: "t' = t\<lparr>nodes := ns\<rparr>"
    "\<forall>i. at ns i = (if i = 2 * seat leaf \<or> ancestorOf i (2 * seat leaf) then None else at (nodes t) i)"
    using RemoveLeaf_spec [OF t r [unfolded seat_def]] e by (auto simp: seat_def)
  then show ?thesis by (auto simp: members_def fun_eq_iff not_ancestor_even leafOf_def)
qed

lemma members_blank: "treeInv t \<Longrightarrow> members t l = None \<longleftrightarrow> at (nodes t) (2 * l) = None"
proof (cases "at (nodes t) (2 * l)")
  case (Some nd)
  assume "treeInv t"
  then have "nodeOK (nodes t) (2 * l)" by (simp add: treeInv_iff)
  with Some show ?thesis by (simp add: nodeOK_def members_def leafOf_def)
qed (simp add: members_def leafOf_def)

text \<open>An addition that succeeds within the bound on the width had room.\<close>

lemma AddLeaf_room:
  assumes "treeInv t" "AddLeaf t ln = Ok (l, t')" "length (nodes t') < 2147483648"
  shows "hasRoom t"
proof (rule ccontr)
  assume n: "\<not> hasRoom t"
  obtain ns i ms where r: "keepsLeaves (nodes t) ns" "firstBlank 0 (evens ns) = Some i"
    "goUpdate ns (unat (2 * of_nat i :: u32)) (leafEntry ln) = Ok ms"
    "addUnmerged l ((len32 ms + 1) div 2) (Root ((len32 ms + 1) div 2)) (2 * of_nat i) ms = Ok (nodes t')"
    by (rule AddLeaf_slot [OF assms(2)])
  note b = first_blank_leaf [OF r(2)]
  have len: "length ns = length (nodes t')"
    using r(3) addUnmerged_leaves [OF r(4) refl] by (auto simp: goUpdate_Inr_iff sameLeaves_def)
  have "length (nodes t) \<le> 2 * i"
  proof (rule ccontr)
    assume "\<not> length (nodes t) \<le> 2 * i"
    then have l: "2 * i < length (nodes t)" by simp
    then have "nodes t ! (2 * i) \<noteq> None" using n unfolding hasRoom_def by auto
    then show False using r(1) l b(2) unfolding keepsLeaves_def by fastforce
  qed
  moreover have "2147483647 \<le> length (nodes t)" using n by (simp add: hasRoom_def)
  ultimately show False using b(1) len assms(3) by linarith
qed

lemma AddLeaf_members:
  assumes "treeInv t" "AddLeaf t ln = Ok (l, t')" "length (nodes t') < 2147483648"
  shows "members t' = (members t)((LEAST l. members t l = None) \<mapsto> ln)" "treeInv t'" "length (nodes t) \<le> length (nodes t')"
proof -
  have room: "hasRoom t" by (rule AddLeaf_room [OF assms])
  show "treeInv t'" using AddLeaf_inv [OF assms(1) room, of ln] assms(2) by simp
  show "length (nodes t) \<le> length (nodes t')" using AddLeaf_leaves(1) [OF assms(2,3)] by (simp add: keepsLeaves_def)
  obtain h where t: "fullTree h t" using assms(1) by (auto simp: treeInv_def)
  obtain ns where a: "t' = t\<lparr>nodes := ns\<rparr>" "at (nodes t) (2 * unat l) = None" "\<forall>e<unat l. at (nodes t) (2 * e) \<noteq> None"
    "\<forall>j. at ns j = (if j = 2 * unat l then leafEntry ln
      else if ancestorOf j (2 * unat l) then map_option (addUnm l) (at (nodes t) j)
      else at (nodes t) j)"
    using AddLeaf_spec [OF t hasRoom_height [OF t room], of ln] assms(2) by auto
  have "(LEAST l. members t l = None) = unat l"
    by (rule Least_equality) (use a(2,3) members_blank [OF assms(1)] in \<open>auto simp: not_le [symmetric]\<close>)
  then show "members t' = (members t)((LEAST l. members t l = None) \<mapsto> ln)"
    using a(1,4) by (auto simp: members_def fun_eq_iff not_ancestor_even)
qed

section \<open>The proposals and the path\<close>

lemma updates_members:
  assumes "foldR applyUpdate t rs = Ok t'" "treeInv t"
  shows "members t' = foldl updateSeat (members t) rs \<and> treeInv t'"
  using assms
proof (induction rs arbitrary: t)
  case (Cons r rs)
  obtain w where w: "applyUpdate t r = Ok w" "foldR applyUpdate w rs = Ok t'" using Cons.prems(1) by (auto simp: bindR_Inr_iff)
  then obtain ln where u: "p_Update (cp_proposal r) = Some ln" "UpdateLeaf t (cp_sender r) ln = Ok w"
    by (auto simp: applyUpdate_def bindR_Inr_iff fromOption_Inr_iff)
  then have "members w = updateSeat (members t) r" using UpdateLeaf_members [OF Cons.prems(2) u(2)] by (simp add: updateSeat_def)
  then show ?case using Cons.IH [OF w(2) UpdateLeaf_inv [OF Cons.prems(2) u(2)]] by simp
qed simp

lemma removes_members:
  assumes "foldR applyRemove t rs = Ok t'" "treeInv t"
  shows "members t' = foldl removeSeat (members t) rs \<and> treeInv t'"
  using assms
proof (induction rs arbitrary: t)
  case (Cons r rs)
  obtain w where w: "applyRemove t r = Ok w" "foldR applyRemove w rs = Ok t'" using Cons.prems(1) by (auto simp: bindR_Inr_iff)
  then obtain i where u: "p_Remove (cp_proposal r) = Some i" "RemoveLeaf t i = Ok w"
    by (auto simp: applyRemove_def bindR_Inr_iff fromOption_Inr_iff)
  then have "members w = removeSeat (members t) r" using RemoveLeaf_members [OF Cons.prems(2) u(2)] by (simp add: removeSeat_def)
  then show ?case using Cons.IH [OF w(2) RemoveLeaf_inv [OF Cons.prems(2) u(2)]] by simp
qed simp

lemma adds_members:
  assumes "foldR applyAdd (t, na, ka) rs = Ok (t', newly, kps)" "treeInv t" "length (nodes t') < 2147483648"
  shows "members t' = foldl addSeat (members t) rs \<and> treeInv t'"
  using assms
proof (induction rs arbitrary: t na ka)
  case (Cons r rs)
  obtain kp l w where s: "p_Add (cp_proposal r) = Some kp" "AddLeaf t (kp_LeafNode kp) = Ok (l, w)"
    "foldR applyAdd (w, na @ [l], ka @ [kp]) rs = Ok (t', newly, kps)"
  proof -
    obtain st where st: "applyAdd (t, na, ka) r = Ok st" "foldR applyAdd st rs = Ok (t', newly, kps)"
      using Cons.prems(1) by (auto simp: bindR_Inr_iff)
    then show ?thesis using that by (auto simp: applyAdd_def bindR_Inr_iff fromOption_Inr_iff)
  qed
  have "length (nodes w) < 2147483648"
    using applyAdd_leaves [OF s(3) Cons.prems(3)] Cons.prems(3) by (simp add: keepsLeaves_def)
  note a = AddLeaf_members [OF Cons.prems(2) s(2) this]
  have "members w = addSeat (members t) r" using a(1) s(1) by (simp add: addSeat_def)
  then show ?case using Cons.IH [OF s(3) a(2) Cons.prems(3)] by simp
qed simp

lemma applyProposals_members:
  assumes "applyProposals t cm cache ext psks res gid c = Ok ap" "treeInv t" "length (nodes (ap_tree ap)) < 2147483648"
  obtains rs where "mapR (resolveProposal cache c) (cm_Proposals cm) = Ok rs" "members (ap_tree ap) = rosterAfter (members t) rs"
    "treeInv (ap_tree ap)"
proof -
  obtain rs t1 t2 newly kps where r: "mapR (resolveProposal cache c) (cm_Proposals cm) = Ok rs"
    "foldR applyUpdate t (ofType ProposalTypeUpdate rs) = Ok t1" "foldR applyRemove t1 (ofType ProposalTypeRemove rs) = Ok t2"
    "foldR applyAdd (t2, [], []) (ofType ProposalTypeAdd rs) = Ok (ap_tree ap, newly, kps)"
    using assms(1) by (auto simp: applyProposals_def bindR_Inr_iff)
  note u = updates_members [OF r(2) assms(2)]
  note m = removes_members [OF r(3) conjunct2 [OF u]]
  from adds_members [OF r(4) conjunct2 [OF m] assms(3)] u m r(1) that show ?thesis by (simp add: rosterAfter_def)
qed

text \<open>A path puts the leaf node it carries at the sender's seat and leaves the other seats.\<close>

lemma Merge_members:
  assumes "Merge std t sender up = Ok t'"
  shows "members t' = (members t)(seat sender \<mapsto> up_LeafNode up)"
proof -
  obtain t1 fdp ns where m: "installPath std t sender (map upn_EncryptionKey (Nodes up)) = Ok (t1, fdp)"
    "goUpdate (nodes t1) (unat (2 * sender)) (leafEntry (up_LeafNode up)) = Ok ns" "t' = t1\<lparr>nodes := ns\<rparr>"
    using assms by (auto simp: Merge_def bindR_Inr_iff)
  have "sameLeaves (nodes t) (nodes t1)" by (rule installPath_leaves [OF m(1)])
  moreover have "unat (2 * sender) = 2 * seat sender" by (simp add: seat_def unat_double_masked)
  ultimately show ?thesis using m(2,3) by (auto simp: members_def at_def goUpdate_Inr_iff sameLeaves_def fun_eq_iff nth_list_update)
qed

text \<open>The leaf node of a generated path keeps the credential and the signature key of its member.\<close>

lemma generated_credential:
  assumes "GenerateUpdatePath std rnd t sender leafSecret signer gid newly mkGC = Ok (t', up, cs, m)"
  obtains old where "members t (seat sender) = Some old" "leaf_Credential (up_LeafNode up) = leaf_Credential old"
    "SignatureKey (up_LeafNode up) = SignatureKey old"
proof -
  obtain n orig pub ph where l: "goIndex (nodes t) (unat (2 * sender)) = Ok n" "leafOf n = Some orig"
    "SignLeafNode std (suite t) signer (commitLeaf orig pub ph) gid sender = Ok (up_LeafNode up)"
    using assms by (auto simp: GenerateUpdatePath_def Let_def bindR_Inr_iff fromOption_Inr_iff split: prod.splits)
  moreover have "members t (seat sender) = Some orig"
    using l(1,2) by (auto simp: members_def at_def seat_def goIndex_def unat_double_masked split: if_splits)
  moreover obtain sig where "up_LeafNode up = (commitLeaf orig pub ph)\<lparr>leaf_Signature := sig\<rparr>"
    using l(3) by (auto simp: SignLeafNode_def bindR_Inr_iff dest: sym)
  ultimately show ?thesis using that by (simp add: commitLeaf_def)
qed

lemma Group_Commit_roster:
  assumes "Group_Commit std rnd g opt = (Ok (commit, w), g')" and "treeInv (g_tree g)" and "Clone (g_tree g) = Ok (g_tree g)"
    and "length (nodes (g_tree g')) < 2147483648"
  shows "\<exists>cache refs rs old ln. referenceProposals std g (ByReference opt) = Ok (cache, refs) \<and>
    mapR (resolveProposal cache (ownLeaf g)) (refs @ map inlineProposal (ByValue opt)) = Ok rs \<and>
    rosterAfter (members (g_tree g)) rs (seat (ownLeaf g)) = Some old \<and>
    members (g_tree g') = (rosterAfter (members (g_tree g)) rs)(seat (ownLeaf g) \<mapsto> ln) \<and>
    leaf_Credential ln = leaf_Credential old \<and> SignatureKey ln = SignatureKey old"
proof -
  obtain pc interim priv st where f: "prepareCommit std rnd g opt = Ok pc"
    "\<exists>g0. g_suite g0 = g_suite g \<and> g' = (advance g0 (pc_tree pc) (pc_context pc) (pc_epoch pc) interim priv st)
      \<lparr>handshakeGeneration := 0\<rparr>"
    by (rule Group_Commit_parts [OF assms(1)])
  then have g': "g_tree g' = pc_tree pc" by (auto simp: advance_def)
  obtain wt cache refs ap up cs body inp sig th gcb psk
    where run: "commitRun std rnd g opt pc wt cache refs ap up cs body inp sig th gcb psk"
    by (rule prepareCommit_run [OF f(1)])
  note r = run [unfolded commitRun_def Let_def]
  have wt: "wt = g_tree g" using r assms(3) by simp
  have gen: "GenerateUpdatePath std (rnd_path rnd) (ap_tree ap) (ownLeaf g) (rnd_leafSecret rnd) (signerOf_g g)
       (gc_GroupID (groupContext g)) (newlyAdded ap)
       (\<lambda>th. GroupContext_MarshalMLS (nextContext (groupContext g) th (ConfirmedTranscriptHash (groupContext g)) (provisionalExt ap))) =
       Ok (pc_tree pc, up, cs, pc_pathSecrets pc)" using r by blast
  note mg = generated_merges [OF gen]
  obtain old where old: "members (ap_tree ap) (seat (ownLeaf g)) = Some old"
    "leaf_Credential (up_LeafNode up) = leaf_Credential old" "SignatureKey (up_LeafNode up) = SignatureKey old"
    by (rule generated_credential [OF gen])
  have ap: "applyProposals (g_tree g) (proposed opt refs) cache (gc_Extensions (groupContext g)) (externalPSKs g)
       (resumptionPSKs g) (gc_GroupID (groupContext g)) (ownLeaf g) = Ok ap" using r wt by blast
  have "length (nodes (ap_tree ap)) < 2147483648" using Merge_shape [OF mg] assms(4) g' by simp
  then obtain rs where rs: "mapR (resolveProposal cache (ownLeaf g)) (refs @ map inlineProposal (ByValue opt)) = Ok rs"
    "members (ap_tree ap) = rosterAfter (members (g_tree g)) rs"
    using applyProposals_members [OF ap assms(2)] by auto
  moreover have "referenceProposals std g (ByReference opt) = Ok (cache, refs)" using r by blast
  ultimately show ?thesis using Merge_members [OF mg] old g' by auto
qed

lemma processPath_members:
  "processPath std g wt ext wp newly c up = Ok (wt', th, cs, ps) \<Longrightarrow>
    members wt' = (members wt)(seat c \<mapsto> up_LeafNode up) \<and> length (nodes wt') = length (nodes wt)"
  by (auto simp: processPath_def bindR_Inr_iff Merge_members Merge_shape)

lemma ProcessCommit_roster:
  assumes "ProcessCommit std g proposals commit = Ok g'" and "PeekCommit std g commit = Ok cm" and "treeInv (g_tree g)"
    and "Clone (g_tree g) = Ok (g_tree g)" and "length (nodes (g_tree g')) < 2147483648"
  shows "\<exists>cache c rs. proposalCache std g proposals = Ok cache \<and> mapR (resolveProposal cache c) (cm_Proposals cm) = Ok rs \<and>
    members (g_tree g') =
      (case cm_Path cm of
         None \<Rightarrow> rosterAfter (members (g_tree g)) rs
       | Some up \<Rightarrow> (rosterAfter (members (g_tree g)) rs)(seat c \<mapsto> up_LeafNode up))"
proof -
  obtain m ac where m: "MLSMessage_UnmarshalMLS noMessage commit = Ok m" "authenticateCommit std g m = Ok ac"
    "\<not> (msg_WireFormat m = WireFormatPublicMessage \<and> msg_Public m \<noteq> None \<and>
       SenderType (fc_Sender (pub_Content (the (msg_Public m)))) \<noteq> SenderTypeMember)"
    "Commit_UnmarshalMLS (fc_Content (ac_Content ac)) = Ok cm"
    using assms(2) by (auto simp: PeekCommit_def bindR_Inr_iff split: if_splits)
  obtain cache where c: "proposalCache std g proposals = Ok cache" "applyMemberCommit std g cache ac = Ok g'"
    using assms(1) m by (auto simp: ProcessCommit_def bindR_Inr_iff split: if_splits)
  let ?c = "snd_LeafIndex (fc_Sender (ac_Content ac))"
  obtain ap wp wt' th cs ps gc es i p st where a: "applyProposals (g_tree g) cm cache (gc_Extensions (groupContext g)) (externalPSKs g)
       (resumptionPSKs g) (gc_GroupID (groupContext g)) ?c = Ok ap"
    "(case cm_Path cm of
         Some path \<Rightarrow>
           bindR (processPath std g (ap_tree ap) (provisionalExt ap) wp (newlyAdded ap) ?c path)
             (\<lambda>(wt, th, cs, ps). Ok (wt, th, Some cs, ps))
       | None \<Rightarrow>
           bindR (RootTreeHash std (ap_tree ap)) (\<lambda>th. Ok (ap_tree ap, th, None, None))) = Ok (wt', th, cs, ps)"
    "g' = (advance g wt' gc es i p st)\<lparr>handshakeGeneration := 0\<rparr>"
    using c(2) m(4) assms(4) unfolding applyMemberCommit_def Let_def bindR_Inr_iff split_paired_Ex prod.case sum.inject
    by (metis sum.inject(2))
  have g': "g_tree g' = wt'" using a(3) by (simp add: advance_def)
  have p: "members wt' = (case cm_Path cm of None \<Rightarrow> members (ap_tree ap) | Some up \<Rightarrow> (members (ap_tree ap))(seat ?c \<mapsto> up_LeafNode up)) \<and>
      length (nodes wt') = length (nodes (ap_tree ap))"
    using a(2) by (cases "cm_Path cm") (auto simp: bindR_Inr_iff dest!: processPath_members)
  obtain rs where "mapR (resolveProposal cache ?c) (cm_Proposals cm) = Ok rs" "members (ap_tree ap) = rosterAfter (members (g_tree g)) rs"
    using applyProposals_members [OF a(1) assms(3)] p assms(5) g' by auto
  then show ?thesis using c(1) p g' by (auto split: option.splits)
qed

section \<open>Seats from the left\<close>

lemma treeInv_length: "treeInv t \<Longrightarrow> length (nodes t) < 2147483648"
  using pow31 by (fastforce simp: treeInv_def fullTree_def)

lemma AddLeaf_next:
  assumes "treeInv t" "dom (members t) = {..<k}" "k < 2 ^ 30" "AddLeaf t lf = Ok (l, t')"
  shows "treeInv t'" "members t' = (members t)(k \<mapsto> lf)"
proof -
  have k: "members t k = None" "\<And>j. j < k \<Longrightarrow> members t j \<noteq> None" using assms(2) by auto
  have "hasRoom t"
  proof (cases "length (nodes t) < 2 ^ 31 - 1")
    case False
    then have "2 * k < length (nodes t)" using assms(3) by simp
    moreover from this have "nodes t ! (2 * k) = None" using k(1) members_blank [OF assms(1)] by (simp add: at_def)
    ultimately show ?thesis unfolding hasRoom_def by (intro disjI2 exI [of _ k]) simp
  qed (simp add: hasRoom_def)
  then show i: "treeInv t'" using AddLeaf_inv [OF assms(1), of lf] assms(4) by simp
  have "(LEAST l. members t l = None) = k" by (rule Least_equality) (use k not_le in \<open>blast+\<close>)
  then show "members t' = (members t)(k \<mapsto> lf)" using AddLeaf_members(1) [OF assms(1,4) treeInv_length [OF i]] by simp
qed

lemma adds_from_left:
  assumes "foldR applyAdd (t, na, ka) rs = Ok (t', newly, packs)" "treeInv t" "dom (members t) = {..<k}" "k + length rs \<le> 2 ^ 30"
  shows "treeInv t' \<and> dom (members t') = {..<k + length rs}"
  using assms
proof (induction rs arbitrary: t na ka k)
  case (Cons r rs)
  obtain kp l w where s: "AddLeaf t (kp_LeafNode kp) = Ok (l, w)"
    "foldR applyAdd (w, na @ [l], ka @ [kp]) rs = Ok (t', newly, packs)"
  proof -
    obtain st where st: "applyAdd (t, na, ka) r = Ok st" "foldR applyAdd st rs = Ok (t', newly, packs)"
      using Cons.prems(1) by (auto simp: bindR_Inr_iff)
    then show ?thesis using that by (auto simp: applyAdd_def bindR_Inr_iff)
  qed
  have "k < 2 ^ 30" using Cons.prems(4) by simp
  note a = AddLeaf_next [OF Cons.prems(2,3) this s(1)]
  have "dom (members w) = {..<Suc k}" using a(2) Cons.prems(3) by auto
  from Cons.IH [OF s(2) a(1) this] Cons.prems(4) show ?case by simp
qed simp

lemma active_leaves:
  assumes "dom (members (g_tree g)) = {..<k}" and t: "fullTree h (g_tree g)"
  shows "ActiveLeaves g = map of_nat [0..<k]"
proof -
  have len: "length (nodes (g_tree g)) = 2 * 2 ^ h - 1" "2 * 2 ^ h \<le> (2147483648 :: nat)" using t pow31 [of h] by (auto simp: fullTree_def)
  have at: "(case LeafNodeAt (g_tree g) (of_nat i) of Inr _ \<Rightarrow> True | Inl _ \<Rightarrow> False) \<longleftrightarrow> i < k" if "i < 2 ^ h" for i
  proof -
    have "2 * i < 4294967296" using that len(2) by linarith
    then have "unat (2 * of_nat i :: u32) = 2 * i" by (simp add: unat_word_ariths unat_of_nat)
    then have "NodeAt (g_tree g) (2 * of_nat i) = at (nodes (g_tree g)) (2 * i)" using len by (simp add: NodeAt_at)
    then have "(\<exists>x. LeafNodeAt (g_tree g) (of_nat i) = Ok x) \<longleftrightarrow> i \<in> dom (members (g_tree g))"
      by (auto simp: LeafNodeAt_def members_def leafOf_def fromOption_Inr_iff dom_def split: option.splits)
    then show ?thesis using assms(1) by (auto split: sum.splits)
  qed
  have k: "k \<le> 2 ^ h"
  proof (cases k)
    case (Suc j)
    then have "members (g_tree g) j \<noteq> None" using assms(1) by auto
    then have "2 * j < length (nodes (g_tree g))" by (auto simp: members_def at_def leafOf_def split: if_splits)
    then show ?thesis using Suc len(1) by linarith
  qed simp
  have "filter (\<lambda>i. i < k) [0..<2 ^ h] = [0..<k]"
  proof -
    have "[0..<2 ^ h] = [0..<k] @ [k..<2 ^ h]" using k upt_add_eq_append [of 0 k "2 ^ h - k"] by simp
    then show ?thesis by (simp add: filter_False)
  qed
  moreover have "ActiveLeaves g = map of_nat (filter (\<lambda>i. i < k) [0..<2 ^ h])"
    unfolding ActiveLeaves_def fullTree_width(2) [OF t] filter_map o_def
    by (rule arg_cong [of _ _ "map of_nat"], rule filter_cong) (auto simp: at)
  ultimately show ?thesis by simp
qed

lemma NewKeyPackage_owner:
  assumes "NewKeyPackage std r1 r2 s cred signer life = Ok (kp, initPriv, leafPriv)" "wfCredential cred"
  shows "wfKeyPackage kp" "GenerateHPKEKeyPair std s r1 = Ok (initPriv, InitKey kp)"
  using assms by (auto simp: NewKeyPackage_def bindR_Inr_iff Let_def SignLeafNode_def wfKeyPackage_def wfLeafNode_def)

text \<open>The founder's tree is its own clone.\<close>

lemma founder_tree:
  assumes "NewGroup std r1 r2 s gid cred signer life = Ok g" "wfCredential cred"
  obtains lf where "g_tree g = NewRatchetTree s lf" "ownLeaf g = 0" "wfLeafNode lf"
proof -
  obtain kp ip lp where "NewKeyPackage std r1 r2 s cred signer life = Ok (kp, ip, lp)" "g_tree g = NewRatchetTree s (kp_LeafNode kp)"
    "ownLeaf g = 0"
    using assms(1) by (auto simp: NewGroup_def bindR_Inr_iff Let_def)
  then show ?thesis using that NewKeyPackage_owner(1) [OF _ assms(2)] by (auto simp: wfKeyPackage_def)
qed

lemma single_tree:
  assumes "wfLeafNode lf"
  shows "treeInv (NewRatchetTree s lf)" "dom (members (NewRatchetTree s lf)) = {..<1}"
    "Clone (NewRatchetTree s lf) = Ok wt \<Longrightarrow> wt = NewRatchetTree s lf"
proof -
  let ?t = "NewRatchetTree s lf"
  have f: "fullTree 0 ?t" by (simp add: fullTree_def NewRatchetTree_def)
  moreover have "nodeOK (nodes ?t) i" for i by (simp add: nodeOK_def at_def NewRatchetTree_def)
  ultimately show "treeInv ?t" by (auto simp: treeInv_iff)
  show "dom (members ?t) = {..<1}" by (auto simp: members_def at_def NewRatchetTree_def leafOf_def split: if_splits)
  have *: "tightTree ?t" "list_all (pred_option wfNode) (nodes ?t)" "suite ?t = s"
    using assms by (simp_all add: tightTree_def NewRatchetTree_def wfNode_def dropBlankTail.simps)
  show "wt = ?t" if c: "Clone ?t = Ok wt"
  proof -
    obtain d where d: "RatchetTree_MarshalMLS ?t = Ok d" "ParseRatchetTree s d = Ok wt"
      using c *(3) by (auto simp: Clone_def bindR_Inr_iff)
    with * f have "ParseRatchetTree s d = Ok ?t" unfolding ParseRatchetTree_iff by blast
    with d(2) show ?thesis by simp
  qed
qed

text \<open>A commit that only adds resolves to its additions.\<close>

lemma resolved_adds:
  assumes "mapR (resolveProposal cache c) (map inlineProposal (map ProposeAdd packs)) = Ok rs"
  shows "ofType ProposalTypeUpdate rs = []" "ofType ProposalTypeRemove rs = []" "length (ofType ProposalTypeAdd rs) = length packs"
proof -
  have "rs = map (\<lambda>kp. \<lparr>cp_proposal = ProposeAdd kp, cp_sender = c\<rparr>) packs"
    using assms by (induction packs arbitrary: rs) (auto simp: bindR_Inr_iff resolveProposal_def inlineProposal_def)
  then show "ofType ProposalTypeUpdate rs = []" "ofType ProposalTypeRemove rs = []" "length (ofType ProposalTypeAdd rs) = length packs"
    by (simp_all add: ofType_def filter_map o_def ProposeAdd_def emptyProposal_def)
qed

lemma added_members:
  assumes "Group_Commit std rnd g \<lparr>ByValue = map ProposeAdd packs, ByReference = []\<rparr> = (Ok out, g')"
    and "g_tree g = NewRatchetTree s lf" "wfLeafNode lf" "ownLeaf g = 0" "Suc (length packs) \<le> 2 ^ 30"
  shows "dom (members (g_tree g')) = {..<Suc (length packs)}" "\<exists>h. fullTree h (g_tree g')"
proof -
  let ?opt = "\<lparr>ByValue = map ProposeAdd packs, ByReference = []\<rparr>"
  obtain pc interim priv st where f: "prepareCommit std rnd g ?opt = Ok pc"
    "\<exists>g0. g_suite g0 = g_suite g \<and> g' = (advance g0 (pc_tree pc) (pc_context pc) (pc_epoch pc) interim priv st)
      \<lparr>handshakeGeneration := 0\<rparr>"
    by (rule Group_Commit_parts [where commit = "fst out" and welcomeMsg = "snd out"]) (use assms(1) in simp)
  then have g': "g_tree g' = pc_tree pc" by (auto simp: advance_def)
  obtain wt cache refs ap up cs body inp sig th gcb psk
    where run: "commitRun std rnd g ?opt pc wt cache refs ap up cs body inp sig th gcb psk"
    by (rule prepareCommit_run [OF f(1)])
  note r = run [unfolded commitRun_def Let_def] and tr = single_tree [OF assms(3), of s]
  have wt: "wt = NewRatchetTree s lf" using r assms(2) tr(3) by simp
  have refs: "refs = []" using r by (simp add: referenceProposals_def)
  have gen: "GenerateUpdatePath std (rnd_path rnd) (ap_tree ap) (ownLeaf g) (rnd_leafSecret rnd) (signerOf_g g)
       (gc_GroupID (groupContext g)) (newlyAdded ap)
       (\<lambda>th. GroupContext_MarshalMLS (nextContext (groupContext g) th (ConfirmedTranscriptHash (groupContext g)) (provisionalExt ap))) =
       Ok (pc_tree pc, up, cs, pc_pathSecrets pc)" using r by blast
  note mg = generated_merges [OF gen]
  have ap: "applyProposals wt (proposed ?opt refs) cache (gc_Extensions (groupContext g)) (externalPSKs g)
       (resumptionPSKs g) (gc_GroupID (groupContext g)) (ownLeaf g) = Ok ap" using r by blast
  then obtain rs t1 t2 newly kps where a: "mapR (resolveProposal cache (ownLeaf g)) (map inlineProposal (map ProposeAdd packs)) = Ok rs"
    "foldR applyUpdate wt (ofType ProposalTypeUpdate rs) = Ok t1" "foldR applyRemove t1 (ofType ProposalTypeRemove rs) = Ok t2"
    "foldR applyAdd (t2, [], []) (ofType ProposalTypeAdd rs) = Ok (ap_tree ap, newly, kps)"
    using refs by (auto simp: applyProposals_def bindR_Inr_iff)
  note ra = resolved_adds [OF a(1)]
  have "t2 = wt" using a(2,3) ra(1,2) by simp
  then have d: "treeInv (ap_tree ap)" "dom (members (ap_tree ap)) = {..<Suc (length packs)}"
    using adds_from_left [OF a(4), of 1] tr(1,2) wt assms(5) ra(3) by simp_all
  then show "dom (members (g_tree g')) = {..<Suc (length packs)}"
    using Merge_members [OF mg] assms(4) g' by (auto simp: seat_def)
  show "\<exists>h. fullTree h (g_tree g')" using Merge_shape [OF mg] d(1) g' by (auto simp: treeInv_def fullTree_def)
qed

section \<open>Properties\<close>

text \<open>C3: a commit moves the membership as its proposals say.  After a successful \<^verbatim>\<open>Commit\<close> the roster of the
  group is the old one with the updates, then the removals at the seats they name, then the additions at the first free
  seats, in the order of the commit; the committer's own seat has a new leaf node with the
  same credential and signature key.  Nobody else enters, leaves or moves.
\<close>

theorem commit_moves_roster:
  assumes "Group_Commit std rnd g opt = (Ok (commit, w), g')" and "treeInv (g_tree g)" and "Clone (g_tree g) = Ok (g_tree g)"
    and "length (nodes (g_tree g')) < 2147483648"
  shows "\<exists>cache refs rs old ln. referenceProposals std g (ByReference opt) = Ok (cache, refs) \<and>
    mapR (resolveProposal cache (ownLeaf g)) (refs @ map inlineProposal (ByValue opt)) = Ok rs \<and>
    rosterAfter (members (g_tree g)) rs (seat (ownLeaf g)) = Some old \<and>
    members (g_tree g') = (rosterAfter (members (g_tree g)) rs)(seat (ownLeaf g) \<mapsto> ln) \<and>
    leaf_Credential ln = leaf_Credential old \<and> SignatureKey ln = SignatureKey old"
  by (rule Group_Commit_roster [OF assms])

lemma solo_inv: "treeInv soloTree"
proof -
  have "fullTree 0 soloTree" by (simp add: fullTree_def soloTree_def NewRatchetTree_def)
  moreover have "nodeOK (nodes soloTree) i" for i by (simp add: nodeOK_def at_def soloTree_def NewRatchetTree_def)
  ultimately show ?thesis by (auto simp: treeInv_iff)
qed

lemma members_joint: "members jointTree = [0 \<mapsto> pathLeaf, 1 \<mapsto> guestLeaf]"
proof
  fix l :: nat
  consider "l = 0" | "l = 1" | "2 \<le> l" by linarith
  then show "members jointTree l = [0 \<mapsto> pathLeaf, 1 \<mapsto> guestLeaf] l"
    by cases (simp_all add: members_def at_def jointTree_def, simp add: leafOf_def)
qed

theorem commit_moves_roster_witness:
  "\<exists>commit w g' rs ln. Group_Commit tinyStd tinyRand founder addGuest = (Ok (commit, w), g') \<and>
    mapR (resolveProposal Map.empty 0) [inlineProposal (ProposeAdd guestPackage)] = Ok rs \<and>
    members (g_tree g') = (rosterAfter (members soloTree) rs)(0 \<mapsto> ln) \<and> members (g_tree g') 1 = Some guestLeaf"
proof -
  obtain commit w g' where c: "Group_Commit tinyStd tinyRand founder addGuest = (Ok (commit, Some w), g')" "g_tree g' = jointTree"
    using guest_commit by blast
  have "length (nodes (g_tree g')) < 2147483648" by (simp add: c(2) jointTree_def)
  from commit_moves_roster [OF c(1) _ _ this] solo_inv solo_clone show ?thesis
    using c by (auto simp: referenceProposals_def addGuest_def seat_def members_joint)
qed


lemma tiny_follows:
  "\<exists>commit g' h' cm. Group_Commit tinyStd tinyRand (tinyMember 0 [1]) noProposals = (Ok (commit, None), g') \<and>
    ProcessCommit tinyStd (tinyMember 1 [2]) [] commit = Ok h' \<and> inSync g' h' \<and> PeekCommit tinyStd (tinyMember 1 [2]) commit = Ok cm \<and>
    cm_Proposals cm = []"
proof -
  obtain commit g' where c: "Group_Commit tinyStd tinyRand (tinyMember 0 [1]) noProposals = (Ok (commit, None), g')"
    using tiny_commit by blast
  have s: "inSync (tinyMember 0 [1]) (tinyMember 1 [2])" by (simp add: inSync_def tinyMember_def)
  have l: "LeafNodeAt (g_tree (tinyMember 0 [1])) (ownLeaf (tinyMember 0 [1])) = Ok (sampleLeaf [1])"
    by (simp add: tinyMember_def LeafNodeAt_def NodeAt_def) (simp add: sampleTree_def len32_def leafEntry_def)
  have w: "commitLaws tinyStd (g_suite (tinyMember 0 [1])) (signerOf_g (tinyMember 0 [1])) (SignatureKey (sampleLeaf [1]))"
    using tiny_laws by (simp add: tinyMember_def signerOf_g_def sampleLeaf_def)
  have o: "ByReference noProposals = []" "list_all wfProposal (ByValue noProposals)" "length (rnd_guard tinyRand) = 4" "ByValue noProposals = []"
    by (simp_all add: noProposals_def tinyRand_def)
  from commit_follows [OF c s tiny_remains l w o(2,3)] c show ?thesis unfolding o
    by (auto simp: referenceProposals_def)
qed

lemma tiny_width:
  assumes "Group_Commit tinyStd tinyRand (tinyMember 0 [1]) noProposals = (Ok (commit, w), g')"
  shows "length (nodes (g_tree g')) = 3"
proof -
  have "g_tree g' = nextTree" using assms tiny_commit by auto
  then show ?thesis by (simp add: nextTree_def)
qed


end
