(* ===== verification/InteropProps.thy ===== *)
theory InteropProps
  imports Interop Membership
begin

text \<open>
  Properties of the interoperability server: sessions and transactions never mix, a call touches
  no session but its own, and an Add that goes through two servers leaves both at the same epoch
  authenticator.
\<close>

section \<open>What every successful result has\<close>

definition returns :: "('a \<Rightarrow> bool) \<Rightarrow> 'a res \<Rightarrow> bool" where
  "returns P r \<longleftrightarrow> (\<forall>x. r = Ok x \<longrightarrow> P x)"

lemma returns_intros:
  "P x \<Longrightarrow> returns P (Ok x)" "returns P (Inl e)"
  "(\<And>x. returns P (f x)) \<Longrightarrow> returns P (bindR r f)"
  "\<lbrakk>c \<Longrightarrow> returns P a; \<not> c \<Longrightarrow> returns P b\<rbrakk> \<Longrightarrow> returns P (if c then a else b)"
  "(\<And>x y. p = (x, y) \<Longrightarrow> returns P (h x y)) \<Longrightarrow> returns P (case p of (x, y) \<Rightarrow> h x y)"
  "\<lbrakk>returns P a; \<And>x. returns P (k x)\<rbrakk> \<Longrightarrow> returns P (case opt of None \<Rightarrow> a | Some x \<Rightarrow> k x)"
  by (auto simp: returns_def bindR_Inr_iff split: prod.split option.split)

lemma returnsD: "returns P r \<Longrightarrow> r = Ok x \<Longrightarrow> P x"
  by (simp add: returns_def)

section \<open>What the operations of a group keep\<close>

text \<open>The suite, the own leaf and the signer of a group.\<close>

definition identityOf :: "Group \<Rightarrow> Suite \<times> u32 \<times> Signer option" where
  "identityOf g = (g_suite g, ownLeaf g, g_signer g)"

lemma ProcessCommit_identity:
  assumes "ProcessCommit std g proposals commit = Ok g'"
  shows "identityOf g' = identityOf g" "Epoch g' = Epoch g + 1" "gc_GroupID (groupContext g') = gc_GroupID (groupContext g)"
proof -
  let ?P = "\<lambda>g'. identityOf g' = identityOf g \<and> Epoch g' = Epoch g + 1 \<and> gc_GroupID (groupContext g') = gc_GroupID (groupContext g)"
  have adv: "?P (advance g wt (nextContext (groupContext g) th c ext) es i p st)" for wt th c ext es i p st
    by (simp add: identityOf_def advance_def Epoch_def nextContext_def)
  have ext: "returns ?P (processExternalCommit std g m)" for m
    unfolding processExternalCommit_def finishExternalCommit_def Let_def by (intro returns_intros adv)
  have mem: "returns ?P (applyMemberCommit std g cache ac)" for cache ac
    unfolding applyMemberCommit_def Let_def
    by (intro returns_intros) (simp_all add: identityOf_def advance_def Epoch_def nextContext_def)
  have "returns ?P (ProcessCommit std g proposals commit)"
    unfolding ProcessCommit_def by (intro returns_intros ext mem)
  from returnsD [OF this assms] show "identityOf g' = identityOf g" "Epoch g' = Epoch g + 1"
    "gc_GroupID (groupContext g') = gc_GroupID (groupContext g)" by simp_all
qed

lemma Group_Commit_identity:
  assumes "Group_Commit std rnd g opt = (r, g')"
  shows "identityOf g' = identityOf g"
proof -
  have "returns (\<lambda>(out, g'). identityOf g' = identityOf h) (finishCommit std rnd h pc)" for h pc
    unfolding finishCommit_def Let_def by (intro returns_intros) (simp add: identityOf_def advance_def)
  then have "finishCommit std rnd h pc = Ok (out, g') \<Longrightarrow> identityOf g' = identityOf h" for h pc out g'
    using returnsD by fastforce
  then show ?thesis using assms by (auto simp: Group_Commit_def Let_def identityOf_def split: sum.splits if_splits)
qed

lemma FrameProposal_identity: "FrameProposal std rnd g p = (r, g') \<Longrightarrow> identityOf g' = identityOf g"
  by (auto simp: FrameProposal_def identityOf_def Let_def split: sum.splits if_splits)

lemma ProtectApplication_identity: "ProtectApplication std rnd g p a = (r, g') \<Longrightarrow> identityOf g' = identityOf g"
  by (auto simp: ProtectApplication_def identityOf_def Let_def split: sum.splits)

lemma ProposeUpdate_identity: "ProposeUpdate std rnd g = Ok (p, g') \<Longrightarrow> identityOf g' = identityOf g"
  by (auto simp: ProposeUpdate_def identityOf_def bindR_Inr_iff)

lemma NewGroup_suite: "NewGroup std r1 r2 s gid cred signer life = Ok g \<Longrightarrow> g_suite g = s"
  by (auto simp: NewGroup_def bindR_Inr_iff Let_def)

lemma JoinFromWelcome_suite:
  assumes "JoinFromWelcome std s w jo = Ok g"
  shows "g_suite g = s"
proof -
  have "returns (\<lambda>g. g_suite g = s) (JoinFromWelcome std s w jo)"
    unfolding JoinFromWelcome_def finishJoin_def Let_def by (intro returns_intros) simp
  from returnsD [OF this assms] show ?thesis .
qed

lemma ExternalCommit_suite:
  assumes "ExternalCommit std rnd s gi cred signer life = Ok (g, commit)"
  shows "g_suite g = s"
proof -
  have "returns (\<lambda>(g, commit). g_suite g = s) (ExternalCommit std rnd s gi cred signer life)"
    unfolding ExternalCommit_def finishExternalJoin_def Let_def by (intro returns_intros) simp
  from returnsD [OF this assms] show ?thesis by simp
qed

section \<open>Calls\<close>

text \<open>One call of a procedure that may change the server, with the session it names, if any.\<close>

inductive call :: "Std \<Rightarrow> u32 option \<Rightarrow> Server \<Rightarrow> Server \<Rightarrow> bool" for std where
  create_group: "CreateGroup std fresh rnd s gid cs enc identity = (r, s') \<Longrightarrow> call std None s s'"
| create_key_package: "CreateKeyPackage std fresh rnd s cs identity = (r, s') \<Longrightarrow> call std None s s'"
| join_group: "JoinGroup std s tid w tree enc = (r, s') \<Longrightarrow> call std None s s'"
| external_join: "ExternalJoin std fresh rnd s psks gi identity enc = (r, s') \<Longrightarrow> call std None s s'"
| add_proposal: "AddProposal std rnd s i kp = (r, s') \<Longrightarrow> call std (Some i) s s'"
| update_proposal: "UpdateProposal std rnd s i = (r, s') \<Longrightarrow> call std (Some i) s s'"
| remove_proposal: "RemoveProposal std rnd s i removed = (r, s') \<Longrightarrow> call std (Some i) s s'"
| commits: "Server_Commit std rnd s i refs pds = (r, s') \<Longrightarrow> call std (Some i) s s'"
| handle_commit: "Server_HandleCommit std s i ps c = (r, s') \<Longrightarrow> call std (Some i) s s'"
| handle_pending: "HandlePendingCommit s i = (r, s') \<Longrightarrow> call std (Some i) s s'"
| protect: "Protect std rnd s i pt ad = (r, s') \<Longrightarrow> call std (Some i) s s'"
| free: "Free s i = s' \<Longrightarrow> call std (Some i) s s'"

text \<open>The servers that a number of calls can lead to.\<close>

inductive served :: "Std \<Rightarrow> nat \<Rightarrow> Server \<Rightarrow> bool" for std where
  started: "served std 0 New"
| calls: "served std n s \<Longrightarrow> call std tgt s s' \<Longrightarrow> served std (Suc n) s'"

text \<open>The effect of a call: the server stays as it is, the named session changes within its identity or
  goes, or a session or a transaction is added under the next identifier.\<close>

inductive effect :: "u32 option \<Rightarrow> Server \<Rightarrow> Server \<Rightarrow> bool" where
  unchanged: "effect tgt s s"
| changed: "\<lbrakk>states s i = Some st; state_suite st' = state_suite st; identityOf (state_g st') = identityOf (state_g st)\<rbrakk> \<Longrightarrow>
    effect (Some i) s (s\<lparr>states := (states s)(i \<mapsto> st')\<rparr>)"
| removed: "effect (Some i) s (s\<lparr>states := (states s)(i := None)\<rparr>)"
| opened: "\<lbrakk>state_suite st = g_suite (state_g st); txns' \<subseteq>\<^sub>m txns s\<rbrakk> \<Longrightarrow>
    effect None s (s\<lparr>nextID := nextID s + 1, states := (states s)(nextID s \<mapsto> st), txns := txns'\<rparr>)"
| published: "effect None s (s\<lparr>nextID := nextID s + 1, txns := (txns s)(nextID s \<mapsto> tx)\<rparr>)"

lemma setGroup_effect:
  "states s i = Some st \<Longrightarrow> identityOf g = identityOf (state_g st) \<Longrightarrow> effect (Some i) s (setGroup s i g)"
  using effect.changed [of s i st "st\<lparr>state_g := g\<rparr>"] by (simp add: setGroup_def)

lemma getState_iff: "getState s i = Inr st \<longleftrightarrow> states s i = Some st"
  by (simp add: getState_def split: option.split)

lemma bindS_iff: "bindS r f = Inr y \<longleftrightarrow> (\<exists>x. r = Inr x \<and> f x = Inr y)"
  by (simp add: bindS_def split: sum.split)

lemma orStatus_iff: "orStatus c m r = Inr x \<longleftrightarrow> r = Ok x"
  by (simp add: orStatus_def split: sum.split fault.split)

lemmas rpc_simps = getState_iff bindS_iff orStatus_iff

lemma addState_effect:
  assumes "addState (s\<lparr>txns := txns'\<rparr>) su g = (i, s')" "g_suite g = su" "txns' \<subseteq>\<^sub>m txns s"
  shows "effect None s s'"
proof -
  let ?st = "\<lparr>state_suite = su, state_g = g, pendingEpochAuth = None\<rparr>"
  have "s' = s\<lparr>nextID := nextID s + 1, states := (states s)(nextID s \<mapsto> ?st), txns := txns'\<rparr>"
    using assms(1) by (cases s) (auto simp: addState_def alloc_def)
  then show ?thesis using effect.opened [where st = ?st and txns' = txns' and s = s] assms(2,3) by simp
qed

abbreviation txOptions :: "pendingKP \<Rightarrow> bytes \<Rightarrow> JoinOptions" where
  "txOptions tx tree \<equiv> \<lparr>jo_KeyPackage = kpMsg tx, jo_InitPriv = tx_initPriv tx, jo_EncryptionPriv = tx_encPriv tx,
     jo_Signer = Some (tx_signer tx), jo_RatchetTree = tree, jo_ExternalPSKs = Map.empty\<rparr>"

lemma JoinGroup_cases:
  assumes "JoinGroup std s tid w tree enc = (r, s')" "s' \<noteq> s"
  obtains tx g i s1 where "txns s tid = Some tx" "JoinFromWelcome std (tx_suite tx) w (txOptions tx tree) = Ok g"
    "addState s (tx_suite tx) (SetEncryptHandshakes g enc) = (i, s1)" "s' = s1\<lparr>txns := (txns s1)(tid := None)\<rparr>"
proof -
  obtain tx where tx: "txns s tid = Some tx" using assms by (cases "txns s tid") (auto simp: JoinGroup_def)
  obtain g where g: "JoinFromWelcome std (tx_suite tx) w (txOptions tx tree) = Ok g"
    using assms tx
    by (cases "orStatus Internal ''JoinFromWelcome'' (JoinFromWelcome std (tx_suite tx) w (txOptions tx tree))")
      (auto simp: JoinGroup_def orStatus_iff)
  have o: "orStatus Internal ''JoinFromWelcome'' (Ok g) = Inr g" by (simp add: orStatus_iff)
  obtain i s1 where "addState s (tx_suite tx) (SetEncryptHandshakes g enc) = (i, s1)" by fastforce
  with that tx g assms(1) show ?thesis by (simp add: JoinGroup_def o Let_def)
qed

lemma call_effect:
  assumes "call std tgt s s'"
  shows "effect tgt s s'"
  using assms
proof cases
  case (create_group fresh rnd gid cs enc identity r)
  show ?thesis
  proof (cases "s' = s")
    case False
    then obtain su signer sd g i where "NewGroup std (rnd_init rnd) (rnd_leaf rnd) su gid (basicCredential identity) signer interopLifetime = Ok g"
      "addState s su (SetEncryptHandshakes g enc) = (i, s')"
      using create_group(2) by (auto simp: CreateGroup_def rpc_simps Let_def split: sum.splits prod.splits)
    then show ?thesis
      using create_group(1) addState_effect [where s = s and txns' = "txns s"] NewGroup_suite
      by (auto simp: SetEncryptHandshakes_def)
  qed (simp add: effect.unchanged)
next
  case (create_key_package fresh rnd cs identity r)
  show ?thesis
  proof (cases "s' = s")
    case False
    then obtain tx where "s' = s\<lparr>nextID := nextID s + 1, txns := (txns s)(nextID s \<mapsto> tx)\<rparr>"
      using create_key_package(2) by (cases s) (auto simp: CreateKeyPackage_def rpc_simps Let_def alloc_def split: sum.splits prod.splits)
    then show ?thesis using create_key_package(1) effect.published by simp
  qed (simp add: effect.unchanged)
next
  case (join_group tid w tree enc r)
  show ?thesis
  proof (cases "s' = s")
    case False
    obtain tx g i s1 where j: "txns s tid = Some tx" "JoinFromWelcome std (tx_suite tx) w (txOptions tx tree) = Ok g"
      "addState s (tx_suite tx) (SetEncryptHandshakes g enc) = (i, s1)" "s' = s1\<lparr>txns := (txns s1)(tid := None)\<rparr>"
      by (rule JoinGroup_cases [OF join_group(2) False])
    have "addState (s\<lparr>txns := (txns s)(tid := None)\<rparr>) (tx_suite tx) (SetEncryptHandshakes g enc) = (i, s')"
      using j(3,4) by (cases s) (auto simp: addState_def alloc_def)
    then show ?thesis
      using join_group(1) addState_effect JoinFromWelcome_suite [OF j(2)]
      by (auto simp: SetEncryptHandshakes_def map_le_def)
  qed (simp add: effect.unchanged)
next
  case (external_join fresh rnd psks gi identity enc r)
  show ?thesis
  proof (cases "s' = s")
    case False
    then obtain su info signer g commit i where "ExternalCommit std rnd su info (basicCredential identity) signer interopLifetime = Ok (g, commit)"
      "addState s su (SetEncryptHandshakes g enc) = (i, s')"
      using external_join(2)
      by (auto simp: ExternalJoin_def rpc_simps Let_def split: sum.splits prod.splits if_splits)
    then show ?thesis
      using external_join(1) addState_effect [where s = s and txns' = "txns s"] ExternalCommit_suite
      by (auto simp: SetEncryptHandshakes_def)
  qed (simp add: effect.unchanged)
next
  case (add_proposal rnd i kp r)
  then show ?thesis
    by (auto simp: AddProposal_def rpc_simps split: sum.splits prod.splits
        intro!: setGroup_effect effect.unchanged FrameProposal_identity)
next
  case (update_proposal rnd i r)
  then show ?thesis
    by (auto simp: UpdateProposal_def rpc_simps split: sum.splits prod.splits
        intro!: setGroup_effect effect.unchanged dest!: FrameProposal_identity ProposeUpdate_identity)
next
  case (remove_proposal rnd i removed r)
  then show ?thesis
    by (auto simp: RemoveProposal_def rpc_simps split: sum.splits prod.splits
        intro!: setGroup_effect effect.unchanged FrameProposal_identity)
next
  case (commits rnd i refs pds r)
  then show ?thesis
    by (auto simp: Server_Commit_def rpc_simps split: sum.splits prod.splits
        intro!: setGroup_effect effect.unchanged effect.changed dest!: Group_Commit_identity)
next
  case (handle_commit i ps c r)
  then show ?thesis
    by (auto simp: Server_HandleCommit_def rpc_simps split: sum.splits
        intro!: setGroup_effect effect.unchanged ProcessCommit_identity(1))
next
  case (handle_pending i r)
  then show ?thesis
    by (auto simp: HandlePendingCommit_def getState_iff split: sum.splits option.splits
        intro!: effect.unchanged effect.changed)
next
  case (protect rnd i pt ad r)
  then show ?thesis
    by (auto simp: Protect_def getState_iff split: sum.splits prod.splits
        intro!: setGroup_effect effect.unchanged ProtectApplication_identity)
next
  case (free i)
  then show ?thesis using effect.removed by (auto simp: Free_def)
qed

section \<open>Sessions and transactions\<close>

text \<open>Identifiers are below the next one and name a session or a transaction, not both; the suite of a session
  is that of its group.\<close>

definition serverInv :: "Server \<Rightarrow> bool" where
  "serverInv s \<longleftrightarrow> (\<forall>i. states s i \<noteq> None \<longrightarrow> i < nextID s \<and> txns s i = None) \<and> (\<forall>i. txns s i \<noteq> None \<longrightarrow> i < nextID s) \<and>
    (\<forall>i st. states s i = Some st \<longrightarrow> state_suite st = g_suite (state_g st))"

lemma effect_inv:
  assumes "effect tgt s s'" "serverInv s" "nextID s \<noteq> - 1"
  shows "serverInv s' \<and> unat (nextID s') \<le> unat (nextID s) + 1 \<and>
    (\<forall>j. states s j \<noteq> None \<longrightarrow> tgt \<noteq> Some j \<longrightarrow> states s' j = states s j) \<and>
    (\<forall>j. states s j = None \<longrightarrow> states s' j \<noteq> None \<longrightarrow> j = nextID s \<and> nextID s' = nextID s + 1)"
proof -
  have n1: "unat (nextID s + 1) = unat (nextID s) + 1" 
  proof -
    have "1 + nextID s \<noteq> 0" using assms(3) by (metis add.commute add_eq_0_iff)
    then show ?thesis by (simp add: unatSuc add.commute)
  qed
  then have up: "i < nextID s + 1 \<longleftrightarrow> i < nextID s \<or> i = nextID s" for i
    by (simp add: word_less_nat_alt less_Suc_eq word_unat_eq_iff)
  have ne: "states s (nextID s) = None" "txns s (nextID s) = None" using assms(2) unfolding serverInv_def by auto
  show ?thesis
    using assms(1)
  proof cases
    case (changed i st st')
    then show ?thesis using assms(2) unfolding serverInv_def identityOf_def by auto
  next
    case (opened st txns')
    have t: "txns' i = None \<or> txns' i = txns s i" for i using opened(4) by (force simp: map_le_def)
    have "serverInv s'" unfolding serverInv_def opened
    proof (intro conjI allI impI)
      fix i assume "(states (s\<lparr>nextID := nextID s + 1, states := (states s)(nextID s \<mapsto> st), txns := txns'\<rparr>)) i \<noteq> None"
      then have "i = nextID s \<or> states s i \<noteq> None" by (auto split: if_splits)
      then show "i < nextID (s\<lparr>nextID := nextID s + 1, states := (states s)(nextID s \<mapsto> st), txns := txns'\<rparr>)"
        "txns (s\<lparr>nextID := nextID s + 1, states := (states s)(nextID s \<mapsto> st), txns := txns'\<rparr>) i = None"
        using assms(2) t [of i] ne unfolding serverInv_def by (auto simp: up)
    next
      fix i assume "txns (s\<lparr>nextID := nextID s + 1, states := (states s)(nextID s \<mapsto> st), txns := txns'\<rparr>) i \<noteq> None"
      then have "txns s i \<noteq> None" using t [of i] by auto
      then show "i < nextID (s\<lparr>nextID := nextID s + 1, states := (states s)(nextID s \<mapsto> st), txns := txns'\<rparr>)"
        using assms(2) unfolding serverInv_def by (simp add: up)
    next
      fix i sta
      assume "states (s\<lparr>nextID := nextID s + 1, states := (states s)(nextID s \<mapsto> st), txns := txns'\<rparr>) i = Some sta"
      then show "state_suite sta = g_suite (state_g sta)"
        using assms(2) opened(3) unfolding serverInv_def by (auto split: if_splits)
    qed
    then show ?thesis using opened ne n1 by auto
  next
    case (published tx)
    have "serverInv s'" using assms(2) ne unfolding serverInv_def published by (auto simp: up)
    then show ?thesis using published n1 by auto
  qed (use assms(2) in \<open>auto simp: serverInv_def\<close>)
qed

lemma unat_minus_one_32: "unat (- 1 :: u32) = 4294967295"
proof -
  have "(- 1 :: u32) = 4294967295" by simp
  then show ?thesis by (simp only: unat_numeral) simp
qed

lemma served_inv: "served std n s \<Longrightarrow> n + 2 < 2 ^ 32 \<Longrightarrow> serverInv s \<and> unat (nextID s) \<le> n + 1"
proof (induction rule: served.induct)
  case started
  show ?case by (simp add: serverInv_def New_def)
next
  case (calls n s tgt s')
  then have "serverInv s" "unat (nextID s) \<le> n + 1" by simp_all
  moreover from this(2) calls.prems have "nextID s \<noteq> - 1" using unat_minus_one_32 by (auto simp del: unat_minus_one)
  ultimately show ?case using effect_inv [OF call_effect [OF calls.hyps(2)]] by force
qed

section \<open>An Add through two servers\<close>

text \<open>A commit with one Add and nothing else adds that key package and uses no pre-shared key.\<close>

lemma add_alone:
  assumes "prepareCommit std rnd g \<lparr>ByValue = [ProposeAdd kp], ByReference = []\<rparr> = Ok pc"
  shows "pc_addedKPs pc = [kp]" "pc_psks pc = []"
proof -
  obtain wt cache refs ap up cs body inp sig th gcb psk
    where "commitRun std rnd g \<lparr>ByValue = [ProposeAdd kp], ByReference = []\<rparr> pc wt cache refs ap up cs body inp sig th gcb psk"
    by (rule prepareCommit_run [OF assms])
  then have r: "referenceProposals std g [] = Ok (cache, refs)" "pc_addedKPs pc = addedKPs ap" "pc_psks pc = ap_psks ap"
    "applyProposals wt (proposed \<lparr>ByValue = [ProposeAdd kp], ByReference = []\<rparr> refs) cache (gc_Extensions (groupContext g)) (externalPSKs g)
       (resumptionPSKs g) (gc_GroupID (groupContext g)) (ownLeaf g) = Ok ap"
    by (simp_all add: commitRun_def Let_def)
  then have "refs = []" by (simp add: referenceProposals_def)
  with r show "pc_addedKPs pc = [kp]" "pc_psks pc = []"
    by (auto simp: applyProposals_def resolveProposal_def inlineProposal_def ofType_def ProposeAdd_def emptyProposal_def
        applyAdd_def bindR_Inr_iff)
qed

text \<open>Generated key pairs open what is sealed to them.\<close>

definition generatesPairs :: "Std \<Rightarrow> Suite \<Rightarrow> bool" where
  "generatesPairs std s \<longleftrightarrow> (\<forall>rnd priv pub. GenerateHPKEKeyPair std s rnd = Ok (priv, pub) \<longrightarrow> keyPair std (kem s) priv pub)"

lemma CreateKeyPackage_parts:
  assumes "CreateKeyPackage std fresh rnd s cs identity = (Inr resp, s')"
  obtains su tx kp where "lookupSuite cs = Inr su" "txns s' (TransactionId resp) = Some tx" "tx_suite tx = su"
    "kpMsg tx = resp_KeyPackage resp" "EncodeKeyPackageMessage kp = Ok (kpMsg tx)" "wfKeyPackage kp"
    "GenerateHPKEKeyPair std su (rnd_init rnd) = Ok (tx_initPriv tx, InitKey kp)"
proof -
  have "wfCredential (basicCredential identity)" by (simp add: wfCredential_def basicCredential_def)
  with assms that NewKeyPackage_owner show ?thesis
    by (fastforce simp: CreateKeyPackage_def rpc_simps Let_def alloc_def split: sum.splits prod.splits)
qed

lemma Server_Commit_parts:
  assumes "Server_Commit std rnd s i refs pds = (Inr out, s')"
  obtains st ps g where "states s i = Some st" "describedProposals st pds = Inr ps"
    "Group_Commit std rnd (state_g st) \<lparr>ByValue = ps, ByReference = refs\<rparr> = (Ok out, g)"
    "states s' i = Some (st\<lparr>state_g := g, pendingEpochAuth := Some (Group_EpochAuthenticator g)\<rparr>)"
proof -
  obtain st ps where b: "states s i = Some st" "describedProposals st pds = Inr ps"
    using assms by (cases "states s i") (auto simp: Server_Commit_def getState_def bindS_def split: sum.splits)
  obtain r g where c: "Group_Commit std rnd (state_g st) \<lparr>ByValue = ps, ByReference = refs\<rparr> = (r, g)" by fastforce
  show ?thesis
  proof (cases r)
    case (Inl e)
    then show ?thesis using assms b c by (auto simp: Server_Commit_def getState_def bindS_def orStatus_def split: fault.splits)
  next
    case (Inr x)
    then show ?thesis using that [OF b] assms b c by (auto simp: Server_Commit_def getState_def bindS_def)
  qed
qed

lemma JoinGroup_joins:
  assumes "txns s tid = Some tx" "JoinFromWelcome std (tx_suite tx) w (txOptions tx tree) = Ok h"
  shows "\<exists>s' st. JoinGroup std s tid w tree enc = (Inr (nextID s, Group_EpochAuthenticator h), s') \<and> txns s' tid = None \<and>
    states s' (nextID s) = Some st \<and> state_g st = SetEncryptHandshakes h enc"
  using assms
  by (simp add: JoinGroup_def orStatus_def addState_def alloc_def Let_def) (simp add: SetEncryptHandshakes_def Group_EpochAuthenticator_def)

lemma inSync_authenticator: "inSync g h \<Longrightarrow> Group_EpochAuthenticator g = Group_EpochAuthenticator h"
  by (simp add: inSync_def Group_EpochAuthenticator_def)

section \<open>Properties\<close>

text \<open>C16: a call touches no session but its own.  On a server that has served fewer than 2^32 - 3 calls, every
  further call leaves the sessions other than the one it names as they were; a session that appears has the next
  identifier, which the call consumes; identifiers in use are below the next one and name a session or a transaction
  but not both; the suite recorded for a session is that of its group.
\<close>

theorem sessions_kept:
  assumes "served std n s" and "n + 3 < 2 ^ 32" and "call std tgt s s'"
  shows "serverInv s' \<and> (\<forall>j. states s j \<noteq> None \<longrightarrow> tgt \<noteq> Some j \<longrightarrow> states s' j = states s j) \<and>
    (\<forall>j. states s j = None \<longrightarrow> states s' j \<noteq> None \<longrightarrow> j = nextID s \<and> nextID s' = nextID s + 1)"
proof -
  have s: "serverInv s" "unat (nextID s) \<le> n + 1" using served_inv [OF assms(1)] assms(2) by simp_all
  then have "nextID s \<noteq> - 1" using assms(2) unat_minus_one_32 by (auto simp del: unat_minus_one)
  from effect_inv [OF call_effect [OF assms(3)] s(1) this] show ?thesis by blast
qed


section \<open>Witnesses\<close>

definition guestKeys :: "KeyKind \<Rightarrow> (Signer \<times> bytes) res" where
  "guestKeys k = Ok (\<lparr>Public = ECDSAPublic [2], Sign = (\<lambda>m. Ok (2 # take 4 m))\<rparr>, [2])"

definition guestRand :: Rand where
  "guestRand = tinyRand\<lparr>rnd_init := [3], rnd_leaf := [2]\<rparr>"

definition hostServer :: Server where
  "hostServer = \<lparr>states = [1 \<mapsto> \<lparr>state_suite = p256Suite, state_g = founder, pendingEpochAuth = None\<rparr>], txns = Map.empty, nextID = 2\<rparr>"

lemma guest_signs:
  assumes "length m < 500"
  shows "SignWithLabel tinyStd p256Suite \<lparr>Public = ECDSAPublic [2], Sign = (\<lambda>m. Ok (2 # take 4 m))\<rparr> ''LeafNodeTBS'' m = Ok [2]"
    and "SignWithLabel tinyStd p256Suite \<lparr>Public = ECDSAPublic [2], Sign = (\<lambda>m. Ok (2 # take 4 m))\<rparr> ''KeyPackageTBS'' m = Ok [2]"
  using assms
  by (cases "length m < 64"; simp add: SignWithLabel_def labeledContext_def bytesOf_def mlsLabelPrefix_def medium_strings short_strings
      signClassical_def; simp add: p256Suite_def tinyStd_def demoStd_def)+

lemma guest_created:
  "NewKeyPackage tinyStd [3] [2] p256Suite (basicCredential [2]) \<lparr>Public = ECDSAPublic [2], Sign = (\<lambda>m. Ok (2 # take 4 m))\<rparr> interopLifetime =
    Ok (guestPackage, [3], [2])"
proof -
  let ?ln = "guestLeaf\<lparr>leaf_Signature := []\<rparr>"
  have g: "GenerateHPKEKeyPair tinyStd p256Suite x = Ok (x, x)" for x
    by (simp add: GenerateHPKEKeyPair_def tinyStd_def demoStd_def)
  have p: "SignaturePublicKey p256Suite \<lparr>Public = ECDSAPublic [2], Sign = (\<lambda>m. Ok (2 # take 4 m))\<rparr> = Ok [2]"
    by (simp add: SignaturePublicKey_def p256Suite_def)
  have "\<exists>b. length b < 500 \<and> LeafNode_tbs ?ln [] 0 = Ok b" by (simp add: LeafNode_tbs_def marshal_eval medium_strings guest_eval)
  then have l: "SignLeafNode tinyStd p256Suite \<lparr>Public = ECDSAPublic [2], Sign = (\<lambda>m. Ok (2 # take 4 m))\<rparr> ?ln [] 0 = Ok guestLeaf"
    using guest_signs(1) by (auto simp: SignLeafNode_def guestLeaf_def)
  have "\<exists>b. length b < 500 \<and> KeyPackage_tbsBytes (guestPackage\<lparr>kp_Signature := []\<rparr>) = Ok b"
    by (simp add: KeyPackage_tbsBytes_def KeyPackage_marshalTBS_def LeafNode_MarshalMLS_def guestPackage_def guest_eval write_fun marshal_eval
        medium_strings)
  then obtain b where b: "length b < 500" "KeyPackage_tbsBytes (guestPackage\<lparr>kp_Signature := []\<rparr>) = Ok b" by blast
  have ln: "?ln = \<lparr>leaf_EncryptionKey = [2], SignatureKey = [2], leaf_Credential = basicCredential [2],
       leaf_Capabilities = defaultCapabilities p256Suite, LeafNodeSource = LeafNodeSourceKeyPackage,
       leaf_Lifetime = Some interopLifetime, leaf_ParentHash = [], leaf_Extensions = [], leaf_Signature = []\<rparr>"
    by (simp add: guestLeaf_def basicCredential_def interopLifetime_def)
  have kp: "guestPackage\<lparr>kp_Signature := []\<rparr> = \<lparr>kp_Version = ProtocolVersionMLS10, kp_CipherSuite = ID p256Suite, InitKey = [3],
       kp_LeafNode = guestLeaf, kp_Extensions = [], kp_Signature = []\<rparr>"
    by (simp add: guestPackage_def p256_ID)
  show ?thesis
    using b(2) l unfolding kp ln
    by (simp add: NewKeyPackage_def g p guest_signs(2) [OF b(1)]) (simp add: guestPackage_def p256_ID)
qed

lemma guest_published:
  assumes "EncodeKeyPackageMessage guestPackage = Ok kpb"
  shows "\<exists>sb. CreateKeyPackage tinyStd guestKeys guestRand New 2 [2] = (Inr \<lparr>TransactionId = 1, resp_KeyPackage = kpb,
      resp_InitPriv = [3], EncryptionPriv = [2], SignaturePriv = [2]\<rparr>, sb) \<and> nextID sb = 2"
proof -
  have "lookupSuite 2 = Inr p256Suite" by (simp add: lookupSuite_def Lookup_def registry_def p256Suite_def)
  then show ?thesis
    using assms by (simp add: CreateKeyPackage_def bindS_def newSigner_def guestKeys_def orStatus_def guestRand_def guest_created alloc_def New_def)
qed

theorem sessions_kept_witness:
  "\<exists>resp s'. CreateKeyPackage tinyStd guestKeys guestRand New 2 [2] = (Inr resp, s') \<and> serverInv s'"
proof -
  obtain kpb where kpb: "EncodeKeyPackageMessage guestPackage = Ok kpb" using guest_package by blast
  obtain s' where s': "CreateKeyPackage tinyStd guestKeys guestRand New 2 [2] = (Inr \<lparr>TransactionId = 1, resp_KeyPackage = kpb,
      resp_InitPriv = [3], EncryptionPriv = [2], SignaturePriv = [2]\<rparr>, s')" using guest_published [OF kpb] by blast
  from sessions_kept [OF served.started _ call.create_key_package [OF s']] s' show ?thesis by auto
qed


end
