(* ===== verification/Heap.thy ===== *)
theory Heap
  imports Prelude "HOL-Library.Multiset"
begin

text \<open>
  The binary heaps of Go's \<^verbatim>\<open>container/heap\<close> on which the scheduler of \<^verbatim>\<open>src/sim\<close> rests: \<^verbatim>\<open>up\<close>, \<^verbatim>\<open>down\<close>,
  \<^verbatim>\<open>Push\<close> and \<^verbatim>\<open>Pop\<close> over a slice whose elements are compared by \<open>lt\<close>, the contract of a queue of
  smallest elements as a locale, and the proof that these heaps meet it for every comparison of
  keys.
\<close>

section \<open>Operations\<close>

definition swapAt :: "'a list \<Rightarrow> nat \<Rightarrow> nat \<Rightarrow> 'a list" where
  "swapAt h i j = h[i := h ! j, j := h ! i]"

function heapUp :: "('a \<Rightarrow> 'a \<Rightarrow> bool) \<Rightarrow> 'a list \<Rightarrow> nat \<Rightarrow> 'a list" where
  "heapUp lt h j =
    (let i = (j - 1) div 2 in
     if i = j \<or> \<not> lt (h ! j) (h ! i) then h else heapUp lt (swapAt h i j) i)"
  by pat_completeness auto
termination
  by (relation "measure (\<lambda>(lt, h, j). j)") auto

function heapDown :: "('a \<Rightarrow> 'a \<Rightarrow> bool) \<Rightarrow> 'a list \<Rightarrow> nat \<Rightarrow> nat \<Rightarrow> 'a list" where
  "heapDown lt h i n =
    (let j1 = 2 * i + 1 in
     if j1 \<ge> n then h
     else
       let j2 = j1 + 1; j = (if j2 < n \<and> lt (h ! j2) (h ! j1) then j2 else j1) in
       if \<not> lt (h ! j) (h ! i) then h else heapDown lt (swapAt h i j) j n)"
  by pat_completeness auto
termination
  by (relation "measure (\<lambda>(lt, h, i, n). n - i)") (auto simp: Let_def split: if_splits)

declare heapUp.simps [simp del] heapDown.simps [simp del]

definition heapPush :: "('a \<Rightarrow> 'a \<Rightarrow> bool) \<Rightarrow> 'a list \<Rightarrow> 'a \<Rightarrow> 'a list" where
  "heapPush lt h x = heapUp lt (h @ [x]) (length h)"

text \<open>On a non-empty heap: the element and the rest.\<close>

definition heapPop :: "('a \<Rightarrow> 'a \<Rightarrow> bool) \<Rightarrow> 'a list \<Rightarrow> 'a \<times> 'a list" where
  "heapPop lt h =
    (let n = length h - 1; h = heapDown lt (swapAt h 0 n) 0 n in (h ! n, take n h))"

section \<open>Contract\<close>

locale min_queue =
  fixes key :: "'a \<Rightarrow> 'k :: linorder"
    and elems :: "'q \<Rightarrow> 'a multiset" and valid :: "'q \<Rightarrow> bool"
    and insertQ :: "'q \<Rightarrow> 'a \<Rightarrow> 'q" and popQ :: "'q \<Rightarrow> 'a \<times> 'q"
  assumes insert_valid: "valid q \<Longrightarrow> valid (insertQ q x)"
    and insert_elems: "valid q \<Longrightarrow> elems (insertQ q x) = add_mset x (elems q)"
    and pop_valid: "valid q \<Longrightarrow> elems q \<noteq> {#} \<Longrightarrow> popQ q = (x, q') \<Longrightarrow> valid q'"
    and pop_elems: "valid q \<Longrightarrow> elems q \<noteq> {#} \<Longrightarrow> popQ q = (x, q') \<Longrightarrow> elems q = add_mset x (elems q')"
    and pop_least: "valid q \<Longrightarrow> elems q \<noteq> {#} \<Longrightarrow> popQ q = (x, q') \<Longrightarrow> y \<in># elems q \<Longrightarrow> key x \<le> key y"
begin

lemma distinct_map_insort:
  "distinct (map key xs) \<Longrightarrow> key x \<notin> key ` set xs \<Longrightarrow> distinct (map key (insort_key key x xs))"
  by (induction xs) (auto simp: set_insort_key)

text \<open>The list that a queue with distinct keys stands for.\<close>

definition represents :: "'q \<Rightarrow> 'a list \<Rightarrow> bool" where
  "represents q xs \<longleftrightarrow> valid q \<and> elems q = mset xs \<and> sorted (map key xs) \<and> distinct (map key xs)"

lemma insert_represents:
  "represents q xs \<Longrightarrow> key x \<notin> key ` set xs \<Longrightarrow> represents (insertQ q x) (insort_key key x xs)"
  unfolding represents_def by (auto simp: insert_valid insert_elems sorted_insort_key distinct_map_insort)

lemma pop_represents:
  assumes "represents q (x # xs)" "popQ q = (y, q')"
  shows "y = x \<and> represents q' xs"
proof -
  have q: "valid q" "elems q = add_mset x (mset xs)" "elems q \<noteq> {#}" "\<forall>z\<in>set xs. key x < key z"
    "sorted (map key xs)" "distinct (map key xs)"
    using assms(1) by (auto simp: represents_def less_le)
  have y: "elems q = add_mset y (elems q')" by (rule pop_elems [OF q(1,3) assms(2)])
  then have "y = x \<or> y \<in> set xs" using q(2) by (metis insert_iff set_mset_add_mset_insert set_mset_mset union_single_eq_member)
  moreover have "key y \<le> key x" using pop_least [OF q(1,3) assms(2), of x] q(2) by simp
  ultimately have "y = x" using q(4) by force
  then have "elems q' = mset xs" using y q(2) by simp
  then show ?thesis using \<open>y = x\<close> q(5,6) pop_valid [OF q(1,3) assms(2)] by (simp add: represents_def)
qed

end

section \<open>Heaps meet the contract\<close>

text \<open>Every element but the root is at least its parent.\<close>

definition isHeap :: "('a \<Rightarrow> 'k :: linorder) \<Rightarrow> 'a list \<Rightarrow> bool" where
  "isHeap key h \<longleftrightarrow> (\<forall>j. 0 < j \<longrightarrow> j < length h \<longrightarrow> key (h ! ((j - 1) div 2)) \<le> key (h ! j))"

lemma swapAt_length [simp]: "length (swapAt h i j) = length h"
  by (simp add: swapAt_def)

lemma swapAt_mset [simp]: "i < length h \<Longrightarrow> j < length h \<Longrightarrow> mset (swapAt h i j) = mset h"
  by (simp add: swapAt_def mset_swap)

lemma swapAt_nth:
  "i < length h \<Longrightarrow> j < length h \<Longrightarrow> swapAt h i j ! k = (if k = j then h ! i else if k = i then h ! j else h ! k)"
  by (auto simp: swapAt_def nth_list_update)

lemma isHeap_root: "isHeap key h \<Longrightarrow> j < length h \<Longrightarrow> key (h ! 0) \<le> key (h ! j)"
proof (induction j rule: less_induct)
  case (less j)
  show ?case
  proof (cases "j = 0")
    case False
    then have "key (h ! 0) \<le> key (h ! ((j - 1) div 2))" using less by simp
    also have "\<dots> \<le> key (h ! j)" using less.prems False by (simp add: isHeap_def)
    finally show ?thesis .
  qed simp
qed

text \<open>Before a step of \<^verbatim>\<open>up\<close> at \<open>j\<close>: only the pair of \<open>j\<close> and its parent may be out of order, and the children of
  \<open>j\<close> are at least the parent of \<open>j\<close>.\<close>

definition upOK :: "('a \<Rightarrow> 'k :: linorder) \<Rightarrow> 'a list \<Rightarrow> nat \<Rightarrow> bool" where
  "upOK key h j \<longleftrightarrow>
    (\<forall>k. 0 < k \<longrightarrow> k < length h \<longrightarrow> k \<noteq> j \<longrightarrow> key (h ! ((k - 1) div 2)) \<le> key (h ! k)) \<and>
    (\<forall>k. 0 < k \<longrightarrow> k < length h \<longrightarrow> (k - 1) div 2 = j \<longrightarrow> 0 < j \<longrightarrow> key (h ! ((j - 1) div 2)) \<le> key (h ! k))"

lemma upOK_swap:
  assumes "0 < j" "j < length h" "upOK key h j" "key (h ! j) < key (h ! i)" "i = (j - 1) div 2"
  shows "upOK key (swapAt h i j) i"
proof -
  have ij: "i < j" "i < length h" using assms by auto
  have h: "\<And>k. 0 < k \<Longrightarrow> k < length h \<Longrightarrow> k \<noteq> j \<Longrightarrow> key (h ! ((k - 1) div 2)) \<le> key (h ! k)"
    "\<And>k. 0 < k \<Longrightarrow> k < length h \<Longrightarrow> (k - 1) div 2 = j \<Longrightarrow> key (h ! i) \<le> key (h ! k)"
    using assms(1,3,5) unfolding upOK_def by blast+
  have sw: "swapAt h i j ! k = (if k = j then h ! i else if k = i then h ! j else h ! k)" for k
    using swapAt_nth [OF ij(2) assms(2)] .
  have "key (swapAt h i j ! ((k - 1) div 2)) \<le> key (swapAt h i j ! k)"
    if k: "0 < k" "k < length h" "k \<noteq> i" for k
  proof (cases "k = j")
    case True
    then show ?thesis using ij(1) assms(4) unfolding True assms(5) [symmetric] sw by simp
  next
    case False
    consider "(k - 1) div 2 = i" | "(k - 1) div 2 = j" | "(k - 1) div 2 \<noteq> i" "(k - 1) div 2 \<noteq> j" by blast
    then show ?thesis
    proof cases
      case 1
      then show ?thesis using h(1) [OF k(1,2) False] ij(1) False k(3) assms(4) unfolding sw by simp
    next
      case 2
      then show ?thesis using h(2) [OF k(1,2) 2] False k(3) unfolding sw by simp
    next
      case 3
      then show ?thesis using h(1) [OF k(1,2) False] False k(3) unfolding sw by simp
    qed
  qed
  moreover have "key (swapAt h i j ! ((i - 1) div 2)) \<le> key (swapAt h i j ! k)"
    if k: "0 < k" "k < length h" "(k - 1) div 2 = i" "0 < i" for k
  proof -
    have p: "(i - 1) div 2 < i" "k \<noteq> i" using k by auto
    have "key (h ! ((i - 1) div 2)) \<le> key (h ! i)" using h(1) [OF k(4) ij(2)] ij(1) by simp
    moreover have "k \<noteq> j \<Longrightarrow> key (h ! i) \<le> key (h ! k)" using h(1) [OF k(1,2)] k(3) by simp
    ultimately show ?thesis using p ij(1) unfolding sw by auto
  qed
  ultimately show ?thesis unfolding upOK_def by simp
qed

lemma heapUp_ok:
  assumes "j < length h" "upOK key h j"
  shows "isHeap key (heapUp (\<lambda>a b. key a < key b) h j) \<and> mset (heapUp (\<lambda>a b. key a < key b) h j) = mset h"
  using assms
proof (induction j arbitrary: h rule: less_induct)
  case (less j)
  let ?i = "(j - 1) div 2"
  show ?case
  proof (cases "?i = j \<or> \<not> key (h ! j) < key (h ! ?i)")
    case True
    then have "heapUp (\<lambda>a b. key a < key b) h j = h" by (subst heapUp.simps) (auto simp: Let_def)
    moreover have "isHeap key h"
      unfolding isHeap_def
    proof (intro allI impI)
      fix k assume k: "0 < k" "k < length h"
      show "key (h ! ((k - 1) div 2)) \<le> key (h ! k)"
      proof (cases "k = j")
        case True
        then show ?thesis using \<open>?i = j \<or> _\<close> k by auto
      next
        case False
        then show ?thesis using less.prems(2) k unfolding upOK_def by blast
      qed
    qed
    ultimately show ?thesis by simp
  next
    case False
    have ij: "?i < j" "?i < length h" "0 < j" using False less.prems(1) by (auto intro: Suc_leI)
    have "heapUp (\<lambda>a b. key a < key b) h j = heapUp (\<lambda>a b. key a < key b) (swapAt h ?i j) ?i"
      using False by (subst heapUp.simps) (simp add: Let_def)
    then show ?thesis
      using less.IH [OF ij(1), of "swapAt h ?i j"] upOK_swap [OF ij(3) less.prems _ refl] False ij(2) less.prems(1) by simp
  qed
qed

text \<open>Before a step of \<^verbatim>\<open>down\<close> at \<open>i\<close> over the first \<open>n\<close> elements: only the pairs of \<open>i\<close> and its children may be
  out of order, and those children are at least the parent of \<open>i\<close>.\<close>

definition downOK :: "('a \<Rightarrow> 'k :: linorder) \<Rightarrow> 'a list \<Rightarrow> nat \<Rightarrow> nat \<Rightarrow> bool" where
  "downOK key h i n \<longleftrightarrow>
    (\<forall>k. 0 < k \<longrightarrow> k < n \<longrightarrow> (k - 1) div 2 \<noteq> i \<longrightarrow> key (h ! ((k - 1) div 2)) \<le> key (h ! k)) \<and>
    (\<forall>k. 0 < k \<longrightarrow> k < n \<longrightarrow> (k - 1) div 2 = i \<longrightarrow> 0 < i \<longrightarrow> key (h ! ((i - 1) div 2)) \<le> key (h ! k))"

lemma downOK_swap:
  assumes "n \<le> length h" "j < n" "(j - 1) div 2 = i" "0 < j" "downOK key h i n" "key (h ! j) < key (h ! i)"
    "\<And>k. 0 < k \<Longrightarrow> k < n \<Longrightarrow> (k - 1) div 2 = i \<Longrightarrow> key (h ! j) \<le> key (h ! k)"
  shows "downOK key (swapAt h i j) j n"
proof -
  have ij: "i < j" "i < length h" "j < length h" using assms by auto
  have h: "\<And>k. 0 < k \<Longrightarrow> k < n \<Longrightarrow> (k - 1) div 2 \<noteq> i \<Longrightarrow> key (h ! ((k - 1) div 2)) \<le> key (h ! k)"
    "\<And>k. 0 < k \<Longrightarrow> k < n \<Longrightarrow> (k - 1) div 2 = i \<Longrightarrow> 0 < i \<Longrightarrow> key (h ! ((i - 1) div 2)) \<le> key (h ! k)"
    using assms(5) unfolding downOK_def by blast+
  have sw: "swapAt h i j ! k = (if k = j then h ! i else if k = i then h ! j else h ! k)" for k
    using swapAt_nth [OF ij(2,3)] .
  have "key (swapAt h i j ! ((k - 1) div 2)) \<le> key (swapAt h i j ! k)"
    if k: "0 < k" "k < n" "(k - 1) div 2 \<noteq> j" for k
  proof (cases "(k - 1) div 2 = i")
    case True
    then have "k \<noteq> i" using k by auto
    then show ?thesis using assms(6) assms(7) [OF k(1,2) True] True ij(1) unfolding sw by auto
  next
    case False
    then have "k \<noteq> j" using assms(3) by auto
    show ?thesis
    proof (cases "k = i")
      case True
      then show ?thesis using h(2) [OF assms(4,2,3)] k ij(1) False unfolding sw by auto
    next
      case False
      then show ?thesis using h(1) [OF k(1,2)] \<open>(k - 1) div 2 \<noteq> i\<close> k(3) \<open>k \<noteq> j\<close> unfolding sw by simp
    qed
  qed
  moreover have "key (swapAt h i j ! ((j - 1) div 2)) \<le> key (swapAt h i j ! k)"
    if k: "0 < k" "k < n" "(k - 1) div 2 = j" for k
  proof -
    have "k \<noteq> i" "k \<noteq> j" using k ij(1) by auto
    then show ?thesis using h(1) [OF k(1,2)] k(3) ij(1) assms(3) unfolding sw by auto
  qed
  ultimately show ?thesis unfolding downOK_def by blast
qed

lemma heapDown_ok:
  assumes "n \<le> length h" "downOK key h i n"
  shows "let h' = heapDown (\<lambda>a b. key a < key b) h i n in
    mset h' = mset h \<and> (\<forall>k. 0 < k \<longrightarrow> k < n \<longrightarrow> key (h' ! ((k - 1) div 2)) \<le> key (h' ! k)) \<and>
    (\<forall>k\<ge>n. h' ! k = h ! k)"
  using assms
proof (induction "n - i" arbitrary: h i rule: less_induct)
  case less
  let ?lt = "\<lambda>a b. key a < key b"
  let ?j = "if 2 * i + 2 < n \<and> key (h ! (2 * i + 2)) < key (h ! (2 * i + 1)) then 2 * i + 2 else 2 * i + 1"
  have kids: "k = 2 * i + 1 \<or> k = 2 * i + 2" if "0 < k" "(k - 1) div 2 = i" for k using that by auto
  show ?case
  proof (cases "2 * i + 1 \<ge> n \<or> \<not> key (h ! ?j) < key (h ! i)")
    case True
    then have "heapDown ?lt h i n = h" by (subst heapDown.simps) (auto simp: Let_def)
    moreover have "key (h ! ((k - 1) div 2)) \<le> key (h ! k)" if k: "0 < k" "k < n" for k
    proof (cases "(k - 1) div 2 = i")
      case i: True
      then show ?thesis using kids [OF k(1) i] True k(2) by (auto split: if_splits)
    next
      case False
      then show ?thesis using less.prems(2) k unfolding downOK_def by blast
    qed
    ultimately show ?thesis by simp
  next
    case False
    then have j: "?j < n" "(?j - 1) div 2 = i" "0 < ?j" "n - ?j < n - i" "i < length h" "?j < length h" "i < ?j"
      using less.prems(1) by auto
    have least: "key (h ! ?j) \<le> key (h ! k)" if "0 < k" "k < n" "(k - 1) div 2 = i" for k
      using kids [OF that(1,3)] that(2) by auto
    have step: "heapDown ?lt h i n = heapDown ?lt (swapAt h i ?j) ?j n"
      using False by (subst heapDown.simps) (auto simp: Let_def)
    have ok: "downOK key (swapAt h i ?j) ?j n"
      by (rule downOK_swap [OF less.prems(1) j(1,2,3) less.prems(2)]) (use False least in auto)
    have "\<forall>k\<ge>n. swapAt h i ?j ! k = h ! k" using j(1,7) by (simp add: swapAt_def)
    then show ?thesis
      using less.hyps [OF j(4) _ ok] less.prems(1) j(5,6) unfolding step by (simp add: Let_def)
  qed
qed

lemma heapPush_ok:
  assumes "isHeap key h"
  shows "isHeap key (heapPush (\<lambda>a b. key a < key b) h x)"
    and "mset (heapPush (\<lambda>a b. key a < key b) h x) = add_mset x (mset h)"
proof -
  have "upOK key (h @ [x]) (length h)"
    using assms unfolding isHeap_def upOK_def by (auto simp: nth_append)
  then show "isHeap key (heapPush (\<lambda>a b. key a < key b) h x)"
    and "mset (heapPush (\<lambda>a b. key a < key b) h x) = add_mset x (mset h)"
    using heapUp_ok [of "length h" "h @ [x]"] by (auto simp: heapPush_def)
qed

lemma heapPop_ok:
  assumes "isHeap key h" "h \<noteq> []" "heapPop (\<lambda>a b. key a < key b) h = (x, h')"
  shows "x = h ! 0" "isHeap key h'" "mset h = add_mset x (mset h')"
proof -
  let ?n = "length h - 1" and ?s = "swapAt h 0 (length h - 1)"
  let ?d = "heapDown (\<lambda>a b. key a < key b) ?s 0 ?n"
  have n: "?n < length h" "0 < length h" using assms(2) by auto
  have "downOK key ?s 0 ?n"
    using assms(1) n unfolding downOK_def isHeap_def by (auto simp: swapAt_nth)
  note d = heapDown_ok [OF _ this, unfolded Let_def]
  have m: "mset ?d = mset h" and len: "length ?d = length h"
    using d n by (auto dest: mset_eq_length)
  have eq: "x = ?d ! ?n" "h' = take ?n ?d" using assms(3) by (auto simp: heapPop_def Let_def)
  show "x = h ! 0" using d n eq(1) by (simp add: swapAt_nth)
  show "isHeap key h'" using d n eq(2) len unfolding isHeap_def by auto
  have "?d = h' @ [x]" using eq len n by (metis Suc_diff_1 take_Suc_conv_app_nth take_all order_refl)
  then show "mset h = add_mset x (mset h')" using m by (metis mset_append mset_single_iff union_mset_add_mset_right add_0_right mset.simps)
qed

interpretation heap: min_queue key mset "isHeap key" "heapPush (\<lambda>a b. key a < key b)"
  "heapPop (\<lambda>a b. key a < key b)" for key :: "'a \<Rightarrow> 'k :: linorder"
proof unfold_locales
  fix q :: "'a list" and x y and q'
  assume h: "isHeap key q" "mset q \<noteq> {#}" "heapPop (\<lambda>a b. key a < key b) q = (x, q')"
  then have ne: "q \<noteq> []" by simp
  show "isHeap key q'" "mset q = add_mset x (mset q')" using heapPop_ok [OF h(1) ne h(3)] by blast+
  assume "y \<in># mset q"
  then obtain j where "j < length q" "y = q ! j" by (auto simp: in_set_conv_nth)
  then show "key x \<le> key y" using heapPop_ok(1) [OF h(1) ne h(3)] isHeap_root [OF h(1)] by simp
qed (simp_all add: heapPush_ok)

end
