(* ===== verification/Scheduler.thy ===== *)
theory Scheduler
  imports Complex_Main Heap Cipher "HOL-Library.Product_Lexorder"
begin

text \<open>
  The events of the simulator and its queue: \<^verbatim>\<open>src/sim/event.go\<close> and \<^verbatim>\<open>src/sim/scheduler.go\<close>.  The
  queue is a binary heap ordered by time and sequence number; it is shown to be the list of its
  events in that order.
\<close>

section \<open>Events\<close>

type_synonym ActorID = int

abbreviation Broadcast :: ActorID where "Broadcast \<equiv> -1"

datatype MsgType = MsgCommit | MsgWelcome | MsgHeartbeat | MsgLogRequest | MsgLogReply | MsgData

fun MsgType_String :: "MsgType \<Rightarrow> string" where
  "MsgType_String MsgCommit = ''commit''"
| "MsgType_String MsgWelcome = ''welcome''"
| "MsgType_String MsgHeartbeat = ''heartbeat''"
| "MsgType_String MsgLogRequest = ''logRequest''"
| "MsgType_String MsgLogReply = ''logReply''"
| "MsgType_String MsgData = ''data''"

record CommitRecord =
  cr_Base :: u64
  cr_Bytes :: bytes
  cr_Hash :: bytes

record Envelope =
  env_VNI :: u32
  env_Type :: MsgType
  env_Src :: ActorID
  env_Dst :: ActorID
  env_Base :: u64
  env_Payload :: bytes
  env_SPI :: u32
  env_DataSeq :: u64
  env_Records :: "CommitRecord list"
  env_Joiner :: bytes
  env_Hash :: bytes

datatype EventKind = KindDeliver | KindTimer | KindFault | KindChurn

datatype TimerKind = TimerRekey | TimerHeartbeat | TimerReconcile | TimerData

datatype faultKind = faultPartition | faultDSDown

record FaultOp =
  fo_Kind :: faultKind
  fo_On :: bool
  fo_DS :: ActorID
  fo_SideA :: "ActorID list"
  fo_SideB :: "ActorID list"

record ChurnOp =
  co_Join :: bool
  co_Client :: ActorID
  co_VNI :: u32

record Event =
  ev_At :: u64
  ev_Seq :: u64
  ev_Kind :: EventKind
  ev_Actor :: ActorID
  ev_Env :: Envelope
  ev_Timer :: TimerKind
  ev_Fault :: FaultOp
  ev_Churn :: ChurnOp

text \<open>The zero values from which Go's composite literals start.\<close>

definition zeroEnvelope :: Envelope where
  "zeroEnvelope = \<lparr>env_VNI = 0, env_Type = MsgCommit, env_Src = 0, env_Dst = 0, env_Base = 0, env_Payload = [],
     env_SPI = 0, env_DataSeq = 0, env_Records = [], env_Joiner = [], env_Hash = []\<rparr>"

definition zeroFaultOp :: FaultOp where
  "zeroFaultOp = \<lparr>fo_Kind = faultPartition, fo_On = False, fo_DS = 0, fo_SideA = [], fo_SideB = []\<rparr>"

definition zeroEvent :: Event where
  "zeroEvent = \<lparr>ev_At = 0, ev_Seq = 0, ev_Kind = KindDeliver, ev_Actor = 0, ev_Env = zeroEnvelope,
     ev_Timer = TimerRekey, ev_Fault = zeroFaultOp, ev_Churn = \<lparr>co_Join = False, co_Client = 0, co_VNI = 0\<rparr>\<rparr>"

definition contentHash :: "Std \<Rightarrow> bytes \<Rightarrow> bytes" where
  "contentHash std b = sha256 std b"

section \<open>Scheduler\<close>

text \<open>The generator of \<^verbatim>\<open>math/rand\<close>: a state for each seed and the two operations the simulator
  draws with.\<close>

record 'r Rng =
  NewSource :: "int \<Rightarrow> 'r"
  Float64 :: "'r \<Rightarrow> rat \<times> 'r"
  Int63n :: "'r \<Rightarrow> int \<Rightarrow> int \<times> 'r"

record 'r Scheduler =
  clock :: u64
  sc_seq :: u64
  pq :: "Event list"
  rng :: 'r

definition NewScheduler :: "'r Rng \<Rightarrow> int \<Rightarrow> 'r Scheduler" where
  "NewScheduler R seed = \<lparr>clock = 0, sc_seq = 0, pq = [], rng = NewSource R seed\<rparr>"

definition eventLess :: "Event \<Rightarrow> Event \<Rightarrow> bool" where
  "eventLess a b = (if ev_At a \<noteq> ev_At b then ev_At a < ev_At b else ev_Seq a < ev_Seq b)"

definition Schedule :: "'r Scheduler \<Rightarrow> u64 \<Rightarrow> Event \<Rightarrow> 'r Scheduler" where
  "Schedule s t e =
    (let t = (if t < clock s then clock s else t);
         e = e\<lparr>ev_At := t, ev_Seq := sc_seq s\<rparr> in
     s\<lparr>sc_seq := sc_seq s + 1, pq := heapPush eventLess (pq s) e\<rparr>)"

definition Pop :: "'r Scheduler \<Rightarrow> Event option \<times> 'r Scheduler" where
  "Pop s =
    (if pq s = [] then (None, s)
     else
       let (e, h) = heapPop eventLess (pq s) in (Some e, s\<lparr>pq := h, clock := ev_At e\<rparr>))"

section \<open>The queue in order\<close>

definition eventKey :: "Event \<Rightarrow> u64 \<times> u64" where
  "eventKey e = (ev_At e, ev_Seq e)"

lemma eventLess_key: "eventLess = (\<lambda>a b. eventKey a < eventKey b)"
  by (auto simp: fun_eq_iff eventLess_def eventKey_def)

interpretation queue: min_queue eventKey mset "isHeap eventKey" "heapPush eventLess" "heapPop eventLess"
  unfolding eventLess_key by (rule heap.min_queue_axioms)

text \<open>The pending events in the order in which they will be popped.\<close>

definition pending :: "'r Scheduler \<Rightarrow> Event list" where
  "pending s = sort_key eventKey (pq s)"

text \<open>The invariant of the scheduler: a heap, whose events lie in the future and carry different
  sequence numbers that have been handed out.\<close>

definition schedInv :: "'r Scheduler \<Rightarrow> bool" where
  "schedInv s \<longleftrightarrow> isHeap eventKey (pq s) \<and> distinct (map ev_Seq (pq s)) \<and>
    (\<forall>e\<in>set (pq s). clock s \<le> ev_At e \<and> ev_Seq e < sc_seq s)"

lemma NewScheduler_inv: "schedInv (NewScheduler R seed)" "pending (NewScheduler R seed) = []"
  by (simp_all add: NewScheduler_def schedInv_def isHeap_def pending_def)

lemma plus_one_less: "x + 1 = 0 \<or> x < x + 1" for x :: "'a :: len word"
  using inc_le [of x "x + 1"] by uint_arith

lemma represents_pending:
  assumes "schedInv s"
  shows "queue.represents (pq s) (pending s)"
proof -
  have "distinct (map eventKey (pq s))"
    using assms by (auto simp: schedInv_def eventKey_def distinct_map inj_on_def)
  then have "distinct (map eventKey (pending s))"
    unfolding pending_def by (metis distinct_map mset_sort set_sort mset_eq_imp_distinct_iff)
  then show ?thesis
    using assms by (simp add: queue.represents_def pending_def schedInv_def)
qed

lemma represents_unique:
  assumes "queue.represents h xs"
  shows "sort_key eventKey h = xs"
proof (rule map_sorted_distinct_set_unique [of eventKey])
  have xs: "mset h = mset xs" "sorted (map eventKey xs)" "distinct (map eventKey xs)"
    using assms by (auto simp: queue.represents_def)
  show "set (sort_key eventKey h) = set xs" using mset_eq_setD [OF xs(1)] by simp
  then show "inj_on eventKey (set (sort_key eventKey h) \<union> set xs)" using xs(3) by (simp add: distinct_map)
  have "mset (map eventKey (sort_key eventKey h)) = mset (map eventKey xs)" using xs(1) by simp
  then show "distinct (map eventKey (sort_key eventKey h))" using xs(3) by (metis mset_eq_imp_distinct_iff)
qed (use assms in \<open>simp_all add: queue.represents_def\<close>)

text \<open>The event as it is stored.\<close>

definition stamped :: "'r Scheduler \<Rightarrow> u64 \<Rightarrow> Event \<Rightarrow> Event" where
  "stamped s t e = e\<lparr>ev_At := max t (clock s), ev_Seq := sc_seq s\<rparr>"

lemma Schedule_stamped:
  "Schedule s t e = s\<lparr>sc_seq := sc_seq s + 1, pq := heapPush eventLess (pq s) (stamped s t e)\<rparr>"
  by (auto simp: Schedule_def stamped_def Let_def max_def)

lemma stamped_simps [simp]:
  "ev_Seq (stamped s t e) = sc_seq s" "ev_At (stamped s t e) = max t (clock s)"
  "ev_Kind (stamped s t e) = ev_Kind e" "ev_Actor (stamped s t e) = ev_Actor e"
  "ev_Env (stamped s t e) = ev_Env e" "ev_Timer (stamped s t e) = ev_Timer e"
  by (simp_all add: stamped_def)

lemma mset_heapPush: "isHeap eventKey h \<Longrightarrow> mset (heapPush eventLess h x) = add_mset x (mset h)"
  by (simp add: queue.insert_elems)

lemma Schedule_events:
  assumes "isHeap eventKey (pq s)"
  shows "mset (pq (Schedule s t e)) = add_mset (stamped s t e) (mset (pq s))" "isHeap eventKey (pq (Schedule s t e))"
  using assms by (simp_all add: Schedule_stamped mset_heapPush queue.insert_valid)

lemma Schedule_inv:
  assumes "schedInv s" "sc_seq s \<noteq> - 1"
  shows "schedInv (Schedule s t e)" "pending (Schedule s t e) = insort_key eventKey (stamped s t e) (pending s)"
proof -
  let ?x = "stamped s t e"
  have h: "isHeap eventKey (pq s)" "distinct (map ev_Seq (pq s))"
    "\<And>e. e \<in> set (pq s) \<Longrightarrow> clock s \<le> ev_At e \<and> ev_Seq e < sc_seq s"
    using assms(1) by (auto simp: schedInv_def)
  have ms: "mset (pq (Schedule s t e)) = add_mset ?x (mset (pq s))" by (rule Schedule_events [OF h(1)])
  have nx: "sc_seq s < sc_seq s + 1" using assms(2) plus_one_less [of "sc_seq s"] by (auto simp: eq_neg_iff_add_eq_0)
  have "mset (map ev_Seq (pq (Schedule s t e))) = mset (map ev_Seq (?x # pq s))" using ms by simp
  moreover have "distinct (map ev_Seq (?x # pq s))" using h(2,3) by force
  ultimately have "distinct (map ev_Seq (pq (Schedule s t e)))" by (metis mset_eq_imp_distinct_iff)
  moreover have "set (pq (Schedule s t e)) = insert ?x (set (pq s))" using ms by (metis mset_eq_setD set_mset_mset set_mset_add_mset_insert)
  ultimately show "schedInv (Schedule s t e)"
    using h nx queue.insert_valid [OF h(1), of ?x]
    by (auto simp: schedInv_def Schedule_stamped intro: less_trans)
  have "eventKey ?x \<notin> eventKey ` set (pending s)"
    using h(3) by (force simp: eventKey_def pending_def)
  then have "queue.represents (pq (Schedule s t e)) (insort_key eventKey ?x (pending s))"
    using queue.insert_represents [OF represents_pending [OF assms(1)]] by (simp add: Schedule_stamped)
  then show "pending (Schedule s t e) = insort_key eventKey ?x (pending s)"
    by (simp add: pending_def represents_unique)
qed

lemma Pop_empty: "pending s = [] \<Longrightarrow> Pop s = (None, s)"
  by (simp add: pending_def Pop_def flip: length_0_conv)

lemma Pop_next:
  assumes "schedInv s" "pending s = x # xs"
  shows "\<exists>s'. Pop s = (Some x, s') \<and> schedInv s' \<and> pending s' = xs \<and> clock s' = ev_At x \<and> clock s \<le> clock s' \<and>
    sc_seq s' = sc_seq s \<and> rng s' = rng s \<and> mset (pq s) = add_mset x (mset (pq s'))"
proof -
  have ms: "mset (pq s) = add_mset x (mset xs)" by (metis assms(2) mset.simps(2) mset_sort pending_def)
  obtain y h where p: "heapPop eventLess (pq s) = (y, h)" by (cases "heapPop eventLess (pq s)")
  have r: "y = x" "queue.represents h xs"
    using queue.pop_represents [OF _ p] represents_pending [OF assms(1)] assms(2) by auto
  have mh: "mset h = mset xs" and hp: "isHeap eventKey h" using r(2) by (auto simp: queue.represents_def)
  have in_h: "set (pq s) = insert x (set h)" using ms mh by (metis mset_eq_setD set_mset_mset set_mset_add_mset_insert)
  have "sorted (map eventKey (x # xs))" unfolding assms(2) [symmetric] pending_def by simp
  then have "\<forall>e\<in>set h. ev_At x \<le> ev_At e"
    using mset_eq_setD [OF mh] by (auto simp: eventKey_def less_eq_prod_simp order.strict_iff_order)
  moreover have "distinct (map ev_Seq h)"
  proof -
    have "mset (map ev_Seq (pq s)) = mset (map ev_Seq (x # h))" using ms mh by simp
    then show ?thesis using assms(1) unfolding schedInv_def by (metis distinct.simps(2) list.simps(9) mset_eq_imp_distinct_iff)
  qed
  ultimately have "schedInv (s\<lparr>pq := h, clock := ev_At x\<rparr>)" using hp assms(1) in_h by (auto simp: schedInv_def)
  moreover have "pq s \<noteq> []" using in_h by auto
  moreover have "clock s \<le> ev_At x" using assms(1) in_h by (auto simp: schedInv_def)
  ultimately show ?thesis
    using p r(1) ms mh represents_unique [OF r(2)] by (simp add: Pop_def pending_def)
qed

text \<open>C10: the event queue of the simulator is the list of its pending events in the order of their times,
  events of one time in the order in which they were scheduled.  Starting from an empty scheduler,
  \<^verbatim>\<open>Schedule\<close> inserts the event at its place, at the current time when it was meant for the past;
  \<^verbatim>\<open>Pop\<close> takes the first event, sets the clock to its time, and never moves the clock back.
\<close>

theorem scheduler_in_order:
  assumes "schedInv s"
  shows "schedInv (NewScheduler R seed) \<and> pending (NewScheduler R seed) = [] \<and>
    (sc_seq s \<noteq> - 1 \<longrightarrow>
      schedInv (Schedule s t e) \<and> clock (Schedule s t e) = clock s \<and>
      pending (Schedule s t e) =
        insort_key eventKey (e\<lparr>ev_At := max t (clock s), ev_Seq := sc_seq s\<rparr>) (pending s)) \<and>
    (case pending s of
       [] \<Rightarrow> Pop s = (None, s)
     | x # xs \<Rightarrow>
         \<exists>s'. Pop s = (Some x, s') \<and> schedInv s' \<and> pending s' = xs \<and> clock s' = ev_At x \<and> clock s \<le> clock s')"
proof (intro conjI impI)
  assume "sc_seq s \<noteq> - 1"
  note Schedule_inv [OF assms this, of t e]
  then show "schedInv (Schedule s t e)" "clock (Schedule s t e) = clock s"
    "pending (Schedule s t e) =
      insort_key eventKey (e\<lparr>ev_At := max t (clock s), ev_Seq := sc_seq s\<rparr>) (pending s)"
    by (simp_all add: stamped_def Schedule_stamped)
next
  show "case pending s of
       [] \<Rightarrow> Pop s = (None, s)
     | x # xs \<Rightarrow>
         \<exists>s'. Pop s = (Some x, s') \<and> schedInv s' \<and> pending s' = xs \<and> clock s' = ev_At x \<and> clock s \<le> clock s'"
  proof (cases "pending s")
    case (Cons x xs)
    then show ?thesis using Pop_next [OF assms Cons] by auto
  qed (simp add: Pop_empty)
qed (simp_all add: NewScheduler_inv)

text \<open>Two events scheduled for the same time at a fresh scheduler are popped in this order, although the
  first of them was meant for the past of the second.\<close>

definition tinyRng :: "nat Rng" where
  "tinyRng = \<lparr>NewSource = nat, Float64 = (\<lambda>r. (0, Suc r)), Int63n = (\<lambda>r n. (int r mod n, Suc r))\<rparr>"

theorem scheduler_in_order_witness:
  "(let s = Schedule (Schedule (NewScheduler tinyRng 1) 7 (zeroEvent\<lparr>ev_Actor := 2\<rparr>)) 7 (zeroEvent\<lparr>ev_Actor := 1\<rparr>) in
    schedInv s \<and> map ev_Actor (pending s) = [2, 1] \<and> (\<exists>x s'. Pop s = (Some x, s') \<and> ev_Actor x = 2 \<and> clock s' = 7))"
proof -
  let ?s0 = "NewScheduler tinyRng 1"
  let ?s1 = "Schedule ?s0 7 (zeroEvent\<lparr>ev_Actor := 2\<rparr>)"
  let ?s2 = "Schedule ?s1 7 (zeroEvent\<lparr>ev_Actor := 1\<rparr>)"
  have s0: "schedInv ?s0" "pending ?s0 = []" "clock ?s0 = 0" "sc_seq ?s0 = 0"
    using NewScheduler_inv by (simp_all add: NewScheduler_def)
  have s1: "schedInv ?s1" "clock ?s1 = 0" "pending ?s1 = [zeroEvent\<lparr>ev_Actor := 2, ev_At := 7, ev_Seq := 0\<rparr>]" "sc_seq ?s1 = 1"
    using scheduler_in_order [OF s0(1), of tinyRng 1 7 "zeroEvent\<lparr>ev_Actor := 2\<rparr>"] s0(2-4)
    by (auto simp: Schedule_stamped)
  have s2: "schedInv ?s2" "pending ?s2 = [zeroEvent\<lparr>ev_Actor := 2, ev_At := 7, ev_Seq := 0\<rparr>,
      zeroEvent\<lparr>ev_Actor := 1, ev_At := 7, ev_Seq := 1\<rparr>]"
    using scheduler_in_order [OF s1(1), of tinyRng 1 7 "zeroEvent\<lparr>ev_Actor := 1\<rparr>"] s1(2-4)
    by (auto simp: eventKey_def)
  show ?thesis
    using s2 scheduler_in_order [OF s2(1), of tinyRng 1 0 zeroEvent] unfolding Let_def s2(2) by auto
qed

end
