(* ===== verification/Network.thy ===== *)
theory Network
  imports Scheduler "HOL-Library.AList" "HOL-Library.Sublist"
begin

text \<open>
  The transport of the simulator: \<^verbatim>\<open>src/sim/fault.go\<close>, \<^verbatim>\<open>src/sim/metrics.go\<close> and \<^verbatim>\<open>src/sim/bus.go\<close>.  The
  objects that the actors share by pointer are one record, passed through every operation.
\<close>

section \<open>Faults\<close>

text \<open>A probability is a finite floating-point number, hence a rational.\<close>

record FaultConfig =
  DropProb :: rat
  Latency :: u64
  Jitter :: u64

record faultState =
  fs_cfg :: FaultConfig
  partitions :: "(ActorID \<rightharpoonup> int) list"
  dsDown :: "(ActorID \<times> bool) list"

definition newFaultState :: "FaultConfig \<Rightarrow> faultState" where
  "newFaultState c = \<lparr>fs_cfg = c, partitions = [], dsDown = []\<rparr>"

definition dropFault :: "'r Rng \<Rightarrow> faultState \<Rightarrow> 'r \<Rightarrow> bool \<times> 'r" where
  "dropFault R f r =
    (if DropProb (fs_cfg f) \<le> 0 then (False, r)
     else if DropProb (fs_cfg f) \<ge> 1 then (True, r)
     else let (x, r) = Float64 R r in (x < DropProb (fs_cfg f), r))"

text \<open>\<^verbatim>\<open>Int63n\<close> panics unless its argument, a signed 64-bit integer, is positive.\<close>

definition latency :: "'r Rng \<Rightarrow> faultState \<Rightarrow> 'r \<Rightarrow> (u64 \<times> 'r) res" where
  "latency R f r =
    bindR
      (if Jitter (fs_cfg f) > 0 then
         let n = sint (Jitter (fs_cfg f) + 1) in
         if n \<le> 0 then Inl (Panic ''invalid argument to Int63n'')
         else let (x, r) = Int63n R r n in Ok (Latency (fs_cfg f) + word_of_int x, r)
       else Ok (Latency (fs_cfg f), r))
      (\<lambda>(d, r). Ok (if d = 0 then 1 else d, r))"

definition blocked :: "faultState \<Rightarrow> ActorID \<Rightarrow> ActorID \<Rightarrow> bool" where
  "blocked f src dst =
    list_ex (\<lambda>p. case (p src, p dst) of (Some a, Some b) \<Rightarrow> a \<noteq> b | _ \<Rightarrow> False) (partitions f)"

definition applyFault :: "faultState \<Rightarrow> FaultOp \<Rightarrow> faultState" where
  "applyFault f opn =
    (case fo_Kind opn of
       faultDSDown \<Rightarrow> f\<lparr>dsDown := AList.update (fo_DS opn) (fo_On opn) (dsDown f)\<rparr>
     | faultPartition \<Rightarrow>
         if fo_On opn then
           f\<lparr>partitions := partitions f @
             [fold (\<lambda>b p. p(b \<mapsto> 2)) (fo_SideB opn) (fold (\<lambda>a p. p(a \<mapsto> 1)) (fo_SideA opn) Map.empty)]\<rparr>
         else f\<lparr>partitions := []\<rparr>)"

definition isDown :: "faultState \<Rightarrow> ActorID \<Rightarrow> bool" where
  "isDown f ds \<longleftrightarrow> map_of (dsDown f) ds = Some True"

definition liftAll :: "faultState \<Rightarrow> faultState" where
  "liftAll f = f\<lparr>partitions := [], dsDown := map (\<lambda>(k, _). (k, False)) (dsDown f),
     fs_cfg := (fs_cfg f)\<lparr>DropProb := 0\<rparr>\<rparr>"

section \<open>Counters\<close>

record Metrics =
  Delivered :: nat
  Reflected :: nat
  CtrlDropped :: nat
  DataDropped :: nat
  Blocked :: nat
  CatchupRequests :: nat
  LogRetransmits :: nat
  CommitRejected :: nat
  CommitResends :: nat
  DataSent :: nat
  DataDecryptable :: nat
  ReplayDrops :: nat
  CommitMsgs :: nat
  CommitBytes :: nat
  MaxOverlap :: nat
  MaxSendLag :: u64
  PlaintextHandshakeExposures :: nat
  CommitsIssued :: nat
  CommitDeliveries :: nat
  CommitsApplied :: nat
  Horizon :: u64
  MaxConvergeTicks :: u64
  convIssuedAt :: "(string \<times> u64) list"
  cpuNanos :: "(string \<times> int) list"
  cpuCount :: "(string \<times> int) list"

definition newMetrics :: Metrics where
  "newMetrics = \<lparr>Delivered = 0, Reflected = 0, CtrlDropped = 0, DataDropped = 0, Blocked = 0, CatchupRequests = 0,
     LogRetransmits = 0, CommitRejected = 0, CommitResends = 0, DataSent = 0, DataDecryptable = 0, ReplayDrops = 0,
     CommitMsgs = 0, CommitBytes = 0, MaxOverlap = 0, MaxSendLag = 0, PlaintextHandshakeExposures = 0,
     CommitsIssued = 0, CommitDeliveries = 0, CommitsApplied = 0, Horizon = 0, MaxConvergeTicks = 0,
     convIssuedAt = [], cpuNanos = [], cpuCount = []\<rparr>"

text \<open>The value a Go map gives for an absent key is a zero.\<close>

definition getOr :: "'v \<Rightarrow> ('k \<times> 'v) list \<Rightarrow> 'k \<Rightarrow> 'v" where
  "getOr d m k = (case map_of m k of None \<Rightarrow> d | Some v \<Rightarrow> v)"

definition cpu :: "Metrics \<Rightarrow> string \<Rightarrow> int \<Rightarrow> Metrics" where
  "cpu m opn d = m\<lparr>cpuNanos := AList.update opn (getOr 0 (cpuNanos m) opn + d) (cpuNanos m),
     cpuCount := AList.update opn (getOr 0 (cpuCount m) opn + 1) (cpuCount m)\<rparr>"

definition commitFanout :: "Metrics \<Rightarrow> nat \<Rightarrow> nat \<Rightarrow> Metrics" where
  "commitFanout m sz nDS = m\<lparr>CommitMsgs := CommitMsgs m + nDS, CommitBytes := CommitBytes m + sz * nDS\<rparr>"

definition observeOverlap :: "Metrics \<Rightarrow> nat \<Rightarrow> Metrics" where
  "observeOverlap m n = (if n > MaxOverlap m then m\<lparr>MaxOverlap := n\<rparr> else m)"

definition observeSendLag :: "Metrics \<Rightarrow> u64 \<Rightarrow> Metrics" where
  "observeSendLag m lag = (if lag > MaxSendLag m then m\<lparr>MaxSendLag := lag\<rparr> else m)"

text \<open>The verb \<^verbatim>\<open>%d\<close>.\<close>

fun digitsNat :: "nat \<Rightarrow> string" where
  "digitsNat n = (if n < 10 then [char_of (48 + n)] else digitsNat (n div 10) @ [char_of (48 + n mod 10)])"

declare digitsNat.simps [simp del]

definition showInt :: "int \<Rightarrow> string" where
  "showInt i = (if i < 0 then ''-'' @ digitsNat (nat (- i)) else digitsNat (nat i))"

definition convKey :: "u32 \<Rightarrow> u64 \<Rightarrow> string" where
  "convKey ch epoch = showInt (uint ch) @ '':'' @ showInt (uint epoch)"

definition commitIssued :: "Metrics \<Rightarrow> u32 \<Rightarrow> u64 \<Rightarrow> u64 \<Rightarrow> Metrics" where
  "commitIssued m ch epoch tick =
    (let k = convKey ch epoch in
     if map_of (convIssuedAt m) k = None then m\<lparr>convIssuedAt := AList.update k tick (convIssuedAt m)\<rparr> else m)"

definition commitConverged :: "Metrics \<Rightarrow> u32 \<Rightarrow> u64 \<Rightarrow> u64 \<Rightarrow> Metrics" where
  "commitConverged m ch epoch tick =
    (case map_of (convIssuedAt m) (convKey ch epoch) of
       None \<Rightarrow> m
     | Some issued \<Rightarrow>
         if tick \<ge> issued \<and> tick - issued > MaxConvergeTicks m then m\<lparr>MaxConvergeTicks := tick - issued\<rparr> else m)"

section \<open>Bus\<close>

text \<open>The subscribers of a channel are a list without repetitions.\<close>

record 'r Bus =
  sched :: "'r Scheduler"
  faults :: faultState
  metrics :: Metrics
  subs :: "u32 \<Rightarrow> ActorID list"

definition Subscribe :: "('r, 'z) Bus_scheme \<Rightarrow> u32 \<Rightarrow> ActorID \<Rightarrow> ('r, 'z) Bus_scheme" where
  "Subscribe b vni a = b\<lparr>subs := (subs b)(vni := List.insert a (subs b vni))\<rparr>"

definition Unsubscribe :: "('r, 'z) Bus_scheme \<Rightarrow> u32 \<Rightarrow> ActorID \<Rightarrow> ('r, 'z) Bus_scheme" where
  "Unsubscribe b vni a = b\<lparr>subs := (subs b)(vni := removeAll a (subs b vni))\<rparr>"

definition subscribers :: "('r, 'z) Bus_scheme \<Rightarrow> u32 \<Rightarrow> ActorID list" where
  "subscribers b vni = sort (subs b vni)"

definition counted :: "(Metrics \<Rightarrow> Metrics) \<Rightarrow> ('r, 'z) Bus_scheme \<Rightarrow> ('r, 'z) Bus_scheme" where
  "counted f b = b\<lparr>metrics := f (metrics b)\<rparr>"

definition publishTo :: "'r Rng \<Rightarrow> Envelope \<Rightarrow> ('r, 'z) Bus_scheme \<Rightarrow> ActorID \<Rightarrow> ('r, 'z) Bus_scheme res" where
  "publishTo R env b dst =
    (if dst = env_Src env then Ok b
     else if blocked (faults b) (env_Src env) dst then Ok (counted (\<lambda>m. m\<lparr>Blocked := Blocked m + 1\<rparr>) b)
     else
       let (dropped, r) = dropFault R (faults b) (rng (sched b)); b = b\<lparr>sched := (sched b)\<lparr>rng := r\<rparr>\<rparr> in
       if dropped then
         Ok (if env_Type env = MsgData then counted (\<lambda>m. m\<lparr>DataDropped := DataDropped m + 1\<rparr>) b
             else counted (\<lambda>m. m\<lparr>CtrlDropped := CtrlDropped m + 1\<rparr>) b)
       else
         bindR (latency R (faults b) (rng (sched b))) (\<lambda>(d, r).
         let s = (sched b)\<lparr>rng := r\<rparr>;
             e = zeroEvent\<lparr>ev_Kind := KindDeliver, ev_Actor := dst, ev_Env := env\<rparr> in
         Ok (counted (\<lambda>m. m\<lparr>Delivered := Delivered m + 1\<rparr>) (b\<lparr>sched := Schedule s (clock s + d) e\<rparr>))))"

definition destinations :: "('r, 'z) Bus_scheme \<Rightarrow> Envelope \<Rightarrow> ActorID list" where
  "destinations b env = (if env_Dst env = Broadcast then subscribers b (env_VNI env) else [env_Dst env])"

definition Publish :: "'r Rng \<Rightarrow> ('r, 'z) Bus_scheme \<Rightarrow> Envelope \<Rightarrow> ('r, 'z) Bus_scheme res" where
  "Publish R b env = foldR (publishTo R env) b (destinations b env)"

section \<open>What a publication adds to the queue\<close>

text \<open>Only the queue, the generator and the counters change.\<close>

definition sameButQueue :: "('r, 'z) Bus_scheme \<Rightarrow> ('r, 'z) Bus_scheme \<Rightarrow> bool" where
  "sameButQueue b b' \<longleftrightarrow>
    b' = b\<lparr>sched := sched b', metrics := metrics b'\<rparr> \<and> clock (sched b') = clock (sched b)"

lemma sameButQueue_refl [simp]: "sameButQueue b b"
  by (simp add: sameButQueue_def)

lemma sameButQueue_trans: "sameButQueue b b' \<Longrightarrow> sameButQueue b' b'' \<Longrightarrow> sameButQueue b b''"
  by (cases b; cases b'; cases b'') (auto simp: sameButQueue_def)

lemma sameButQueue_simps:
  assumes "sameButQueue b b'"
  shows "clock (sched b') = clock (sched b)" "faults b' = faults b" "subs b' = subs b" "Bus.more b' = Bus.more b"
  using assms by (cases b; cases b'; auto simp: sameButQueue_def)+

lemma counted_simps [simp]:
  "sched (counted f b) = sched b" "faults (counted f b) = faults b" "subs (counted f b) = subs b"
  "metrics (counted f b) = f (metrics b)" "Bus.more (counted f b) = Bus.more b"
  by (simp_all add: counted_def)

text \<open>A delivery of the envelope to an actor, at some time.\<close>

definition isDelivery :: "Envelope \<Rightarrow> Event \<Rightarrow> bool" where
  "isDelivery env e \<longleftrightarrow> ev_Kind e = KindDeliver \<and> ev_Env e = env \<and> ev_Actor e \<noteq> env_Src env"

text \<open>The counters of the three fates of a delivery.\<close>

definition fates :: "Metrics \<Rightarrow> nat" where
  "fates m = Delivered m + Blocked m + DataDropped m + CtrlDropped m"

lemma dropFault_cases: "\<exists>d r'. dropFault R f r = (d, r')"
  by (cases "dropFault R f r") auto

lemma publishTo_adds:
  assumes "publishTo R env b dst = Ok b'" "isHeap eventKey (pq (sched b))"
  shows "sameButQueue b b' \<and> isHeap eventKey (pq (sched b')) \<and>
    (\<exists>new. mset (pq (sched b')) = mset (pq (sched b)) + mset new \<and> length new \<le> 1 \<and>
      (\<forall>e\<in>set new. isDelivery env e \<and> ev_Actor e = dst \<and> \<not> blocked (faults b) (env_Src env) dst))"
proof -
  consider "b' = b" | (m) m where "b' = b\<lparr>metrics := m\<rparr>" | (r) r m where "b' = b\<lparr>sched := (sched b)\<lparr>rng := r\<rparr>, metrics := m\<rparr>"
    | (new) r d m where "dst \<noteq> env_Src env" "\<not> blocked (faults b) (env_Src env) dst"
      "b' = b\<lparr>sched := Schedule ((sched b)\<lparr>rng := r\<rparr>) (clock (sched b) + d)
        (zeroEvent\<lparr>ev_Kind := KindDeliver, ev_Actor := dst, ev_Env := env\<rparr>), metrics := m\<rparr>"
    using assms(1) unfolding publishTo_def counted_def Let_def
    by (auto simp: bindR_Inr_iff split: if_splits prod.splits)
  then show ?thesis
  proof cases
    case new
    let ?s = "(sched b)\<lparr>rng := r\<rparr>" and ?e = "zeroEvent\<lparr>ev_Kind := KindDeliver, ev_Actor := dst, ev_Env := env\<rparr>"
    let ?x = "stamped ?s (clock (sched b) + d) ?e"
    have "mset (pq (sched b')) = mset (pq (sched b)) + mset [?x]" "isHeap eventKey (pq (sched b'))"
      using Schedule_events [of ?s] assms(2) new(3) by simp_all
    moreover have "isDelivery env ?x" "ev_Actor ?x = dst" using new(1) by (simp_all add: isDelivery_def)
    moreover have "sameButQueue b b'" unfolding new(3) sameButQueue_def by (auto simp: Schedule_stamped)
    ultimately show ?thesis using new(2) by (intro conjI exI [of _ "[?x]"]) auto
  qed (use assms(2) in \<open>auto simp: sameButQueue_def intro: exI [of _ "[]"]\<close>)
qed

lemma Publish_adds:
  assumes "Publish R b env = Ok b'" "isHeap eventKey (pq (sched b))"
  shows "sameButQueue b b' \<and> isHeap eventKey (pq (sched b')) \<and>
    (\<exists>new. mset (pq (sched b')) = mset (pq (sched b)) + mset new \<and>
      (\<forall>e\<in>set new. isDelivery env e \<and> ev_Actor e \<in> set (destinations b env)))"
proof -
  have "sameButQueue b b' \<and> isHeap eventKey (pq (sched b')) \<and>
    (\<exists>new. mset (pq (sched b')) = mset (pq (sched b)) + mset new \<and>
      (\<forall>e\<in>set new. isDelivery env e \<and> ev_Actor e \<in> set ds))"
    if "foldR (publishTo R env) b ds = Ok b'" "isHeap eventKey (pq (sched b))" for ds b
    using that
  proof (induction ds arbitrary: b)
    case (Cons d ds)
    obtain c where c: "publishTo R env b d = Ok c" "foldR (publishTo R env) c ds = Ok b'"
      using Cons.prems(1) by (auto simp: bindR_Inr_iff)
    obtain n1 where n1: "sameButQueue b c" "isHeap eventKey (pq (sched c))" "mset (pq (sched c)) = mset (pq (sched b)) + mset n1"
      "\<forall>e\<in>set n1. isDelivery env e \<and> ev_Actor e = d"
      using publishTo_adds [OF c(1) Cons.prems(2)] by blast
    obtain n2 where n2: "sameButQueue c b'" "isHeap eventKey (pq (sched b'))" "mset (pq (sched b')) = mset (pq (sched c)) + mset n2"
      "\<forall>e\<in>set n2. isDelivery env e \<and> ev_Actor e \<in> set ds"
      using Cons.IH [OF c(2) n1(2)] by blast
    have "mset (pq (sched b')) = mset (pq (sched b)) + mset (n1 @ n2)" using n1(3) n2(3) by simp
    moreover have "\<forall>e\<in>set (n1 @ n2). isDelivery env e \<and> ev_Actor e \<in> set (d # ds)" using n1(4) n2(4) by auto
    ultimately show ?case using sameButQueue_trans [OF n1(1) n2(1)] n2(2) by blast
  qed (auto intro: exI [of _ "[]"])
  then show ?thesis using assms unfolding Publish_def by blast
qed

text \<open>An operation emits events of a kind when it only adds such events to the queue.\<close>

definition emits :: "('r, 'z) Bus_scheme \<Rightarrow> ('r, 'z) Bus_scheme \<Rightarrow> (Event \<Rightarrow> bool) \<Rightarrow> bool" where
  "emits b b' P \<longleftrightarrow> sameButQueue b b' \<and> isHeap eventKey (pq (sched b')) \<and>
    (\<exists>new. mset (pq (sched b')) = mset (pq (sched b)) + mset new \<and> (\<forall>e\<in>set new. P e))"

lemma emits_same: "emits b b' P \<Longrightarrow> sameButQueue b b'"
  and emits_heap: "emits b b' P \<Longrightarrow> isHeap eventKey (pq (sched b'))"
  and emits_events: "emits b b' P \<Longrightarrow> \<exists>new. mset (pq (sched b')) = mset (pq (sched b)) + mset new \<and> (\<forall>e\<in>set new. P e)"
  by (simp_all add: emits_def)

lemma sameButQueue_counted: "sameButQueue b b' \<Longrightarrow> sameButQueue b (counted f b')"
  by (cases b; cases b') (auto simp: sameButQueue_def counted_def)

lemma emits_counted: "emits b b' P \<Longrightarrow> emits b (counted f b') P"
  using sameButQueue_counted by (auto simp: emits_def)

lemma emits_none: "isHeap eventKey (pq (sched b)) \<Longrightarrow> emits b b P"
  by (auto simp: emits_def intro: exI [of _ "[]"])

lemma emits_mono: "emits b b' P \<Longrightarrow> (\<And>e. P e \<Longrightarrow> Q e) \<Longrightarrow> emits b b' Q"
  unfolding emits_def by blast

lemma emits_after: "sameButQueue a b \<Longrightarrow> sched b = sched a \<Longrightarrow> emits b b' P \<Longrightarrow> emits a b' P"
  using sameButQueue_trans by (auto simp: emits_def)

lemma emits_trans:
  assumes "emits a b P" "emits b c P"
  shows "emits a c P"
proof -
  obtain n1 n2 where "mset (pq (sched b)) = mset (pq (sched a)) + mset n1" "\<forall>e\<in>set n1. P e"
    "mset (pq (sched c)) = mset (pq (sched b)) + mset n2" "\<forall>e\<in>set n2. P e"
    using assms by (auto simp: emits_def)
  then have "mset (pq (sched c)) = mset (pq (sched a)) + mset (n1 @ n2) \<and> (\<forall>e\<in>set (n1 @ n2). P e)" by auto
  then show ?thesis
    using assms sameButQueue_trans unfolding emits_def by blast
qed

lemma Publish_emits:
  assumes "Publish R b env = Ok b'" "isHeap eventKey (pq (sched b))"
  shows "emits b b' (\<lambda>e. ev_Kind e = KindDeliver \<and> ev_Env e = env \<and> ev_Actor e \<noteq> env_Src env \<and>
    ev_Actor e \<in> set (destinations b env))"
  using Publish_adds [OF assms] unfolding isDelivery_def emits_def by blast

text \<open>What the documentation of \<^verbatim>\<open>Int63n\<close> says, and a link whose delays fit the clock.\<close>

definition rngLaw :: "'r Rng \<Rightarrow> bool" where
  "rngLaw R \<longleftrightarrow> (\<forall>r n. 0 < n \<longrightarrow> 0 \<le> fst (Int63n R r n) \<and> fst (Int63n R r n) < n)"

definition linkFits :: "FaultConfig \<Rightarrow> u64 \<Rightarrow> bool" where
  "linkFits c now \<longleftrightarrow> uint (Jitter c) + 1 < 2 ^ 63 \<and> uint now + uint (Latency c) + uint (Jitter c) + 1 < 2 ^ 64"

text \<open>The longest delay of a link.\<close>

definition longest :: "FaultConfig \<Rightarrow> int" where
  "longest c = max 1 (uint (Latency c) + uint (Jitter c))"

lemma latency_bounds:
  assumes "rngLaw R" "linkFits (fs_cfg f) now"
  shows "\<exists>d r'. latency R f r = Ok (d, r') \<and> 0 < uint d \<and> uint d \<le> longest (fs_cfg f)"
proof -
  let ?c = "fs_cfg f" and ?n = "sint (Jitter (fs_cfg f) + 1)"
  have u: "uint (Jitter ?c + 1) = uint (Jitter ?c) + 1"
    using assms(2) by (simp add: linkFits_def uint_word_ariths)
  have n: "?n = uint (Jitter ?c) + 1"
    unfolding sint_uint u using assms(2) by (intro signed_take_bit_int_eq_self) (auto simp: linkFits_def intro: order_trans [OF _ uint_ge_0])
  obtain x r1 where x: "Int63n R r ?n = (x, r1)" by (cases "Int63n R r ?n")
  then have xb: "0 \<le> x" "x < uint (Jitter ?c) + 1"
    using assms(1) n unfolding rngLaw_def by (metis fst_conv uint_ge_0 add_nonneg_pos zero_less_one)+
  have ux: "uint (Latency ?c + word_of_int x) = uint (Latency ?c) + x"
  proof -
    have "uint (Latency ?c) + x < 2 ^ 64" using assms(2) xb uint_ge_0 [of now] unfolding linkFits_def by linarith
    moreover have "x < 2 ^ 64" using calculation uint_ge_0 [of "Latency ?c"] by linarith
    ultimately show ?thesis using xb(1) by (simp add: uint_word_of_int uint_word_ariths)
  qed
  have pos: "0 < ?n" using n uint_ge_0 [of "Jitter ?c"] by simp
  have pw: "w \<noteq> 0 \<Longrightarrow> 0 < uint w" for w :: u64 by (metis uint_ge_0 order_le_less unsigned_eq_0_iff)
  obtain d r' where d: "latency R f r = Ok (if d = 0 then 1 else d, r')" "uint d \<le> uint (Latency ?c) + uint (Jitter ?c)"
  proof (cases "Jitter ?c > 0")
    case True
    then have "latency R f r = Ok (if Latency ?c + word_of_int x = 0 then 1 else Latency ?c + word_of_int x, r1)"
      using x pos by (simp add: latency_def Let_def)
    then show ?thesis using that ux xb by simp
  next
    case False
    then have "latency R f r = Ok (if Latency ?c = 0 then 1 else Latency ?c, r)" by (simp add: latency_def)
    then show ?thesis using that by simp
  qed
  show ?thesis
  proof (cases "d = 0")
    case False
    then show ?thesis using d pw [OF False] by (simp add: longest_def)
  qed (use d(1) in \<open>simp add: longest_def\<close>)
qed

lemma publishTo_fate:
  assumes R: "rngLaw R" and fit: "linkFits (fs_cfg (faults b)) (clock (sched b))"
    and inv: "schedInv (sched b)" "sc_seq (sched b) \<noteq> - 1"
  shows "\<exists>b' new. publishTo R env b dst = Ok b' \<and> sameButQueue b b' \<and> schedInv (sched b') \<and>
    mset (pq (sched b')) = mset (pq (sched b)) + mset new \<and>
    (\<forall>e\<in>set new. isDelivery env e \<and> uint (clock (sched b)) < uint (ev_At e) \<and>
      uint (ev_At e) \<le> uint (clock (sched b)) + longest (fs_cfg (faults b))) \<and>
    (sc_seq (sched b') = sc_seq (sched b) \<and> new = [] \<or> sc_seq (sched b') = sc_seq (sched b) + 1) \<and>
    subseq (map ev_Actor new) (filter (\<lambda>d. d \<noteq> env_Src env \<and> \<not> blocked (faults b) (env_Src env) d) [dst]) \<and>
    Delivered (metrics b') = Delivered (metrics b) + length new \<and>
    fates (metrics b') = fates (metrics b) + length (filter (\<lambda>d. d \<noteq> env_Src env) [dst]) \<and>
    (DropProb (fs_cfg (faults b)) \<le> 0 \<longrightarrow>
      map ev_Actor new = filter (\<lambda>d. d \<noteq> env_Src env \<and> \<not> blocked (faults b) (env_Src env) d) [dst])"
  (is "\<exists>b' new. ?P b' new")
proof (cases "dst = env_Src env \<or> blocked (faults b) (env_Src env) dst")
  case True
  then have "\<exists>b'. ?P b' []" using inv by (auto simp: publishTo_def sameButQueue_def fates_def counted_def)
  then show ?thesis by blast
next
  case False
  obtain dr r where dr: "dropFault R (faults b) (rng (sched b)) = (dr, r)" by (cases "dropFault R (faults b) (rng (sched b))")
  have inv': "schedInv ((sched b)\<lparr>rng := r\<rparr>)" for r using inv(1) by (simp add: schedInv_def)
  show ?thesis
  proof (cases dr)
    case True
    then have "\<not> DropProb (fs_cfg (faults b)) \<le> 0" using dr by (auto simp: dropFault_def)
    then have "\<exists>b'. ?P b' []"
      using False True inv'
      by (auto simp: publishTo_def dr Let_def sameButQueue_def fates_def counted_def)
    then show ?thesis by blast
  next
    case nodrop: False
    obtain d r' where d: "latency R (faults b) r = Ok (d, r')" "0 < uint d" "uint d \<le> longest (fs_cfg (faults b))"
      using latency_bounds [OF R fit] by blast
    let ?s = "(sched b)\<lparr>rng := r'\<rparr>" and ?e = "zeroEvent\<lparr>ev_Kind := KindDeliver, ev_Actor := dst, ev_Env := env\<rparr>"
    let ?b = "counted (\<lambda>m. m\<lparr>Delivered := Delivered m + 1\<rparr>) (b\<lparr>sched := Schedule ?s (clock ?s + d) ?e\<rparr>)"
    have p: "publishTo R env b dst = Ok ?b"
      using False nodrop d(1) by (simp add: publishTo_def dr Let_def)
    have "uint (clock (sched b)) + uint d < 2 ^ 64"
      using fit d(3) uint_ge_0 [of "Latency (fs_cfg (faults b))"] uint_ge_0 [of "Jitter (fs_cfg (faults b))"]
      unfolding linkFits_def longest_def by linarith
    then have at: "uint (clock ?s + d) = uint (clock (sched b)) + uint d"
      by (simp add: uint_word_ariths)
    have mx: "ev_At (stamped ?s (clock ?s + d) ?e) = clock ?s + d" using at d(2) by (simp add: max_def word_le_def)
    let ?x = "stamped ?s (clock ?s + d) ?e"
    have heap: "isHeap eventKey (pq ?s)" using inv(1) by (simp add: schedInv_def)
    have q: "sched ?b = Schedule ?s (clock ?s + d) ?e" by simp
    have "schedInv (sched ?b)" unfolding q by (rule Schedule_inv(1) [OF inv']) (use inv(2) in simp)
    moreover have "mset (pq (sched ?b)) = mset (pq (sched b)) + mset [?x]"
      unfolding q Schedule_events(1) [OF heap] by simp
    moreover have "sc_seq (sched ?b) = sc_seq (sched b) + 1" "clock (sched ?b) = clock (sched b)"
      unfolding q by (simp_all add: Schedule_stamped)
    moreover have "isDelivery env ?x" "ev_Actor ?x = dst" using False by (simp_all add: isDelivery_def)
    moreover have "sameButQueue b ?b" unfolding sameButQueue_def counted_def by (simp add: Schedule_stamped)
    moreover have "fates (metrics ?b) = fates (metrics b) + 1" "Delivered (metrics ?b) = Delivered (metrics b) + 1"
      by (simp_all add: fates_def)
    ultimately have "?P ?b [?x]"
      unfolding p using mx at d(2,3) False by auto
    then show ?thesis by blast
  qed
qed

lemma publish_all:
  assumes "rngLaw R" "linkFits (fs_cfg (faults b)) (clock (sched b))" "schedInv (sched b)"
    "unat (sc_seq (sched b)) + length ds < 2 ^ 64"
  shows "\<exists>b' new. foldR (publishTo R env) b ds = Ok b' \<and> sameButQueue b b' \<and> schedInv (sched b') \<and>
    mset (pq (sched b')) = mset (pq (sched b)) + mset new \<and>
    (\<forall>e\<in>set new. isDelivery env e \<and> uint (clock (sched b)) < uint (ev_At e) \<and>
      uint (ev_At e) \<le> uint (clock (sched b)) + longest (fs_cfg (faults b))) \<and>
    subseq (map ev_Actor new) (filter (\<lambda>d. d \<noteq> env_Src env \<and> \<not> blocked (faults b) (env_Src env) d) ds) \<and>
    Delivered (metrics b') = Delivered (metrics b) + length new \<and>
    fates (metrics b') = fates (metrics b) + length (filter (\<lambda>d. d \<noteq> env_Src env) ds) \<and>
    (DropProb (fs_cfg (faults b)) \<le> 0 \<longrightarrow>
      map ev_Actor new = filter (\<lambda>d. d \<noteq> env_Src env \<and> \<not> blocked (faults b) (env_Src env) d) ds)"
  using assms
proof (induction ds arbitrary: b)
  case Nil
  then show ?case by (intro exI [of _ b] exI [of _ "[]"]) simp
next
  case (Cons d ds)
  let ?P = "\<lambda>d. d \<noteq> env_Src env \<and> \<not> blocked (faults b) (env_Src env) d"
  have "unat (- 1 :: u64) = 2 ^ 64 - 1" by (simp add: unsigned_minus_1_eq_mask mask_eq_exp_minus_1)
  then have "sc_seq (sched b) \<noteq> - 1" using Cons.prems(4) by auto
  then obtain c n1 where c: "publishTo R env b d = Ok c" "sameButQueue b c" "schedInv (sched c)"
    "mset (pq (sched c)) = mset (pq (sched b)) + mset n1"
    "\<forall>e\<in>set n1. isDelivery env e \<and> uint (clock (sched b)) < uint (ev_At e) \<and>
      uint (ev_At e) \<le> uint (clock (sched b)) + longest (fs_cfg (faults b))"
    "sc_seq (sched c) = sc_seq (sched b) \<and> n1 = [] \<or> sc_seq (sched c) = sc_seq (sched b) + 1"
    "subseq (map ev_Actor n1) (filter ?P [d])"
    "Delivered (metrics c) = Delivered (metrics b) + length n1"
    "fates (metrics c) = fates (metrics b) + length (filter (\<lambda>d. d \<noteq> env_Src env) [d])"
    "DropProb (fs_cfg (faults b)) \<le> 0 \<longrightarrow> map ev_Actor n1 = filter ?P [d]"
    using publishTo_fate [OF Cons.prems(1-3)] by blast
  have "unat (sc_seq (sched b) + 1) \<le> unat (sc_seq (sched b)) + 1" by (simp add: unat_word_ariths)
  then have "unat (sc_seq (sched c)) + length ds < 2 ^ 64" using c(6) Cons.prems(4) by auto
  then obtain b' n2 where b': "foldR (publishTo R env) c ds = Ok b'" "sameButQueue c b'" "schedInv (sched b')"
    "mset (pq (sched b')) = mset (pq (sched c)) + mset n2"
    "\<forall>e\<in>set n2. isDelivery env e \<and> uint (clock (sched b)) < uint (ev_At e) \<and>
      uint (ev_At e) \<le> uint (clock (sched b)) + longest (fs_cfg (faults b))"
    "subseq (map ev_Actor n2) (filter ?P ds)"
    "Delivered (metrics b') = Delivered (metrics c) + length n2"
    "fates (metrics b') = fates (metrics c) + length (filter (\<lambda>d. d \<noteq> env_Src env) ds)"
    "DropProb (fs_cfg (faults b)) \<le> 0 \<longrightarrow> map ev_Actor n2 = filter ?P ds"
    using Cons.IH [of c] Cons.prems(1,2) c(3) unfolding sameButQueue_simps [OF c(2)] by blast
  have "subseq (map ev_Actor (n1 @ n2)) (filter ?P ([d] @ ds))"
    unfolding filter_append map_append by (rule list_emb_append_mono [OF c(7) b'(6)])
  moreover have "DropProb (fs_cfg (faults b)) \<le> 0 \<longrightarrow> map ev_Actor (n1 @ n2) = filter ?P ([d] @ ds)"
    using c(10) b'(9) unfolding filter_append map_append by simp
  ultimately show ?case
    using c(1,4,5,8,9) b'(1,3,4,5,7,8) sameButQueue_trans [OF c(2) b'(2)]
    by (intro exI [of _ b'] exI [of _ "n1 @ n2"]) auto
qed

text \<open>C12: every delivery of a published message has one of three fates.  On a link whose delays fit the
  clock, publishing never panics; each destination other than the source is counted exactly once as
  delivered, dropped or cut off; the deliveries are events for destinations that no partition
  separates from the source, in the order of the destinations; each lies strictly in the future
  and within the longest delay of the link; and without drops all of these destinations are
  served.
\<close>

theorem publish_fates:
  assumes "rngLaw R" "linkFits (fs_cfg (faults b)) (clock (sched b))" "schedInv (sched b)"
    "unat (sc_seq (sched b)) + length (destinations b env) < 2 ^ 64"
  shows "\<exists>b' new. Publish R b env = Ok b' \<and> schedInv (sched b') \<and>
    faults b' = faults b \<and> subs b' = subs b \<and> clock (sched b') = clock (sched b) \<and>
    mset (pq (sched b')) = mset (pq (sched b)) + mset new \<and>
    (\<forall>e\<in>set new. ev_Kind e = KindDeliver \<and> ev_Env e = env \<and> uint (clock (sched b)) < uint (ev_At e) \<and>
      uint (ev_At e) \<le> uint (clock (sched b)) + longest (fs_cfg (faults b))) \<and>
    subseq (map ev_Actor new)
      (filter (\<lambda>d. d \<noteq> env_Src env \<and> \<not> blocked (faults b) (env_Src env) d) (destinations b env)) \<and>
    Delivered (metrics b') = Delivered (metrics b) + length new \<and>
    fates (metrics b') = fates (metrics b) + length (filter (\<lambda>d. d \<noteq> env_Src env) (destinations b env)) \<and>
    (DropProb (fs_cfg (faults b)) \<le> 0 \<longrightarrow>
      map ev_Actor new =
        filter (\<lambda>d. d \<noteq> env_Src env \<and> \<not> blocked (faults b) (env_Src env) d) (destinations b env))"
proof -
  obtain b' new where "foldR (publishTo R env) b (destinations b env) = Ok b'" "sameButQueue b b'" and rest:
    "schedInv (sched b')" "mset (pq (sched b')) = mset (pq (sched b)) + mset new"
    "\<forall>e\<in>set new. isDelivery env e \<and> uint (clock (sched b)) < uint (ev_At e) \<and>
      uint (ev_At e) \<le> uint (clock (sched b)) + longest (fs_cfg (faults b))"
    "subseq (map ev_Actor new)
      (filter (\<lambda>d. d \<noteq> env_Src env \<and> \<not> blocked (faults b) (env_Src env) d) (destinations b env))"
    "Delivered (metrics b') = Delivered (metrics b) + length new"
    "fates (metrics b') = fates (metrics b) + length (filter (\<lambda>d. d \<noteq> env_Src env) (destinations b env))"
    "DropProb (fs_cfg (faults b)) \<le> 0 \<longrightarrow> map ev_Actor new =
      filter (\<lambda>d. d \<noteq> env_Src env \<and> \<not> blocked (faults b) (env_Src env) d) (destinations b env)"
    using publish_all [OF assms] by blast
  note same = sameButQueue_simps [OF this(2)]
  show ?thesis
    using \<open>foldR _ _ _ = _\<close> rest same unfolding Publish_def isDelivery_def by blast
qed

text \<open>Three subscribers on a quiet link: the message of the first is delivered to the other two.\<close>

definition tinyBus :: "nat Bus" where
  "tinyBus = Subscribe (Subscribe (Subscribe
     \<lparr>sched = NewScheduler tinyRng 1, faults = newFaultState \<lparr>DropProb = 0, Latency = 2, Jitter = 2\<rparr>,
      metrics = newMetrics, subs = (\<lambda>_. [])\<rparr> 7 3) 7 0) 7 1"

lemma tinyBus_simps:
  "schedInv (sched tinyBus)" "pq (sched tinyBus) = []" "clock (sched tinyBus) = 0" "sc_seq (sched tinyBus) = 0"
  "faults tinyBus = newFaultState \<lparr>DropProb = 0, Latency = 2, Jitter = 2\<rparr>" "Delivered (metrics tinyBus) = 0"
  "subs tinyBus ch = (if ch = 7 then [1, 0, 3] else [])"
  using NewScheduler_inv(1) [of tinyRng 1]
  by (simp_all add: tinyBus_def Subscribe_def NewScheduler_def newMetrics_def)

lemma tinyRng_law: "rngLaw tinyRng"
  by (simp add: rngLaw_def tinyRng_def)

lemma tinyBus_link: "linkFits (fs_cfg (faults tinyBus)) (clock (sched tinyBus))"
  by (simp add: tinyBus_simps newFaultState_def linkFits_def)

lemma tinyBus_publishes: "\<exists>b'. Publish tinyRng tinyBus env = Ok b'"
proof -
  have "length (destinations tinyBus env) \<le> 3" by (simp add: destinations_def subscribers_def tinyBus_simps)
  then have "unat (sc_seq (sched tinyBus)) + length (destinations tinyBus env) < 2 ^ 64" by (simp add: tinyBus_simps(4))
  then show ?thesis
    using publish_all [OF tinyRng_law tinyBus_link tinyBus_simps(1)] unfolding Publish_def by blast
qed

theorem publish_fates_witness:
  "\<exists>b' new. Publish tinyRng tinyBus (zeroEnvelope\<lparr>env_VNI := 7, env_Dst := Broadcast\<rparr>) = Ok b' \<and>
    mset (pq (sched b')) = mset new \<and> map ev_Actor new = [1, 3] \<and> Delivered (metrics b') = 2"
proof -
  let ?env = "zeroEnvelope\<lparr>env_VNI := 7, env_Dst := Broadcast\<rparr>"
  note bus = tinyBus_simps
  have dst: "destinations tinyBus ?env = [0, 1, 3]"
    by (simp add: destinations_def subscribers_def bus)
  have quiet: "\<not> blocked (faults tinyBus) a b" for a b by (simp add: bus newFaultState_def blocked_def)
  moreover have src: "env_Src ?env = 0" by (simp add: zeroEnvelope_def)
  moreover have drop: "DropProb (fs_cfg (faults tinyBus)) \<le> 0" by (simp add: bus newFaultState_def)
  moreover have len: "unat (sc_seq (sched tinyBus)) + length (destinations tinyBus ?env) < 2 ^ 64" by (simp add: bus dst)
  ultimately obtain b' new where "Publish tinyRng tinyBus ?env = Ok b'"
    "mset (pq (sched b')) = mset (pq (sched tinyBus)) + mset new"
    "Delivered (metrics b') = Delivered (metrics tinyBus) + length new"
    "map ev_Actor new = filter (\<lambda>d. d \<noteq> env_Src ?env \<and> \<not> blocked (faults tinyBus) (env_Src ?env) d) (destinations tinyBus ?env)"
    using publish_fates [OF tinyRng_law tinyBus_link bus(1) len] by blast
  moreover from this(4) have "map ev_Actor new = [1, 3]" unfolding dst src using quiet by simp
  moreover from this have "length new = 2" by (metis length_map length_Cons list.size(3) numeral_2_eq_2)
  ultimately show ?thesis unfolding bus by auto
qed

end
