(* ===== verification/Associations.thy ===== *)
theory Associations
  imports Group
begin

text \<open>
  Security associations of a virtual network, \<^verbatim>\<open>src/ironcore\<close>: the group identifier of a
  network (\<^verbatim>\<open>vni.go\<close>), the keys, parameter indices and nonce salts derived from an epoch
  (\<^verbatim>\<open>sa.go\<close>) and the handle that pairs a network with its group (\<^verbatim>\<open>group.go\<close>).
\<close>

section \<open>Group identifiers\<close>

definition groupIDTag :: bytes where
  "groupIDTag = bytesOf ''ICVNI1''"

definition GroupID :: "u32 \<Rightarrow> bytes" where
  "GroupID vni = groupIDTag @ be32 vni"

definition VNIOfGroupID :: "bytes \<Rightarrow> u32 res" where
  "VNIOfGroupID gid =
    (if length gid \<noteq> length groupIDTag + 4 \<or> take (length groupIDTag) gid \<noteq> groupIDTag
     then Err ''ironcore: not a VNI GroupID''
     else Ok (unbe32 (drop (length groupIDTag) gid)))"

section \<open>Associations\<close>

abbreviation espExporterLabel :: string where "espExporterLabel \<equiv> ''ironcore-esp''"
abbreviation saKeyLen :: int where "saKeyLen \<equiv> 32"
abbreviation saSaltLen :: nat where "saSaltLen \<equiv> 4"

record SA =
  sa_VNI :: u32
  sa_Epoch :: u64
  sa_SPI :: u32
  sa_Key :: bytes
  OwnLeaf :: u32
  OwnSalt :: bytes
  OwnSPI :: u32
  saltMask :: bytes
  sa_suite :: Suite

definition saContext :: "u32 \<Rightarrow> u64 \<Rightarrow> bytes" where
  "saContext vni epoch = be32 vni @ be64 epoch"

text \<open>\<^verbatim>\<open>binary.BigEndian.Uint32\<close> reads the first four bytes and panics on fewer.\<close>

definition Uint32 :: "bytes \<Rightarrow> u32 res" where
  "Uint32 b = (if length b < 4 then Inl PanicIndex else Ok (unbe32 (take 4 b)))"

text \<open>The index made of random bits: the low byte is that of the epoch, the top bit is set.\<close>

definition espSPI :: "u32 \<Rightarrow> u64 \<Rightarrow> u32" where
  "espSPI raw epoch = ((raw AND NOT 0xFF) OR ucast (ucast epoch :: byte)) OR 0x80000000"

definition deriveSPI :: "Std \<Rightarrow> Suite \<Rightarrow> bytes \<Rightarrow> u32 \<Rightarrow> u64 \<Rightarrow> u32 res" where
  "deriveSPI std s kGroup vni epoch =
    bindR (ExpandWithLabel std s kGroup ''esp-spi'' (saContext vni epoch) 4) (\<lambda>raw.
    bindR (Uint32 raw) (\<lambda>spi. Ok (espSPI spi epoch)))"

definition spiContext :: "u32 \<Rightarrow> u64 \<Rightarrow> u32 \<Rightarrow> bytes" where
  "spiContext vni epoch leaf = be32 vni @ be64 epoch @ be32 leaf"

definition deriveSenderSPI :: "Std \<Rightarrow> Suite \<Rightarrow> bytes \<Rightarrow> u32 \<Rightarrow> u64 \<Rightarrow> u32 \<Rightarrow> u32 res" where
  "deriveSenderSPI std s kGroup vni epoch leaf =
    bindR (ExpandWithLabel std s kGroup ''esp-spi-sender'' (spiContext vni epoch leaf) 4) (\<lambda>raw.
    bindR (Uint32 raw) (\<lambda>spi. Ok (espSPI spi epoch)))"

definition SenderSPI :: "Std \<Rightarrow> SA \<Rightarrow> u32 \<Rightarrow> u32 res" where
  "SenderSPI std sa leaf =
    (if sa_Key sa = [] then Err ''ironcore: SA key not initialized (use DeriveSAKeys)''
     else deriveSenderSPI std (sa_suite sa) (sa_Key sa) (sa_VNI sa) (sa_Epoch sa) leaf)"

definition SenderSalt :: "SA \<Rightarrow> u32 \<Rightarrow> bytes res" where
  "SenderSalt sa leaf =
    (if length (saltMask sa) \<noteq> saSaltLen then Err ''ironcore: SA saltMask not initialized (use DeriveSAKeys)''
     else Ok (map2 (XOR) (saltMask sa) (be32 leaf)))"

record InboundSA =
  in_Leaf :: u32
  in_SPI :: u32
  in_Key :: bytes
  in_Salt :: bytes

primrec inboundLoop ::
  "Std \<Rightarrow> SA \<Rightarrow> (u32 \<rightharpoonup> u32) \<Rightarrow> InboundSA list \<Rightarrow> u32 list \<Rightarrow> InboundSA list res" where
  "inboundLoop std sa seen out [] = Ok out"
| "inboundLoop std sa seen out (leaf # leaves) =
    bindR (SenderSPI std sa leaf) (\<lambda>spi.
    if seen spi \<noteq> None then Err ''ironcore: SPI collision between leaves (rekey to resolve)''
    else
      bindR (SenderSalt sa leaf) (\<lambda>salt.
        inboundLoop std sa (seen(spi \<mapsto> leaf))
          (out @ [\<lparr>in_Leaf = leaf, in_SPI = spi, in_Key = sa_Key sa, in_Salt = salt\<rparr>]) leaves))"

definition InboundSAs :: "Std \<Rightarrow> SA \<Rightarrow> u32 list \<Rightarrow> InboundSA list res" where
  "InboundSAs std sa leaves = inboundLoop std sa Map.empty [] leaves"

definition DeriveSAKeys :: "Std \<Rightarrow> Group \<Rightarrow> u32 \<Rightarrow> SA res" where
  "DeriveSAKeys std g vni =
    bindR (fromOption (Error ''ironcore: unregistered cipher suite'')
      (Lookup (gc_CipherSuite (groupContext g)))) (\<lambda>s.
    let epoch = Epoch g in
    bindR (Exporter std g espExporterLabel (saContext vni epoch) saKeyLen) (\<lambda>kGroup.
    bindR (deriveSPI std s kGroup vni epoch) (\<lambda>spi.
    bindR (ExpandWithLabel std s kGroup ''esp-salt-mask'' [] (int saSaltLen)) (\<lambda>mask.
    let sa = \<lparr>sa_VNI = vni, sa_Epoch = epoch, sa_SPI = spi, sa_Key = kGroup, OwnLeaf = ownLeaf g,
              OwnSalt = [], OwnSPI = 0, saltMask = mask, sa_suite = s\<rparr> in
    bindR (SenderSalt sa (ownLeaf g)) (\<lambda>salt.
    let sa = sa\<lparr>OwnSalt := salt\<rparr> in
    bindR (SenderSPI std sa (ownLeaf g)) (\<lambda>spi. Ok (sa\<lparr>OwnSPI := spi\<rparr>)))))))"

section \<open>The handle of a network's group\<close>

record VNIGroup =
  v_vni :: u32
  v_g :: Group

definition NewVNIGroup :: "u32 \<Rightarrow> Group \<Rightarrow> VNIGroup" where
  "NewVNIGroup vni g = \<lparr>v_vni = vni, v_g = g\<rparr>"

definition VNIGroup_GroupID :: "VNIGroup \<Rightarrow> bytes" where
  "VNIGroup_GroupID v = GroupID (v_vni v)"

definition VNIGroup_Epoch :: "VNIGroup \<Rightarrow> u64" where
  "VNIGroup_Epoch v = Epoch (v_g v)"

definition DeriveSA :: "Std \<Rightarrow> VNIGroup \<Rightarrow> SA res" where
  "DeriveSA std v = DeriveSAKeys std (v_g v) (v_vni v)"

section \<open>Indices and salts\<close>

lemma be32_inject [simp]: "be32 x = be32 y \<longleftrightarrow> x = y"
  by (metis unbe32_be32)

lemma esp_masks: "(0xFF :: u32) = mask 8" "(0x80000000 :: u32) = push_bit 31 1"
  by (simp_all add: mask_eq_exp_minus_1)

lemma espSPI_low: "(ucast (espSPI raw epoch) :: byte) = ucast epoch"
  unfolding espSPI_def esp_masks by (rule bit_word_eqI) (auto simp: bit_simps simp del: push_bit_of_1 push_bit_numeral)

lemma espSPI_large: "255 < espSPI raw epoch"
proof -
  have "bit (unat (espSPI raw epoch)) 31" unfolding espSPI_def esp_masks by (simp add: bit_simps)
  then have "unat (espSPI raw epoch) div 2 ^ 31 \<noteq> 0" by (metis bit_iff_odd even_zero)
  then show ?thesis by (simp add: word_less_nat_alt div_eq_0_iff)
qed

lemma SenderSPI_shape:
  assumes "SenderSPI std sa leaf = Ok spi"
  shows "255 < spi" "(ucast spi :: byte) = ucast (sa_Epoch sa)"
  using assms by (auto simp: SenderSPI_def deriveSenderSPI_def bindR_Inr_iff espSPI_large espSPI_low split: if_splits)

lemma DeriveSAKeys_shape:
  assumes "DeriveSAKeys std g vni = Ok sa"
  shows "255 < sa_SPI sa" "(ucast (sa_SPI sa) :: byte) = ucast (Epoch g)" "sa_Epoch sa = Epoch g"
  using assms by (auto simp: DeriveSAKeys_def deriveSPI_def bindR_Inr_iff Let_def espSPI_large espSPI_low)

lemma xor_left_cancel: "x XOR a = x XOR b \<longleftrightarrow> a = (b :: byte)"
  by (metis xor.assoc xor_self_eq xor.left_neutral)

lemma xor_map2_inject:
  "length m = length a \<Longrightarrow> length m = length b \<Longrightarrow> map2 (XOR) m a = map2 (XOR) (m :: bytes) b \<longleftrightarrow> a = b"
proof (induction m arbitrary: a b)
  case (Cons x m)
  then show ?case by (cases a; cases b) (auto simp: xor_left_cancel)
qed simp

lemma SenderSalt_inject:
  assumes "SenderSalt sa leaf = Ok x" "SenderSalt sa leaf' = Ok x"
  shows "leaf = leaf'"
  using assms xor_map2_inject [of "saltMask sa" "be32 leaf" "be32 leaf'"]
  by (auto simp: SenderSalt_def split: if_splits)

section \<open>Inbound associations\<close>

text \<open>The association that the loop makes of a leaf.\<close>

definition inboundOf :: "Std \<Rightarrow> SA \<Rightarrow> u32 \<Rightarrow> InboundSA \<Rightarrow> bool" where
  "inboundOf std sa leaf a \<longleftrightarrow> in_Leaf a = leaf \<and> SenderSPI std sa leaf = Ok (in_SPI a) \<and>
    SenderSalt sa leaf = Ok (in_Salt a) \<and> in_Key a = sa_Key sa"

lemma inboundOf_cong: "inboundOf std sa leaf a \<Longrightarrow> inboundOf std sa leaf b \<Longrightarrow> a = b"
  by (cases a; cases b) (auto simp: inboundOf_def)

lemma inboundLoop_iff:
  "inboundLoop std sa seen out leaves = Ok res \<longleftrightarrow>
    (\<exists>new. res = out @ new \<and> list_all2 (inboundOf std sa) leaves new \<and> distinct (map in_SPI new) \<and>
      set (map in_SPI new) \<inter> dom seen = {})"
proof (induction leaves arbitrary: seen out)
  case (Cons leaf leaves)
  show ?case
  proof
    assume "inboundLoop std sa seen out (leaf # leaves) = Ok res"
    then obtain spi salt where s: "SenderSPI std sa leaf = Ok spi" "seen spi = None" "SenderSalt sa leaf = Ok salt"
      "inboundLoop std sa (seen(spi \<mapsto> leaf))
        (out @ [\<lparr>in_Leaf = leaf, in_SPI = spi, in_Key = sa_Key sa, in_Salt = salt\<rparr>]) leaves = Ok res"
      by (auto simp: bindR_Inr_iff split: if_splits)
    let ?a = "\<lparr>in_Leaf = leaf, in_SPI = spi, in_Key = sa_Key sa, in_Salt = salt\<rparr>"
    obtain new where new: "res = (out @ [?a]) @ new" "list_all2 (inboundOf std sa) leaves new"
      "distinct (map in_SPI new)" "set (map in_SPI new) \<inter> dom (seen(spi \<mapsto> leaf)) = {}"
      using s(4) unfolding Cons.IH by blast
    have "inboundOf std sa leaf ?a" using s by (simp add: inboundOf_def)
    then show "\<exists>new. res = out @ new \<and> list_all2 (inboundOf std sa) (leaf # leaves) new \<and> distinct (map in_SPI new) \<and>
        set (map in_SPI new) \<inter> dom seen = {}"
      using new s(2) by (intro exI [of _ "?a # new"]) auto
  next
    assume "\<exists>new. res = out @ new \<and> list_all2 (inboundOf std sa) (leaf # leaves) new \<and> distinct (map in_SPI new) \<and>
        set (map in_SPI new) \<inter> dom seen = {}"
    then obtain a new where new: "res = out @ a # new" "inboundOf std sa leaf a" "list_all2 (inboundOf std sa) leaves new"
      "distinct (map in_SPI (a # new))" "set (map in_SPI (a # new)) \<inter> dom seen = {}"
      by (auto simp: list_all2_Cons1)
    obtain spi salt where a: "a = \<lparr>in_Leaf = leaf, in_SPI = spi, in_Key = sa_Key sa, in_Salt = salt\<rparr>"
      using new(2) by (cases a) (auto simp: inboundOf_def)
    have "inboundLoop std sa (seen(in_SPI a \<mapsto> leaf)) (out @ [a]) leaves = Ok res"
      unfolding Cons.IH using new by (intro exI [of _ new]) auto
    then show "inboundLoop std sa seen out (leaf # leaves) = Ok res"
      using new(2,5) a by (auto simp: inboundOf_def)
  qed
qed auto

lemma inbound_salts_distinct:
  assumes "list_all2 (inboundOf std sa) leaves out" "distinct (map in_SPI out)"
  shows "distinct (map in_Salt out) \<and> distinct leaves"
proof -
  have each: "inboundOf std sa (in_Leaf a) a" if "a \<in> set out" for a
    using assms(1) that by (metis inboundOf_def in_set_conv_nth list_all2_conv_all_nth)
  have spi: "in_SPI a = in_SPI b" if "a \<in> set out" "b \<in> set out" "in_Leaf a = in_Leaf b" for a b
    using each [OF that(1)] each [OF that(2)] that(3) by (simp add: inboundOf_def)
  have leaf: "in_Leaf a = in_Leaf b" if "a \<in> set out" "b \<in> set out" "in_Salt a = in_Salt b" for a b
    using each [OF that(1)] each [OF that(2)] that(3) SenderSalt_inject by (auto simp: inboundOf_def)
  have leaves: "leaves = map in_Leaf out"
    using assms(1) by (induction rule: list_all2_induct) (auto simp: inboundOf_def)
  have d: "distinct out" "inj_on in_SPI (set out)" using assms(2) by (simp_all add: distinct_map)
  then have "inj_on in_Leaf (set out)" by (auto intro!: inj_onI dest: spi inj_onD)
  then have "inj_on in_Salt (set out)" by (auto intro!: inj_onI dest: leaf inj_onD)
  then show ?thesis using d(1) \<open>inj_on in_Leaf (set out)\<close> by (simp add: leaves distinct_map)
qed

end
