(* ===== verification/Controller.thy ===== *)
theory Controller
  imports Associations GroupCommit Sequencer "HOL-Library.AList"
begin

text \<open>
  The membership controller of a virtual network, \<^verbatim>\<open>src/ironcore\<close>: recovery by an external
  commit (\<^verbatim>\<open>recovery.go\<close>) and the controller itself (\<^verbatim>\<open>controller.go\<close>).  The ordering authority is
  an interface: its \<^verbatim>\<open>AcceptCommit\<close> is the argument \<open>accept\<close>, which maps the authority's state
  \<open>ord\<close> to the answer and the next state.  So are the credential validator and the key package
  resolver.  A controller is configured with a signer.
\<close>

type_synonym 'o acceptor = "'o \<Rightarrow> bytes \<Rightarrow> u64 \<Rightarrow> bytes \<Rightarrow> bool res \<times> 'o"

section \<open>Recovery\<close>

abbreviation ErrRecoverySuperseded :: fault where
  "ErrRecoverySuperseded \<equiv> Error ''ironcore: recovery superseded by a concurrent winner''"

text \<open>\<^verbatim>\<open>fetchGI\<close> may return a nil pointer, which the code dereferences.\<close>

definition RecoverViaExternalCommit :: "Std \<Rightarrow> Rand \<Rightarrow> 'o acceptor \<Rightarrow> 'o \<Rightarrow> VNIGroup \<Rightarrow> Suite \<Rightarrow> bytes option list \<Rightarrow>
  (bytes \<Rightarrow> GroupInfo option res) \<Rightarrow> Credential \<Rightarrow> Signer \<Rightarrow> Lifetime \<Rightarrow> bytes res \<times> VNIGroup \<times> 'o" where
  "RecoverViaExternalCommit std rnd accept ord v s candidates fetchGI cred signer lifetime =
    (case
       bindR (fromOption (Error ''ironcore: RecoverViaExternalCommit: no candidate branches'')
         (CanonicalCommit std s candidates)) (\<lambda>canonical.
       bindR (fetchGI canonical) (\<lambda>gi.
       bindR (fromOption PanicNil gi) (\<lambda>gi.
       bindR (ExternalCommit std rnd s gi cred signer lifetime) (\<lambda>(newGroup, commitMsg).
         Ok (gi, newGroup, commitMsg)))))
     of
       Inl e \<Rightarrow> (Inl e, v, ord)
     | Inr (gi, newGroup, commitMsg) \<Rightarrow>
         (case accept ord (VNIGroup_GroupID v) (gc_Epoch (gi_GroupContext gi)) (Hash std s commitMsg) of
            (Inl e, ord) \<Rightarrow> (Inl e, v, ord)
          | (Inr False, ord) \<Rightarrow> (Inl ErrRecoverySuperseded, v, ord)
          | (Inr True, ord) \<Rightarrow> (Ok commitMsg, v\<lparr>v_g := newGroup\<rparr>, ord)))"

section \<open>The controller\<close>

abbreviation ErrSelfRemoved :: fault where
  "ErrSelfRemoved \<equiv> Error ''ironcore: controller self-removed from group''"
abbreviation ErrLostRace :: fault where
  "ErrLostRace \<equiv> Error ''ironcore: commit lost the linearization race; AutoRecover''"
abbreviation ErrJoinSuperseded :: fault where
  "ErrJoinSuperseded \<equiv> Error ''ironcore: external-commit join superseded; refetch GroupInfo''"
abbreviation ErrNoGroup :: fault where
  "ErrNoGroup \<equiv> Error ''ironcore: controller has no group state''"

datatype HandshakePrivacy = HandshakeEncrypted | HandshakePlaintext

record ControllerConfig =
  cfg_VNI :: u32
  cfg_Suite :: Suite
  Validator :: "(Credential \<Rightarrow> bytes \<Rightarrow> bytes res) option"
  cfg_Cred :: Credential
  cfg_Signer :: Signer
  cfg_Lifetime :: Lifetime
  Resolve :: "(bytes \<Rightarrow> bytes option) option"
  cfg_HandshakePrivacy :: HandshakePrivacy

record ReconcileResult =
  Committed :: bool
  Won :: bool
  Added :: "bytes list"
  Removed :: "u32 list"
  Pending :: "bytes list"
  CommitMsg :: "bytes option"
  WelcomeMsg :: "bytes option"

definition noResult :: ReconcileResult where
  "noResult = \<lparr>Committed = False, Won = False, Added = [], Removed = [], Pending = [], CommitMsg = None,
     WelcomeMsg = None\<rparr>"

text \<open>The zero value of an association is \<open>None\<close>.\<close>

record Controller =
  cfg :: ControllerConfig
  c_g :: "Group option"
  c_groupID :: bytes
  curSA :: "SA option"
  prevSA :: "SA option"
  hasPrev :: bool

definition applyHandshakePrivacy :: "Controller \<Rightarrow> Controller" where
  "applyHandshakePrivacy c =
    c\<lparr>c_g := map_option (\<lambda>g. SetEncryptHandshakes g (cfg_HandshakePrivacy (cfg c) \<noteq> HandshakePlaintext)) (c_g c)\<rparr>"

definition deriveCur :: "Std \<Rightarrow> Controller \<Rightarrow> Controller res" where
  "deriveCur std c =
    bindR (fromOption PanicNil (c_g c)) (\<lambda>g.
    bindR (DeriveSAKeys std g (cfg_VNI (cfg c))) (\<lambda>sa. Ok (c\<lparr>curSA := Some sa\<rparr>)))"

text \<open>When the new association cannot be derived the old one has moved already.\<close>

definition rotateSA :: "Std \<Rightarrow> Controller \<Rightarrow> unit res \<times> Controller" where
  "rotateSA std c =
    (let c = c\<lparr>prevSA := curSA c, hasPrev := True\<rparr> in
     case deriveCur std c of Inl e \<Rightarrow> (Inl e, c) | Inr c \<Rightarrow> (Ok (), c))"

definition NewController :: "Std \<Rightarrow> ControllerConfig \<Rightarrow> Group option \<Rightarrow> Controller res" where
  "NewController std config g =
    (let c = \<lparr>cfg = config, c_g = g, c_groupID = GroupID (cfg_VNI config), curSA = None, prevSA = None,
              hasPrev = False\<rparr> in
     if g \<noteq> None then deriveCur std (applyHandshakePrivacy c) else Ok c)"

definition Controller_Epoch :: "Controller \<Rightarrow> u64" where
  "Controller_Epoch c = (case c_g c of None \<Rightarrow> 0 | Some g \<Rightarrow> Epoch g)"

definition IsCommitter :: "Controller \<Rightarrow> bool" where
  "IsCommitter c =
    (case c_g c of
       None \<Rightarrow> False
     | Some g \<Rightarrow>
         (case ActiveLeaves g of
            [] \<Rightarrow> False
          | leaf # _ \<Rightarrow> ownLeaf g = leaf))"

definition CurrentSA :: "Controller \<Rightarrow> SA option res" where
  "CurrentSA c = (if c_g c = None then Inl ErrNoGroup else Ok (curSA c))"

definition Controller_InboundSAs :: "Std \<Rightarrow> Controller \<Rightarrow> InboundSA list res" where
  "Controller_InboundSAs std c =
    (case c_g c of
       None \<Rightarrow> Err ''ironcore: no group''
     | Some g \<Rightarrow>
         bindR (CurrentSA c) (\<lambda>sa.
         case sa of
           None \<Rightarrow> if ActiveLeaves g = [] then Ok [] else Err ''ironcore: SA key not initialized (use DeriveSAKeys)''
         | Some sa \<Rightarrow> InboundSAs std sa (ActiveLeaves g)))"

definition PreviousSA :: "Controller \<Rightarrow> SA option \<times> bool" where
  "PreviousSA c = (prevSA c, hasPrev c)"

definition adopt :: "Std \<Rightarrow> Controller \<Rightarrow> Group \<Rightarrow> unit res \<times> Controller" where
  "adopt std c g =
    (let c = applyHandshakePrivacy (c\<lparr>c_g := Some g\<rparr>) in
     case deriveCur std c of Inl e \<Rightarrow> (Inl e, c) | Inr c \<Rightarrow> (Ok (), c))"

definition JoinViaWelcome ::
  "Std \<Rightarrow> Controller \<Rightarrow> bytes \<Rightarrow> bytes \<Rightarrow> bytes \<Rightarrow> bytes \<Rightarrow> unit res \<times> Controller" where
  "JoinViaWelcome std c welcomeMsg kpMsg initPriv leafPriv =
    (case JoinFromWelcome std (cfg_Suite (cfg c)) welcomeMsg
        \<lparr>jo_KeyPackage = kpMsg, jo_InitPriv = initPriv, jo_EncryptionPriv = leafPriv,
         jo_Signer = Some (cfg_Signer (cfg c)), jo_RatchetTree = [], jo_ExternalPSKs = Map.empty\<rparr> of
       Inl e \<Rightarrow> (Inl e, c)
     | Inr g \<Rightarrow> adopt std c g)"

definition JoinViaExternalCommit ::
  "Std \<Rightarrow> Rand \<Rightarrow> 'o acceptor \<Rightarrow> 'o \<Rightarrow> Controller \<Rightarrow> GroupInfo option \<Rightarrow> bytes res \<times> Controller \<times> 'o" where
  "JoinViaExternalCommit std rnd accept ord c gi =
    (case
       bindR (fromOption (Error ''ironcore: JoinViaExternalCommit: GroupInfo is nil'') gi) (\<lambda>gi.
       bindR (ExternalCommit std rnd (cfg_Suite (cfg c)) gi (cfg_Cred (cfg c)) (cfg_Signer (cfg c))
         (cfg_Lifetime (cfg c))) (\<lambda>(newGroup, commitMsg). Ok (gi, newGroup, commitMsg)))
     of
       Inl e \<Rightarrow> (Inl e, c, ord)
     | Inr (gi, newGroup, commitMsg) \<Rightarrow>
         (case accept ord (c_groupID c) (gc_Epoch (gi_GroupContext gi))
             (Hash std (cfg_Suite (cfg c)) commitMsg) of
            (Inl e, ord) \<Rightarrow> (Inl e, c, ord)
          | (Inr False, ord) \<Rightarrow> (Inl ErrJoinSuperseded, c, ord)
          | (Inr True, ord) \<Rightarrow>
              (case adopt std c newGroup of
                 (Inl e, c) \<Rightarrow> (Inl e, c, ord)
               | (Inr _, c) \<Rightarrow> (Ok commitMsg, c, ord))))"

definition Controller_PublishGroupInfo :: "Std \<Rightarrow> Controller \<Rightarrow> GroupInfo res" where
  "Controller_PublishGroupInfo std c =
    (case c_g c of None \<Rightarrow> Inl ErrNoGroup | Some g \<Rightarrow> PublishGroupInfo std g)"

text \<open>Any error of \<^verbatim>\<open>PeekCommit\<close> means no; a panic is passed on.\<close>

definition commitRemovesSelf :: "Std \<Rightarrow> Group \<Rightarrow> bytes \<Rightarrow> bool res" where
  "commitRemovesSelf std g commitMsg =
    (case PeekCommit std g commitMsg of
       Inl (Error _) \<Rightarrow> Ok False
     | Inl f \<Rightarrow> Inl f
     | Inr cm \<Rightarrow>
         Ok (list_ex (\<lambda>por. por_Type por = ProposalOrRefTypeProposal \<and>
           (case por_Proposal por of
              None \<Rightarrow> False
            | Some p \<Rightarrow> ProposalType p = ProposalTypeRemove \<and> p_Remove p = Some (ownLeaf g))) (cm_Proposals cm)))"

definition HandleCommit :: "Std \<Rightarrow> Controller \<Rightarrow> bytes \<Rightarrow> unit res \<times> Controller" where
  "HandleCommit std c commitMsg =
    (case c_g c of
       None \<Rightarrow> (Inl ErrNoGroup, c)
     | Some g \<Rightarrow>
         (case commitRemovesSelf std g commitMsg of
            Inl f \<Rightarrow> (Inl f, c)
          | Inr True \<Rightarrow> (Inl ErrSelfRemoved, c)
          | Inr False \<Rightarrow>
              (case ProcessCommit std g [] commitMsg of
                 Inl e \<Rightarrow> (Inl e, c)
               | Inr g \<Rightarrow> rotateSA std (c\<lparr>c_g := Some g\<rparr>))))"

section \<open>Committing\<close>

text \<open>The Go function returns the messages, whether the commit won, and an error, each of
  which may come with the others.  The commit moves the group even when it loses.\<close>

definition commitAndOrder :: "Std \<Rightarrow> Rand \<Rightarrow> 'o acceptor \<Rightarrow> 'o \<Rightarrow> Controller \<Rightarrow> Proposal list \<Rightarrow>
  (bytes option \<times> bytes option \<times> bool \<times> fault option) \<times> Controller \<times> 'o" where
  "commitAndOrder std rnd accept ord c byValue =
    (case c_g c of
       None \<Rightarrow> ((None, None, False, Some PanicNil), c, ord)
     | Some g \<Rightarrow>
         let epoch = Epoch g in
         case Group_Commit std rnd g \<lparr>ByValue = byValue, ByReference = []\<rparr> of
           (Inl e, g) \<Rightarrow> ((None, None, False, Some e), c\<lparr>c_g := Some g\<rparr>, ord)
         | (Inr (commitMsg, welcomeMsg), g) \<Rightarrow>
             let c = c\<lparr>c_g := Some g\<rparr> in
             (case accept ord (c_groupID c) epoch (Hash std (cfg_Suite (cfg c)) commitMsg) of
                (Inl e, ord) \<Rightarrow> ((Some commitMsg, welcomeMsg, False, Some e), c, ord)
              | (Inr False, ord) \<Rightarrow> ((Some commitMsg, welcomeMsg, False, None), c, ord)
              | (Inr True, ord) \<Rightarrow>
                  (case rotateSA std c of
                     (Inl e, c) \<Rightarrow> ((Some commitMsg, welcomeMsg, True, Some e), c, ord)
                   | (Inr _, c) \<Rightarrow> ((Some commitMsg, welcomeMsg, True, None), c, ord))))"

definition Rekey :: "Std \<Rightarrow> Rand \<Rightarrow> 'o acceptor \<Rightarrow> 'o \<Rightarrow> Controller \<Rightarrow>
  (bytes option \<times> bool \<times> fault option) \<times> Controller \<times> 'o" where
  "Rekey std rnd accept ord c =
    (if c_g c = None then ((None, False, Some ErrNoGroup), c, ord)
     else if \<not> IsCommitter c then ((None, False, None), c, ord)
     else
       case commitAndOrder std rnd accept ord c [] of
         ((msg, _, w, err), c, ord) \<Rightarrow> ((msg, w, err), c, ord))"

section \<open>Reconciliation\<close>

text \<open>The inner loop of the sort, with \<open>k\<close> for \<^verbatim>\<open>j+1\<close>: larger elements move up until the key fits.\<close>

fun sortShift :: "u32 list \<Rightarrow> nat \<Rightarrow> u32 \<Rightarrow> u32 list" where
  "sortShift s 0 key = s[0 := key]"
| "sortShift s (Suc j) key = (if s ! j > key then sortShift (s[Suc j := s ! j]) j key else s[Suc j := key])"

definition sortUint32 :: "u32 list \<Rightarrow> u32 list" where
  "sortUint32 s = fold (\<lambda>i s. sortShift s i (s ! i)) [1..<length s] s"

text \<open>The map from identities to leaves is an association list with the last entry of each
  identity.  Go ranges over it in any order, and what is made of it is a set.\<close>

definition identityStep ::
  "Group \<Rightarrow> (Credential \<Rightarrow> bytes \<Rightarrow> bytes res) \<Rightarrow> (bytes \<times> u32) list \<Rightarrow> u32 \<Rightarrow> (bytes \<times> u32) list res" where
  "identityStep g validate m leaf =
    bindR (LeafCredential g leaf) (\<lambda>(cred, sigPub).
    case validate cred sigPub of
      Inl (Error _) \<Rightarrow> Ok m
    | Inl f \<Rightarrow> Inl f
    | Inr identity \<Rightarrow> Ok (AList.update identity leaf m))"

definition identityToLeaf ::
  "Group \<Rightarrow> (Credential \<Rightarrow> bytes \<Rightarrow> bytes res) \<Rightarrow> (bytes \<times> u32) list res" where
  "identityToLeaf g validate = foldR (identityStep g validate) [] (ActiveLeaves g)"

text \<open>The leaves to remove, as a list without repetitions, and the identities to add.\<close>

definition removeSet :: "(bytes \<times> u32) list \<Rightarrow> bytes list \<Rightarrow> u32 list" where
  "removeSet idToLeaf desired = remdups (map snd (filter (\<lambda>(i, _). i \<notin> set desired) idToLeaf))"

definition addIdents :: "(bytes \<times> u32) list \<Rightarrow> bytes list \<Rightarrow> bytes list" where
  "addIdents idToLeaf desired = filter (\<lambda>i. map_of idToLeaf i = None) desired"

definition electCommitter :: "u32 list \<Rightarrow> u32 list \<Rightarrow> u32" where
  "electCommitter leaves removed =
    (let committer = (case leaves of [] \<Rightarrow> 0 | l # _ \<Rightarrow> l) in
     if committer \<in> set removed then
       (case List.find (\<lambda>l. l \<notin> set removed) leaves of None \<Rightarrow> NOT 0 | Some l \<Rightarrow> l)
     else committer)"

text \<open>One round of the loop that resolves the identities to add.\<close>

definition addStep :: "(bytes \<Rightarrow> bytes option) option \<Rightarrow> Proposal list \<times> bytes list \<times> bytes list \<Rightarrow> bytes \<Rightarrow>
  (Proposal list \<times> bytes list \<times> bytes list) res" where
  "addStep resolve acc i =
    (let (proposals, added, pending) = acc in
     case (case resolve of None \<Rightarrow> None | Some f \<Rightarrow> f i) of
       None \<Rightarrow> Ok (proposals, added, pending @ [i])
     | Some kpMsg \<Rightarrow>
         bindR (DecodeKeyPackageMessage kpMsg) (\<lambda>kp.
           Ok (proposals @ [ProposeAdd kp], added @ [i], pending)))"

text \<open>Up to the commit: \<open>None\<close> for a node that is not the committer.\<close>

definition reconcilePlan :: "Controller \<Rightarrow> bytes list \<Rightarrow>
  (Proposal list \<times> u32 list \<times> bytes list \<times> bytes list) option res" where
  "reconcilePlan c desired =
    bindR (fromOption ErrNoGroup (c_g c)) (\<lambda>g.
    bindR (fromOption (Error ''ironcore: Reconcile: no CredentialValidator in config'') (Validator (cfg c))) (\<lambda>validate.
    bindR (identityToLeaf g validate) (\<lambda>idToLeaf.
    let removed = removeSet idToLeaf desired;
        committer = electCommitter (ActiveLeaves g) removed;
        removedLeaves = sortUint32 (filter (\<lambda>l. l \<noteq> ownLeaf g) removed) in
    if ownLeaf g \<noteq> committer then Ok None
    else
      bindR (foldR (addStep (Resolve (cfg c))) (map ProposeRemove removedLeaves, [], []) (addIdents idToLeaf desired))
        (\<lambda>(proposals, added, pending). Ok (Some (proposals, removedLeaves, added, pending))))))"

definition Reconcile :: "Std \<Rightarrow> Rand \<Rightarrow> 'o acceptor \<Rightarrow> 'o \<Rightarrow> Controller \<Rightarrow> bytes list \<Rightarrow>
  (ReconcileResult \<times> fault option) \<times> Controller \<times> 'o" where
  "Reconcile std rnd accept ord c desired =
    (case reconcilePlan c desired of
       Inl e \<Rightarrow> ((noResult, Some e), c, ord)
     | Inr None \<Rightarrow> ((noResult, None), c, ord)
     | Inr (Some (proposals, removedLeaves, added, pending)) \<Rightarrow>
         if proposals = [] then ((noResult\<lparr>Pending := pending\<rparr>, None), c, ord)
         else
           case commitAndOrder std rnd accept ord c proposals of
             ((_, _, _, Some e), c, ord) \<Rightarrow> ((noResult, Some e), c, ord)
           | ((commitMsg, welcomeMsg, won, None), c, ord) \<Rightarrow>
               ((\<lparr>Committed = True, Won = won, Added = added, Removed = removedLeaves, Pending = pending,
                  CommitMsg = commitMsg, WelcomeMsg = welcomeMsg\<rparr>,
                 if won then None else Some ErrLostRace), c, ord))"

section \<open>Recovery of a controller\<close>

text \<open>The commit message is returned also when the new association cannot be derived.\<close>

definition AutoRecover :: "Std \<Rightarrow> Rand \<Rightarrow> 'o acceptor \<Rightarrow> 'o \<Rightarrow> Controller \<Rightarrow> bytes option list \<Rightarrow>
  (bytes \<Rightarrow> GroupInfo option res) \<Rightarrow> (bytes option \<times> fault option) \<times> Controller \<times> 'o" where
  "AutoRecover std rnd accept ord c candidates fetchGI =
    (case c_g c of
       None \<Rightarrow> ((None, Some ErrNoGroup), c, ord)
     | Some g \<Rightarrow>
         (case RecoverViaExternalCommit std rnd accept ord (NewVNIGroup (cfg_VNI (cfg c)) g) (cfg_Suite (cfg c))
             candidates fetchGI (cfg_Cred (cfg c)) (cfg_Signer (cfg c)) (cfg_Lifetime (cfg c)) of
            (Inl e, vg, ord) \<Rightarrow> ((None, Some e), c, ord)
          | (Inr commitMsg, vg, ord) \<Rightarrow>
              (case rotateSA std (applyHandshakePrivacy (c\<lparr>c_g := Some (v_g vg)\<rparr>)) of
                 (Inl e, c) \<Rightarrow> ((Some commitMsg, Some e), c, ord)
               | (Inr _, c) \<Rightarrow> ((Some commitMsg, None), c, ord))))"

end
