(* ===== verification/Replay.thy ===== *)
theory Replay
  imports Network Controller
begin

text \<open>
  Parts of \<^verbatim>\<open>src/sim/client.go\<close> on which the client rests: the numbering of channels and the anti-replay
  window, which is shown to decide like one that remembers every sequence number.
\<close>

section \<open>Channels\<close>

abbreviation numDS :: nat where "numDS \<equiv> 2"

definition saVNI :: "u32 \<Rightarrow> int \<Rightarrow> u32" where
  "saVNI vni r = vni * of_nat numDS + word_of_int r"

definition replicaOf :: "u32 \<Rightarrow> int" where
  "replicaOf ch = uint (ch mod of_nat numDS)"

definition tenantOf :: "u32 \<Rightarrow> u32" where
  "tenantOf ch = ch div of_nat numDS"

text \<open>A channel determines its tenant and replica, as long as the tenant numbers stay below half of the
  range; beyond it channels of different tenants coincide.\<close>

lemma channels_apart:
  assumes "uint vni < 2 ^ 31" "r = 0 \<or> r = 1"
  shows "tenantOf (saVNI vni r) = vni" "replicaOf (saVNI vni r) = r"
proof -
  have u: "uint (saVNI vni r) = 2 * uint vni + r"
    using assms by (auto simp: saVNI_def uint_word_ariths)
  have "(2 * uint vni + r) div 2 = uint vni" "(2 * uint vni + r) mod 2 = r" using assms(2) by auto
  then show "tenantOf (saVNI vni r) = vni" "replicaOf (saVNI vni r) = r"
    by (simp_all add: tenantOf_def replicaOf_def word_uint_eq_iff uint_div uint_mod u)
qed

lemma channels_coincide: "saVNI (vni + 2 ^ 31) r = saVNI vni r"
  by (simp add: saVNI_def distrib_right)

section \<open>Anti-replay window\<close>

abbreviation replayWindow :: u64 where "replayWindow \<equiv> 64"

record replayWin =
  high :: u64
  seenSeqs :: "u64 list"

definition newReplayWin :: replayWin where
  "newReplayWin = \<lparr>high = 0, seenSeqs = []\<rparr>"

definition accept :: "replayWin \<Rightarrow> u64 \<Rightarrow> bool \<times> replayWin" where
  "accept w seqn =
    (if high w \<ge> replayWindow \<and> seqn \<le> high w - replayWindow then (False, w)
     else if seqn \<in> set (seenSeqs w) then (False, w)
     else
       let hi = (if seqn > high w then seqn else high w) in
       (True, \<lparr>high = hi, seenSeqs = filter (\<lambda>s. \<not> (hi \<ge> replayWindow \<and> s < hi - replayWindow)) (seqn # seenSeqs w)\<rparr>))"

text \<open>A run over received sequence numbers: which were accepted, in order, and the window after it.\<close>

primrec acceptAll :: "replayWin \<Rightarrow> u64 list \<Rightarrow> bool list \<times> replayWin" where
  "acceptAll w [] = ([], w)"
| "acceptAll w (s # ss) =
    (let (ok, w) = accept w s; (oks, w) = acceptAll w ss in (ok # oks, w))"

text \<open>The same decision from the sequence numbers accepted so far, without a window: fresh, and not
  more than the window behind the largest.\<close>

primrec largest :: "u64 list \<Rightarrow> u64" where
  "largest [] = 0"
| "largest (s # H) = max s (largest H)"

definition fresh :: "u64 list \<Rightarrow> u64 \<Rightarrow> bool" where
  "fresh H s \<longleftrightarrow> s \<notin> set H \<and> \<not> (largest H \<ge> replayWindow \<and> s \<le> largest H - replayWindow)"

primrec freshAll :: "u64 list \<Rightarrow> u64 list \<Rightarrow> bool list" where
  "freshAll H [] = []"
| "freshAll H (s # ss) = fresh H s # freshAll (if fresh H s then s # H else H) ss"

text \<open>The window remembers what it must of the accepted numbers.\<close>

definition windowOf :: "u64 list \<Rightarrow> replayWin \<Rightarrow> bool" where
  "windowOf H w \<longleftrightarrow> high w = largest H \<and> distinct (seenSeqs w) \<and>
    set (seenSeqs w) = {s \<in> set H. \<not> (high w \<ge> replayWindow \<and> s < high w - replayWindow)}"

lemma largest_ge: "s \<in> set H \<Longrightarrow> s \<le> largest H"
  by (induction H) (auto simp: le_max_iff_disj)

lemma window_moves:
  assumes "64 \<le> (a :: u64)" "x < a - 64" "a \<le> b"
  shows "64 \<le> b" "x < b - 64"
proof -
  show b: "64 \<le> b" using assms(1,3) by simp
  have "unat (a - 64) = unat a - 64" "unat (b - 64) = unat b - 64"
    using assms(1) b by (simp_all add: unat_sub word_le_nat_alt)
  then show "x < b - 64" using assms(2,3) by (simp add: word_less_nat_alt word_le_nat_alt)
qed

lemma accept_windowOf:
  assumes "windowOf H w" "accept w s = (ok, w')"
  shows "ok = fresh H s" "windowOf (if ok then s # H else H) w'"
proof -
  have w: "high w = largest H" "distinct (seenSeqs w)"
    "set (seenSeqs w) = {s \<in> set H. \<not> (high w \<ge> 64 \<and> s < high w - 64)}"
    using assms(1) by (auto simp: windowOf_def)
  have ok: "ok \<longleftrightarrow> \<not> (high w \<ge> 64 \<and> s \<le> high w - 64) \<and> s \<notin> set (seenSeqs w)"
    using assms(2) by (auto simp: accept_def Let_def split: if_splits)
  then show f: "ok = fresh H s" unfolding fresh_def w(1) [symmetric] w(3) by (auto intro: less_imp_le)
  show "windowOf (if ok then s # H else H) w'"
  proof (cases ok)
    case True
    let ?hi = "max s (largest H)"
    have hi: "(if s > high w then s else high w) = ?hi" by (auto simp: w(1) max_def)
    have w': "w' = \<lparr>high = ?hi, seenSeqs = filter (\<lambda>x. \<not> (?hi \<ge> 64 \<and> x < ?hi - 64)) (s # seenSeqs w)\<rparr>"
      using assms(2) True ok unfolding accept_def hi [symmetric] by (auto simp: Let_def)
    have "x \<in> set (seenSeqs w) \<longleftrightarrow> x \<in> set H" if "\<not> (?hi \<ge> 64 \<and> x < ?hi - 64)" for x
      unfolding w(3) using that window_moves [of "high w" x ?hi] by (auto simp: w(1))
    moreover have "distinct (s # seenSeqs w)" using ok True w(2) by simp
    ultimately show ?thesis using True unfolding windowOf_def w' by (auto intro: distinct_filter)
  next
    case False
    then have "w' = w" using assms(2) by (auto simp: accept_def Let_def split: if_splits)
    then show ?thesis using assms(1) False by simp
  qed
qed

lemma acceptAll_windowOf:
  assumes "windowOf H w"
  shows "fst (acceptAll w ss) = freshAll H ss \<and> (\<exists>H'. windowOf H' (snd (acceptAll w ss)))"
  using assms
proof (induction ss arbitrary: H w)
  case (Cons s ss)
  obtain ok w' where a: "accept w s = (ok, w')" by (cases "accept w s")
  obtain oks w'' where aa: "acceptAll w' ss = (oks, w'')" by (cases "acceptAll w' ss")
  show ?case using Cons.IH [OF accept_windowOf(2) [OF Cons.prems a]] accept_windowOf(1) [OF Cons.prems a] by (simp add: a aa)
qed auto

lemma windowOf_size: "windowOf H w \<Longrightarrow> length (seenSeqs w) \<le> 65"
proof -
  assume w: "windowOf H w"
  have "set (map unat (seenSeqs w)) \<subseteq> {unat (high w) - 64..unat (high w)}"
  proof
    fix x assume "x \<in> set (map unat (seenSeqs w))"
    then obtain s where s: "s \<in> set H" "\<not> (high w \<ge> 64 \<and> s < high w - 64)" "x = unat s" using w by (auto simp: windowOf_def)
    have "unat s \<le> unat (high w)" using largest_ge [OF s(1)] w by (simp add: windowOf_def word_le_nat_alt)
    moreover have "unat (high w) - 64 \<le> unat s"
      using s(2) by (cases "high w \<ge> 64") (auto simp: word_less_nat_alt word_le_nat_alt unat_sub not_le)
    ultimately show "x \<in> {unat (high w) - 64..unat (high w)}" using s(3) by simp
  qed
  moreover have "distinct (map unat (seenSeqs w))"
    using w by (auto simp: windowOf_def distinct_map inj_on_def word_unat_eq_iff)
  ultimately have "length (map unat (seenSeqs w)) \<le> card {unat (high w) - 64..unat (high w)}"
    by (metis card_mono distinct_card finite_atLeastAtMost)
  then show ?thesis by simp
qed

lemma freshAll_distinct:
  "distinct (map fst (filter snd (zip ss (freshAll H ss)))) \<and> set (map fst (filter snd (zip ss (freshAll H ss)))) \<inter> set H = {}"
proof (induction ss arbitrary: H)
  case (Cons s ss)
  then show ?case using Cons.IH [of "s # H"] Cons.IH [of H] by (auto simp: fresh_def)
qed simp

text \<open>C13: the anti-replay window decides like one with unlimited memory.  Whatever sequence numbers
  arrive in whatever order, a number is accepted exactly if it has not been accepted before and is not
  64 or more behind the largest accepted one; so no number is ever accepted twice, and the window
  never holds more than 65 numbers.
\<close>

theorem replay_window_exact:
  "fst (acceptAll newReplayWin ss) = freshAll [] ss \<and>
    distinct (map fst (filter snd (zip ss (fst (acceptAll newReplayWin ss))))) \<and>
    length (seenSeqs (snd (acceptAll newReplayWin ss))) \<le> 65"
proof -
  have "windowOf [] newReplayWin" by (simp add: windowOf_def newReplayWin_def)
  note all = acceptAll_windowOf [OF this, of ss]
  then show ?thesis using freshAll_distinct [of ss "[]"] windowOf_size by auto
qed

end
