(* ===== verification/Credentials.thy ===== *)
theory Credentials
  imports TreeWire Cipher
begin

text \<open>
  Credential validators: the basic one of \<^verbatim>\<open>src/mls/group/ports.go\<close> and the X.509 and SPIFFE adapters
  of \<^verbatim>\<open>src/ironcore/credential.go\<close>.  Certificates are values of a type \<^verbatim>\<open>'c\<close>; what \<^verbatim>\<open>crypto/x509\<close> does with
  them is the argument \<open>x\<close>, a record of its operations.
\<close>

section \<open>The basic validator\<close>

definition BasicCredentialValidator_Validate :: "Credential \<Rightarrow> bytes \<Rightarrow> bytes res" where
  "BasicCredentialValidator_Validate cred sigPub =
    (if CredentialType cred \<noteq> CredentialTypeBasic \<or> Identity cred = []
     then Err ''group: BasicCredentialValidator requires a non-empty basic credential''
     else Ok (Identity cred))"

section \<open>Certificates\<close>

record URL =
  Scheme :: string
  Host :: string
  urlString :: string

text \<open>The dynamic type of a certificate's public key; for an ECDSA key, the encoded point or the
  error of its conversion.\<close>

datatype certKey = CertEd25519 bytes | CertECDSA "bytes res" | CertOther

record 'c X509 =
  ParseCertificate :: "bytes \<Rightarrow> 'c res"
  certVerify :: "'c list \<Rightarrow> 'c list \<Rightarrow> 'c \<Rightarrow> unit res"   \<comment> \<open>roots, intermediates, any key usage\<close>
  certPublicKey :: "'c \<Rightarrow> certKey"
  certSubject :: "'c \<Rightarrow> string"
  certURIs :: "'c \<Rightarrow> URL list"

definition parseChain :: "'c X509 \<Rightarrow> Credential \<Rightarrow> ('c \<times> 'c list) res" where
  "parseChain x cred =
    (case Certificates cred of
       [] \<Rightarrow> Err ''ironcore: credential is not a non-empty x509 credential''
     | first # rest \<Rightarrow>
         if CredentialType cred \<noteq> CredentialTypeX509
         then Err ''ironcore: credential is not a non-empty x509 credential''
         else
           bindR (ParseCertificate x (CertData first)) (\<lambda>leaf.
           bindR (mapR (\<lambda>c. ParseCertificate x (CertData c)) rest) (\<lambda>intermediates. Ok (leaf, intermediates))))"

definition bindSignatureKey :: "'c X509 \<Rightarrow> 'c \<Rightarrow> bytes \<Rightarrow> unit res" where
  "bindSignatureKey x leaf sigPub =
    (case certPublicKey x leaf of
       CertEd25519 pk \<Rightarrow> require (pk = sigPub) ''ironcore: cert public key does not match MLS signature key''
     | CertECDSA pk \<Rightarrow> require (pk = Ok sigPub) ''ironcore: cert public key does not match MLS signature key''
     | CertOther \<Rightarrow> Err ''ironcore: unsupported certificate public key type'')"

definition PKIValidator_Validate :: "'c X509 \<Rightarrow> 'c list option \<Rightarrow> Credential \<Rightarrow> bytes \<Rightarrow> bytes res" where
  "PKIValidator_Validate x roots cred sigPub =
    bindR (fromOption (Error ''ironcore: PKIValidator requires a non-nil Roots trust bundle'') roots) (\<lambda>roots.
    bindR (parseChain x cred) (\<lambda>(leaf, intermediates).
    bindR (certVerify x roots intermediates leaf) (\<lambda>_.
    bindR (bindSignatureKey x leaf sigPub) (\<lambda>_. Ok (bytesOf (certSubject x leaf))))))"

text \<open>The loop over the URIs, with the one found so far.\<close>

primrec spiffeLoop :: "URL option \<Rightarrow> URL list \<Rightarrow> URL option res" where
  "spiffeLoop found [] = Ok found"
| "spiffeLoop found (u # us) =
    (if Scheme u \<noteq> ''spiffe'' then spiffeLoop found us
     else if found \<noteq> None then Err ''ironcore: multiple SPIFFE URI SANs in SVID''
     else spiffeLoop (Some u) us)"

definition spiffeID :: "'c X509 \<Rightarrow> 'c \<Rightarrow> URL res" where
  "spiffeID x leaf =
    bindR (spiffeLoop None (certURIs x leaf)) (\<lambda>found.
    bindR (fromOption (Error ''ironcore: no SPIFFE URI SAN in SVID'') found) (\<lambda>u.
    if Host u = '''' then Err ''ironcore: SPIFFE ID has empty trust domain'' else Ok u))"

definition SPIFFEValidator_Validate ::
  "'c X509 \<Rightarrow> string \<Rightarrow> 'c list option \<Rightarrow> Credential \<Rightarrow> bytes \<Rightarrow> bytes res" where
  "SPIFFEValidator_Validate x trustDomain roots cred sigPub =
    bindR (fromOption (Error ''ironcore: SPIFFEValidator requires a non-nil Roots trust bundle'') roots) (\<lambda>roots.
    bindR (parseChain x cred) (\<lambda>(leaf, intermediates).
    bindR (certVerify x roots intermediates leaf) (\<lambda>_.
    bindR (bindSignatureKey x leaf sigPub) (\<lambda>_.
    bindR (spiffeID x leaf) (\<lambda>u.
    if trustDomain \<noteq> '''' \<and> Host u \<noteq> trustDomain then Err ''ironcore: SPIFFE trust domain''
    else Ok (bytesOf (urlString u)))))))"

section \<open>What a validator accepts\<close>

text \<open>A non-empty chain of certificates that parse, verified from the roots to the leaf, whose key is
  the signature key.\<close>

definition boundChain :: "'c X509 \<Rightarrow> 'c list \<Rightarrow> Credential \<Rightarrow> bytes \<Rightarrow> 'c \<Rightarrow> bool" where
  "boundChain x roots cred sigPub leaf \<longleftrightarrow> CredentialType cred = CredentialTypeX509 \<and>
    (\<exists>intermediates. list_all2 (\<lambda>c p. ParseCertificate x (CertData c) = Ok p) (Certificates cred) (leaf # intermediates) \<and>
      certVerify x roots intermediates leaf = Ok ()) \<and>
    (certPublicKey x leaf = CertEd25519 sigPub \<or> certPublicKey x leaf = CertECDSA (Ok sigPub))"

lemma bindSignatureKey_iff:
  "bindSignatureKey x leaf sigPub = Ok () \<longleftrightarrow>
    certPublicKey x leaf = CertEd25519 sigPub \<or> certPublicKey x leaf = CertECDSA (Ok sigPub)"
  by (cases "certPublicKey x leaf") (auto simp: bindSignatureKey_def require_def)

lemma parseChain_iff:
  "parseChain x cred = Ok (leaf, intermediates) \<longleftrightarrow> CredentialType cred = CredentialTypeX509 \<and>
    list_all2 (\<lambda>c p. ParseCertificate x (CertData c) = Ok p) (Certificates cred) (leaf # intermediates)"
  by (cases "Certificates cred") (auto simp: parseChain_def bindR_Inr_iff mapR_Inr_iff)

lemma chain_checked:
  "boundChain x roots cred sigPub leaf \<longleftrightarrow> (\<exists>intermediates. parseChain x cred = Ok (leaf, intermediates) \<and>
    certVerify x roots intermediates leaf = Ok () \<and> bindSignatureKey x leaf sigPub = Ok ())"
  unfolding boundChain_def parseChain_iff bindSignatureKey_iff by blast

lemma spiffeLoop_iff:
  "spiffeLoop found us = Ok (Some u) \<longleftrightarrow>
    (case found of None \<Rightarrow> filter (\<lambda>u. Scheme u = ''spiffe'') us = [u]
     | Some v \<Rightarrow> v = u \<and> filter (\<lambda>u. Scheme u = ''spiffe'') us = [])"
  by (induction us arbitrary: found) (auto split: option.splits)

lemma spiffeID_iff:
  "spiffeID x leaf = Ok u \<longleftrightarrow> filter (\<lambda>u. Scheme u = ''spiffe'') (certURIs x leaf) = [u] \<and> Host u \<noteq> ''''"
proof -
  have l: "filter (\<lambda>u. Scheme u = ''spiffe'') (certURIs x leaf) = [u] \<longleftrightarrow> spiffeLoop None (certURIs x leaf) = Ok (Some u)"
    by (simp add: spiffeLoop_iff)
  show ?thesis unfolding l by (auto simp: spiffeID_def bindR_Inr_iff fromOption_Inr_iff split: if_splits)
qed

section \<open>Properties\<close>

text \<open>the two certificate validators accept a credential exactly when it is a non-empty X.509 chain that
  verifies against the trust bundle and whose leaf key is the member's signature key; the SPIFFE
  validator also asks for exactly one SPIFFE URI, with a non-empty trust domain that is the expected one
  if one is given.  The identity is the leaf's subject, or that URI.
\<close>
theorem validators_accept:
  "(PKIValidator_Validate x roots cred sigPub = Ok i \<longleftrightarrow>
     (\<exists>rs leaf. roots = Some rs \<and> boundChain x rs cred sigPub leaf \<and> i = bytesOf (certSubject x leaf))) \<and>
   (SPIFFEValidator_Validate x td roots cred sigPub = Ok i \<longleftrightarrow>
     (\<exists>rs leaf u. roots = Some rs \<and> boundChain x rs cred sigPub leaf \<and>
       filter (\<lambda>u. Scheme u = ''spiffe'') (certURIs x leaf) = [u] \<and> Host u \<noteq> '''' \<and> (td = '''' \<or> Host u = td) \<and>
       i = bytesOf (urlString u)))"
  unfolding PKIValidator_Validate_def SPIFFEValidator_Validate_def chain_checked
  by (auto simp: bindR_Inr_iff fromOption_Inr_iff spiffeID_iff split: if_splits)

end
