(* ===== verification/ClientState.thy ===== *)
theory ClientState
  imports Replay Credentials
begin

text \<open>
  The state of the clients of the simulator: the names of the actors, the directory of key packages
  of \<^verbatim>\<open>src/sim/sim.go\<close>, and the records of \<^verbatim>\<open>src/sim/client.go\<close>.
\<close>

section \<open>Names of actors\<close>

definition identityFromActorID :: "ActorID \<Rightarrow> bytes option" where
  "identityFromActorID a = (if a < 0 then None else Some (bytesOf (''client-'' @ showInt a)))"

text \<open>The verb \<^verbatim>\<open>%d\<close> of \<^verbatim>\<open>Sscanf\<close> on an ASCII string: blanks, an optional sign and digits, as many as there
  are; the number must fit 64 bits, and what follows it is ignored.\<close>

definition isDigit :: "byte \<Rightarrow> bool" where
  "isDigit b \<longleftrightarrow> 48 \<le> b \<and> b \<le> 57"

definition digitsValue :: "bytes \<Rightarrow> int" where
  "digitsValue ds = foldl (\<lambda>n d. n * 10 + (uint d - 48)) 0 ds"

definition scanInt :: "bytes \<Rightarrow> int option" where
  "scanInt s =
    (let s = dropWhile (\<lambda>b. b \<in> {9, 11, 12, 13, 32}) s;
         neg = (s \<noteq> [] \<and> hd s = 45);
         s = (if s \<noteq> [] \<and> (hd s = 43 \<or> hd s = 45) then tl s else s);
         ds = takeWhile isDigit s;
         n = (if neg then - digitsValue ds else digitsValue ds) in
     if ds = [] \<or> n < - (2 ^ 63) \<or> n \<ge> 2 ^ 63 then None else Some n)"

definition actorIDFromIdentity :: "bytes \<Rightarrow> ActorID option" where
  "actorIDFromIdentity identity =
    (let p = bytesOf ''client-'' in
     if take (length p) identity = p then scanInt (drop (length p) identity) else None)"

lemma byte_of_digit:
  assumes "k < (10 :: nat)"
  shows "uint (of_char (char_of (48 + k)) :: byte) = 48 + int k"
proof -
  have e: "of_char (char_of (48 + k)) = (of_nat (of_char (char_of (48 + k)) :: nat) :: byte)" by (rule of_nat_of_char [symmetric])
  have "(of_char (char_of (48 + k)) :: nat) = 48 + k" unfolding of_char_of using assms by simp
  then show ?thesis unfolding e using assms by (simp only: unsigned_of_nat take_bit_eq_mod) simp
qed

lemma digitsNat_scan:
  "digitsNat n \<noteq> [] \<and> list_all isDigit (bytesOf (digitsNat n)) \<and> digitsValue (bytesOf (digitsNat n)) = int n"
proof (induction n rule: digitsNat.induct)
  case (1 n)
  have d: "isDigit (of_char (char_of (48 + k)))" "uint (of_char (char_of (48 + k)) :: byte) = 48 + int k" if "k < 10" for k
    using byte_of_digit [OF that] that by (simp_all add: isDigit_def word_le_def)
  show ?case
  proof (cases "n < 10")
    case True
    then show ?thesis using d [OF True] by (subst (1 2 3) digitsNat.simps) (simp add: bytesOf_def digitsValue_def)
  next
    case False
    have "int (n div 10) * 10 + int (n mod 10) = int n" by presburger
    then show ?thesis
      using 1 [OF False] d [of "n mod 10"] False
      by (subst (1 2 3) digitsNat.simps) (simp add: bytesOf_def digitsValue_def)
  qed
qed

text \<open>Names are read back as the actors they were made for.\<close>

lemma actor_names:
  assumes "0 \<le> a" "a < 2 ^ 63"
  shows "\<exists>name. identityFromActorID a = Some name \<and> actorIDFromIdentity name = Some a"
proof -
  let ?ds = "bytesOf (digitsNat (nat a))"
  note ds = digitsNat_scan [of "nat a"]
  obtain x xs where x: "?ds = x # xs" using ds by (cases ?ds) (auto simp: bytesOf_def)
  then have dx: "isDigit x" using ds by simp
  then have nx: "x \<notin> {9, 11, 12, 13, 32}" "x \<noteq> 43" "x \<noteq> 45"
    unfolding isDigit_def by (auto simp: word_le_def)
  have "takeWhile isDigit xs = xs" using ds x by (simp add: list_all_iff)
  then have "scanInt ?ds = Some a"
    using nx ds assms x by (simp add: scanInt_def Let_def del: takeWhile_eq_all_conv)
  then show ?thesis
    using assms(1) by (simp add: identityFromActorID_def actorIDFromIdentity_def showInt_def bytesOf_def)
qed

section \<open>Surroundings\<close>

text \<open>What a run takes from outside: the primitives, the seeded generator, and for each occasion the
  random bytes, the measured time or the fresh signing key.\<close>

record 'r Host =
  h_std :: Std
  h_rand :: "'r Rng"
  entropy :: "nat \<Rightarrow> Rand"
  elapsed :: "nat \<Rightarrow> int"
  freshSigner :: "nat \<Rightarrow> Signer"

record kpEntry =
  kpMsg :: bytes
  initPriv :: bytes
  leafPriv :: bytes

record kpDirectory =
  creds :: "bytes \<rightharpoonup> Credential"
  signers :: "bytes \<rightharpoonup> Signer"
  kps :: "bytes \<Rightarrow> u32 \<rightharpoonup> kpEntry"

record LossEvent =
  le_VNI :: u32
  SentEpoch :: u64
  RecvEpoch :: u64
  le_At :: u64

text \<open>The objects that all actors share; \<^verbatim>\<open>draws\<close> counts the occasions.\<close>

record 'r Net = "'r Bus" +
  lossEvents :: "LossEvent list"
  dir :: kpDirectory
  draws :: nat

definition measured :: "'r Host \<Rightarrow> string \<Rightarrow> 'r Net \<Rightarrow> 'r Net" where
  "measured h opn n = (counted (\<lambda>m. cpu m opn (elapsed h (draws n))) n)\<lparr>draws := draws n + 1\<rparr>"

text \<open>An error is given to the caller as \<open>None\<close>, a panic ends the run.\<close>

definition attempt :: "'a res \<Rightarrow> 'a option res" where
  "attempt r = (case r of Inl (Error _) \<Rightarrow> Ok None | Inl f \<Rightarrow> Inl f | Inr x \<Rightarrow> Ok (Some x))"

definition orPanic :: "'a res \<Rightarrow> 'a res" where
  "orPanic r = (case r of Inl (Error e) \<Rightarrow> Inl (Panic e) | _ \<Rightarrow> r)"

lemma attempt_Inr_iff [simp]:
  "attempt r = Inr x \<longleftrightarrow> (case r of Inl (Error _) \<Rightarrow> x = None | Inl _ \<Rightarrow> False | Inr y \<Rightarrow> x = Some y)"
  by (auto simp: attempt_def split: sum.splits fault.splits)

section \<open>Directory\<close>

definition newKPDirectory :: kpDirectory where
  "newKPDirectory = \<lparr>creds = Map.empty, signers = Map.empty, kps = (\<lambda>_. Map.empty)\<rparr>"

definition maxLifetime :: Lifetime where
  "maxLifetime = \<lparr>NotBefore = 0, NotAfter = NOT 0\<rparr>"

definition register :: "kpDirectory \<Rightarrow> bytes \<Rightarrow> Signer \<Rightarrow> kpDirectory" where
  "register d identity signer =
    d\<lparr>creds := (creds d)(identity \<mapsto> \<lparr>CredentialType = CredentialTypeBasic, Identity = identity, Certificates = []\<rparr>),
      signers := (signers d)(identity \<mapsto> signer)\<rparr>"

definition dirCred :: "kpDirectory \<Rightarrow> bytes \<Rightarrow> Credential" where
  "dirCred d identity =
    (case creds d identity of None \<Rightarrow> \<lparr>CredentialType = 0, Identity = [], Certificates = []\<rparr> | Some c \<Rightarrow> c)"

definition newFounderGroup ::
  "'r Host \<Rightarrow> 'r Net \<Rightarrow> Suite \<Rightarrow> u32 \<Rightarrow> bytes \<Rightarrow> Signer \<Rightarrow> (Group \<times> 'r Net) res" where
  "newFounderGroup h n s vni identity signer =
    (let rnd = entropy h (draws n) in
     bindR (orPanic (NewGroup (h_std h) (rnd_init rnd) (rnd_leaf rnd) s (GroupID vni) (dirCred (dir n) identity) signer
       maxLifetime)) (\<lambda>g. Ok (g, n\<lparr>draws := draws n + 1\<rparr>)))"

definition publishKeyPackage :: "'r Host \<Rightarrow> 'r Net \<Rightarrow> Suite \<Rightarrow> u32 \<Rightarrow> bytes \<Rightarrow> Signer \<Rightarrow> 'r Net res" where
  "publishKeyPackage h n s vni identity signer =
    (let rnd = entropy h (draws n); d = dir n in
     bindR (orPanic (NewKeyPackage (h_std h) (rnd_init rnd) (rnd_leaf rnd) s (dirCred d identity) signer maxLifetime))
       (\<lambda>(kp, ip, lp).
     bindR (orPanic (EncodeKeyPackageMessage kp)) (\<lambda>msg.
     Ok (n\<lparr>draws := draws n + 1,
       dir := d\<lparr>kps := (kps d)(identity := (kps d identity)(vni \<mapsto> \<lparr>kpMsg = msg, initPriv = ip, leafPriv = lp\<rparr>))\<rparr>\<rparr>))))"

definition resolver :: "kpDirectory \<Rightarrow> u32 \<Rightarrow> bytes \<Rightarrow> bytes option" where
  "resolver d vni identity = map_option kpMsg (kps d identity vni)"

definition joinerMaterial :: "kpDirectory \<Rightarrow> u32 \<Rightarrow> bytes \<Rightarrow> bytes \<times> bytes \<times> bytes" where
  "joinerMaterial d vni identity =
    (case kps d identity vni of None \<Rightarrow> ([], [], []) | Some e \<Rightarrow> (kpMsg e, initPriv e, leafPriv e))"

section \<open>Clients\<close>

text \<open>The sets of the code that are maps to \<^verbatim>\<open>true\<close> are lists without repetitions; the cached associations
  may be zero values.\<close>

record vniState =
  ctrl :: Controller
  joined :: bool
  joinEpoch :: u64
  saCache :: "(u64 \<times> SA option) list"
  peerEpoch :: "(ActorID \<times> u64) list"
  heard :: "ActorID list"
  outbox :: "(u64 \<times> bytes) list"
  confirmed :: "u64 list"
  hasHead :: bool
  headBase :: u64
  pendingWelcome :: "(bytes \<times> bytes) list"
  catchupReqs :: "(u64 \<times> nat) list"
  sendSeq :: "(u64 \<times> u64) list"
  inSPIs :: "(u64 \<times> u32 list) list"
  replay :: "(u32 \<times> replayWin) list"

definition newVNIState :: "Controller \<Rightarrow> vniState" where
  "newVNIState c = \<lparr>ctrl = c, joined = False, joinEpoch = 0, saCache = [], peerEpoch = [], heard = [], outbox = [],
     confirmed = [], hasHead = False, headBase = 0, pendingWelcome = [], catchupReqs = [], sendSeq = [], inSPIs = [],
     replay = []\<rparr>"

record Client =
  cl_id :: ActorID
  cl_suite :: Suite
  cl_signer :: Signer
  cl_identity :: bytes
  vnis :: "(u32 \<times> vniState) list"
  dsIDs :: "ActorID list"
  cl_W :: int
  mbbDisabled :: bool
  cl_encryptHandshakes :: bool
  sharedSPIReplay :: bool

definition newClient :: "ActorID \<Rightarrow> Suite \<Rightarrow> Signer \<Rightarrow> bytes \<Rightarrow> ActorID list \<Rightarrow> int \<Rightarrow> Client" where
  "newClient i s signer identity ids w = \<lparr>cl_id = i, cl_suite = s, cl_signer = signer, cl_identity = identity,
     vnis = [], dsIDs = ids, cl_W = w, mbbDisabled = False, cl_encryptHandshakes = False, sharedSPIReplay = False\<rparr>"

definition setVNI :: "u32 \<Rightarrow> vniState \<Rightarrow> Client \<Rightarrow> Client" where
  "setVNI ch st c = c\<lparr>vnis := AList.update ch st (vnis c)\<rparr>"

text \<open>The pointer to the state of a channel, if there is one.\<close>

abbreviation vniOf :: "Client \<Rightarrow> u32 \<Rightarrow> vniState option" where
  "vniOf c ch \<equiv> map_of (vnis c) ch"

lemma vniOf_setVNI [simp]: "vniOf (setVNI ch st c) = (vniOf c)(ch \<mapsto> st)"
  by (auto simp: fun_eq_iff setVNI_def update_conv)

lemma setVNI_simps [simp]:
  "cl_id (setVNI ch st c) = cl_id c" "dsIDs (setVNI ch st c) = dsIDs c" "cl_identity (setVNI ch st c) = cl_identity c"
  "cl_W (setVNI ch st c) = cl_W c" "mbbDisabled (setVNI ch st c) = mbbDisabled c"
  "sharedSPIReplay (setVNI ch st c) = sharedSPIReplay c" "cl_suite (setVNI ch st c) = cl_suite c"
  by (simp_all add: setVNI_def)

end
