(* ===== verification/Bench.thy ===== *)
theory Bench
  imports InteropProps ClientState
begin

text \<open>
  The size measurements of \<^verbatim>\<open>src/bench/bench.go\<close>.  The signers and the random bytes that the
  code draws are arguments: \<open>sig i\<close> and \<open>kr i\<close> belong to the \<open>i\<close>-th key package.  The group that is measured has exactly the
  number of members asked for, at the leaves from the left.
\<close>

section \<open>Definitions\<close>

datatype Op = OpUpdate | OpAdd | OpRemove | UnknownOp int

definition bench_life :: Lifetime where
  "bench_life = \<lparr>NotBefore = 0, NotAfter = NOT 0\<rparr>"

definition bench_cred :: "string \<Rightarrow> Credential" where
  "bench_cred i = \<lparr>CredentialType = CredentialTypeBasic, Identity = bytesOf i, Certificates = []\<rparr>"

text \<open>What \<^verbatim>\<open>ed25519.GenerateKey\<close> returned; an error panics.\<close>

definition bench_newSigner :: "Signer res \<Rightarrow> Signer res" where
  "bench_newSigner generated = orPanic generated"

definition bench_keyPackage :: "Std \<Rightarrow> Signer res \<Rightarrow> bytes \<times> bytes \<Rightarrow> Suite \<Rightarrow> string \<Rightarrow> KeyPackage res" where
  "bench_keyPackage std sig kr s i =
    bindR (bench_newSigner sig) (\<lambda>signer.
    bindR (orPanic (NewKeyPackage std (fst kr) (snd kr) s (bench_cred i) signer bench_life)) (\<lambda>(kp, _, _). Ok kp))"

definition BuildGroup :: "Std \<Rightarrow> (nat \<Rightarrow> Signer res) \<Rightarrow> (nat \<Rightarrow> bytes \<times> bytes) \<Rightarrow> Rand \<Rightarrow> Suite \<Rightarrow> int \<Rightarrow> Group res" where
  "BuildGroup std sig kr rnd s m =
    (if m < 1 then Err ''member count M must be >= 1''
     else
       bindR (bench_newSigner (sig 0)) (\<lambda>signer.
       bindR (NewGroup std (fst (kr 0)) (snd (kr 0)) s (bytesOf ''bench-group'') (bench_cred ''founder'') signer bench_life) (\<lambda>g.
       if m = 1 then Ok g
       else
         bindR (mapR (\<lambda>i. bindR (bench_keyPackage std (sig i) (kr i) s (''m-'' @ showInt (int i))) (\<lambda>kp. Ok (ProposeAdd kp)))
           [1..<nat m]) (\<lambda>adds.
         case Group_Commit std rnd g \<lparr>ByValue = adds, ByReference = []\<rparr> of
           (Inl e, _) \<Rightarrow> Inl e
         | (Inr _, g) \<Rightarrow> Ok g))))"

definition MeasureCommitBytes :: "Std \<Rightarrow> (nat \<Rightarrow> Signer res) \<Rightarrow> (nat \<Rightarrow> bytes \<times> bytes) \<Rightarrow> Rand \<Rightarrow> Rand \<Rightarrow> Suite \<Rightarrow> int \<Rightarrow> Op \<Rightarrow> nat res" where
  "MeasureCommitBytes std sig kr rnd rnd' s m op =
    bindR (BuildGroup std sig kr rnd s m) (\<lambda>g.
    bindR
      (case op of
         OpUpdate \<Rightarrow> Ok []
       | OpAdd \<Rightarrow> bindR (bench_keyPackage std (sig (nat m)) (kr (nat m)) s ''joiner'') (\<lambda>kp. Ok [ProposeAdd kp])
       | OpRemove \<Rightarrow>
           (let leaves = ActiveLeaves g in
            if length leaves < 2 then Err ''need >=2 members to remove''
            else Ok [ProposeRemove (leaves ! 1)])
       | UnknownOp _ \<Rightarrow> Err ''unknown op'') (\<lambda>ps.
    bindR (fst (Group_Commit std rnd' g \<lparr>ByValue = ps, ByReference = []\<rparr>)) (\<lambda>(commit, _).
      Ok (length commit))))"

text \<open>A commit without a welcome has the length of a nil slice.\<close>

definition MeasureWelcomeBytes :: "Std \<Rightarrow> (nat \<Rightarrow> Signer res) \<Rightarrow> (nat \<Rightarrow> bytes \<times> bytes) \<Rightarrow> Rand \<Rightarrow> Rand \<Rightarrow> Suite \<Rightarrow> int \<Rightarrow> nat res" where
  "MeasureWelcomeBytes std sig kr rnd rnd' s m =
    bindR (BuildGroup std sig kr rnd s m) (\<lambda>g.
    bindR (bench_keyPackage std (sig (nat m)) (kr (nat m)) s ''joiner'') (\<lambda>kp.
    bindR (fst (Group_Commit std rnd' g \<lparr>ByValue = [ProposeAdd kp], ByReference = []\<rparr>)) (\<lambda>(_, w).
      Ok (case w of None \<Rightarrow> 0 | Some b \<Rightarrow> length b))))"

section \<open>The size of the group\<close>

lemma bench_cred_wf: "wfCredential (bench_cred i)"
  by (simp add: bench_cred_def wfCredential_def)

lemma committed_iff:
  "(case Group_Commit std rnd g opt of (Inl e, _) \<Rightarrow> Inl e | (Inr _, g) \<Rightarrow> Ok g) = Ok h \<longleftrightarrow>
    (\<exists>out. Group_Commit std rnd g opt = (Ok out, h))"
  by (cases "Group_Commit std rnd g opt"; cases "fst (Group_Commit std rnd g opt)") auto

lemma mapped_adds:
  "mapR (\<lambda>i. bindR (f i) (\<lambda>kp. Ok (ProposeAdd kp))) xs = Ok adds \<Longrightarrow> \<exists>packs. adds = map ProposeAdd packs \<and> length packs = length xs"
proof (induction xs arbitrary: adds)
  case (Cons x xs)
  then obtain kp packs where "adds = ProposeAdd kp # map ProposeAdd packs" "length packs = length xs" by (fastforce simp: bindR_Inr_iff)
  then show ?case by (intro exI [of _ "kp # packs"]) simp
qed simp

section \<open>Properties\<close>

text \<open>C18: the group that is measured has the size asked for.  When \<^verbatim>\<open>BuildGroup\<close> succeeds for a number of members up to
  2^30, the active leaves of the group are exactly the first that many, from the left, and the first is the
  committer's own.
\<close>

theorem built_group_size:
  assumes "BuildGroup std sig kr rnd s m = Ok g" and "m \<le> 2 ^ 30"
  shows "ActiveLeaves g = map of_nat [0..<nat m] \<and> ownLeaf g = 0 \<and> 1 \<le> m"
proof -
  obtain signer g0 where g0: "NewGroup std (fst (kr 0)) (snd (kr 0)) s (bytesOf ''bench-group'') (bench_cred ''founder'') signer bench_life = Ok g0"
    "m = 1 \<Longrightarrow> g = g0" "1 \<le> m"
    "m \<noteq> 1 \<Longrightarrow> \<exists>adds out. mapR (\<lambda>i. bindR (bench_keyPackage std (sig i) (kr i) s (''m-'' @ showInt (int i))) (\<lambda>kp. Ok (ProposeAdd kp)))
           [1..<nat m] = Ok adds \<and> Group_Commit std rnd g0 \<lparr>ByValue = adds, ByReference = []\<rparr> = (Ok out, g)"
    using assms(1) unfolding BuildGroup_def
    by (cases "m < 1"; cases "m = 1") (auto simp: bindR_Inr_iff committed_iff)
  obtain lf where lf: "g_tree g0 = NewRatchetTree s lf" "ownLeaf g0 = 0" "wfLeafNode lf"
    by (rule founder_tree [OF g0(1) bench_cred_wf])
  have "(\<exists>h. fullTree h (g_tree g)) \<and> dom (members (g_tree g)) = {..<nat m} \<and> ownLeaf g = 0"
  proof (cases "m = 1")
    case True
    then show ?thesis using g0(2) lf single_tree [OF lf(3), of s] by (simp add: treeInv_def)
  next
    case False
    then obtain adds out where a: "mapR (\<lambda>i. bindR (bench_keyPackage std (sig i) (kr i) s (''m-'' @ showInt (int i))) (\<lambda>kp. Ok (ProposeAdd kp)))
           [1..<nat m] = Ok adds" "Group_Commit std rnd g0 \<lparr>ByValue = adds, ByReference = []\<rparr> = (Ok out, g)"
      using g0(4) by blast
    obtain packs where p: "adds = map ProposeAdd packs" "length packs = nat m - 1"
      using mapped_adds [OF a(1)] by auto
    then have "Suc (length packs) = nat m" "Suc (length packs) \<le> 2 ^ 30" using g0(3) assms(2) by auto
    then show ?thesis
      using added_members [OF a(2) [unfolded p(1)] lf(1,3,2)] Group_Commit_identity [OF a(2)] lf(2) by (simp add: identityOf_def)
  qed
  then show ?thesis using active_leaves g0(3) by blast
qed

section \<open>Witness\<close>

definition benchSigner :: Signer where
  "benchSigner = \<lparr>Public = ECDSAPublic [2], Sign = (\<lambda>m. Ok (2 # take 4 m))\<rparr>"

definition benchLeaf :: "bytes \<Rightarrow> LeafNode" where
  "benchLeaf sg = \<lparr>leaf_EncryptionKey = [2], SignatureKey = [2], leaf_Credential = bench_cred ''founder'',
     leaf_Capabilities = defaultCapabilities p256Suite, LeafNodeSource = LeafNodeSourceKeyPackage,
     leaf_Lifetime = Some bench_life, leaf_ParentHash = [], leaf_Extensions = [], leaf_Signature = sg\<rparr>"

lemmas bench_eval = benchLeaf_def bench_cred_def bench_life_def guest_eval marshal_eval medium_strings bytesOf_def

lemma bench_package:
  "\<exists>kp. NewKeyPackage tinyStd [3] [2] p256Suite (bench_cred ''founder'') benchSigner bench_life = Ok (kp, [3], [2]) \<and> kp_LeafNode kp = benchLeaf [2]"
proof -
  have g: "GenerateHPKEKeyPair tinyStd p256Suite x = Ok (x, x)" for x
    by (simp add: GenerateHPKEKeyPair_def tinyStd_def demoStd_def)
  have p: "SignaturePublicKey p256Suite benchSigner = Ok [2]" by (simp add: SignaturePublicKey_def p256Suite_def benchSigner_def)
  have "\<exists>b. length b < 500 \<and> LeafNode_tbs (benchLeaf []) [] 0 = Ok b" by (simp add: LeafNode_tbs_def bench_eval)
  then have l: "SignLeafNode tinyStd p256Suite benchSigner (benchLeaf []) [] 0 = Ok (benchLeaf [2])"
    using guest_signs(1) by (auto simp: SignLeafNode_def benchLeaf_def benchSigner_def)
  have "\<exists>b. length b < 500 \<and> KeyPackage_tbsBytes \<lparr>kp_Version = ProtocolVersionMLS10, kp_CipherSuite = ID p256Suite, InitKey = [3],
       kp_LeafNode = benchLeaf [2], kp_Extensions = [], kp_Signature = []\<rparr> = Ok b"
    by (simp add: KeyPackage_tbsBytes_def KeyPackage_marshalTBS_def LeafNode_MarshalMLS_def write_fun bench_eval)
  then obtain b where b: "length b < 500" "KeyPackage_tbsBytes \<lparr>kp_Version = ProtocolVersionMLS10, kp_CipherSuite = ID p256Suite, InitKey = [3],
       kp_LeafNode = benchLeaf [2], kp_Extensions = [], kp_Signature = []\<rparr> = Ok b" by blast
  show ?thesis
    using b(2) l guest_signs(2) [OF b(1), folded benchSigner_def]
    unfolding benchLeaf_def [of "[]"] by (simp add: NewKeyPackage_def g p)
qed

lemma one_leaf: "Root 1 = 0" "leafCount (NewRatchetTree s lf) = 1"
  by code_simp (simp add: leafCount_def NewRatchetTree_def len32_def)

lemma bench_rootHash: "RootTreeHash tinyStd (NewRatchetTree p256Suite (benchLeaf [2])) = Ok []"
proof -
  have "\<exists>b. leafHashInput 0 (Some (benchLeaf [2])) = Ok b" by (simp add: bench_eval)
  then show ?thesis
    unfolding RootTreeHash_def TreeHash_def one_leaf treeHashExcept.simps [of _ _ 0]
    by (auto simp: two_leaves NewRatchetTree_def goIndex_def leafOf_def)
qed

lemma bench_context:
  "\<exists>b. length b < 64 \<and> GroupContext_MarshalMLS \<lparr>gc_Version = ProtocolVersionMLS10, gc_CipherSuite = ID p256Suite,
    gc_GroupID = bytesOf ''bench-group'', gc_Epoch = 0, gc_TreeHash = [], ConfirmedTranscriptHash = [], gc_Extensions = []\<rparr> = Ok b"
  by (simp add: frame_eval bytesOf_def p256_ID)

lemma bench_secretTree: "\<exists>st. NewSecretTree tinyStd p256Suite 1 zeros = Ok st"
  by (simp add: NewSecretTree_def one_leaf deriveNode.simps [of _ _ 0] two_leaves tiny_expand)

lemma bench_founds:
  "\<exists>g. NewGroup tinyStd [3] [2] p256Suite (bytesOf ''bench-group'') (bench_cred ''founder'') benchSigner bench_life = Ok g"
proof -
  obtain kp where kp: "NewKeyPackage tinyStd [3] [2] p256Suite (bench_cred ''founder'') benchSigner bench_life = Ok (kp, [3], [2])"
    "kp_LeafNode kp = benchLeaf [2]" using bench_package by blast
  obtain b where b: "length b < 64" "GroupContext_MarshalMLS \<lparr>gc_Version = ProtocolVersionMLS10, gc_CipherSuite = ID p256Suite,
      gc_GroupID = bytesOf ''bench-group'', gc_Epoch = 0, gc_TreeHash = [], ConfirmedTranscriptHash = [], gc_Extensions = []\<rparr> = Ok b"
    using bench_context by blast
  obtain st where "NewSecretTree tinyStd p256Suite 1 zeros = Ok st" using bench_secretTree by blast
  moreover have "EncryptionSecret tinySecrets = zeros" by (simp add: tinySecrets_def)
  ultimately show ?thesis using kp b by (simp add: NewGroup_def bench_rootHash tiny_secrets)
qed

theorem built_group_size_witness:
  "\<exists>g. BuildGroup tinyStd (\<lambda>_. Ok benchSigner) (\<lambda>_. ([3], [2])) tinyRand p256Suite 1 = Ok g \<and> ActiveLeaves g = [0]"
proof -
  obtain g where g: "BuildGroup tinyStd (\<lambda>_. Ok benchSigner) (\<lambda>_. ([3], [2])) tinyRand p256Suite 1 = Ok g"
    using bench_founds by (auto simp: BuildGroup_def bench_newSigner_def orPanic_def)
  from built_group_size [OF g] g show ?thesis by auto
qed

end
