(* ===== verification/Scaling.thy ===== *)
theory Scaling
  imports Bench "HOL-Library.Signed_Division" "HOL-Library.Product_Lexorder"
begin

text \<open>
  The load projection of \<^verbatim>\<open>src/scaling/model.go\<close> and \<^verbatim>\<open>src/scaling/sweep.go\<close> and the evaluation of
  \<^verbatim>\<open>src/cmd/scalebench/main.go\<close>.  The floating-point operations are a record argument; the definitions and
  theorems hold for any of them.  The rendering of the rows as text is not modelled.
\<close>

section \<open>Projection\<close>

text \<open>The operations on \<^verbatim>\<open>float64\<close> that the code uses.\<close>

record 'f Float64 =
  float64 :: "int \<Rightarrow> 'f"
  fadd :: "'f \<Rightarrow> 'f \<Rightarrow> 'f"
  fmul :: "'f \<Rightarrow> 'f \<Rightarrow> 'f"
  fdiv :: "'f \<Rightarrow> 'f \<Rightarrow> 'f"
  fless :: "'f \<Rightarrow> 'f \<Rightarrow> bool"
  toInt64 :: "'f \<Rightarrow> int"

record 'f Params =
  par_H :: int
  par_V :: int
  par_M :: int
  par_S :: int
  RRekey :: 'f
  LambdaMove :: 'f
  BytesPerCommit :: int
  CPUApplyNanos :: int
  CPUCommitNanos :: int
  MTUPayload :: int
  FwdBudgetBytesPerSec :: 'f
  PktBudgetPerSec :: 'f

record 'f Projection =
  Density :: 'f
  ReflectorFwdBytesPerSec :: 'f
  ReflectorOrderOpsPerSec :: 'f
  HostApplyPerSec :: 'f
  HostSAInstallsPerSec :: 'f
  HostCPUFracBusy :: 'f
  HostCommitCPUFracBusy :: 'f
  ReflectorSaturated :: bool
  PacketsPerCommit :: int
  ReflectorFwdPktsPerSec :: 'f
  ReflectorPktSaturated :: bool

definition shards :: "'f Params \<Rightarrow> int" where
  "shards p = (if par_S p < 1 then 1 else par_S p)"

definition Project :: "'f Float64 \<Rightarrow> 'f Params \<Rightarrow> 'f Projection" where
  "Project F p =
    (let rate = fadd F (RRekey p) (LambdaMove p);
         density = fdiv F (fmul F (float64 F (par_V p)) (float64 F (par_M p))) (float64 F (par_H p));
         perShardVNIs = fdiv F (float64 F (par_V p)) (float64 F (shards p));
         fanout = float64 F (par_M p - 1);
         fwd = fmul F (fmul F (fmul F perShardVNIs rate) fanout) (float64 F (BytesPerCommit p));
         apply_rate = fmul F density rate;
         committerRate =
           (if 0 < par_H p then fmul F (fdiv F (float64 F (par_V p)) (float64 F (par_H p))) rate else float64 F 0);
         packetsPerCommit =
           (if 0 < MTUPayload p then (BytesPerCommit p + MTUPayload p - 1) sdiv MTUPayload p else 0);
         fwdPkts = fmul F (fmul F (fmul F perShardVNIs rate) fanout) (float64 F packetsPerCommit);
         e9 = float64 F 1000000000 in
     \<lparr>Density = density, ReflectorFwdBytesPerSec = fwd, ReflectorOrderOpsPerSec = fmul F perShardVNIs rate,
      HostApplyPerSec = apply_rate, HostSAInstallsPerSec = apply_rate,
      HostCPUFracBusy = fdiv F (fmul F apply_rate (float64 F (CPUApplyNanos p))) e9,
      HostCommitCPUFracBusy = fdiv F (fmul F committerRate (float64 F (CPUCommitNanos p))) e9,
      ReflectorSaturated = (fless F (float64 F 0) (FwdBudgetBytesPerSec p) \<and> fless F (FwdBudgetBytesPerSec p) fwd),
      PacketsPerCommit = packetsPerCommit, ReflectorFwdPktsPerSec = fwdPkts,
      ReflectorPktSaturated = (fless F (float64 F 0) (PktBudgetPerSec p) \<and> fless F (PktBudgetPerSec p) fwdPkts)\<rparr>)"

record 'f IKEv2Projection =
  EstablishHandshakes :: 'f
  HandshakesPerSecSteady :: 'f
  DataPlaneMemberVNIsPerHost :: 'f

definition IKEv2Project :: "'f Float64 \<Rightarrow> 'f Params \<Rightarrow> 'f IKEv2Projection" where
  "IKEv2Project F p =
    \<lparr>EstablishHandshakes =
       fdiv F (fmul F (fmul F (float64 F (par_V p)) (float64 F (par_M p))) (float64 F (par_M p - 1))) (float64 F 2),
     HandshakesPerSecSteady = fmul F (fmul F (float64 F (par_V p)) (LambdaMove p)) (float64 F (par_M p - 1)),
     DataPlaneMemberVNIsPerHost = fdiv F (fmul F (float64 F (par_V p)) (float64 F (par_M p))) (float64 F (par_H p))\<rparr>"

section \<open>Sweep\<close>

record 'f Row =
  row_H :: int
  row_V :: int
  row_M :: int
  row_MLS :: "'f Projection"
  row_IKEv2 :: "'f IKEv2Projection"

definition rowAt :: "'f Float64 \<Rightarrow> 'f Params \<Rightarrow> int \<Rightarrow> int \<Rightarrow> 'f Row" where
  "rowAt F b h v =
    (let p = b\<lparr>par_H := h, par_V := v\<rparr> in
     \<lparr>row_H = h, row_V = v, row_M = par_M p, row_MLS = Project F p, row_IKEv2 = IKEv2Project F p\<rparr>)"

definition rowsOf :: "'f Float64 \<Rightarrow> 'f Params \<Rightarrow> int list \<Rightarrow> int list \<Rightarrow> 'f Row list" where
  "rowsOf F b hs vs = concat (map (\<lambda>h. map (rowAt F b h) vs) hs)"

text \<open>The comparison given to \<^verbatim>\<open>sort.Slice\<close>.\<close>

definition rowLess :: "'f Row \<Rightarrow> 'f Row \<Rightarrow> bool" where
  "rowLess a b = (if row_H a \<noteq> row_H b then row_H a < row_H b else row_V a < row_V b)"

definition Sweep :: "'f Float64 \<Rightarrow> 'f Params \<Rightarrow> int list \<Rightarrow> int list \<Rightarrow> 'f Row list" where
  "Sweep F b hs vs = sort_key (\<lambda>r. (row_H r, row_V r)) (rowsOf F b hs vs)"

definition kneeStep :: "('f Row \<Rightarrow> bool) \<Rightarrow> int \<times> bool \<Rightarrow> 'f Row \<Rightarrow> int \<times> bool" where
  "kneeStep saturated st r =
    (let (best, found) = st in if saturated r \<and> (\<not> found \<or> row_V r < best) then (row_V r, True) else (best, found))"

definition Knee :: "'f Row list \<Rightarrow> int \<times> bool" where
  "Knee rows = foldl (kneeStep (\<lambda>r. ReflectorSaturated (row_MLS r))) (0, False) rows"

definition PktKnee :: "'f Row list \<Rightarrow> int \<times> bool" where
  "PktKnee rows = foldl (kneeStep (\<lambda>r. ReflectorPktSaturated (row_MLS r))) (0, False) rows"

section \<open>The measurement program\<close>

record 'f config =
  cfg_M :: int
  cfg_hosts :: "int list"
  cfg_vnis :: "int list"
  rekeySeconds :: 'f
  moveSeconds :: 'f
  fwdBudgetMBps :: 'f
  mtuPayload :: int
  pktBudgetPps :: 'f
  cpuCommitMs :: 'f
  cpuApplyMs :: 'f
  suiteID :: u16

text \<open>What the report of a run shows: the rows, the knee in bytes and, if asked for, the knee in packets.\<close>

record 'f Report =
  rep_bytesPerCommit :: nat
  rep_rows :: "'f Row list"
  rep_knee :: "int \<times> bool"
  rep_pktKnee :: "(int \<times> bool) option"

definition scalebench_run :: "Std \<Rightarrow> (nat \<Rightarrow> Signer res) \<Rightarrow> (nat \<Rightarrow> bytes \<times> bytes) \<Rightarrow> Rand \<Rightarrow> Rand \<Rightarrow> 'f Float64 \<Rightarrow> 'f config \<Rightarrow>
  'f Report res" where
  "scalebench_run std sig kr rnd rnd' F cf =
    (case Lookup (suiteID cf) of
       None \<Rightarrow> Err ''ciphersuite not registered''
     | Some s \<Rightarrow>
         bindR (MeasureCommitBytes std sig kr rnd rnd' s (cfg_M cf) OpUpdate) (\<lambda>bytesPerCommit.
         let b = \<lparr>par_H = 0, par_V = 0, par_M = cfg_M cf, par_S = 1,
               RRekey = fdiv F (float64 F 1) (rekeySeconds cf), LambdaMove = fdiv F (float64 F 1) (moveSeconds cf),
               BytesPerCommit = int bytesPerCommit,
               CPUApplyNanos = toInt64 F (fmul F (cpuApplyMs cf) (float64 F 1000000)),
               CPUCommitNanos = toInt64 F (fmul F (cpuCommitMs cf) (float64 F 1000000)),
               MTUPayload = mtuPayload cf,
               FwdBudgetBytesPerSec = fmul F (fwdBudgetMBps cf) (float64 F 1000000),
               PktBudgetPerSec = pktBudgetPps cf\<rparr>;
             rows = Sweep F b (cfg_hosts cf) (cfg_vnis cf) in
         Ok \<lparr>rep_bytesPerCommit = bytesPerCommit, rep_rows = rows, rep_knee = Knee rows,
              rep_pktKnee = (if 0 < mtuPayload cf \<and> fless F (float64 F 0) (pktBudgetPps cf) then Some (PktKnee rows) else None)\<rparr>))"

section \<open>The sweep and its knee\<close>

lemma rowLess_key: "rowLess a b \<longleftrightarrow> (row_H a, row_V a) < (row_H b, row_V b)"
  by (auto simp: rowLess_def)

lemma row_determined: "r \<in> set (rowsOf F b hs vs) \<Longrightarrow> r = rowAt F b (row_H r) (row_V r)"
  by (auto simp: rowsOf_def rowAt_def Let_def)

text \<open>Rows with the same key are equal, so that every way of sorting gives the same list.\<close>

lemma sorted_determined:
  assumes "mset rs = mset (rowsOf F b hs vs)" "sorted_wrt (\<lambda>x y. \<not> rowLess y x) rs"
  shows "rs = Sweep F b hs vs"
proof -
  let ?k = "\<lambda>r :: 'a Row. (row_H r, row_V r)"
  have "sorted (map ?k rs)"
    using assms(2) by (simp only: sorted_map rowLess_key not_less)
  moreover have "mset (map ?k rs) = mset (map ?k (Sweep F b hs vs))" using assms(1) by (simp add: Sweep_def)
  moreover have "sorted (map ?k (Sweep F b hs vs))" by (simp add: Sweep_def)
  ultimately have k: "map ?k rs = map ?k (Sweep F b hs vs)"
    using properties_for_sort [of "map ?k rs" "map ?k (Sweep F b hs vs)"] sorted_sort_id [of "map ?k (Sweep F b hs vs)"] by simp
  have set: "set rs = set (rowsOf F b hs vs)" "set (Sweep F b hs vs) = set (rowsOf F b hs vs)"
    using assms(1) mset_eq_setD by (auto simp: Sweep_def)
  have "xs = map (\<lambda>(h, v). rowAt F b h v) (map ?k xs)" if "set xs = set (rowsOf F b hs vs)" for xs
  proof -
    have "\<And>r. r \<in> set xs \<Longrightarrow> rowAt F b (row_H r) (row_V r) = r" using that row_determined [of _ F b hs vs] by auto
    then show ?thesis by (simp add: map_idI)
  qed
  then show ?thesis using k set by metis
qed

text \<open>The pair of a search: the least value among the rows that satisfy the condition, if there is one.\<close>

definition leastV :: "('f Row \<Rightarrow> bool) \<Rightarrow> 'f Row list \<Rightarrow> int \<times> bool" where
  "leastV sat rows = (if \<exists>r\<in>set rows. sat r then (Min (row_V ` {r \<in> set rows. sat r}), True) else (0, False))"

lemma knee_least: "foldl (kneeStep sat) (0, False) rows = leastV sat rows"
proof (induction rows rule: rev_induct)
  case (snoc r rows)
  let ?S = "{x \<in> set rows. sat x}"
  show ?case
  proof (cases "sat r")
    case True
    then have S: "{x \<in> set (rows @ [r]). sat x} = insert r ?S" by auto
    show ?thesis
    proof (cases "\<exists>x\<in>set rows. sat x")
      case True
      then have "?S \<noteq> {}" by auto
      then have "Min (row_V ` insert r ?S) = min (row_V r) (Min (row_V ` ?S))" by simp
      then show ?thesis using snoc True \<open>sat r\<close> unfolding leastV_def S by (auto simp: kneeStep_def min_def)
    next
      case False
      then have "?S = {}" by auto
      have "leastV sat (rows @ [r]) = (row_V r, True)" unfolding leastV_def S \<open>?S = {}\<close> using \<open>sat r\<close> by simp
      then show ?thesis using snoc False \<open>sat r\<close> by (simp add: kneeStep_def leastV_def [of sat rows])
    qed
  next
    case False
    then have "{x \<in> set (rows @ [r]). sat x} = ?S" by auto
    then show ?thesis using snoc False unfolding leastV_def by (simp add: kneeStep_def)
  qed
qed (simp add: leastV_def)

lemma saturated_row: "ReflectorSaturated (row_MLS (rowAt F b h v)) = ReflectorSaturated (Project F (b\<lparr>par_V := v\<rparr>))"
  by (simp add: rowAt_def Project_def Let_def shards_def)

section \<open>Properties\<close>

text \<open>C23: the sweep is deterministic and its knee is the smallest saturating number of networks.  Every list that has the
  rows of all pairs of hosts and networks and is sorted by the comparison of the code is the list that
  \<^verbatim>\<open>Sweep\<close> returns, although \<^verbatim>\<open>sort.Slice\<close> is not stable; on it \<^verbatim>\<open>Knee\<close> finds a number exactly when one of the swept
  numbers of networks saturates the byte budget, and then the least of them, whatever the numbers of hosts.
\<close>

theorem sweep_knee:
  assumes "mset rs = mset (rowsOf F b hs vs)" and "sorted_wrt (\<lambda>x y. \<not> rowLess y x) rs" and "hs \<noteq> []"
  shows "rs = Sweep F b hs vs \<and>
    Knee rs = (let S = {v \<in> set vs. ReflectorSaturated (Project F (b\<lparr>par_V := v\<rparr>))} in if S = {} then (0, False) else (Min S, True))"
proof -
  let ?sat = "\<lambda>r. ReflectorSaturated (row_MLS r)" and ?S = "{v \<in> set vs. ReflectorSaturated (Project F (b\<lparr>par_V := v\<rparr>))}"
  have "set rs = set (rowsOf F b hs vs)" using assms(1) by (rule mset_eq_setD)
  then have rows: "set rs = {rowAt F b h v |h v. h \<in> set hs \<and> v \<in> set vs}" by (auto simp: rowsOf_def)
  have V: "row_V (rowAt F b h v) = v" for h v by (simp add: rowAt_def Let_def)
  have "row_V ` {r \<in> set rs. ?sat r} = ?S"
  proof
    show "row_V ` {r \<in> set rs. ?sat r} \<subseteq> ?S" using rows V by (auto simp: saturated_row)
    show "?S \<subseteq> row_V ` {r \<in> set rs. ?sat r}"
    proof
      fix v assume v: "v \<in> ?S"
      obtain h where "h \<in> set hs" using assms(3) by (cases hs) auto
      then have "rowAt F b h v \<in> {r \<in> set rs. ?sat r}" using v rows by (auto simp: saturated_row)
      then show "v \<in> row_V ` {r \<in> set rs. ?sat r}" using V [of h v] by (metis (no_types, lifting) image_eqI)
    qed
  qed
  then have "Knee rs = (if ?S = {} then (0, False) else (Min ?S, True))"
    unfolding Knee_def knee_least leastV_def by auto
  then show ?thesis using sorted_determined [OF assms(1,2)] by (simp add: Let_def)
qed

section \<open>Witness\<close>

definition wholeFloat :: "int Float64" where
  "wholeFloat = \<lparr>float64 = (\<lambda>x. x), fadd = (+), fmul = (*), fdiv = (div), fless = (<), toInt64 = (\<lambda>x. x)\<rparr>"

definition demoParams :: "int Params" where
  "demoParams = \<lparr>par_H = 0, par_V = 0, par_M = 20, par_S = 1, RRekey = 1, LambdaMove = 1, BytesPerCommit = 1000,
     CPUApplyNanos = 0, CPUCommitNanos = 0, MTUPayload = 1460, FwdBudgetBytesPerSec = 1000000, PktBudgetPerSec = 0\<rparr>"

theorem sweep_knee_witness: "Knee (Sweep wholeFloat demoParams [1000, 10] [100, 10, 30]) = (30, True)"
proof -
  let ?rs = "Sweep wholeFloat demoParams [1000, 10] [100, 10, 30]"
  have "mset ?rs = mset (rowsOf wholeFloat demoParams [1000, 10] [100, 10, 30])" by (simp add: Sweep_def)
  moreover have "sorted_wrt (\<lambda>x y. \<not> rowLess y x) ?rs"
    using sorted_sort_key [of "\<lambda>r. (row_H r, row_V r)"] by (simp only: Sweep_def sorted_map rowLess_key not_less)
  moreover have "{v \<in> set [100, 10, 30]. ReflectorSaturated (Project wholeFloat (demoParams\<lparr>par_V := v\<rparr>))} = {30, 100}"
    by (auto simp: Project_def wholeFloat_def demoParams_def shards_def Let_def)
  ultimately show ?thesis using sweep_knee [of ?rs wholeFloat demoParams "[1000, 10]" "[100, 10, 30]"] by simp
qed

end
