(* ===== verification/Client.thy ===== *)
theory Client
  imports ClientState
begin

text \<open>
  The client of the simulator, \<^verbatim>\<open>src/sim/client.go\<close>: founding and joining channels, the committer's
  reconciliation and rekeying with its resends, the handlers of inbound messages, and the data plane.
  An operation takes the client and the shared objects and returns both; a panic ends it.
\<close>

type_synonym 'r cn = "Client \<times> 'r Net"

section \<open>Addressing\<close>

definition optimisticOrdering :: "unit acceptor" where
  "optimisticOrdering u g epoch ref = (Ok True, ())"

definition reflectorFor :: "Client \<Rightarrow> u32 \<Rightarrow> ActorID res" where
  "reflectorFor c ch =
    (let i = nat (replicaOf ch) in if i < length (dsIDs c) then Ok (dsIDs c ! i) else Inl PanicIndex)"

definition toReflector :: "'r Host \<Rightarrow> Client \<Rightarrow> u32 \<Rightarrow> Envelope \<Rightarrow> 'r Net \<Rightarrow> 'r Net res" where
  "toReflector h c ch env n =
    bindR (reflectorFor c ch) (\<lambda>r. Publish (h_rand h) n (env\<lparr>env_Src := cl_id c, env_Dst := r\<rparr>))"

definition commitEnvelope :: "'r Host \<Rightarrow> u32 \<Rightarrow> u64 \<Rightarrow> bytes \<Rightarrow> Envelope" where
  "commitEnvelope h ch base msg = zeroEnvelope\<lparr>env_VNI := ch, env_Type := MsgCommit, env_Base := base,
     env_Payload := msg, env_Hash := contentHash (h_std h) msg\<rparr>"

definition welcomeEnvelope :: "'r Host \<Rightarrow> u32 \<Rightarrow> bytes \<Rightarrow> bytes \<Rightarrow> Envelope" where
  "welcomeEnvelope h ch i w = zeroEnvelope\<lparr>env_VNI := ch, env_Type := MsgWelcome, env_Joiner := i, env_Payload := w,
     env_Hash := contentHash (h_std h) w\<rparr>"

definition sendCommit :: "'r Host \<Rightarrow> Client \<Rightarrow> u32 \<Rightarrow> u64 \<Rightarrow> bytes \<Rightarrow> 'r Net \<Rightarrow> 'r Net res" where
  "sendCommit h c ch base msg n =
    bindR (toReflector h c ch (commitEnvelope h ch base msg) n) (\<lambda>n.
      Ok (counted (\<lambda>m. let m = commitFanout m (length msg) 1; m = m\<lparr>CommitsIssued := CommitsIssued m + 1\<rparr> in
        commitIssued m ch (base + 1) (clock (sched n))) n))"

definition sendWelcome :: "'r Host \<Rightarrow> Client \<Rightarrow> u32 \<Rightarrow> bytes \<Rightarrow> bytes list \<Rightarrow> 'r Net \<Rightarrow> 'r Net res" where
  "sendWelcome h c ch w added n = foldR (\<lambda>n i. toReflector h c ch (welcomeEnvelope h ch i w) n) n added"

section \<open>Members and peers\<close>

definition groupLeaves :: "Controller \<Rightarrow> u32 list" where
  "groupLeaves ct = (case c_g ct of None \<Rightarrow> [] | Some g \<Rightarrow> ActiveLeaves g)"

text \<open>The identities of the leaves for which there is a credential, in their order.\<close>

definition identityAt :: "Controller \<Rightarrow> u32 \<Rightarrow> bytes option res" where
  "identityAt ct leaf =
    (case c_g ct of
       None \<Rightarrow> Ok None
     | Some g \<Rightarrow> bindR (attempt (LeafCredential g leaf)) (\<lambda>r. Ok (map_option (\<lambda>(cred, _). Identity cred) r)))"

definition leafIdentitySet :: "Client \<Rightarrow> u32 \<Rightarrow> bytes list res" where
  "leafIdentitySet c ch =
    (case vniOf c ch of
       None \<Rightarrow> Ok []
     | Some st \<Rightarrow>
         if \<not> joined st then Ok []
         else foldR (\<lambda>out leaf. bindR (identityAt (ctrl st) leaf) (\<lambda>r.
           Ok (case r of None \<Rightarrow> out | Some i \<Rightarrow> List.insert i out))) [] (groupLeaves (ctrl st)))"

definition replicaMembers :: "Client \<Rightarrow> u32 \<Rightarrow> ActorID list res" where
  "replicaMembers c ch =
    bindR (leafIdentitySet c ch) (\<lambda>ids.
      Ok (fold (\<lambda>i out. case actorIDFromIdentity i of None \<Rightarrow> out | Some a \<Rightarrow> List.insert a out) ids []))"

text \<open>An epoch for a peer that has none yet.\<close>

definition seedPeer :: "Client \<Rightarrow> u64 \<Rightarrow> bytes \<Rightarrow> vniState \<Rightarrow> vniState" where
  "seedPeer c epoch i st =
    (case actorIDFromIdentity i of
       None \<Rightarrow> st
     | Some a \<Rightarrow>
         if a \<noteq> cl_id c \<and> map_of (peerEpoch st) a = None
         then st\<lparr>peerEpoch := AList.update a epoch (peerEpoch st)\<rparr> else st)"

text \<open>The same for the leaves of the group, with the identities to leave out.\<close>

definition seedLeaves :: "Client \<Rightarrow> u64 \<Rightarrow> bytes list \<Rightarrow> vniState \<Rightarrow> vniState res" where
  "seedLeaves c epoch without st =
    foldR (\<lambda>s leaf. bindR (identityAt (ctrl st) leaf) (\<lambda>r.
      Ok (case r of None \<Rightarrow> s | Some i \<Rightarrow> if i \<in> set without then s else seedPeer c epoch i s))) st
      (groupLeaves (ctrl st))"

definition initPeerEpochForNewMembers :: "u32 \<Rightarrow> bytes list \<Rightarrow> Client \<Rightarrow> Client res" where
  "initPeerEpochForNewMembers ch before c =
    (case vniOf c ch of
       None \<Rightarrow> Ok c
     | Some st \<Rightarrow>
         if \<not> joined st then Ok c
         else bindR (seedLeaves c (Controller_Epoch (ctrl st)) before st) (\<lambda>st. Ok (setVNI ch st c)))"

definition pruneDepartedPeers :: "u32 \<Rightarrow> Client \<Rightarrow> Client res" where
  "pruneDepartedPeers ch c =
    (case vniOf c ch of
       None \<Rightarrow> Ok c
     | Some st \<Rightarrow>
         if \<not> joined st then Ok c
         else
           bindR (replicaMembers c ch) (\<lambda>members.
           let gone = filter (\<lambda>a. a \<notin> set members) (map fst (peerEpoch st)) in
           Ok (setVNI ch (st\<lparr>peerEpoch := filter (\<lambda>(a, _). a \<notin> set gone) (peerEpoch st),
             heard := filter (\<lambda>a. a \<notin> set gone) (heard st)\<rparr>) c)))"

section \<open>Associations\<close>

definition saEpoch :: "SA option \<Rightarrow> u64" where
  "saEpoch sa = (case sa of None \<Rightarrow> 0 | Some s \<Rightarrow> sa_Epoch s)"

definition saSPI :: "SA option \<Rightarrow> u32" where
  "saSPI sa = (case sa of None \<Rightarrow> 0 | Some s \<Rightarrow> sa_SPI s)"

definition sendSPI :: "Client \<Rightarrow> SA option \<Rightarrow> u32" where
  "sendSPI c sa = (if sharedSPIReplay c then saSPI sa else case sa of None \<Rightarrow> 0 | Some s \<Rightarrow> OwnSPI s)"

definition heldSPIs :: "Std \<Rightarrow> Controller \<Rightarrow> SA option \<Rightarrow> u32 list res" where
  "heldSPIs std ct sa =
    foldR (\<lambda>spis leaf.
      bindR (attempt (case sa of
          None \<Rightarrow> Err ''ironcore: SA key not initialized (use DeriveSAKeys)''
        | Some s \<Rightarrow> SenderSPI std s leaf)) (\<lambda>r.
      Ok (case r of None \<Rightarrow> spis | Some x \<Rightarrow> List.insert x spis))) [saSPI sa] (groupLeaves ct)"

definition effectiveW :: "Client \<Rightarrow> int" where
  "effectiveW c = (if mbbDisabled c then 0 else cl_W c)"

definition trimSAs :: "Client \<Rightarrow> vniState \<Rightarrow> vniState" where
  "trimSAs c st =
    (let cur = Controller_Epoch (ctrl st); w = word_of_int (effectiveW c);
         old = filter (\<lambda>e. cur \<ge> w \<and> e < cur - w) (map fst (saCache st)) in
     st\<lparr>saCache := filter (\<lambda>(e, _). e \<notin> set old) (saCache st),
        inSPIs := filter (\<lambda>(e, _). e \<notin> set old) (inSPIs st)\<rparr>)"

definition cacheCurrentSA :: "Std \<Rightarrow> u32 \<Rightarrow> 'r cn \<Rightarrow> 'r cn res" where
  "cacheCurrentSA std ch cn =
    (let (c, n) = cn in
     case vniOf c ch of
       None \<Rightarrow> Ok (c, n)
     | Some st \<Rightarrow>
         if \<not> joined st then Ok (c, n)
         else
           case CurrentSA (ctrl st) of
             Inl _ \<Rightarrow> Ok (c, n)
           | Inr sa \<Rightarrow>
               bindR (heldSPIs std (ctrl st) sa) (\<lambda>spis.
               let st = trimSAs c (st\<lparr>saCache := AList.update (saEpoch sa) sa (saCache st),
                                   inSPIs := AList.update (saEpoch sa) spis (inSPIs st)\<rparr>) in
               Ok (setVNI ch st c, counted (\<lambda>m. observeOverlap m (length (saCache st))) n)))"

definition sendEpoch :: "Client \<Rightarrow> vniState \<Rightarrow> u64" where
  "sendEpoch c st =
    (let cur = Controller_Epoch (ctrl st) in
     if mbbDisabled c then cur
     else fold (\<lambda>a mn. let e = getOr 0 (peerEpoch st) a in if e < mn then e else mn) (sort (map fst (peerEpoch st))) cur)"

section \<open>Founding and joining\<close>

text \<open>The resolver of the code reads the directory when it is called; here it is set to the directory of
  the moment before each call that uses it.\<close>

definition controllerCfg :: "Client \<Rightarrow> kpDirectory \<Rightarrow> u32 \<Rightarrow> ControllerConfig" where
  "controllerCfg c d ch = \<lparr>cfg_VNI = ch, cfg_Suite = cl_suite c, Validator = Some BasicCredentialValidator_Validate,
     cfg_Cred = dirCred d (cl_identity c), cfg_Signer = cl_signer c, cfg_Lifetime = maxLifetime,
     Resolve = Some (resolver d ch),
     cfg_HandshakePrivacy = (if cl_encryptHandshakes c then HandshakeEncrypted else HandshakePlaintext)\<rparr>"

definition withDirectory :: "kpDirectory \<Rightarrow> u32 \<Rightarrow> Controller \<Rightarrow> Controller" where
  "withDirectory d ch ct = ct\<lparr>cfg := (cfg ct)\<lparr>Resolve := Some (resolver d ch)\<rparr>\<rparr>"

definition foundVNI :: "'r Host \<Rightarrow> u32 \<Rightarrow> 'r cn \<Rightarrow> 'r cn res" where
  "foundVNI h ch cn =
    (let (c, n) = cn in
     bindR (newFounderGroup h n (cl_suite c) ch (cl_identity c) (cl_signer c)) (\<lambda>(g, n).
     bindR (orPanic (NewController (h_std h) (controllerCfg c (dir n) ch) (Some g))) (\<lambda>ct.
     cacheCurrentSA (h_std h) ch
       (setVNI ch ((newVNIState ct)\<lparr>joined := True, joinEpoch := 0\<rparr>) c, Subscribe n ch (cl_id c)))))"

definition prospectiveVNI :: "'r Host \<Rightarrow> u32 \<Rightarrow> 'r cn \<Rightarrow> 'r cn res" where
  "prospectiveVNI h ch cn =
    (let (c, n) = cn in
     bindR (NewController (h_std h) (controllerCfg c (dir n) ch) None) (\<lambda>ct.
     bindR (publishKeyPackage h n (cl_suite c) ch (cl_identity c) (cl_signer c)) (\<lambda>n.
     Ok (setVNI ch (newVNIState ct) c, Subscribe n ch (cl_id c)))))"

definition leaveVNI :: "u32 \<Rightarrow> 'r cn \<Rightarrow> 'r cn" where
  "leaveVNI ch cn = (let (c, n) = cn in (c\<lparr>vnis := AList.delete ch (vnis c)\<rparr>, Unsubscribe n ch (cl_id c)))"

section \<open>Committing\<close>

definition canCommit :: "Client \<Rightarrow> u32 \<Rightarrow> bool" where
  "canCommit c ch =
    (case vniOf c ch of
       None \<Rightarrow> False
     | Some st \<Rightarrow> joined st \<and> IsCommitter (ctrl st) \<and> pendingWelcome st = [] \<and>
         (hasHead st \<longrightarrow> headBase st \<in> set (confirmed st)))"

definition recordHead :: "u64 \<Rightarrow> bytes \<Rightarrow> vniState \<Rightarrow> vniState" where
  "recordHead base msg st = st\<lparr>outbox := AList.update base msg (outbox st), hasHead := True, headBase := base\<rparr>"

definition noteAdded :: "Client \<Rightarrow> u64 \<Rightarrow> bytes \<Rightarrow> bytes \<Rightarrow> vniState \<Rightarrow> vniState" where
  "noteAdded c epoch w i st =
    (let st = seedPeer c epoch i st in st\<lparr>pendingWelcome := AList.update i w (pendingWelcome st)\<rparr>)"

abbreviation bytesOr :: "bytes option \<Rightarrow> bytes" where
  "bytesOr b \<equiv> (case b of None \<Rightarrow> [] | Some x \<Rightarrow> x)"

text \<open>What follows a successful commit: the head is recorded and sent.\<close>

definition sendHead :: "'r Host \<Rightarrow> u32 \<Rightarrow> u64 \<Rightarrow> bytes \<Rightarrow> 'r cn \<Rightarrow> 'r cn res" where
  "sendHead h ch base msg cn =
    (let (c, n) = cn in
     bindR (fromOption PanicNil (vniOf c ch)) (\<lambda>st.
     let c = setVNI ch (recordHead base msg st) c in
     bindR (sendCommit h c ch base msg n) (\<lambda>n. Ok (c, n))))"

definition welcomeAdded :: "'r Host \<Rightarrow> u32 \<Rightarrow> ReconcileResult \<Rightarrow> 'r cn \<Rightarrow> 'r cn res" where
  "welcomeAdded h ch res cn =
    (let (c, n) = cn; w = bytesOr (WelcomeMsg res) in
     if w \<noteq> [] \<and> Added res \<noteq> [] then
       bindR (fromOption PanicNil (vniOf c ch)) (\<lambda>st.
       let c = setVNI ch (fold (noteAdded c (Controller_Epoch (ctrl st)) w) (Added res) st) c in
       bindR (sendWelcome h c ch w (Added res) n) (\<lambda>n. Ok (c, n)))
     else Ok (c, n))"

definition client_reconcile :: "'r Host \<Rightarrow> u32 \<Rightarrow> bytes list \<Rightarrow> 'r cn \<Rightarrow> 'r cn res" where
  "client_reconcile h ch desired cn =
    (let (c, n) = cn in
     if \<not> canCommit c ch then Ok (c, n)
     else
       bindR (fromOption PanicNil (vniOf c ch)) (\<lambda>st.
       let ((res, err), ct, _) = Reconcile (h_std h) (entropy h (draws n)) optimisticOrdering ()
             (withDirectory (dir n) ch (ctrl st)) desired;
           c = setVNI ch (st\<lparr>ctrl := ct\<rparr>) c;
           n = measured h ''Reconcile'' n in
       case err of
         Some (Error _) \<Rightarrow> Ok (c, n)
       | Some f \<Rightarrow> Inl f
       | None \<Rightarrow>
           if \<not> Committed res then Ok (c, n)
           else
             bindR (cacheCurrentSA (h_std h) ch (c, n)) (\<lambda>(c, n).
             bindR (pruneDepartedPeers ch c) (\<lambda>c.
             bindR (sendHead h ch (Controller_Epoch ct - 1) (bytesOr (CommitMsg res)) (c, n)) (\<lambda>cn.
             welcomeAdded h ch res cn)))))"

definition client_rekey :: "'r Host \<Rightarrow> u32 \<Rightarrow> 'r cn \<Rightarrow> 'r cn res" where
  "client_rekey h ch cn =
    (let (c, n) = cn in
     if \<not> canCommit c ch then Ok (c, n)
     else
       bindR (fromOption PanicNil (vniOf c ch)) (\<lambda>st.
       let base = Controller_Epoch (ctrl st);
           ((msg, won, err), ct, _) = Rekey (h_std h) (entropy h (draws n)) optimisticOrdering () (ctrl st);
           c = setVNI ch (st\<lparr>ctrl := ct\<rparr>) c;
           n = measured h ''Rekey'' n in
       case err of
         Some (Error _) \<Rightarrow> Ok (c, n)
       | Some f \<Rightarrow> Inl f
       | None \<Rightarrow>
           (case msg of
              None \<Rightarrow> Ok (c, n)
            | Some msg \<Rightarrow>
                if \<not> won then Ok (c, n)
                else bindR (cacheCurrentSA (h_std h) ch (c, n)) (\<lambda>cn. sendHead h ch base msg cn))))"

text \<open>The unconfirmed head and the outstanding welcomes, sent again.\<close>

definition resendUnacked :: "'r Host \<Rightarrow> Client \<Rightarrow> u32 \<Rightarrow> 'r Net \<Rightarrow> 'r Net res" where
  "resendUnacked h c ch n =
    (case vniOf c ch of
       None \<Rightarrow> Ok n
     | Some st \<Rightarrow>
         if \<not> joined st \<or> \<not> IsCommitter (ctrl st) then Ok n
         else
           bindR (if hasHead st \<and> headBase st \<notin> set (confirmed st) then
               (case map_of (outbox st) (headBase st) of
                  None \<Rightarrow> Ok n
                | Some msg \<Rightarrow>
                    bindR (toReflector h c ch (commitEnvelope h ch (headBase st) msg) n) (\<lambda>n.
                      Ok (counted (\<lambda>m. m\<lparr>CommitResends := CommitResends m + 1\<rparr>) n)))
             else Ok n) (\<lambda>n.
           foldR (\<lambda>n i. toReflector h c ch (welcomeEnvelope h ch i (getOr [] (pendingWelcome st) i)) n) n
             (sort (map fst (pendingWelcome st)))))"

definition emitHeartbeat :: "'r Host \<Rightarrow> u32 \<Rightarrow> 'r cn \<Rightarrow> 'r cn res" where
  "emitHeartbeat h ch cn =
    (let (c, n) = cn in
     case vniOf c ch of
       None \<Rightarrow> Ok (c, n)
     | Some st \<Rightarrow>
         if \<not> joined st then Ok (c, n)
         else
           bindR (Publish (h_rand h) n (zeroEnvelope\<lparr>env_VNI := ch, env_Type := MsgHeartbeat, env_Src := cl_id c,
             env_Dst := Broadcast, env_Base := Controller_Epoch (ctrl st)\<rparr>)) (\<lambda>n.
           bindR (resendUnacked h c ch n) (\<lambda>n. Ok (c, n))))"

section \<open>Inbound messages\<close>

text \<open>A commit for the current epoch, from the reflector or from its log; the first component says that the
  commit removed the client.\<close>

definition applyCommit :: "'r Host \<Rightarrow> u32 \<Rightarrow> bytes \<Rightarrow> bool \<Rightarrow> 'r cn \<Rightarrow> (bool \<times> 'r cn) res" where
  "applyCommit h ch payload timed cn =
    (let (c, n) = cn in
     bindR (leafIdentitySet c ch) (\<lambda>before.
     bindR (fromOption PanicNil (vniOf c ch)) (\<lambda>st.
     let (r, ct) = HandleCommit (h_std h) (ctrl st) payload;
         c = setVNI ch (st\<lparr>ctrl := ct\<rparr>) c;
         n = (if timed then measured h ''HandleCommit'' n else n) in
     case r of
       Inl (Error e) \<Rightarrow> if Error e = ErrSelfRemoved then Ok (True, leaveVNI ch (c, n)) else Ok (False, c, n)
     | Inl f \<Rightarrow> Inl f
     | Inr _ \<Rightarrow>
         bindR (cacheCurrentSA (h_std h) ch (c, n)) (\<lambda>(c, n).
         bindR (initPeerEpochForNewMembers ch before c) (\<lambda>c.
         bindR (pruneDepartedPeers ch c) (\<lambda>c.
         Ok (False, c, counted (\<lambda>m. let m = m\<lparr>CommitsApplied := CommitsApplied m + 1\<rparr> in
           commitConverged m ch (Controller_Epoch ct) (clock (sched n))) n)))))))"

text \<open>The echo of the client's own head by the reflector.\<close>

definition confirmHead :: "Std \<Rightarrow> Envelope \<Rightarrow> vniState \<Rightarrow> vniState" where
  "confirmHead std env st =
    (case map_of (outbox st) (env_Base env) of
       None \<Rightarrow> st
     | Some msg \<Rightarrow>
         if contentHash std msg = env_Hash env then st\<lparr>confirmed := List.insert (env_Base env) (confirmed st)\<rparr> else st)"

definition client_onCommit :: "'r Host \<Rightarrow> Envelope \<Rightarrow> 'r cn \<Rightarrow> 'r cn res" where
  "client_onCommit h env cn =
    (let (c, n) = cn; n = counted (\<lambda>m. m\<lparr>CommitDeliveries := CommitDeliveries m + 1\<rparr>) n in
     case vniOf c (env_VNI env) of
       None \<Rightarrow> Ok (c, n)
     | Some st \<Rightarrow>
         if \<not> joined st then Ok (c, n)
         else
           bindR (reflectorFor c (env_VNI env)) (\<lambda>r.
           let st = (if env_Src env = r then confirmHead (h_std h) env st else st);
               c = setVNI (env_VNI env) st c in
           if Controller_Epoch (ctrl st) \<noteq> env_Base env then Ok (c, n)
           else bindR (applyCommit h (env_VNI env) (env_Payload env) True (c, n)) (\<lambda>(_, cn). Ok cn)))"

definition onWelcome :: "'r Host \<Rightarrow> Envelope \<Rightarrow> 'r cn \<Rightarrow> 'r cn res" where
  "onWelcome h env cn =
    (let (c, n) = cn; ch = env_VNI env in
     case vniOf c ch of
       None \<Rightarrow> Ok (c, n)
     | Some st \<Rightarrow>
         if joined st then Ok (c, n)
         else
           let (kp, ip, lp) = joinerMaterial (dir n) ch (cl_identity c);
               (r, ct) = JoinViaWelcome (h_std h) (ctrl st) (env_Payload env) kp ip lp;
               st = st\<lparr>ctrl := ct\<rparr>;
               n = measured h ''JoinViaWelcome'' n in
           case r of
             Inl (Error _) \<Rightarrow> Ok (setVNI ch st c, n)
           | Inl f \<Rightarrow> Inl f
           | Inr _ \<Rightarrow>
               let c = setVNI ch (st\<lparr>joined := True, joinEpoch := Controller_Epoch ct\<rparr>) c in
               bindR (cacheCurrentSA (h_std h) ch (c, n)) (\<lambda>cn.
               bindR (emitHeartbeat h ch cn) (\<lambda>(c, n).
               bindR (fromOption PanicNil (vniOf c ch)) (\<lambda>st.
               let e = Controller_Epoch (ctrl st) in
               bindR (seedLeaves c (if e > 0 then e - 1 else e) [] st) (\<lambda>st. Ok (setVNI ch st c, n))))))"

definition requestCatchup :: "'r Host \<Rightarrow> u32 \<Rightarrow> u64 \<Rightarrow> 'r cn \<Rightarrow> 'r cn res" where
  "requestCatchup h ch from cn =
    (let (c, n) = cn;
         c = (case vniOf c ch of
                None \<Rightarrow> c
              | Some st \<Rightarrow> setVNI ch (st\<lparr>catchupReqs := AList.update from (getOr 0 (catchupReqs st) from + 1) (catchupReqs st)\<rparr>) c) in
     bindR (toReflector h c ch (zeroEnvelope\<lparr>env_VNI := ch, env_Type := MsgLogRequest, env_Base := from\<rparr>) n) (\<lambda>n.
     Ok (c, counted (\<lambda>m. m\<lparr>CatchupRequests := CatchupRequests m + 1\<rparr>) n)))"

text \<open>What a heartbeat tells about its sender.\<close>

definition noteHeartbeat :: "Envelope \<Rightarrow> vniState \<Rightarrow> vniState" where
  "noteHeartbeat env st =
    (let st = st\<lparr>heard := List.insert (env_Src env) (heard st)\<rparr>;
         last = getOr 0 (peerEpoch st) (env_Src env);
         st = (if env_Base env > last \<or> last = 0
               then st\<lparr>peerEpoch := AList.update (env_Src env) (env_Base env) (peerEpoch st)\<rparr> else st) in
     case identityFromActorID (env_Src env) of
       None \<Rightarrow> st
     | Some i \<Rightarrow> st\<lparr>pendingWelcome := AList.delete i (pendingWelcome st)\<rparr>)"

definition onHeartbeat :: "'r Host \<Rightarrow> Envelope \<Rightarrow> 'r cn \<Rightarrow> 'r cn res" where
  "onHeartbeat h env cn =
    (let (c, n) = cn; ch = env_VNI env in
     case vniOf c ch of
       None \<Rightarrow> Ok (c, n)
     | Some st \<Rightarrow>
         if \<not> joined st then Ok (c, n)
         else
           let st = noteHeartbeat env st; c = setVNI ch st c in
           if env_Base env > Controller_Epoch (ctrl st) then requestCatchup h ch (Controller_Epoch (ctrl st)) (c, n)
           else Ok (c, n))"

text \<open>The loop over the records ends when a record removes the client.\<close>

fun replayRecords :: "'r Host \<Rightarrow> u32 \<Rightarrow> CommitRecord list \<Rightarrow> 'r cn \<Rightarrow> 'r cn res" where
  "replayRecords h ch [] cn = Ok cn"
| "replayRecords h ch (r # rs) cn =
    (case vniOf (fst cn) ch of
       None \<Rightarrow> Inl PanicNil
     | Some st \<Rightarrow>
         if Controller_Epoch (ctrl st) \<noteq> cr_Base r then replayRecords h ch rs cn
         else
           bindR (applyCommit h ch (cr_Bytes r) False cn) (\<lambda>(left, cn).
           if left then Ok cn else replayRecords h ch rs cn))"

definition onLogReply :: "'r Host \<Rightarrow> Envelope \<Rightarrow> 'r cn \<Rightarrow> 'r cn res" where
  "onLogReply h env cn =
    (let (c, n) = cn in
     case vniOf c (env_VNI env) of
       None \<Rightarrow> Ok (c, n)
     | Some st \<Rightarrow>
         if \<not> joined st then Ok (c, n)
         else replayRecords h (env_VNI env) (sort_key cr_Base (env_Records env)) (c, n))"

section \<open>Data plane\<close>

record dataCand =
  cd_ch :: u32
  cd_se :: u64
  cd_spi :: u32
  cd_ok :: bool
  cd_members :: "ActorID list"
  cd_heard :: "ActorID list"

definition candidate :: "Client \<Rightarrow> u32 \<Rightarrow> int \<Rightarrow> dataCand option res" where
  "candidate c tenant r =
    (let ch = saVNI tenant r in
     case vniOf c ch of
       None \<Rightarrow> Ok None
     | Some st \<Rightarrow>
         if \<not> joined st then Ok None
         else
           let se = sendEpoch c st; sa = map_of (saCache st) se in
           bindR (replicaMembers c ch) (\<lambda>members.
           Ok (Some \<lparr>cd_ch = ch, cd_se = se, cd_spi = sendSPI c (case sa of None \<Rightarrow> None | Some s \<Rightarrow> s), cd_ok = (sa \<noteq> None),
             cd_members = members, cd_heard = heard st\<rparr>)))"

definition usable :: "ActorID \<Rightarrow> bool \<Rightarrow> dataCand \<Rightarrow> bool" where
  "usable rcv requireHeard cd \<longleftrightarrow>
    cd_ok cd \<and> rcv \<in> set (cd_members cd) \<and> (requireHeard \<longrightarrow> rcv \<in> set (cd_heard cd))"

definition chooseCand :: "ActorID \<Rightarrow> dataCand list \<Rightarrow> dataCand option" where
  "chooseCand rcv cands =
    (case List.find (usable rcv True) cands of Some cd \<Rightarrow> Some cd | None \<Rightarrow> List.find (usable rcv False) cands)"

definition sendToReceiver :: "'r Host \<Rightarrow> dataCand list \<Rightarrow> 'r cn \<Rightarrow> ActorID \<Rightarrow> 'r cn res" where
  "sendToReceiver h cands cn rcv =
    (let (c, n) = cn in
     case chooseCand rcv cands of
       None \<Rightarrow> Ok (c, n)
     | Some cd \<Rightarrow>
         bindR (fromOption PanicNil (vniOf c (cd_ch cd))) (\<lambda>st.
         let n = counted (\<lambda>m. observeSendLag m (Controller_Epoch (ctrl st) - cd_se cd)) n;
             seqn = getOr 0 (sendSeq st) (cd_se cd);
             c = setVNI (cd_ch cd) (st\<lparr>sendSeq := AList.update (cd_se cd) (seqn + 1) (sendSeq st)\<rparr>) c in
         bindR (Publish (h_rand h) n (zeroEnvelope\<lparr>env_VNI := cd_ch cd, env_Type := MsgData, env_Src := cl_id c,
           env_Dst := rcv, env_Base := cd_se cd, env_SPI := cd_spi cd, env_DataSeq := seqn\<rparr>)) (\<lambda>n.
         Ok (c, counted (\<lambda>m. m\<lparr>DataSent := DataSent m + 1\<rparr>) n))))"

definition sendData :: "'r Host \<Rightarrow> u32 \<Rightarrow> 'r cn \<Rightarrow> 'r cn res" where
  "sendData h tenant cn =
    (let (c, n) = cn in
     bindR (mapR (candidate c tenant) (map int [0..<numDS])) (\<lambda>cs.
     let cands = List.map_filter id cs;
         recv = sort (remdups (concat (map cd_members cands))) in
     foldR (sendToReceiver h cands) (c, n) (filter (\<lambda>a. a \<noteq> cl_id c) recv)))"

definition holdsSPI :: "vniState \<Rightarrow> u32 \<Rightarrow> bool" where
  "holdsSPI st spi = list_ex (\<lambda>e. e \<ge> joinEpoch st \<and> spi \<in> set (getOr [] (inSPIs st) e)) (sort (map fst (saCache st)))"

definition onData :: "Envelope \<Rightarrow> 'r cn \<Rightarrow> 'r cn" where
  "onData env cn =
    (let (c, n) = cn; ch = env_VNI env in
     case vniOf c ch of
       None \<Rightarrow> (c, n)
     | Some st \<Rightarrow>
         if \<not> joined st then (c, n)
         else if env_Base env < joinEpoch st then (c, n)
         else if \<not> holdsSPI st (env_SPI env) then
           (c, n\<lparr>lossEvents := lossEvents n @ [\<lparr>le_VNI = ch, SentEpoch = env_Base env,
              RecvEpoch = Controller_Epoch (ctrl st), le_At = clock (sched n)\<rparr>]\<rparr>)
         else
           let win = (case map_of (replay st) (env_SPI env) of None \<Rightarrow> newReplayWin | Some w \<Rightarrow> w);
               (ok, win) = accept win (env_DataSeq env);
               c = setVNI ch (st\<lparr>replay := AList.update (env_SPI env) win (replay st)\<rparr>) c in
           (c, if ok then counted (\<lambda>m. m\<lparr>DataDecryptable := DataDecryptable m + 1\<rparr>) n
               else counted (\<lambda>m. m\<lparr>ReplayDrops := ReplayDrops m + 1\<rparr>) n))"

definition onDeliver :: "'r Host \<Rightarrow> Envelope \<Rightarrow> 'r cn \<Rightarrow> 'r cn res" where
  "onDeliver h env cn =
    (case env_Type env of
       MsgCommit \<Rightarrow> client_onCommit h env cn
     | MsgWelcome \<Rightarrow> if env_Joiner env = cl_identity (fst cn) then onWelcome h env cn else Ok cn
     | MsgHeartbeat \<Rightarrow> onHeartbeat h env cn
     | MsgLogReply \<Rightarrow> onLogReply h env cn
     | MsgData \<Rightarrow> Ok (onData env cn)
     | MsgLogRequest \<Rightarrow> Ok cn)"

end
