(* ===== verification/Reflector.thy ===== *)
theory Reflector
  imports Network Framing Associations Ordering
begin

text \<open>
  The reflectors of the simulator, \<^verbatim>\<open>src/sim/ds.go\<close>: an accept-once register for the commits of each
  channel, the log of the winning commits, their fan-out, and the service that replays the log.
\<close>

section \<open>Operations\<close>

record DS =
  ds_id :: ActorID
  ds_replica :: int
  ds_seq :: MemorySequencer
  logs :: "u32 \<Rightarrow> CommitRecord list"
  ds_encryptHandshakes :: bool

definition newDS :: "ActorID \<Rightarrow> int \<Rightarrow> DS" where
  "newDS i replica = \<lparr>ds_id = i, ds_replica = replica, ds_seq = NewMemorySequencer, logs = (\<lambda>_. []),
     ds_encryptHandshakes = False\<rparr>"

definition observeHandshakePrivacy :: "DS \<Rightarrow> ('r, 'z) Bus_scheme \<Rightarrow> Envelope \<Rightarrow> ('r, 'z) Bus_scheme res" where
  "observeHandshakePrivacy d b env =
    (if \<not> ds_encryptHandshakes d then Ok b
     else if env_Type env \<noteq> MsgCommit then Ok b
     else
       case MLSMessage_UnmarshalMLS noMessage (env_Payload env) of
         Inl (Error _) \<Rightarrow> Ok b
       | Inl f \<Rightarrow> Inl f
       | Inr msg \<Rightarrow>
           (case msg_Public msg of
              Some pm \<Rightarrow>
                if msg_WireFormat msg = WireFormatPublicMessage \<and>
                   SenderType (fc_Sender (pub_Content pm)) \<noteq> SenderTypeNewMemberCommit
                then Ok (counted (\<lambda>m. m\<lparr>PlaintextHandshakeExposures := PlaintextHandshakeExposures m + 1\<rparr>) b)
                else Ok b
            | None \<Rightarrow> Ok b))"

definition reflect :: "'r Rng \<Rightarrow> DS \<Rightarrow> ('r, 'z) Bus_scheme \<Rightarrow> Envelope \<Rightarrow> ('r, 'z) Bus_scheme res" where
  "reflect R d b env =
    bindR (Publish R b (env\<lparr>env_Src := ds_id d, env_Dst := Broadcast\<rparr>)) (\<lambda>b.
      Ok (counted (\<lambda>m. m\<lparr>Reflected := Reflected m + 1\<rparr>) b))"

definition appendLog :: "DS \<Rightarrow> Envelope \<Rightarrow> DS" where
  "appendLog d env =
    (if list_ex (\<lambda>r. cr_Hash r = env_Hash env) (logs d (env_VNI env)) then d
     else d\<lparr>logs := (logs d)(env_VNI env := logs d (env_VNI env) @
       [\<lparr>cr_Base = env_Base env, cr_Bytes = env_Payload env, cr_Hash = env_Hash env\<rparr>])\<rparr>)"

definition DS_onCommit :: "'r Rng \<Rightarrow> DS \<Rightarrow> ('r, 'z) Bus_scheme \<Rightarrow> Envelope \<Rightarrow> (DS \<times> ('r, 'z) Bus_scheme) res" where
  "DS_onCommit R d b env =
    bindR (observeHandshakePrivacy d b env) (\<lambda>b.
    let (ok, s) = MemorySequencer_AcceptCommit (ds_seq d) (GroupID (env_VNI env)) (env_Base env) (env_Hash env);
        d = d\<lparr>ds_seq := s\<rparr> in
    if \<not> ok then Ok (d, counted (\<lambda>m. m\<lparr>CommitRejected := CommitRejected m + 1\<rparr>) b)
    else
      let d = appendLog d env in
      bindR (reflect R d b env) (\<lambda>b. Ok (d, b)))"

definition serveCatchup :: "'r Rng \<Rightarrow> DS \<Rightarrow> ('r, 'z) Bus_scheme \<Rightarrow> Envelope \<Rightarrow> ('r, 'z) Bus_scheme res" where
  "serveCatchup R d b env =
    (let recs = sort_key cr_Base (filter (\<lambda>r. cr_Base r \<ge> env_Base env) (logs d (env_VNI env))) in
     bindR (Publish R b (zeroEnvelope\<lparr>env_VNI := env_VNI env, env_Type := MsgLogReply, env_Src := ds_id d,
         env_Dst := env_Src env, env_Records := recs\<rparr>)) (\<lambda>b.
       Ok (counted (\<lambda>m. m\<lparr>LogRetransmits := LogRetransmits m + 1\<rparr>) b)))"

definition handle :: "'r Rng \<Rightarrow> DS \<Rightarrow> ('r, 'z) Bus_scheme \<Rightarrow> Envelope \<Rightarrow> (DS \<times> ('r, 'z) Bus_scheme) res" where
  "handle R d b env =
    (if isDown (faults b) (ds_id d) then Ok (d, b)
     else
       case env_Type env of
         MsgCommit \<Rightarrow> DS_onCommit R d b env
       | MsgWelcome \<Rightarrow> bindR (reflect R d b env) (\<lambda>b. Ok (d, b))
       | MsgLogRequest \<Rightarrow> bindR (serveCatchup R d b env) (\<lambda>b. Ok (d, b))
       | _ \<Rightarrow> Ok (d, b))"

section \<open>The log and the register\<close>

text \<open>Every record of a log is the decision of the register for its epoch, and no commit is logged
  twice.\<close>

abbreviation decidedAt :: "DS \<Rightarrow> u32 \<Rightarrow> u64 \<Rightarrow> bytes option" where
  "decidedAt d ch base \<equiv> MemorySequencer_Decided (ds_seq d) (GroupID ch) base"

definition dsInv :: "DS \<Rightarrow> bool" where
  "dsInv d \<longleftrightarrow> (\<forall>ch. distinct (map cr_Hash (logs d ch)) \<and>
    (\<forall>r\<in>set (logs d ch). decidedAt d ch (cr_Base r) = Some (cr_Hash r)))"

lemma dsInv_new: "dsInv (newDS i replica)"
  by (simp add: dsInv_def newDS_def)

lemma dsInv_bases: "dsInv d \<Longrightarrow> distinct (map cr_Base (logs d ch))"
  unfolding dsInv_def distinct_map inj_on_def by (metis option.inject)

lemma accept_decided:
  assumes "MemorySequencer_AcceptCommit s g e c = (ok, s')"
  shows "ok \<longleftrightarrow> MemorySequencer_Decided s' g e = Some c"
    "MemorySequencer_Decided s g' e' = Some h \<Longrightarrow> MemorySequencer_Decided s' g' e' = Some h"
    "\<not> ok \<Longrightarrow> s' = s"
  using assms by (auto simp: MemorySequencer_AcceptCommit_def MemorySequencer_Decided_def Let_def split: option.splits)

lemma appendLog_inv:
  assumes "dsInv d" "decidedAt d (env_VNI env) (env_Base env) = Some (env_Hash env)"
  shows "dsInv (appendLog d env)" "prefix (logs d ch) (logs (appendLog d env) ch)"
    "ds_seq (appendLog d env) = ds_seq d" "ds_id (appendLog d env) = ds_id d"
  using assms by (auto simp: appendLog_def dsInv_def list_ex_iff)

lemma reflect_emits:
  assumes "reflect R d b env = Ok b'" "isHeap eventKey (pq (sched b))"
  shows "emits b b' (\<lambda>e. ev_Kind e = KindDeliver \<and> ev_Env e = env\<lparr>env_Src := ds_id d, env_Dst := Broadcast\<rparr> \<and>
    ev_Actor e \<noteq> ds_id d \<and> ev_Actor e \<in> set (subs b (env_VNI env)))"
proof -
  let ?out = "env\<lparr>env_Src := ds_id d, env_Dst := Broadcast\<rparr>"
  obtain c where c: "Publish R b ?out = Ok c" "b' = counted (\<lambda>m. m\<lparr>Reflected := Reflected m + 1\<rparr>) c"
    using assms(1) by (auto simp: reflect_def bindR_Inr_iff)
  have "destinations b ?out = sort (subs b (env_VNI env))" by (simp add: destinations_def subscribers_def)
  then show ?thesis
    using emits_counted [OF Publish_emits [OF c(1) assms(2)]] unfolding c(2) by simp
qed

lemma serveCatchup_emits:
  assumes "serveCatchup R d b env = Ok b'" "isHeap eventKey (pq (sched b))"
  shows "emits b b' (\<lambda>e. ev_Kind e = KindDeliver \<and> ev_Env e = zeroEnvelope\<lparr>env_VNI := env_VNI env,
    env_Type := MsgLogReply, env_Src := ds_id d, env_Dst := env_Src env, env_Records :=
    sort_key cr_Base (filter (\<lambda>r. cr_Base r \<ge> env_Base env) (logs d (env_VNI env)))\<rparr>)"
proof -
  let ?out = "zeroEnvelope\<lparr>env_VNI := env_VNI env, env_Type := MsgLogReply, env_Src := ds_id d, env_Dst := env_Src env,
    env_Records := sort_key cr_Base (filter (\<lambda>r. cr_Base r \<ge> env_Base env) (logs d (env_VNI env)))\<rparr>"
  obtain c where c: "Publish R b ?out = Ok c" "b' = counted (\<lambda>m. m\<lparr>LogRetransmits := LogRetransmits m + 1\<rparr>) c"
    using assms(1) unfolding serveCatchup_def Let_def bindR_Inr_iff by auto
  have "emits b c (\<lambda>e. ev_Kind e = KindDeliver \<and> ev_Env e = ?out)"
    using Publish_emits [OF c(1) assms(2)] by (rule emits_mono) simp
  then show ?thesis unfolding c(2) by (rule emits_counted)
qed

lemma observe_same:
  assumes "observeHandshakePrivacy d b env = Ok b'"
  shows "b' = b \<or> (\<exists>f. b' = counted f b \<and> CommitRejected (f (metrics b)) = CommitRejected (metrics b))"
  using assms by (auto simp: observeHandshakePrivacy_def split: if_splits sum.splits fault.splits option.splits)

lemma observe_simps:
  assumes "observeHandshakePrivacy d b env = Ok b'"
  shows "sched b' = sched b" "sameButQueue b b'" "faults b' = faults b" "subs b' = subs b"
    "CommitRejected (metrics b') = CommitRejected (metrics b)"
  using observe_same [OF assms] sameButQueue_counted [OF sameButQueue_refl] by auto

text \<open>A handled commit has been accepted and fanned out, or refused in favour of another.\<close>

lemma onCommit_cases:
  assumes "DS_onCommit R d b env = Ok (d', b')" "isHeap eventKey (pq (sched b))"
  obtains (accepted) s where
      "MemorySequencer_AcceptCommit (ds_seq d) (GroupID (env_VNI env)) (env_Base env) (env_Hash env) = (True, s)"
      "d' = appendLog (d\<lparr>ds_seq := s\<rparr>) env"
      "emits b b' (\<lambda>e. ev_Kind e = KindDeliver \<and> ev_Env e = env\<lparr>env_Src := ds_id d, env_Dst := Broadcast\<rparr> \<and>
        ev_Actor e \<noteq> ds_id d \<and> ev_Actor e \<in> set (subs b (env_VNI env)))"
    | (refused) "d' = d" "emits b b' (\<lambda>e. False)" "CommitRejected (metrics b') = CommitRejected (metrics b) + 1"
      "MemorySequencer_AcceptCommit (ds_seq d) (GroupID (env_VNI env)) (env_Base env) (env_Hash env) = (False, ds_seq d)"
proof -
  obtain c where c: "observeHandshakePrivacy d b env = Ok c" using assms(1) by (auto simp: DS_onCommit_def bindR_Inr_iff)
  obtain ok s where s: "MemorySequencer_AcceptCommit (ds_seq d) (GroupID (env_VNI env)) (env_Base env) (env_Hash env) = (ok, s)"
    by (cases "MemorySequencer_AcceptCommit (ds_seq d) (GroupID (env_VNI env)) (env_Base env) (env_Hash env)")
  have id: "ds_id (appendLog (d\<lparr>ds_seq := s\<rparr>) env) = ds_id d" by (simp add: appendLog_def)
  have hp: "isHeap eventKey (pq (sched c))" using assms(2) observe_simps(1) [OF c] by simp
  show thesis
  proof (cases ok)
    case True
    then have r: "reflect R (appendLog (d\<lparr>ds_seq := s\<rparr>) env) c env = Ok b'" "d' = appendLog (d\<lparr>ds_seq := s\<rparr>) env"
      using assms(1) c s by (auto simp: DS_onCommit_def bindR_Inr_iff Let_def)
    show thesis
      using accepted [OF _ r(2)] s True emits_after [OF observe_simps(2,1) [OF c] reflect_emits [OF r(1) hp]]
      unfolding id observe_simps(4) [OF c] by simp
  next
    case False
    then have "d' = d\<lparr>ds_seq := s\<rparr>" "b' = counted (\<lambda>m. m\<lparr>CommitRejected := CommitRejected m + 1\<rparr>) c"
      using assms(1) c s by (auto simp: DS_onCommit_def bindR_Inr_iff Let_def)
    moreover have "s = ds_seq d" using accept_decided(3) [OF s False] .
    ultimately show thesis
      using refused s False emits_counted [OF emits_after [OF observe_simps(2,1) [OF c] emits_none [OF hp]]]
        observe_simps(5) [OF c] by simp
  qed
qed

text \<open>What an envelope that a reflector sends out may carry.\<close>

definition servesDecided :: "DS \<Rightarrow> Envelope \<Rightarrow> bool" where
  "servesDecided d env \<longleftrightarrow>
    (env_Type env = MsgCommit \<longrightarrow> decidedAt d (env_VNI env) (env_Base env) = Some (env_Hash env)) \<and>
    (env_Type env = MsgLogReply \<longrightarrow>
      sorted_wrt (<) (map cr_Base (env_Records env)) \<and> set (env_Records env) \<subseteq> set (logs d (env_VNI env)))"

lemma catchup_reply:
  assumes "dsInv d"
  shows "sorted_wrt (<) (map cr_Base (sort_key cr_Base (filter (\<lambda>r. cr_Base r \<ge> base) (logs d ch))))"
proof -
  let ?f = "filter (\<lambda>r. cr_Base r \<ge> base) (logs d ch)"
  have "distinct (map cr_Base ?f)" by (rule distinct_map_filter [OF dsInv_bases [OF assms]])
  moreover have "mset (map cr_Base ?f) = mset (map cr_Base (sort_key cr_Base ?f))" by simp
  ultimately have "distinct (map cr_Base (sort_key cr_Base ?f))" by (metis mset_eq_imp_distinct_iff)
  then show ?thesis by (simp add: strict_sorted_iff)
qed

lemma appendLog_id [simp]: "ds_id (appendLog d env) = ds_id d"
  by (simp add: appendLog_def)

text \<open>A reflector answers with commits and welcomes for the subscribers and with replies.\<close>

lemma handle_emits:
  assumes "handle R d b env = Ok (d', b')" "isHeap eventKey (pq (sched b))"
  shows "emits b b' (\<lambda>e. ev_Kind e = KindDeliver \<and> env_Type env \<in> {MsgCommit, MsgWelcome, MsgLogRequest} \<and>
      (env_Type (ev_Env e) = MsgLogReply \<or>
       (env_Type (ev_Env e) = env_Type env \<and> env_Type env \<noteq> MsgLogRequest \<and> ev_Actor e \<in> set (subs b (env_VNI env)))))"
    and "ds_id d' = ds_id d"
proof -
  let ?P = "\<lambda>e. ev_Kind e = KindDeliver \<and> env_Type env \<in> {MsgCommit, MsgWelcome, MsgLogRequest} \<and>
      (env_Type (ev_Env e) = MsgLogReply \<or>
       (env_Type (ev_Env e) = env_Type env \<and> env_Type env \<noteq> MsgLogRequest \<and> ev_Actor e \<in> set (subs b (env_VNI env))))"
  consider (same) "d' = d" "b' = b" | (commit) "env_Type env = MsgCommit" "DS_onCommit R d b env = Ok (d', b')"
    | (wel) "env_Type env = MsgWelcome" "reflect R d b env = Ok b'" "d' = d"
    | (request) "env_Type env = MsgLogRequest" "serveCatchup R d b env = Ok b'" "d' = d"
  proof (cases "isDown (faults b) (ds_id d)")
    case True
    then show thesis using assms(1) same by (simp add: handle_def)
  next
    case up: False
    show thesis
    proof (cases "env_Type env")
      case MsgCommit
      then show thesis using assms(1) up commit by (simp add: handle_def)
    next
      case MsgWelcome
      then have "bindR (reflect R d b env) (\<lambda>b. Ok (d, b)) = Ok (d', b')" using assms(1) up by (simp add: handle_def)
      then have "reflect R d b env = Ok b'" "d' = d" by (auto simp: bindR_Inr_iff)
      then show thesis by (rule wel [OF MsgWelcome])
    next
      case MsgLogRequest
      then have "bindR (serveCatchup R d b env) (\<lambda>b. Ok (d, b)) = Ok (d', b')" using assms(1) up by (simp add: handle_def)
      then have "serveCatchup R d b env = Ok b'" "d' = d" by (auto simp: bindR_Inr_iff)
      then show thesis by (rule request [OF MsgLogRequest])
    qed (use assms(1) up same in \<open>simp_all add: handle_def\<close>)
  qed
  then have "emits b b' ?P \<and> ds_id d' = ds_id d"
  proof cases
    case same
    then show ?thesis using emits_none [OF assms(2)] by simp
  next
    case commit
    show ?thesis
      using commit(2) assms(2)
    proof (cases rule: onCommit_cases)
      case (accepted s)
      have "emits b b' ?P" by (rule emits_mono [OF accepted(3)]) (auto simp: commit(1))
      then show ?thesis by (simp add: accepted(2))
    next
      case refused
      have "emits b b' ?P" by (rule emits_mono [OF refused(2)]) simp
      then show ?thesis by (simp add: refused(1))
    qed
  next
    case wel
    have "emits b b' ?P" by (rule emits_mono [OF reflect_emits [OF wel(2) assms(2)]]) (auto simp: wel(1))
    then show ?thesis by (simp add: wel(3))
  next
    case request
    have "emits b b' ?P" by (rule emits_mono [OF serveCatchup_emits [OF request(2) assms(2)]]) (auto simp: request(1))
    then show ?thesis by (simp add: request(3))
  qed
  then show "emits b b' ?P" "ds_id d' = ds_id d" by blast+
qed

text \<open>C11: a reflector orders the commits of its channels.  Whatever it handles, each log only grows, no
  decision of the register changes, and every record of a log is the decision for its epoch, with
  one record per epoch at most.  Every commit it sends out is the decided one of its epoch, and a
  commit that is not is counted as rejected; a reply to a catch-up request lists exactly the records
  from the requested epoch on, in strictly ascending epochs.
\<close>

theorem reflector_orders_commits:
  assumes "dsInv d" "isHeap eventKey (pq (sched b))" "handle R d b env = Ok (d', b')"
  shows "dsInv d' \<and> (\<forall>ch. prefix (logs d ch) (logs d' ch) \<and> distinct (map cr_Base (logs d' ch))) \<and>
    (\<forall>ch base h. decidedAt d ch base = Some h \<longrightarrow> decidedAt d' ch base = Some h) \<and>
    (env_Type env = MsgCommit \<and> \<not> isDown (faults b) (ds_id d) \<and>
       decidedAt d' (env_VNI env) (env_Base env) \<noteq> Some (env_Hash env) \<longrightarrow> CommitRejected (metrics b') = CommitRejected (metrics b) + 1) \<and>
    (\<exists>new. mset (pq (sched b')) = mset (pq (sched b)) + mset new \<and>
      (\<forall>e\<in>set new. ev_Kind e = KindDeliver \<and> env_VNI (ev_Env e) = env_VNI env \<and> servesDecided d' (ev_Env e) \<and>
        (env_Type env = MsgLogRequest \<longrightarrow> env_Type (ev_Env e) = MsgLogReply \<and>
          set (env_Records (ev_Env e)) = {r \<in> set (logs d (env_VNI env)). env_Base env \<le> cr_Base r})))"
proof -
  have keep: ?thesis if d': "d' = d" and em: "emits b b' P"
    and P: "\<And>e. P e \<Longrightarrow> ev_Kind e = KindDeliver \<and> env_VNI (ev_Env e) = env_VNI env \<and> servesDecided d (ev_Env e) \<and>
        (env_Type env = MsgLogRequest \<longrightarrow> env_Type (ev_Env e) = MsgLogReply \<and>
          set (env_Records (ev_Env e)) = {r \<in> set (logs d (env_VNI env)). env_Base env \<le> cr_Base r})"
    and rej: "env_Type env = MsgCommit \<Longrightarrow> \<not> isDown (faults b) (ds_id d) \<Longrightarrow> CommitRejected (metrics b') = CommitRejected (metrics b) + 1" for P
    using emits_events [OF em] P assms(1) dsInv_bases [OF assms(1)] rej unfolding d' by (meson prefix_order.refl)
  show ?thesis
  proof (cases "isDown (faults b) (ds_id d)")
    case True
    then show ?thesis using assms keep [of "\<lambda>_. False"] emits_none [OF assms(2)] by (auto simp: handle_def)
  next
    case up: False
    show ?thesis
    proof (cases "env_Type env")
      case MsgCommit
      then have c: "DS_onCommit R d b env = Ok (d', b')" using assms(3) up by (simp add: handle_def)
      show ?thesis
        using c assms(2)
      proof (cases rule: onCommit_cases)
        case (accepted s)
        note ac = accept_decided [OF accepted(1)]
        have i: "dsInv (d\<lparr>ds_seq := s\<rparr>)" using assms(1) ac(2) by (auto simp: dsInv_def)
        have dec: "decidedAt (d\<lparr>ds_seq := s\<rparr>) (env_VNI env) (env_Base env) = Some (env_Hash env)" using ac(1) by simp
        note ap = appendLog_inv [OF i dec, folded accepted(2)]
        have "servesDecided d' (env\<lparr>env_Src := ds_id d, env_Dst := Broadcast\<rparr>)"
          using dec ap(3) MsgCommit by (simp add: servesDecided_def)
        then show ?thesis
          using emits_events [OF accepted(3)] ap dsInv_bases [OF ap(1)] ac(2) dec MsgCommit by fastforce
      next
        case refused
        then show ?thesis using keep [of "\<lambda>_. False"] by blast
      qed
    next
      case MsgWelcome
      then have r: "reflect R d b env = Ok b'" "d' = d" using assms(3) up by (auto simp: handle_def bindR_Inr_iff)
      show ?thesis
        by (rule keep [OF r(2) reflect_emits [OF r(1) assms(2)]]) (auto simp: MsgWelcome servesDecided_def)
    next
      case MsgLogRequest
      then have r: "serveCatchup R d b env = Ok b'" "d' = d" using assms(3) up by (auto simp: handle_def bindR_Inr_iff)
      show ?thesis
        by (rule keep [OF r(2) serveCatchup_emits [OF r(1) assms(2)]])
          (auto simp: MsgLogRequest servesDecided_def catchup_reply [OF assms(1)])
    qed (use assms up keep [of "\<lambda>_. False"] emits_none [OF assms(2)] in \<open>auto simp: handle_def\<close>)
  qed
qed

theorem reflector_orders_commits_witness:
  "\<exists>d' b'. handle tinyRng (newDS 5 0) tinyBus (zeroEnvelope\<lparr>env_VNI := 7, env_Hash := [1]\<rparr>) = Ok (d', b') \<and>
    dsInv d' \<and> decidedAt d' 7 0 = Some [1]"
proof -
  let ?env = "zeroEnvelope\<lparr>env_VNI := 7, env_Hash := [1]\<rparr>"
  have up: "\<not> isDown (faults tinyBus) (ds_id (newDS 5 0))" by (simp add: tinyBus_simps newFaultState_def isDown_def)
  have t: "env_Type ?env = MsgCommit" "env_Base ?env = 0" "env_VNI ?env = 7" "env_Hash ?env = [1]" by (simp_all add: zeroEnvelope_def)
  obtain s where s: "MemorySequencer_AcceptCommit NewMemorySequencer (GroupID 7) 0 [1] = (True, s)"
    by (simp add: MemorySequencer_AcceptCommit_def NewMemorySequencer_def Let_def)
  obtain c where c: "Publish tinyRng tinyBus (?env\<lparr>env_Src := 5, env_Dst := Broadcast\<rparr>) = Ok c"
    using tinyBus_publishes by blast
  let ?d = "appendLog (newDS 5 0\<lparr>ds_seq := s\<rparr>) ?env"
  have h: "handle tinyRng (newDS 5 0) tinyBus ?env = Ok (?d, counted (\<lambda>m. m\<lparr>Reflected := Reflected m + 1\<rparr>) c)"
    using up s c t
    by (simp add: handle_def DS_onCommit_def observeHandshakePrivacy_def reflect_def newDS_def appendLog_def)
  have hp: "isHeap eventKey (pq (sched tinyBus))" by (simp add: tinyBus_simps isHeap_def)
  have "dsInv ?d" using reflector_orders_commits [OF dsInv_new hp h] by blast
  moreover have "decidedAt ?d 7 0 = Some [1]" using accept_decided(1) [OF s] by (simp add: appendLog_def)
  ultimately show ?thesis using h by blast
qed

end
