(* ===== verification/AssociationProps.thy ===== *)
theory AssociationProps
  imports Associations GroupDemo
begin

text \<open>
  Properties of the security associations: the identifiers of networks, the separation of
  senders and epochs, and the agreement of the members of an epoch.
\<close>

section \<open>Agreement\<close>

lemma inSync_Exporter: "inSync g h \<Longrightarrow> Exporter std g = Exporter std h"
  by (intro ext) (simp add: Exporter_def inSync_def)

lemma derived_parts:
  assumes "DeriveSAKeys std g vni = Ok sa"
  obtains s k spi mask where "Lookup (gc_CipherSuite (groupContext g)) = Some s"
    "Exporter std g espExporterLabel (saContext vni (Epoch g)) saKeyLen = Ok k"
    "deriveSPI std s k vni (Epoch g) = Ok spi" "ExpandWithLabel std s k ''esp-salt-mask'' [] 4 = Ok mask"
    "SenderSalt sa (ownLeaf g) = Ok (OwnSalt sa)" "SenderSPI std sa (ownLeaf g) = Ok (OwnSPI sa)"
    "sa = \<lparr>sa_VNI = vni, sa_Epoch = Epoch g, sa_SPI = spi, sa_Key = k, OwnLeaf = ownLeaf g,
       OwnSalt = OwnSalt sa, OwnSPI = OwnSPI sa, saltMask = mask, sa_suite = s\<rparr>"
  using assms
  by (auto simp: DeriveSAKeys_def bindR_Inr_iff fromOption_Inr_iff Let_def SenderSalt_def SenderSPI_def split: if_splits)

lemma derived_agree:
  assumes "inSync g h" "DeriveSAKeys std g vni = Ok sa" "DeriveSAKeys std h vni = Ok sb"
  shows "sb = sa\<lparr>OwnLeaf := ownLeaf h, OwnSalt := OwnSalt sb, OwnSPI := OwnSPI sb\<rparr> \<and>
    SenderSPI std sa (ownLeaf h) = Ok (OwnSPI sb) \<and> SenderSalt sa (ownLeaf h) = Ok (OwnSalt sb)"
proof -
  have e: "Exporter std h = Exporter std g" "groupContext h = groupContext g" "Epoch h = Epoch g"
    using assms(1) inSync_Exporter [of g h] by (simp_all add: inSync_def Epoch_def)
  obtain s k spi mask where a: "Lookup (gc_CipherSuite (groupContext g)) = Some s"
    "Exporter std g espExporterLabel (saContext vni (Epoch g)) saKeyLen = Ok k"
    "deriveSPI std s k vni (Epoch g) = Ok spi" "ExpandWithLabel std s k ''esp-salt-mask'' [] 4 = Ok mask"
    "sa = \<lparr>sa_VNI = vni, sa_Epoch = Epoch g, sa_SPI = spi, sa_Key = k, OwnLeaf = ownLeaf g,
       OwnSalt = OwnSalt sa, OwnSPI = OwnSPI sa, saltMask = mask, sa_suite = s\<rparr>"
    by (rule derived_parts [OF assms(2)])
  have b: "sb = \<lparr>sa_VNI = vni, sa_Epoch = Epoch g, sa_SPI = spi, sa_Key = k, OwnLeaf = ownLeaf h,
       OwnSalt = OwnSalt sb, OwnSPI = OwnSPI sb, saltMask = mask, sa_suite = s\<rparr>"
    "SenderSalt sb (ownLeaf h) = Ok (OwnSalt sb)" "SenderSPI std sb (ownLeaf h) = Ok (OwnSPI sb)"
    using a(1-4) e by (auto intro: derived_parts [OF assms(3)])
  obtain x y where x: "sa = \<lparr>sa_VNI = vni, sa_Epoch = Epoch g, sa_SPI = spi, sa_Key = k, OwnLeaf = ownLeaf g,
       OwnSalt = x, OwnSPI = y, saltMask = mask, sa_suite = s\<rparr>" using a(5) by blast
  obtain x' y' where y: "sb = \<lparr>sa_VNI = vni, sa_Epoch = Epoch g, sa_SPI = spi, sa_Key = k, OwnLeaf = ownLeaf h,
       OwnSalt = x', OwnSPI = y', saltMask = mask, sa_suite = s\<rparr>" using b(1) by blast
  show ?thesis using b(2,3) unfolding x y SenderSalt_def SenderSPI_def by (simp split: if_splits)
qed

section \<open>Properties\<close>

text \<open>network identifiers and group identifiers correspond one to one: \<^verbatim>\<open>VNIOfGroupID\<close> accepts
  exactly the identifiers that \<^verbatim>\<open>GroupID\<close> makes and returns their network.
\<close>
theorem vni_group_id: "VNIOfGroupID gid = Ok vni \<longleftrightarrow> gid = GroupID vni"
proof
  assume "VNIOfGroupID gid = Ok vni"
  then have g: "length (drop (length groupIDTag) gid) = 4" "take (length groupIDTag) gid = groupIDTag"
    "vni = unbe32 (drop (length groupIDTag) gid)"
    by (auto simp: VNIOfGroupID_def split: if_splits)
  have "gid = take (length groupIDTag) gid @ drop (length groupIDTag) gid" by simp
  then show "gid = GroupID vni" using g be32_unbe32 [OF g(1)] by (simp add: GroupID_def)
qed (simp add: VNIOfGroupID_def GroupID_def)

text \<open>the members of an epoch agree on its association.  They derive the same key, index and salt
  mask; the index and salt under which one of them sends are those that the others compute
  for its leaf; and two members never send under the same salt, so that no nonce is used twice
  with the common key.
\<close>
theorem members_share_association:
  assumes "inSync g h" and "DeriveSAKeys std g vni = Ok sa" and "DeriveSAKeys std h vni = Ok sb"
  shows "sa_Key sb = sa_Key sa \<and> sa_SPI sb = sa_SPI sa \<and> saltMask sb = saltMask sa \<and>
    SenderSPI std sa (ownLeaf h) = Ok (OwnSPI sb) \<and> SenderSalt sa (ownLeaf h) = Ok (OwnSalt sb) \<and>
    (OwnSalt sa = OwnSalt sb \<longleftrightarrow> ownLeaf g = ownLeaf h)"
proof -
  obtain a where a: "sb = sa\<lparr>OwnLeaf := ownLeaf h, OwnSalt := OwnSalt sb, OwnSPI := OwnSPI sb\<rparr>"
    "SenderSPI std sa (ownLeaf h) = Ok (OwnSPI sb)" "SenderSalt sa (ownLeaf h) = Ok (OwnSalt sb)"
    using derived_agree [OF assms] by blast
  have "SenderSalt sa (ownLeaf g) = Ok (OwnSalt sa)" by (rule derived_parts [OF assms(2)])
  then have "OwnSalt sa = OwnSalt sb \<longleftrightarrow> ownLeaf g = ownLeaf h"
    using a(3) SenderSalt_inject by (metis sum.inject(2))
  moreover have "sa_Key sb = sa_Key sa" "sa_SPI sb = sa_SPI sa" "saltMask sb = saltMask sa"
    by (subst a(1), simp)+
  ultimately show ?thesis using a by blast
qed

text \<open>C19: \<^verbatim>\<open>InboundSAs\<close> succeeds exactly when every leaf has an index and a salt and all indices differ,
  and returns one association per leaf, in order, with the common key; the leaves and the salts are then
  distinct as well, and no index is in the reserved range below 256.
\<close>
theorem inbound_associations:
  "(InboundSAs std sa leaves = Ok out \<longleftrightarrow>
     list_all2 (inboundOf std sa) leaves out \<and> distinct (map in_SPI out)) \<and>
   (InboundSAs std sa leaves = Ok out \<longrightarrow>
     distinct leaves \<and> distinct (map in_Salt out) \<and> list_all (\<lambda>a. 255 < in_SPI a) out)"
proof -
  have i: "InboundSAs std sa leaves = Ok out \<longleftrightarrow>
      list_all2 (inboundOf std sa) leaves out \<and> distinct (map in_SPI out)"
    by (simp add: InboundSAs_def inboundLoop_iff)
  moreover have "list_all (\<lambda>a. 255 < in_SPI a) out" if "list_all2 (inboundOf std sa) leaves out"
    using that by (induction rule: list_all2_induct) (auto simp: inboundOf_def dest: SenderSPI_shape)
  ultimately show ?thesis using inbound_salts_distinct by blast
qed

text \<open>C20: the associations of two epochs whose numbers differ in the low byte, such as the current and
  the previous epoch, can be installed side by side: no index of the one, of the group or of a
  sender, is an index of the other, even in different networks.
\<close>
theorem overlapping_epochs_apart:
  assumes "DeriveSAKeys std g vni = Ok sa" and "DeriveSAKeys std g' vni' = Ok sb"
    and "(ucast (Epoch g) :: byte) \<noteq> ucast (Epoch g')"
  shows "({sa_SPI sa} \<union> {x. \<exists>l. SenderSPI std sa l = Ok x}) \<inter> ({sa_SPI sb} \<union> {x. \<exists>l. SenderSPI std sb l = Ok x}) = {}"
proof -
  have l: "(ucast (sa_SPI sa) :: byte) = ucast (Epoch g)" "(ucast (sa_SPI sb) :: byte) = ucast (Epoch g')"
    "sa_Epoch sa = Epoch g" "sa_Epoch sb = Epoch g'"
    using DeriveSAKeys_shape [OF assms(1)] DeriveSAKeys_shape [OF assms(2)] by simp_all
  have a: "(ucast x :: byte) = ucast (Epoch g)" if "x = sa_SPI sa \<or> (\<exists>l. SenderSPI std sa l = Ok x)" for x
    using that SenderSPI_shape(2) [of std sa _ x] l(1,3) by metis
  have b: "(ucast x :: byte) = ucast (Epoch g')" if "x = sa_SPI sb \<or> (\<exists>l. SenderSPI std sb l = Ok x)" for x
    using that SenderSPI_shape(2) [of std sb _ x] l(2,4) by metis
  have "x \<notin> {sa_SPI sb} \<union> {x. \<exists>l. SenderSPI std sb l = Ok x}"
    if "x \<in> {sa_SPI sa} \<union> {x. \<exists>l. SenderSPI std sa l = Ok x}" for x
    using that a [of x] b [of x] assms(3) by auto
  then show ?thesis by blast
qed

section \<open>Examples\<close>

text \<open>A key derivation whose output is the end of its input: contexts that differ in their last bytes give different
  keys.\<close>

definition echoStd :: Std where
  "echoStd = demoStd\<lparr>hkdfExpand := (\<lambda>_ info len. Ok (take (nat len) (rev info @ replicate 32 0)))\<rparr>"

lemma echo_expand:
  assumes "length l < 50" "length c < 64" "0 \<le> n" "n < 256"
  shows "ExpandWithLabel echoStd s x l c n = Ok (take (nat n) (rev (be16 (of_int n) @
    (of_nat (8 + length l) # bytesOf (mlsLabelPrefix @ l)) @ of_nat (length c) # c) @ replicate 32 0))"
proof -
  have "kdfLabel l c n = Ok (be16 (of_int n) @
      (of_nat (8 + length l) # bytesOf (mlsLabelPrefix @ l)) @ of_nat (length c) # c)"
    using assms by (simp add: kdfLabel_def short_strings bytesOf_def mlsLabelPrefix_def)
  moreover have "kdfExpand echoStd s x buf n = Ok (take (nat n) (rev buf @ replicate 32 0))" for buf
    by (simp add: kdfExpand_def echoStd_def)
  moreover have "\<not> (n < 0 \<or> n > 0xFFFF)" using assms by simp
  ultimately show ?thesis by (simp only: ExpandWithLabel_def if_False bindR.simps)
qed

lemma echo_spi: "deriveSenderSPI echoStd s k vni epoch leaf = Ok (espSPI (unbe32 (rev (be32 leaf))) epoch)"
  by (simp add: deriveSenderSPI_def echo_expand spiContext_def Uint32_def)

lemma echo_derive:
  assumes "gc_CipherSuite (groupContext g) = P256_AES128GCM_SHA256_P256" "g_suite g = p256Suite"
  shows "\<exists>sa. DeriveSAKeys echoStd g 7 = Ok sa \<and> sa_Key sa \<noteq> [] \<and> length (saltMask sa) = 4 \<and> sa_Epoch sa = Epoch g"
proof -
  have g: "Lookup (gc_CipherSuite (groupContext g)) = Some p256Suite"
    by (simp add: assms(1) Lookup_def registry_def p256Suite_def)
  have h: "length (Hash echoStd p256Suite (saContext 7 e)) = 8" for e
    by (simp add: Hash_def echoStd_def demoStd_def p256Suite_def saContext_def)
  then obtain k where k: "Exporter echoStd g espExporterLabel (saContext 7 (Epoch g)) saKeyLen = Ok k" "k \<noteq> []"
    by (auto simp: Exporter_def MLSExporter_def DeriveSecret_def echo_expand assms(2))
  obtain spi where "deriveSPI echoStd p256Suite k 7 (Epoch g) = Ok spi"
    by (simp add: deriveSPI_def echo_expand saContext_def Uint32_def)
  moreover obtain mask where "ExpandWithLabel echoStd p256Suite k ''esp-salt-mask'' [] 4 = Ok mask" "length mask = 4"
    by (simp add: echo_expand)
  ultimately show ?thesis
    using k by (simp add: DeriveSAKeys_def g Let_def SenderSalt_def SenderSPI_def echo_spi)
qed

lemma echo_tiny:
  "\<exists>sa. DeriveSAKeys echoStd (tinyMember leaf key) 7 = Ok sa \<and> sa_Key sa \<noteq> [] \<and> length (saltMask sa) = 4 \<and> sa_Epoch sa = 3"
  using echo_derive [of "tinyMember leaf key"] by (simp add: tinyMember_def tinyContext_def Epoch_def)

theorem members_share_association_witness:
  "\<exists>sa sb. DeriveSAKeys echoStd (tinyMember 0 [1]) 7 = Ok sa \<and> DeriveSAKeys echoStd (tinyMember 1 [2]) 7 = Ok sb \<and>
    sa_Key sb = sa_Key sa \<and> OwnSalt sa \<noteq> OwnSalt sb"
proof -
  obtain sa sb where d: "DeriveSAKeys echoStd (tinyMember 0 [1]) 7 = Ok sa" "DeriveSAKeys echoStd (tinyMember 1 [2]) 7 = Ok sb"
    using echo_tiny [of 0 "[1]"] echo_tiny [of 1 "[2]"] by blast
  moreover have s: "inSync (tinyMember 0 [1]) (tinyMember 1 [2])" and o: "ownLeaf (tinyMember 0 [1]) \<noteq> ownLeaf (tinyMember 1 [2])"
    by (simp_all add: inSync_def tinyMember_def)
  ultimately show ?thesis using members_share_association [OF s d] by blast
qed

theorem inbound_associations_witness:
  "\<exists>sa out. DeriveSAKeys echoStd (tinyMember 0 [1]) 7 = Ok sa \<and> InboundSAs echoStd sa [0, 1] = Ok out \<and>
    distinct (map in_Salt out)"
proof -
  obtain sa where d: "DeriveSAKeys echoStd (tinyMember 0 [1]) 7 = Ok sa" "sa_Key sa \<noteq> []" "length (saltMask sa) = 4" "sa_Epoch sa = 3"
    using echo_tiny [of 0 "[1]"] by blast
  have "SenderSPI echoStd sa 0 = Ok 0x80000003" "SenderSPI echoStd sa 1 = Ok 0x81000003"
    using d(2,4) by (simp_all add: SenderSPI_def echo_spi espSPI_def be32_def unbe32_def)
  then have "\<exists>out. InboundSAs echoStd sa [0, 1] = Ok out"
    using d(3) by (simp add: InboundSAs_def SenderSalt_def)
  then show ?thesis using d(1) inbound_associations by blast
qed

theorem overlapping_epochs_apart_witness:
  "\<exists>sa sb. DeriveSAKeys echoStd (tinyMember 0 [1]) 7 = Ok sa \<and>
    DeriveSAKeys echoStd ((tinyMember 0 [1])\<lparr>groupContext := tinyContext\<lparr>gc_Epoch := 4\<rparr>\<rparr>) 7 = Ok sb \<and> sa_SPI sa \<noteq> sa_SPI sb"
proof -
  let ?h = "(tinyMember 0 [1])\<lparr>groupContext := tinyContext\<lparr>gc_Epoch := 4\<rparr>\<rparr>"
  obtain sa sb where d: "DeriveSAKeys echoStd (tinyMember 0 [1]) 7 = Ok sa" "DeriveSAKeys echoStd ?h 7 = Ok sb"
    using echo_tiny [of 0 "[1]"] echo_derive [of ?h] by (auto simp: tinyMember_def tinyContext_def)
  have "(ucast (Epoch (tinyMember 0 [1])) :: byte) \<noteq> ucast (Epoch ?h)"
    by (simp add: tinyMember_def tinyContext_def Epoch_def)
  from overlapping_epochs_apart [OF d this] d show ?thesis by auto
qed

end
