(* ===== verification/ControllerProps.thy ===== *)
theory ControllerProps
  imports Controller Credentials Ordering AssociationProps "HOL-Library.Multiset"
begin

text \<open>
  Properties of the membership controller: the sort, the election of the committer, the plan of
  a reconciliation, the rotation of associations, one winner per epoch, and the way of a rekey from
  the committer's controller to a member's.
\<close>

section \<open>The sort\<close>

lemma insort_sorted: "sorted xs \<Longrightarrow> insort x xs = sort (x # xs)"
  by (simp add: sorted_sort_id)

lemma sortShift_insert:
  "k < length s \<Longrightarrow> sorted (take k s) \<Longrightarrow> sortShift s k key = insort key (take k s) @ drop (Suc k) s"
proof (induction s k key rule: sortShift.induct)
  case (1 s key)
  then show ?case by (cases s) auto
next
  case (2 s j key)
  have t: "take (Suc j) s = take j s @ [s ! j]" using 2(2) by (simp add: take_Suc_conv_app_nth)
  have s: "sorted (take j s @ [s ! j])" using 2(3) t by simp
  show ?case
  proof (cases "s ! j > key")
    case True
    have d: "drop (Suc j) (s[Suc j := s ! j]) = s ! j # drop (Suc (Suc j)) s"
      using 2(2) by (simp add: Cons_nth_drop_Suc [symmetric])
    have "sorted (insort key (take j s) @ [s ! j])"
      using s True by (auto simp: sorted_append sorted_insort set_insort_key)
    then have "insort key (take (Suc j) s) = insort key (take j s) @ [s ! j]"
      unfolding t by (subst insort_sorted [OF s], intro properties_for_sort) simp_all
    then show ?thesis using 2(1) [OF True] 2(2) s d True by (simp add: sorted_append)
  next
    case False
    have "sorted (take (Suc j) s @ [key])" using s False by (fastforce simp: t sorted_append)
    then have "insort key (take (Suc j) s) = take (Suc j) s @ [key]"
      by (subst insort_sorted [OF 2(3)], intro properties_for_sort) simp_all
    then show ?thesis using False 2(2) by (simp add: upd_conv_take_nth_drop)
  qed
qed

lemma sort_prefix:
  "1 \<le> m \<Longrightarrow> m \<le> length s \<Longrightarrow>
    fold (\<lambda>i s. sortShift s i (s ! i)) [1..<m] s = sort (take m s) @ drop m s"
proof (induction m rule: dec_induct)
  case base
  then show ?case by (cases s) auto
next
  case (step m)
  have l: "length (sort (take m s)) = m" using step by simp
  let ?t = "sort (take m s) @ drop m s"
  have t: "take m ?t = sort (take m s)" "?t ! m = s ! m" "drop (Suc m) ?t = drop (Suc m) s" "m < length ?t"
    using step l by (simp_all add: nth_append)
  have "sort (s ! m # take m s) = sort (take m s @ [s ! m])" by (rule properties_for_sort) simp_all
  then have i: "insort (s ! m) (sort (take m s)) = sort (take (Suc m) s)"
    using step by (simp add: take_Suc_conv_app_nth)
  have "sortShift ?t m (?t ! m) = insort (?t ! m) (take m ?t) @ drop (Suc m) ?t"
    by (rule sortShift_insert [OF t(4)]) (simp only: t sorted_sort)
  also have "\<dots> = sort (take (Suc m) s) @ drop (Suc m) s" by (simp only: t i)
  finally show ?case using step by simp
qed

lemma sortUint32_sort: "sortUint32 s = sort s"
  using sort_prefix [of "length s" s] by (cases s) (simp_all add: sortUint32_def)

section \<open>Active leaves and the committer\<close>

lemma ActiveLeaves_ascending: "sorted_wrt (<) (ActiveLeaves g)"
proof -
  let ?n = "unat (leafCount (g_tree g))"
  have "sorted_wrt (<) (map (of_nat :: nat \<Rightarrow> u32) [0..<?n])"
    unfolding sorted_wrt_map
  proof (rule sorted_wrt_mono_rel [OF _ sorted_wrt_upt])
    fix i j assume "i \<in> set [0..<?n]" "j \<in> set [0..<?n]" "i < j"
    moreover have "?n < 2 ^ 32" using unsigned_less [of "leafCount (g_tree g)"] by simp
    ultimately show "(of_nat i :: u32) < of_nat j" by (simp add: word_less_nat_alt unat_of_nat)
  qed
  then show ?thesis unfolding ActiveLeaves_def by (rule sorted_wrt_filter)
qed

lemma find_first:
  assumes "sorted_wrt (<) xs" "List.find P xs = Some x"
  shows "x \<in> set xs \<and> P x \<and> (\<forall>y\<in>set xs. P y \<longrightarrow> x \<le> (y :: 'a :: linorder))"
  using assms by (induction xs) (auto split: if_splits)

lemma elected:
  assumes "sorted_wrt (<) leaves" "l \<in> set leaves" "l \<notin> set removed"
  shows "electCommitter leaves removed \<in> set leaves - set removed \<and>
    (\<forall>l\<in>set leaves - set removed. electCommitter leaves removed \<le> l)"
proof -
  obtain a ls where a: "leaves = a # ls" using assms(2) by (cases leaves) auto
  show ?thesis
  proof (cases "a \<in> set removed")
    case True
    obtain x where x: "List.find (\<lambda>l. l \<notin> set removed) leaves = Some x"
      using assms(2,3) by (cases "List.find (\<lambda>l. l \<notin> set removed) leaves") (auto simp: find_None_iff)
    then show ?thesis using find_first [OF assms(1) x] True by (auto simp: electCommitter_def a)
  next
    case False
    then show ?thesis using assms(1) by (auto simp: electCommitter_def a less_imp_le)
  qed
qed

section \<open>Identities of leaves\<close>

text \<open>The verified identity of a leaf, if its credential is valid.\<close>

definition idOf :: "Group \<Rightarrow> (Credential \<Rightarrow> bytes \<Rightarrow> bytes res) \<Rightarrow> u32 \<Rightarrow> bytes option" where
  "idOf g validate leaf =
    (case LeafCredential g leaf of
       Inl _ \<Rightarrow> None
     | Inr (cred, sigPub) \<Rightarrow> (case validate cred sigPub of Inl _ \<Rightarrow> None | Inr i \<Rightarrow> Some i))"

lemma identityStep_ok:
  assumes "identityStep g validate m leaf = Ok m'"
  shows "m' = (case idOf g validate leaf of None \<Rightarrow> m | Some i \<Rightarrow> AList.update i leaf m)"
proof -
  obtain cred sigPub where c: "LeafCredential g leaf = Ok (cred, sigPub)"
    using assms by (auto simp: identityStep_def bindR_Inr_iff)
  show ?thesis
  proof (cases "validate cred sigPub")
    case (Inl f)
    then show ?thesis using assms c by (cases f) (simp_all add: identityStep_def idOf_def)
  next
    case (Inr i)
    then show ?thesis using assms c by (simp add: identityStep_def idOf_def)
  qed
qed

text \<open>An identity is mapped to the highest of its leaves.\<close>

lemma identities:
  assumes "foldR (identityStep g validate) [] leaves = Ok m" "sorted_wrt (<) leaves"
  shows "distinct (map fst m) \<and> (\<forall>i l. map_of m i = Some l \<longleftrightarrow>
    l \<in> set leaves \<and> idOf g validate l = Some i \<and> (\<forall>l'\<in>set leaves. idOf g validate l' = Some i \<longrightarrow> l' \<le> l))"
  using assms
proof (induction leaves arbitrary: m rule: rev_induct)
  case (snoc x leaves)
  from snoc.prems obtain m0 where m0: "foldR (identityStep g validate) [] leaves = Ok m0"
    "identityStep g validate m0 x = Ok m"
    by (auto simp: foldR_append bindR_Inr_iff)
  have o: "sorted_wrt (<) leaves" "\<forall>l\<in>set leaves. l < x" using snoc.prems(2) by (auto simp: sorted_wrt_append)
  note IH = snoc.IH [OF m0(1) o(1)]
  show ?case
  proof (cases "idOf g validate x")
    case None
    then show ?thesis using IH identityStep_ok [OF m0(2)] by auto
  next
    case (Some j)
    then have m: "m = AList.update j x m0" using identityStep_ok [OF m0(2)] by simp
    have "map_of m i = Some l \<longleftrightarrow> l \<in> set (leaves @ [x]) \<and> idOf g validate l = Some i \<and>
        (\<forall>l'\<in>set (leaves @ [x]). idOf g validate l' = Some i \<longrightarrow> l' \<le> l)" for i l
    proof (cases "i = j")
      case True
      then show ?thesis using Some o(2) by (auto simp: m update_conv dest: less_imp_le)
    next
      case False
      then show ?thesis using IH Some by (auto simp: m update_conv)
    qed
    then show ?thesis using IH by (simp add: m distinct_update)
  qed
qed simp

section \<open>The plan of a reconciliation\<close>

text \<open>The leaves whose identity is not desired, of several leaves with one identity the highest.\<close>

definition stale :: "Group \<Rightarrow> (Credential \<Rightarrow> bytes \<Rightarrow> bytes res) \<Rightarrow> bytes list \<Rightarrow> u32 set" where
  "stale g validate desired = {l \<in> set (ActiveLeaves g). \<exists>i. idOf g validate l = Some i \<and> i \<notin> set desired \<and>
    (\<forall>l'\<in>set (ActiveLeaves g). idOf g validate l' = Some i \<longrightarrow> l' \<le> l)}"

text \<open>The published key package of an identity.\<close>

definition published :: "(bytes \<Rightarrow> bytes option) option \<Rightarrow> bytes \<Rightarrow> bytes option" where
  "published resolve i = (case resolve of None \<Rightarrow> None | Some f \<Rightarrow> f i)"

lemma removeSet_stale:
  assumes "identityToLeaf g validate = Ok m"
  shows "set (removeSet m desired) = stale g validate desired" "distinct (removeSet m desired)"
proof -
  have m: "distinct (map fst m)" "\<And>i l. map_of m i = Some l \<longleftrightarrow> l \<in> set (ActiveLeaves g) \<and>
      idOf g validate l = Some i \<and> (\<forall>l'\<in>set (ActiveLeaves g). idOf g validate l' = Some i \<longrightarrow> l' \<le> l)"
    using identities [OF _ ActiveLeaves_ascending] assms unfolding identityToLeaf_def by blast+
  have "set (removeSet m desired) = {l. \<exists>i. (i, l) \<in> set m \<and> i \<notin> set desired}"
    by (force simp: removeSet_def)
  also have "\<dots> = {l. \<exists>i. map_of m i = Some l \<and> i \<notin> set desired}"
    using m(1) by (auto simp: map_of_eq_Some_iff)
  also have "\<dots> = stale g validate desired" unfolding m(2) stale_def by blast
  finally show "set (removeSet m desired) = stale g validate desired" .
  show "distinct (removeSet m desired)" by (simp add: removeSet_def)
qed

lemma addIdents_missing:
  assumes "identityToLeaf g validate = Ok m"
  shows "addIdents m desired = filter (\<lambda>i. \<forall>l\<in>set (ActiveLeaves g). idOf g validate l \<noteq> Some i) desired"
proof -
  have m: "map_of m i = Some l \<longleftrightarrow> l \<in> set (ActiveLeaves g) \<and>
      idOf g validate l = Some i \<and> (\<forall>l'\<in>set (ActiveLeaves g). idOf g validate l' = Some i \<longrightarrow> l' \<le> l)" for i l
    using identities [OF _ ActiveLeaves_ascending] assms unfolding identityToLeaf_def by blast
  have "map_of m i = None \<longleftrightarrow> (\<forall>l\<in>set (ActiveLeaves g). idOf g validate l \<noteq> Some i)" for i
  proof (cases "\<exists>l\<in>set (ActiveLeaves g). idOf g validate l = Some i")
    case True
    let ?L = "{l \<in> set (ActiveLeaves g). idOf g validate l = Some i}"
    have "Max ?L \<in> ?L" using True by (intro Max_in) auto
    then have "map_of m i = Some (Max ?L)" unfolding m by auto
    then show ?thesis using True by auto
  next
    case False
    then show ?thesis using m [of i] by (cases "map_of m i") auto
  qed
  then show ?thesis by (simp add: addIdents_def)
qed

lemma addStep_published:
  "addStep resolve (ps, as, ns) i =
    (case published resolve i of
       None \<Rightarrow> Ok (ps, as, ns @ [i])
     | Some msg \<Rightarrow> bindR (DecodeKeyPackageMessage msg) (\<lambda>kp. Ok (ps @ [ProposeAdd kp], as @ [i], ns)))"
  by (simp add: addStep_def published_def)

lemma addSteps:
  assumes "foldR (addStep resolve) (ps, as, ns) ids = Ok (ps', as', ns')"
  shows "as' = as @ filter (\<lambda>i. published resolve i \<noteq> None) ids \<and> ns' = ns @ filter (\<lambda>i. published resolve i = None) ids \<and>
    (\<exists>kps. ps' = ps @ map ProposeAdd kps \<and>
      list_all2 (\<lambda>i kp. \<exists>msg. published resolve i = Some msg \<and> DecodeKeyPackageMessage msg = Ok kp)
        (filter (\<lambda>i. published resolve i \<noteq> None) ids) kps)"
  using assms
proof (induction ids arbitrary: ps as ns)
  case (Cons i ids)
  show ?case
  proof (cases "published resolve i")
    case None
    then have "foldR (addStep resolve) (ps, as, ns @ [i]) ids = Ok (ps', as', ns')"
      using Cons.prems by (simp add: addStep_published)
    from Cons.IH [OF this] None show ?thesis by simp
  next
    case (Some msg)
    then obtain kp where kp: "DecodeKeyPackageMessage msg = Ok kp"
      "foldR (addStep resolve) (ps @ [ProposeAdd kp], as @ [i], ns) ids = Ok (ps', as', ns')"
      using Cons.prems by (auto simp: addStep_published bindR_Inr_iff)
    from Cons.IH [OF kp(2)] obtain kps where
      "ps' = ps @ map ProposeAdd (kp # kps)" "as' = as @ i # filter (\<lambda>i. published resolve i \<noteq> None) ids"
      "ns' = ns @ filter (\<lambda>i. published resolve i = None) ids"
      "list_all2 (\<lambda>i kp. \<exists>msg. published resolve i = Some msg \<and> DecodeKeyPackageMessage msg = Ok kp)
        (filter (\<lambda>i. published resolve i \<noteq> None) ids) kps" by auto
    then show ?thesis using Some kp(1) by (auto intro!: exI [of _ "kp # kps"])
  qed
qed simp

lemma elected_survivor:
  assumes "identityToLeaf g validate = Ok m" "set (ActiveLeaves g) - stale g validate desired \<noteq> {}"
  shows "electCommitter (ActiveLeaves g) (removeSet m desired) = Min (set (ActiveLeaves g) - stale g validate desired)"
proof -
  obtain l where "l \<in> set (ActiveLeaves g)" "l \<notin> set (removeSet m desired)"
    using assms removeSet_stale(1) [OF assms(1), of desired] by auto
  from elected [OF ActiveLeaves_ascending this] show ?thesis
    unfolding removeSet_stale(1) [OF assms(1)] by (intro Min_eqI [symmetric]) auto
qed

section \<open>Rotation\<close>

text \<open>The controller is at a group state whose association is current and the one before is kept.\<close>

definition rotated :: "Std \<Rightarrow> Controller \<Rightarrow> Controller \<Rightarrow> bool" where
  "rotated std c c' \<longleftrightarrow> cfg c' = cfg c \<and> prevSA c' = curSA c \<and> hasPrev c' \<and>
    (\<exists>g sa. c_g c' = Some g \<and> DeriveSAKeys std g (cfg_VNI (cfg c)) = Ok sa \<and> curSA c' = Some sa)"

definition sameSAs :: "Controller \<Rightarrow> Controller \<Rightarrow> bool" where
  "sameSAs c c' \<longleftrightarrow> cfg c' = cfg c \<and> curSA c' = curSA c \<and> prevSA c' = prevSA c \<and> hasPrev c' = hasPrev c"

lemma rotateSA_rotated:
  "rotateSA std c0 = (Ok (), c') \<Longrightarrow> cfg c0 = cfg c \<Longrightarrow> curSA c0 = curSA c \<Longrightarrow> rotated std c c' \<and> c_g c' = c_g c0"
  by (auto simp: rotateSA_def rotated_def deriveCur_def Let_def bindR_Inr_iff fromOption_Inr_iff split: sum.splits)

lemma commitAndOrder_rotates:
  assumes "commitAndOrder std rnd accept ord c ps = ((m, w, won, None), c', ord')"
  shows "if won then rotated std c c' else sameSAs c c'"
  using assms
  by (auto simp: commitAndOrder_def Let_def sameSAs_def split: option.splits prod.splits sum.splits bool.splits
      dest!: rotateSA_rotated [where c = c])

section \<open>Ordering\<close>

text \<open>The state of an ordering authority after a sequence of calls.\<close>

primrec afterCalls ::
  "('w \<Rightarrow> 's \<Rightarrow> bytes \<Rightarrow> u64 \<Rightarrow> bytes \<Rightarrow> bool res \<times> 's) \<Rightarrow> 's \<Rightarrow> ('w \<times> bytes \<times> u64 \<times> bytes) list \<Rightarrow> 's" where
  "afterCalls accept s [] = s"
| "afterCalls accept s (call # calls) =
    (case call of (w, g, e, c) \<Rightarrow> afterCalls accept (snd (accept w s g e c)) calls)"

lemma commitAndOrder_won:
  assumes "commitAndOrder std rnd accept ord c ps = ((Some m, w, True, err), c', ord')" "c_g c = Some g"
  shows "accept ord (c_groupID c) (Epoch g) (Hash std (cfg_Suite (cfg c)) m) = (Ok True, ord')"
  using assms
  by (auto simp: commitAndOrder_def Let_def split: option.splits prod.splits sum.splits bool.splits)

context ordering
begin

lemma calls_keep_decisions: "decided s g e = Some d \<Longrightarrow> decided (afterCalls accept s calls) g e = Some d"
proof (induction calls arbitrary: s)
  case (Cons call calls)
  obtain w g' e' c where call: "call = (w, g', e', c)" by (cases call)
  have "decided (snd (accept w s g' e' c)) g e = Some d"
    by (rule stable [OF _ Cons.prems]) (rule prod.collapse [symmetric])
  then show ?case using Cons.IH by (simp add: call)
qed simp

lemma one_winner:
  assumes "commitAndOrder std rnd (accept w) s c ps = ((Some m, wm, True, err), c', s')" "c_g c = Some g"
    and "commitAndOrder std rnd' (accept w') (afterCalls accept s' calls) d qs = ((Some m', wm', True, err'), d', s'')"
    and "c_g d = Some h" "c_groupID d = c_groupID c" "Epoch h = Epoch g"
  shows "Hash std (cfg_Suite (cfg d)) m' = Hash std (cfg_Suite (cfg c)) m"
proof -
  have "decided s' (c_groupID c) (Epoch g) = Some (Hash std (cfg_Suite (cfg c)) m)"
    by (rule accepted [OF commitAndOrder_won [OF assms(1,2)]])
  then have "decided (afterCalls accept s' calls) (c_groupID c) (Epoch g) = Some (Hash std (cfg_Suite (cfg c)) m)"
    by (rule calls_keep_decisions)
  moreover have "accept w' (afterCalls accept s' calls) (c_groupID c) (Epoch g) (Hash std (cfg_Suite (cfg d)) m') = (Ok True, s'')"
    using commitAndOrder_won [OF assms(3,4)] assms(5,6) by simp
  ultimately show ?thesis using accepted stable by (metis option.inject)
qed

end

section \<open>A rekey\<close>

text \<open>Up to its limit of 255 blocks, HKDF-Expand gives as many bytes as are asked for.\<close>

definition kdfLaw :: "Std \<Rightarrow> bool" where
  "kdfLaw std \<longleftrightarrow> (\<forall>secret info n. 0 \<le> n \<and> n \<le> 255 * 32 \<longrightarrow>
    (\<exists>out. hkdfExpand std secret info n = Ok out \<and> length out = nat n))"

lemma kdf_expands:
  assumes "kdfLaw std" "length l < 50" "length c < 64" "0 \<le> n" "n \<le> 255 * 32"
  shows "\<exists>out. ExpandWithLabel std s x l c n = Ok out \<and> length out = nat n"
proof -
  obtain buf where "kdfLabel l c n = Ok buf"
    using assms by (auto simp: kdfLabel_def short_strings bytesOf_def mlsLabelPrefix_def)
  then show ?thesis using assms by (simp add: ExpandWithLabel_def kdfExpand_def kdfLaw_def)
qed

lemma derived_follows:
  assumes "kdfLaw std" "inSync g h" "DeriveSAKeys std g vni = Ok sa"
  shows "\<exists>sb. DeriveSAKeys std h vni = Ok sb"
proof -
  have e: "Exporter std h = Exporter std g" "groupContext h = groupContext g" "Epoch h = Epoch g"
    using assms(2) inSync_Exporter [of g h] by (simp_all add: inSync_def Epoch_def)
  obtain s k spi mask where a: "Lookup (gc_CipherSuite (groupContext g)) = Some s"
    "Exporter std g espExporterLabel (saContext vni (Epoch g)) saKeyLen = Ok k"
    "deriveSPI std s k vni (Epoch g) = Ok spi" "ExpandWithLabel std s k ''esp-salt-mask'' [] 4 = Ok mask"
    "SenderSPI std sa (ownLeaf g) = Ok (OwnSPI sa)"
    "sa = \<lparr>sa_VNI = vni, sa_Epoch = Epoch g, sa_SPI = spi, sa_Key = k, OwnLeaf = ownLeaf g,
       OwnSalt = OwnSalt sa, OwnSPI = OwnSPI sa, saltMask = mask, sa_suite = s\<rparr>"
    by (rule derived_parts [OF assms(3)])
  have "sa_Key sa \<noteq> []" using a(5) by (auto simp: SenderSPI_def)
  then have k: "k \<noteq> []" using a(6) by (metis SA.select_convs(4))
  have "length mask = 4" using kdf_expands [OF assms(1), of "''esp-salt-mask''" "[]" 4 s k] a(4) by simp
  moreover obtain raw where "ExpandWithLabel std s k ''esp-spi-sender'' (spiContext vni (Epoch g) (ownLeaf h)) 4 = Ok raw"
    "length raw = 4"
    using kdf_expands [OF assms(1), of "''esp-spi-sender''" "spiContext vni (Epoch g) (ownLeaf h)" 4 s k]
    by (auto simp: spiContext_def)
  ultimately show ?thesis
    using a(1-4) k
    by (simp add: DeriveSAKeys_def e Let_def SenderSalt_def SenderSPI_def deriveSenderSPI_def Uint32_def)
qed

lemma rekey_committed:
  assumes "Rekey std rnd accept ord c = ((Some msg, True, None), c', ord')" "c_g c = Some g"
  obtains welcomeMsg g' sa where "Group_Commit std rnd g noProposals = (Ok (msg, welcomeMsg), g')"
    "c_g c' = Some g'" "DeriveSAKeys std g' (cfg_VNI (cfg c)) = Ok sa" "curSA c' = Some sa"
proof -
  obtain w where w: "commitAndOrder std rnd accept ord c [] = ((Some msg, w, True, None), c', ord')"
    using assms by (auto simp: Rekey_def split: if_splits prod.splits)
  then obtain wm g' c0 where g: "Group_Commit std rnd g noProposals = (Ok (msg, wm), g')"
    "rotateSA std (c\<lparr>c_g := Some g'\<rparr>) = (Ok (), c')"
    using assms(2)
    by (auto simp: commitAndOrder_def noProposals_def Let_def split: option.splits prod.splits sum.splits bool.splits)
  from rotateSA_rotated [OF g(2), of c] have "rotated std c c'" "c_g c' = Some g'" by simp_all
  then show ?thesis using that g(1) by (auto simp: rotated_def)
qed

lemma rekey_handled:
  assumes "Group_Commit std rnd g noProposals = (Ok (msg, welcomeMsg), g')" "inSync g h"
    and "remains std g noProposals h" "LeafNodeAt (g_tree g) (ownLeaf g) = Ok ln"
    and "commitLaws std (g_suite g) (signerOf_g g) (SignatureKey ln)" "length (rnd_guard rnd) = 4"
    and "kdfLaw std" "DeriveSAKeys std g' (cfg_VNI (cfg d)) = Ok sa" "c_g d = Some h"
  obtains h' sb d' where "inSync g' h'" "Epoch h' = Epoch h + 1" "DeriveSAKeys std h' (cfg_VNI (cfg d)) = Ok sb"
    "HandleCommit std d msg = (Ok (), d')" "c_g d' = Some h'" "curSA d' = Some sb" "prevSA d' = curSA d"
proof -
  have o: "list_all wfProposal (ByValue noProposals)" "ByReference noProposals = []" "ByValue noProposals = []"
    by (simp_all add: noProposals_def)
  obtain h' cm where h: "ProcessCommit std h [] msg = Ok h'" "inSync g' h'" "Epoch h' = Epoch h + 1"
    "PeekCommit std h msg = Ok cm" "cm_Proposals cm = []"
    using commit_follows [OF assms(1-5) o(1) assms(6)] by (auto simp: o referenceProposals_def)
  obtain sb where sb: "DeriveSAKeys std h' (cfg_VNI (cfg d)) = Ok sb"
    using derived_follows [OF assms(7) h(2) assms(8)] by blast
  have "HandleCommit std d msg =
      (Ok (), d\<lparr>c_g := Some h', prevSA := curSA d, hasPrev := True, curSA := Some sb\<rparr>)"
    using h(1,4,5) sb assms(9)
    by (simp add: HandleCommit_def commitRemovesSelf_def rotateSA_def deriveCur_def Let_def)
  with that [OF h(2,3) sb this] show ?thesis by simp
qed

section \<open>Properties\<close>

text \<open>C6: what a reconciliation sets out to do.  A plan is made only at the lowest leaf that stays in the
  group.  It removes, in ascending order, exactly the leaves whose verified identity is not
  desired, never the own one (of several leaves with the same identity the highest); it adds
  the desired identities that no active leaf has and that have a published key package, in the
  given order, and reports the others as pending; and its proposals are the removals followed by the
  additions.
\<close>
theorem reconcile_plan:
  assumes "reconcilePlan c desired = Ok (Some (proposals, removed, added, pending))"
    and "c_g c = Some g" and "Validator (cfg c) = Some validate"
  shows "(set (ActiveLeaves g) - stale g validate desired \<noteq> {} \<longrightarrow>
      ownLeaf g = Min (set (ActiveLeaves g) - stale g validate desired)) \<and>
    removed = sorted_list_of_set (stale g validate desired - {ownLeaf g}) \<and>
    (let missing = filter (\<lambda>i. \<forall>l\<in>set (ActiveLeaves g). idOf g validate l \<noteq> Some i) desired in
       added = filter (\<lambda>i. published (Resolve (cfg c)) i \<noteq> None) missing \<and>
       pending = filter (\<lambda>i. published (Resolve (cfg c)) i = None) missing) \<and>
    (\<exists>kps. proposals = map ProposeRemove removed @ map ProposeAdd kps \<and>
      list_all2 (\<lambda>i kp. \<exists>msg. published (Resolve (cfg c)) i = Some msg \<and> DecodeKeyPackageMessage msg = Ok kp) added kps)"
proof -
  obtain m where m: "identityToLeaf g validate = Ok m" "ownLeaf g = electCommitter (ActiveLeaves g) (removeSet m desired)"
    "removed = sortUint32 (filter (\<lambda>l. l \<noteq> ownLeaf g) (removeSet m desired))"
    "foldR (addStep (Resolve (cfg c))) (map ProposeRemove removed, [], []) (addIdents m desired) =
      Ok (proposals, added, pending)"
    using assms by (auto simp: reconcilePlan_def bindR_Inr_iff Let_def split: if_splits)
  let ?r = "filter (\<lambda>l. l \<noteq> ownLeaf g) (removeSet m desired)"
  have "sort ?r = sorted_list_of_set (set ?r)"
    using removeSet_stale(2) [OF m(1)] by (metis distinct_filter sorted_list_of_set_sort_remdups distinct_remdups_id)
  also have "set ?r = stale g validate desired - {ownLeaf g}" using removeSet_stale(1) [OF m(1)] by auto
  finally have "removed = sorted_list_of_set (stale g validate desired - {ownLeaf g})" using m(3) sortUint32_sort by simp
  then show ?thesis
    using addSteps [OF m(4)] elected_survivor [OF m(1), of desired] m(2) unfolding addIdents_missing [OF m(1)] Let_def by simp
qed

text \<open>C5: reconciliation has exactly one committer.  As long as some active leaf is to stay, the member at the
  lowest such leaf, and no other member, goes on to make a plan; all members of an epoch agree on who
  it is.
\<close>
theorem exactly_one_committer:
  assumes "c_g c = Some g" and "Validator (cfg c) = Some validate" and "identityToLeaf g validate = Ok m"
    and "set (ActiveLeaves g) - stale g validate desired \<noteq> {}"
  shows "(reconcilePlan c desired \<noteq> Ok None \<longleftrightarrow> ownLeaf g = Min (set (ActiveLeaves g) - stale g validate desired)) \<and>
    Min (set (ActiveLeaves g) - stale g validate desired) \<in> set (ActiveLeaves g) \<and>
    (inSync g h \<longrightarrow> set (ActiveLeaves h) - stale h validate desired = set (ActiveLeaves g) - stale g validate desired)"
proof -
  let ?S = "set (ActiveLeaves g) - stale g validate desired"
  have "reconcilePlan c desired \<noteq> Ok None \<longleftrightarrow> ownLeaf g = Min ?S"
    using assms elected_survivor [OF assms(3,4)] by (auto simp: reconcilePlan_def Let_def bindR_Inr_iff)
  moreover have "Min ?S \<in> ?S" using assms(4) by (intro Min_in) auto
  moreover have "ActiveLeaves h = ActiveLeaves g \<and> idOf h = idOf g" if "inSync g h"
    using that by (auto simp: ActiveLeaves_def idOf_def [abs_def] LeafCredential_def inSync_def)
  ultimately show ?thesis by (auto simp: stale_def)
qed




section \<open>Examples\<close>

text \<open>Two controllers of the two-member group.\<close>

definition tinyController :: "u32 \<Rightarrow> bytes \<Rightarrow> Controller" where
  "tinyController leaf key = \<lparr>cfg = \<lparr>cfg_VNI = 7, cfg_Suite = p256Suite, Validator = Some BasicCredentialValidator_Validate,
      cfg_Cred = leaf_Credential (sampleLeaf key), cfg_Signer = demoSigner key,
      cfg_Lifetime = \<lparr>NotBefore = 0, NotAfter = 0\<rparr>, Resolve = None, cfg_HandshakePrivacy = HandshakePlaintext\<rparr>,
    c_g = Some (tinyMember leaf key), c_groupID = GroupID 7, curSA = None, prevSA = None, hasPrev = False\<rparr>"

lemma tiny_leaves: "ActiveLeaves (tinyMember leaf key) = [0, 1]"
proof -
  have "[0..<2] = [0, 1 :: nat]" by (simp add: upt_rec)
  then show ?thesis
    by (simp add: ActiveLeaves_def tinyMember_def LeafNodeAt_def NodeAt_def)
      (simp add: sampleTree_def len32_def leafEntry_def)
qed

lemma tiny_ids:
  "idOf (tinyMember leaf key) BasicCredentialValidator_Validate 0 = Some [1]"
  "idOf (tinyMember leaf key) BasicCredentialValidator_Validate 1 = Some [2]"
proof -
  have "LeafCredential (tinyMember leaf key) 0 = Ok (leaf_Credential (sampleLeaf [1]), [1])"
    "LeafCredential (tinyMember leaf key) 1 = Ok (leaf_Credential (sampleLeaf [2]), [2])"
    by (simp_all add: LeafCredential_def tinyMember_def LeafNodeAt_def NodeAt_def)
      (simp_all add: sampleTree_def len32_def leafEntry_def sampleLeaf_def)
  then show "idOf (tinyMember leaf key) BasicCredentialValidator_Validate 0 = Some [1]"
    "idOf (tinyMember leaf key) BasicCredentialValidator_Validate 1 = Some [2]"
    by (simp_all add: idOf_def BasicCredentialValidator_Validate_def sampleLeaf_def)
qed

lemma tiny_stale: "stale (tinyMember leaf key) BasicCredentialValidator_Validate [[1]] = {1}"
  using tiny_ids [of leaf key] by (auto simp: stale_def tiny_leaves)

lemma tiny_identities: "\<exists>m. identityToLeaf (tinyMember leaf key) BasicCredentialValidator_Validate = Ok m"
proof -
  have "\<exists>m'. identityStep (tinyMember leaf key) BasicCredentialValidator_Validate m l = Ok m'" if "l \<in> {0, 1}" for l m
    using that tiny_ids [of leaf key]
    by (auto simp: identityStep_def idOf_def split: sum.splits fault.splits prod.splits)
  then show ?thesis
    unfolding identityToLeaf_def tiny_leaves by (metis bindR.simps(2) foldR.simps insert_iff)
qed

theorem exactly_one_committer_witness:
  "reconcilePlan (tinyController 0 [1]) [[1]] \<noteq> Ok None \<and> reconcilePlan (tinyController 1 [2]) [[1]] = Ok None"
proof -
  have c: "c_g (tinyController leaf key) = Some (tinyMember leaf key)"
    "Validator (cfg (tinyController leaf key)) = Some BasicCredentialValidator_Validate" for leaf key
    by (simp_all add: tinyController_def)
  have s: "set (ActiveLeaves (tinyMember leaf key)) - stale (tinyMember leaf key) BasicCredentialValidator_Validate [[1]] = {0}"
    for leaf key using tiny_leaves tiny_stale by auto
  have o: "ownLeaf (tinyMember leaf key) = leaf" for leaf key by (simp add: tinyMember_def)
  obtain m m' where m: "identityToLeaf (tinyMember 0 [1]) BasicCredentialValidator_Validate = Ok m"
    "identityToLeaf (tinyMember 1 [2]) BasicCredentialValidator_Validate = Ok m'" using tiny_identities by blast
  show ?thesis
    using exactly_one_committer [OF c m(1), of "[[1]]"] exactly_one_committer [OF c m(2), of "[[1]]"] unfolding s o by simp
qed

lemma tiny_sa:
  assumes "g_suite g = p256Suite" "gc_CipherSuite (groupContext g) = P256_AES128GCM_SHA256_P256"
  shows "\<exists>sa. DeriveSAKeys tinyStd g vni = Ok sa"
proof -
  have "Lookup (gc_CipherSuite (groupContext g)) = Some p256Suite"
    by (simp add: assms(2) Lookup_def registry_def p256Suite_def)
  then show ?thesis
    by (simp add: DeriveSAKeys_def Let_def Exporter_def MLSExporter_def assms(1) tiny_derive tiny_expand deriveSPI_def
        saContext_def Uint32_def SenderSalt_def SenderSPI_def deriveSenderSPI_def spiContext_def)
qed

lemma tiny_kdf: "kdfLaw tinyStd"
  by (simp add: kdfLaw_def tinyStd_def)

lemma tiny_orders:
  assumes "accept ord (c_groupID c) 3 [] = (Ok True, ord')" "c_g c = Some (tinyMember 0 [1])" "cfg_Suite (cfg c) = p256Suite"
  shows "\<exists>m c'. commitAndOrder tinyStd tinyRand accept ord c [] = ((Some m, None, True, None), c', ord')"
proof -
  obtain commit g' sa where g: "Group_Commit tinyStd tinyRand (tinyMember 0 [1]) noProposals = (Ok (commit, None), g')"
    "DeriveSAKeys tinyStd g' (cfg_VNI (cfg c)) = Ok sa"
    using tiny_commit tiny_sa by metis
  have "Epoch (tinyMember 0 [1]) = 3" by (simp add: Epoch_def tinyMember_def tinyContext_def)
  then show ?thesis
    using g assms by (simp add: commitAndOrder_def Let_def noProposals_def rotateSA_def deriveCur_def)
qed

theorem reconcile_plan_witness:
  "\<exists>proposals removed added pending.
    reconcilePlan (tinyController 0 [1]) [[1], [3]] = Ok (Some (proposals, removed, added, pending)) \<and>
    removed = [1] \<and> added = [] \<and> pending = [[3]]"
proof -
  let ?c = "tinyController 0 [1]" and ?g = "tinyMember 0 [1]" and ?v = "BasicCredentialValidator_Validate"
  have c: "c_g ?c = Some ?g" "Validator (cfg ?c) = Some ?v" "Resolve (cfg ?c) = None" "ownLeaf ?g = 0"
    by (simp_all add: tinyController_def tinyMember_def)
  have st: "stale ?g ?v [[1], [3]] = {1}" using tiny_ids by (auto simp: stale_def tiny_leaves)
  obtain m where m: "identityToLeaf ?g ?v = Ok m" using tiny_identities by blast
  have "{0, 1} - {1} = {0 :: u32}" by auto
  then have "electCommitter (ActiveLeaves ?g) (removeSet m [[1], [3]]) = 0"
    using elected_survivor [OF m, of "[[1], [3]]"] by (simp add: st tiny_leaves)
  moreover have "foldR (addStep None) acc ids = Ok (fst acc, fst (snd acc), snd (snd acc) @ ids)" for acc ids
    by (induction ids arbitrary: acc) (auto simp: addStep_def split: prod.splits)
  ultimately have "\<exists>p r a n. reconcilePlan ?c [[1], [3]] = Ok (Some (p, r, a, n))"
    using c m by (simp add: reconcilePlan_def Let_def)
  then obtain p r a n where p: "reconcilePlan ?c [[1], [3]] = Ok (Some (p, r, a, n))" by blast
  then show ?thesis
    using reconcile_plan [OF p c(1,2)] tiny_ids [of 0 "[1]"] by (simp add: st c tiny_leaves published_def Let_def)
qed


lemma tiny_rekey:
  "\<exists>m c' ord. Rekey tinyStd tinyRand (memAccept ()) NewMemorySequencer (tinyController 0 [1]) = ((Some m, True, None), c', ord)"
proof -
  let ?c = "tinyController 0 [1]"
  have c: "c_g ?c = Some (tinyMember 0 [1])" "cfg_Suite (cfg ?c) = p256Suite" "IsCommitter ?c"
    using tiny_leaves [of 0 "[1]"] by (simp_all add: tinyController_def IsCommitter_def) (simp add: tinyMember_def)
  obtain ord where "memAccept () NewMemorySequencer (c_groupID ?c) 3 [] = (Ok True, ord)"
    by (simp add: memAccept_def MemorySequencer_AcceptCommit_def NewMemorySequencer_def Let_def)
  from tiny_orders [of "memAccept ()" NewMemorySequencer ?c, OF this c(1,2)] c show ?thesis by (auto simp: Rekey_def)
qed



end
