(* ===== verification/Scenarios.thy ===== *)
theory Scenarios
  imports Client Reflector ControllerProps
begin

text \<open>
  The built-in profiles of the simulator, \<^verbatim>\<open>src/sim/scenario.go\<close>, and its verdict on a finished run,
  \<^verbatim>\<open>src/sim/invariant.go\<close>.
\<close>

section \<open>Scenarios\<close>

record scriptedPartition =
  sp_At :: u64
  sp_Until :: u64
  sp_SideA :: "ActorID list"
  sp_SideB :: "ActorID list"

record scriptedDSDown =
  sd_At :: u64
  sd_Until :: u64
  sd_DS :: ActorID

record Scenario =
  Name :: string
  Clients :: int
  VNIs :: int
  sc_Suite :: u16
  sc_W :: int
  Faults :: FaultConfig
  Partitions :: "scriptedPartition list"
  DSDowns :: "scriptedDSDown list"
  Churn :: "ChurnOp list"
  SettleRounds :: u64
  MBBDisabled :: bool
  SingleReplica :: bool
  SharedSPIReplay :: bool
  EncryptHandshakes :: bool

abbreviation defaultSuite :: u16 where "defaultSuite \<equiv> XWING_AES256GCM_SHA256_Ed25519"

definition base :: "string \<Rightarrow> int \<Rightarrow> int \<Rightarrow> Scenario" where
  "base name cs vs = \<lparr>Name = name, Clients = cs, VNIs = vs, sc_Suite = defaultSuite, sc_W = 4,
     Faults = \<lparr>DropProb = 0, Latency = 2, Jitter = 2\<rparr>, Partitions = [], DSDowns = [], Churn = [], SettleRounds = 300,
     MBBDisabled = False, SingleReplica = False, SharedSPIReplay = False, EncryptHandshakes = False\<rparr>"

definition reflectorID :: "Scenario \<Rightarrow> int \<Rightarrow> ActorID" where
  "reflectorID s r = Clients s + r"

definition joinOp :: "ActorID \<Rightarrow> u32 \<Rightarrow> ChurnOp" where
  "joinOp c v = \<lparr>co_Join = True, co_Client = c, co_VNI = v\<rparr>"

definition leaveOp :: "ActorID \<Rightarrow> u32 \<Rightarrow> ChurnOp" where
  "leaveOp c v = \<lparr>co_Join = False, co_Client = c, co_VNI = v\<rparr>"

definition churnPlan :: "int \<Rightarrow> int \<Rightarrow> ChurnOp list" where
  "churnPlan cs vs = concat (map (\<lambda>c. map (\<lambda>v. joinOp c (word_of_int v)) [0..vs - 1]) [1..cs - 1])"

definition migrationPlan :: "int \<Rightarrow> ChurnOp list" where
  "migrationPlan vs =
    concat (map (\<lambda>v. let vv = word_of_int v in [joinOp 1 vv, joinOp 2 vv]) [0..vs - 1]) @
    concat (map (\<lambda>v. let vv = word_of_int v in [leaveOp 1 vv, joinOp 3 vv, leaveOp 2 vv, joinOp 4 vv]) [0..vs - 1])"

text \<open>The floating-point number \<^verbatim>\<open>0.2\<close>.\<close>

definition twentyPercent :: rat where
  "twentyPercent = 3602879701896397 / 18014398509481984"

definition Nominal :: Scenario where
  "Nominal = (base ''nominal'' 5 2)\<lparr>Churn := churnPlan 5 2\<rparr>"

definition Drops :: Scenario where
  "Drops = (let s = base ''drops'' 5 2 in s\<lparr>Faults := (Faults s)\<lparr>DropProb := twentyPercent\<rparr>, Churn := churnPlan 5 2\<rparr>)"

definition DSDown :: Scenario where
  "DSDown = (let s = base ''ds_down'' 5 2 in
     s\<lparr>Churn := churnPlan 5 2, DSDowns := [\<lparr>sd_At = 50, sd_Until = 130, sd_DS = reflectorID s 0\<rparr>]\<rparr>)"

definition PartitionRecover :: Scenario where
  "PartitionRecover = (let s = base ''partition_recover'' 6 2 in
     s\<lparr>Churn := churnPlan 6 2,
       Partitions := [\<lparr>sp_At = 40, sp_Until = 150, sp_SideA = [2, 3], sp_SideB = [reflectorID s 0]\<rparr>]\<rparr>)"

definition BothRekey :: Scenario where
  "BothRekey = (base ''both_rekey'' 5 3)\<lparr>Churn := churnPlan 5 3\<rparr>"

definition EncryptedChurn :: Scenario where
  "EncryptedChurn = Nominal\<lparr>Name := ''encrypted_churn'', EncryptHandshakes := True\<rparr>"

definition MigrationChurn :: Scenario where
  "MigrationChurn = (base ''migration_churn'' 5 2)\<lparr>Churn := migrationPlan 2\<rparr>"

definition NegativeControl :: Scenario where
  "NegativeControl = (let s = base ''negative_control'' 5 2 in
     s\<lparr>Faults := (Faults s)\<lparr>DropProb := twentyPercent\<rparr>, Churn := churnPlan 5 2, MBBDisabled := True, SingleReplica := True\<rparr>)"

definition SharedSPIReplayControl :: Scenario where
  "SharedSPIReplayControl = (base ''shared_spi_replay'' 5 2)\<lparr>Churn := churnPlan 5 2, SharedSPIReplay := True\<rparr>"

definition All :: "Scenario list" where
  "All = [Nominal, Drops, DSDown, PartitionRecover, BothRekey, EncryptedChurn]"

definition ByName :: "string \<Rightarrow> Scenario option" where
  "ByName name = List.find (\<lambda>s. Name s = name) (All @ [NegativeControl, MigrationChurn, SharedSPIReplayControl])"

section \<open>Verdict\<close>

record Result =
  InvariantsHeld :: bool
  Divergence :: "string list"
  Fork :: "string list"
  Membership :: "string list"
  PacketLoss :: "LossEvent list"
  rs_Metrics :: "Metrics option"
  Trace :: "string list"

text \<open>The epoch, the epoch authenticator and the key that a live member shows.\<close>

record tip =
  tip_epoch :: u64
  tip_ea :: bytes
  tip_key :: bytes

definition tipOf :: "vniState \<Rightarrow> tip option" where
  "tipOf st =
    (if \<not> joined st then None
     else
       case (CurrentSA (ctrl st), c_g (ctrl st)) of
         (Inr sa, Some g) \<Rightarrow>
           Some \<lparr>tip_epoch = Controller_Epoch (ctrl st), tip_ea = Group_EpochAuthenticator g,
             tip_key = (case sa of None \<Rightarrow> [] | Some s \<Rightarrow> sa_Key s)\<rparr>
       | _ \<Rightarrow> None)"

text \<open>The tips and the identities of the live members of a channel, in the order of the clients.\<close>

definition tipsOf :: "Client list \<Rightarrow> u32 \<Rightarrow> tip list" where
  "tipsOf cs ch = List.map_filter (\<lambda>c. Option.bind (vniOf c ch) tipOf) cs"

definition liveOf :: "Client list \<Rightarrow> u32 \<Rightarrow> bytes list" where
  "liveOf cs ch = remdups (map cl_identity (filter (\<lambda>c. Option.bind (vniOf c ch) tipOf \<noteq> None) cs))"

definition liveChannels :: "Client list \<Rightarrow> u32 list" where
  "liveChannels cs = sort (remdups (filter (\<lambda>ch. tipsOf cs ch \<noteq> []) (concat (map (\<lambda>c. map fst (vnis c)) cs))))"

definition chLabel :: "u32 \<Rightarrow> string" where
  "chLabel ch = ''ch='' @ showInt (uint ch) @ '' (vni='' @ showInt (uint (tenantOf ch)) @ '' r='' @ showInt (replicaOf ch) @ '')''"

definition tipFailures :: "u32 \<Rightarrow> tip \<Rightarrow> tip \<Rightarrow> string list" where
  "tipFailures ch t0 t =
    (if tip_epoch t \<noteq> tip_epoch t0 \<or> tip_ea t \<noteq> tip_ea t0
     then [chLabel ch @ '' epoch/EA mismatch '' @ showInt (uint (tip_epoch t)) @ '' vs '' @ showInt (uint (tip_epoch t0))]
     else []) @
    (if tip_key t \<noteq> tip_key t0 then [chLabel ch @ '' SA key mismatch''] else [])"

definition divergence :: "Client list \<Rightarrow> u32 \<Rightarrow> string list" where
  "divergence cs ch = (case tipsOf cs ch of [] \<Rightarrow> [] | t0 # ts \<Rightarrow> concat (map (tipFailures ch t0) ts))"

text \<open>\<^verbatim>\<open>%v\<close> of a slice of strings.\<close>

definition showNames :: "bytes list \<Rightarrow> string" where
  "showNames ids = ''['' @ concat (case map (map (\<lambda>b. char_of (unat b))) (sort ids) of [] \<Rightarrow> [] | x # xs \<Rightarrow> x # map (\<lambda>y. '' '' @ y) xs) @ '']''"

definition sameSet :: "bytes list \<Rightarrow> bytes list \<Rightarrow> bool" where
  "sameSet want got \<longleftrightarrow> length want = length got \<and> list_all (\<lambda>k. k \<in> set got) want"

definition membershipFailures :: "Client list \<Rightarrow> u32 \<times> bytes list \<Rightarrow> string list" where
  "membershipFailures cs chWant =
    (let (ch, want) = chWant; got = liveOf cs ch in
     if sameSet want got then []
     else [chLabel ch @ '' membership mismatch want='' @ showNames want @ '' got='' @ showNames got])"

definition Evaluate :: "LossEvent list \<Rightarrow> Client list \<Rightarrow> (u32 \<times> bytes list) list \<Rightarrow> Result" where
  "Evaluate losses cs intended =
    (let dv = concat (map (divergence cs) (liveChannels cs));
         mb = concat (map (membershipFailures cs) (sort_key fst intended)) in
     \<lparr>InvariantsHeld = (losses = [] \<and> dv = [] \<and> mb = []), Divergence = dv, Fork = [], Membership = mb,
      PacketLoss = losses, rs_Metrics = None, Trace = []\<rparr>)"

section \<open>What the verdict means\<close>

lemma tipFailures_none: "tipFailures ch t0 t = [] \<longleftrightarrow> t = t0"
  by (auto simp: tipFailures_def)

lemma divergence_none: "divergence cs ch = [] \<longleftrightarrow> (\<forall>t\<in>set (tipsOf cs ch). \<forall>t'\<in>set (tipsOf cs ch). t = t')"
proof (cases "tipsOf cs ch")
  case (Cons t0 ts)
  have "divergence cs ch = [] \<longleftrightarrow> (\<forall>t\<in>set ts. t = t0)" by (simp add: divergence_def Cons tipFailures_none)
  then show ?thesis unfolding Cons by (metis list.set_intros(1) set_ConsD list.set_intros(2))
qed (simp add: divergence_def)

lemma liveChannels_all: "tipsOf cs ch \<noteq> [] \<longleftrightarrow> ch \<in> set (liveChannels cs)"
proof -
  have "ch \<in> set (concat (map (\<lambda>c. map fst (vnis c)) cs))" if t: "tipsOf cs ch \<noteq> []"
  proof -
    obtain c where "c \<in> set cs" "Option.bind (vniOf c ch) tipOf \<noteq> None"
      using t by (auto simp: tipsOf_def List.map_filter_def filter_empty_conv)
    then obtain st where "c \<in> set cs" "vniOf c ch = Some st" by (cases "vniOf c ch") auto
    then show ?thesis using map_of_SomeD [of "vnis c" ch st] by force
  qed
  then show ?thesis by (auto simp: liveChannels_def)
qed

lemma sameSet_iff:
  assumes "distinct want" "distinct got"
  shows "sameSet want got \<longleftrightarrow> set want = set got"
proof
  assume s: "sameSet want got"
  then have "card (set want) = card (set got)" "set want \<subseteq> set got"
    using assms by (auto simp: sameSet_def distinct_card list_all_iff)
  then show "set want = set got" by (simp add: card_subset_eq)
next
  assume "set want = set got"
  then show "sameSet want got" using assms by (metis sameSet_def distinct_card list_all_iff)
qed


text \<open>Two members of one group are a held invariant; a lost packet is not.\<close>

definition tinyClient :: "ActorID \<Rightarrow> u32 \<Rightarrow> bytes \<Rightarrow> Client" where
  "tinyClient i leaf key = (newClient i p256Suite (demoSigner [1]) (bytesOf (''client-'' @ showInt i)) [2, 3] 4)
     \<lparr>vnis := [(7, (newVNIState (tinyController leaf key))\<lparr>joined := True\<rparr>)]\<rparr>"


end
