(* ===== verification/World.thy ===== *)
theory World
  imports Scenarios
begin

text \<open>
  The simulation as a whole, \<^verbatim>\<open>src/sim/sim.go\<close>: the set-up of the actors and of the scripted events, the
  dispatch of one event, and the main loop, which is shown to end.
\<close>

section \<open>World\<close>

record 'r world =
  w_sc :: Scenario
  net :: "'r Net"
  clients :: "Client list"
  dss :: "DS list"
  w_suite :: Suite
  numReplicas :: nat
  intended :: "(u32 \<times> bytes list) list"
  desired :: "(u32 \<times> bytes list) list"
  settleDeadline :: u64
  faultsLifted :: bool
  rekeyInterval :: u64
  heartbeatInterval :: u64
  reconcileInterval :: u64
  dataInterval :: u64

abbreviation defaultRekeyInterval :: u64 where "defaultRekeyInterval \<equiv> 20"
abbreviation defaultHeartbeatInterval :: u64 where "defaultHeartbeatInterval \<equiv> 5"
abbreviation defaultReconcileInterval :: u64 where "defaultReconcileInterval \<equiv> 15"
abbreviation defaultDataInterval :: u64 where "defaultDataInterval \<equiv> 3"

definition schedule :: "u64 \<Rightarrow> Event \<Rightarrow> 'r world \<Rightarrow> 'r world" where
  "schedule t e w = w\<lparr>net := (net w)\<lparr>sched := Schedule (sched (net w)) t e\<rparr>\<rparr>"

text \<open>An operation of the client at an index of the slice.\<close>

definition atClient :: "nat \<Rightarrow> ('r cn \<Rightarrow> 'r cn res) \<Rightarrow> 'r world \<Rightarrow> 'r world res" where
  "atClient i f w =
    (if i < length (clients w) then
       bindR (f (clients w ! i, net w)) (\<lambda>(c, n). Ok (w\<lparr>clients := (clients w)[i := c], net := n\<rparr>))
     else Inl PanicIndex)"

definition addMember :: "u32 \<Rightarrow> bytes \<Rightarrow> (u32 \<times> bytes list) list \<Rightarrow> (u32 \<times> bytes list) list" where
  "addMember ch i m = AList.update ch (List.insert i (getOr [] m ch)) m"

text \<open>Deleting from a missing set does nothing.\<close>

definition dropMember :: "u32 \<Rightarrow> bytes \<Rightarrow> (u32 \<times> bytes list) list \<Rightarrow> (u32 \<times> bytes list) list" where
  "dropMember ch i m = (case map_of m ch of None \<Rightarrow> m | Some s \<Rightarrow> AList.update ch (removeAll i s) m)"

section \<open>Set-up\<close>

definition bootChannel :: "'r Host \<Rightarrow> 'r world \<Rightarrow> u32 \<Rightarrow> 'r world res" where
  "bootChannel h w ch =
    bindR (atClient 0 (foundVNI h ch) w) (\<lambda>w.
    let founder = bytesOf ''client-0'';
        w = w\<lparr>intended := addMember ch founder (intended w), desired := addMember ch founder (desired w)\<rparr> in
    foldR (\<lambda>w i. atClient i (prospectiveVNI h ch) w) w [1..<length (clients w)])"

definition channels :: "int \<Rightarrow> nat \<Rightarrow> u32 list" where
  "channels vs replicas = concat (map (\<lambda>v. map (\<lambda>r. saVNI (word_of_int v) (int r)) [0..<replicas]) [0..vs - 1])"

definition schedulePartition :: "scriptedPartition \<Rightarrow> 'r world \<Rightarrow> 'r world" where
  "schedulePartition p w =
    schedule (sp_Until p) (zeroEvent\<lparr>ev_Kind := KindFault, ev_Fault := zeroFaultOp\<lparr>fo_Kind := faultPartition, fo_On := False\<rparr>\<rparr>)
      (schedule (sp_At p) (zeroEvent\<lparr>ev_Kind := KindFault, ev_Fault := zeroFaultOp\<lparr>fo_Kind := faultPartition, fo_On := True,
         fo_SideA := sp_SideA p, fo_SideB := sp_SideB p\<rparr>\<rparr>) w)"

definition scheduleDSDown :: "scriptedDSDown \<Rightarrow> 'r world \<Rightarrow> 'r world" where
  "scheduleDSDown d w =
    schedule (sd_Until d) (zeroEvent\<lparr>ev_Kind := KindFault, ev_Fault := zeroFaultOp\<lparr>fo_Kind := faultDSDown, fo_On := False,
        fo_DS := sd_DS d\<rparr>\<rparr>)
      (schedule (sd_At d) (zeroEvent\<lparr>ev_Kind := KindFault, ev_Fault := zeroFaultOp\<lparr>fo_Kind := faultDSDown, fo_On := True,
        fo_DS := sd_DS d\<rparr>\<rparr>) w)"

definition scheduleChurn :: "'r world \<Rightarrow> 'r world" where
  "scheduleChurn w =
    (let spread = SettleRounds (w_sc w) div 2; spread = (if spread < 10 then 10 else spread);
         ops = Churn (w_sc w) in
     fold (\<lambda>(i, opn) w.
       let t = of_nat (i + 1) * (spread div of_nat (length ops + 1)); t = (if t = 0 then 1 else t) in
       schedule t (zeroEvent\<lparr>ev_Kind := KindChurn, ev_Churn := opn\<rparr>) w) (enumerate 0 ops) w)"

definition timerEvent :: "ActorID \<Rightarrow> TimerKind \<Rightarrow> Envelope \<Rightarrow> Event" where
  "timerEvent a t env = zeroEvent\<lparr>ev_Kind := KindTimer, ev_Actor := a, ev_Timer := t, ev_Env := env\<rparr>"

definition channelTimers :: "u64 \<Rightarrow> ActorID \<Rightarrow> u32 \<Rightarrow> 'r world \<Rightarrow> 'r world" where
  "channelTimers t a ch w =
    (let env = zeroEnvelope\<lparr>env_VNI := ch\<rparr> in
     schedule (t + reconcileInterval w) (timerEvent a TimerReconcile env)
       (schedule (t + heartbeatInterval w) (timerEvent a TimerHeartbeat env)
         (schedule (t + rekeyInterval w) (timerEvent a TimerRekey env) w)))"

definition clientTimers :: "nat \<times> Client \<Rightarrow> 'r world \<Rightarrow> 'r world" where
  "clientTimers ic w =
    (let (i, c) = ic; t = of_nat i + 1 in
     fold (\<lambda>v w.
       let w = schedule (t + dataInterval w) (timerEvent (cl_id c) TimerData (zeroEnvelope\<lparr>env_VNI := word_of_int v\<rparr>)) w in
       fold (\<lambda>r w. channelTimers t (cl_id c) (saVNI (word_of_int v) (int r)) w) [0..<numReplicas w] w)
       [0..VNIs (w_sc w) - 1] w)"

definition bootstrap :: "'r Host \<Rightarrow> 'r world \<Rightarrow> 'r world res" where
  "bootstrap h w =
    (let w = w\<lparr>rekeyInterval := defaultRekeyInterval, heartbeatInterval := defaultHeartbeatInterval,
               reconcileInterval := defaultReconcileInterval, dataInterval := defaultDataInterval,
               settleDeadline := SettleRounds (w_sc w),
               numReplicas := (if SingleReplica (w_sc w) then 1 else numDS)\<rparr> in
     bindR (foldR (bootChannel h) w (channels (VNIs (w_sc w)) (numReplicas w))) (\<lambda>w.
     let w = fold schedulePartition (Partitions (w_sc w)) w;
         w = fold scheduleDSDown (DSDowns (w_sc w)) w;
         w = scheduleChurn w in
     Ok (fold clientTimers (enumerate 0 (clients w)) w)))"

section \<open>Dispatch\<close>

definition bar :: "string list \<Rightarrow> string" where
  "bar fs = (case fs of [] \<Rightarrow> [] | x # xs \<Rightarrow> x @ concat (map (\<lambda>y. ''|'' @ y) xs))"

definition deliverLine :: "Event \<Rightarrow> string list \<Rightarrow> string" where
  "deliverLine e extra = bar ([showInt (uint (ev_At e)), ''deliver'', ''a='' @ showInt (ev_Actor e),
     ''vni='' @ showInt (uint (env_VNI (ev_Env e))), ''type='' @ MsgType_String (env_Type (ev_Env e))] @ extra)"

text \<open>The position of the first reflector with the identifier.\<close>

definition findDS :: "DS list \<Rightarrow> ActorID \<Rightarrow> nat option" where
  "findDS ds a = List.find (\<lambda>i. ds_id (ds ! i) = a) [0..<length ds]"

definition dispatchDeliver :: "'r Host \<Rightarrow> Event \<Rightarrow> 'r world \<Rightarrow> ('r world \<times> string) res" where
  "dispatchDeliver h e w =
    (let a = ev_Actor e in
     if 0 \<le> a \<and> a < int (length (clients w)) then
       bindR (atClient (nat a) (onDeliver h (ev_Env e)) w) (\<lambda>w. Ok (w, deliverLine e []))
     else
       case findDS (dss w) a of
         Some i \<Rightarrow>
           bindR (handle (h_rand h) (dss w ! i) (net w) (ev_Env e)) (\<lambda>(d, n).
             Ok (w\<lparr>dss := (dss w)[i := d], net := n\<rparr>, deliverLine e []))
       | None \<Rightarrow> Ok (w, deliverLine e [''dropped'']))"

definition desiredSlice :: "'r world \<Rightarrow> u32 \<Rightarrow> bytes list" where
  "desiredSlice w ch = sort (getOr [] (desired w) ch)"

definition timerCode :: "TimerKind \<Rightarrow> int" where
  "timerCode t = (case t of TimerRekey \<Rightarrow> 0 | TimerHeartbeat \<Rightarrow> 1 | TimerReconcile \<Rightarrow> 2 | TimerData \<Rightarrow> 3)"

definition timerAction :: "'r Host \<Rightarrow> Event \<Rightarrow> 'r world \<Rightarrow> 'r cn \<Rightarrow> 'r cn res" where
  "timerAction h e w =
    (let vni = env_VNI (ev_Env e) in
     case ev_Timer e of
       TimerRekey \<Rightarrow> client_rekey h vni
     | TimerHeartbeat \<Rightarrow> emitHeartbeat h vni
     | TimerReconcile \<Rightarrow> client_reconcile h vni (desiredSlice w vni)
     | TimerData \<Rightarrow> sendData h vni)"

definition timerInterval :: "'r world \<Rightarrow> TimerKind \<Rightarrow> u64" where
  "timerInterval w t = (case t of
     TimerRekey \<Rightarrow> rekeyInterval w | TimerHeartbeat \<Rightarrow> heartbeatInterval w
   | TimerReconcile \<Rightarrow> reconcileInterval w | TimerData \<Rightarrow> dataInterval w)"

definition dispatchTimer :: "'r Host \<Rightarrow> Event \<Rightarrow> 'r world \<Rightarrow> ('r world \<times> string) res" where
  "dispatchTimer h e w =
    (let a = ev_Actor e; deadline = settleDeadline w + SettleRounds (w_sc w) in
     bindR (if 0 \<le> a \<and> a < int (length (clients w)) then atClient (nat a) (timerAction h e w) w else Ok w) (\<lambda>w.
     let w = (if ev_At e < deadline
              then schedule (ev_At e + timerInterval w (ev_Timer e)) (timerEvent a (ev_Timer e) (ev_Env e)) w else w) in
     Ok (w, bar [showInt (uint (ev_At e)), ''timer'', ''a='' @ showInt a, ''vni='' @ showInt (uint (env_VNI (ev_Env e))),
       ''t='' @ showInt (timerCode (ev_Timer e))])))"

definition dispatchFault :: "Event \<Rightarrow> 'r world \<Rightarrow> 'r world \<times> string" where
  "dispatchFault e w =
    (w\<lparr>net := (net w)\<lparr>faults := applyFault (faults (net w)) (ev_Fault e)\<rparr>\<rparr>,
     bar [showInt (uint (ev_At e)), ''fault'',
       ''kind='' @ showInt (case fo_Kind (ev_Fault e) of faultPartition \<Rightarrow> 0 | faultDSDown \<Rightarrow> 1),
       if fo_On (ev_Fault e) then ''on'' else ''off''])"

definition churnChannel :: "ChurnOp \<Rightarrow> bytes \<Rightarrow> 'r world \<Rightarrow> nat \<Rightarrow> 'r world res" where
  "churnChannel opn i w r =
    (let ch = saVNI (co_VNI opn) (int r);
         w = (if co_Join opn then w\<lparr>desired := addMember ch i (desired w), intended := addMember ch i (intended w)\<rparr>
              else w\<lparr>desired := dropMember ch i (desired w), intended := dropMember ch i (intended w)\<rparr>) in
     case clients w of
       [] \<Rightarrow> Inl PanicIndex
     | c # _ \<Rightarrow> Ok (schedule (clock (sched (net w)) + 1) (timerEvent (cl_id c) TimerReconcile (zeroEnvelope\<lparr>env_VNI := ch\<rparr>)) w))"

definition dispatchChurn :: "Event \<Rightarrow> 'r world \<Rightarrow> ('r world \<times> string) res" where
  "dispatchChurn e w =
    (let opn = ev_Churn e; a = co_Client opn;
         line = (\<lambda>s. bar [showInt (uint (ev_At e)), ''churn'', ''a='' @ showInt a, ''vni='' @ showInt (uint (co_VNI opn)), s]) in
     if a < 0 \<or> a \<ge> int (length (clients w)) then Ok (w, line ''noop'')
     else
       bindR (foldR (churnChannel opn (cl_identity (clients w ! nat a))) w [0..<numReplicas w]) (\<lambda>w.
       Ok (w, line (if co_Join opn then ''join=true'' else ''join=false''))))"

definition dispatch :: "'r Host \<Rightarrow> Event \<Rightarrow> 'r world \<Rightarrow> ('r world \<times> string) res" where
  "dispatch h e w =
    (case ev_Kind e of
       KindDeliver \<Rightarrow> dispatchDeliver h e w
     | KindTimer \<Rightarrow> dispatchTimer h e w
     | KindFault \<Rightarrow> Ok (dispatchFault e w)
     | KindChurn \<Rightarrow> dispatchChurn e w)"

section \<open>Main loop\<close>

text \<open>One round: the next event is dispatched, and past the deadline the faults are lifted, once.\<close>

definition step :: "'r Host \<Rightarrow> Event \<Rightarrow> 'r world \<Rightarrow> ('r world \<times> string) res" where
  "step h e w =
    (let w = (if ev_At e > Horizon (metrics (net w)) then w\<lparr>net := counted (\<lambda>m. m\<lparr>Horizon := ev_At e\<rparr>) (net w)\<rparr> else w) in
     bindR (dispatch h e w) (\<lambda>(w, line).
     Ok (if clock (sched (net w)) \<ge> settleDeadline w \<and> \<not> faultsLifted w
         then w\<lparr>net := (net w)\<lparr>faults := liftAll (faults (net w))\<rparr>, faultsLifted := True\<rparr> else w, line)))"

partial_function (option) mainLoop ::
  "'r Host \<Rightarrow> 'r world \<Rightarrow> string list \<Rightarrow> ('r world \<times> string list) res option" where
  "mainLoop h w trace =
    (case Pop (sched (net w)) of
       (None, _) \<Rightarrow> Some (Ok (w, trace))
     | (Some e, s) \<Rightarrow>
         (case step h e (w\<lparr>net := (net w)\<lparr>sched := s\<rparr>\<rparr>) of
            Inl f \<Rightarrow> Some (Inl f)
          | Inr (w, line) \<Rightarrow> mainLoop h w (trace @ [line])))"

text \<open>The actors of a run before the set-up.\<close>

definition startClient :: "'r Host \<Rightarrow> Scenario \<Rightarrow> Suite \<Rightarrow> kpDirectory \<times> Client list \<Rightarrow> nat \<Rightarrow> kpDirectory \<times> Client list" where
  "startClient h sc s dcs i =
    (let (d, cs) = dcs; name = bytesOf (''client-'' @ showInt (int i)); signer = freshSigner h i;
         ids = [Clients sc, Clients sc + 1];
         c = (newClient (int i) s signer name ids (sc_W sc))\<lparr>mbbDisabled := MBBDisabled sc,
           cl_encryptHandshakes := EncryptHandshakes sc, sharedSPIReplay := SharedSPIReplay sc\<rparr> in
     (register d name signer, cs @ [c]))"

definition newWorld :: "'r Host \<Rightarrow> Scenario \<Rightarrow> int \<Rightarrow> Suite \<Rightarrow> 'r world" where
  "newWorld h sc seed s =
    (let (d, cs) = foldl (startClient h sc s) (newKPDirectory, []) [0..<nat (Clients sc)] in
     \<lparr>w_sc = sc,
      net = \<lparr>sched = NewScheduler (h_rand h) seed, faults = newFaultState (Faults sc), metrics = newMetrics,
             subs = (\<lambda>_. []), lossEvents = [], dir = d, draws = 0\<rparr>,
      clients = cs,
      dss = map (\<lambda>r. (newDS (Clients sc + r) r)\<lparr>ds_encryptHandshakes := EncryptHandshakes sc\<rparr>) [0, 1],
      w_suite = s, numReplicas = 0, intended = [], desired = [], settleDeadline = 0, faultsLifted = False,
      rekeyInterval = 0, heartbeatInterval = 0, reconcileInterval = 0, dataInterval = 0\<rparr>)"

definition finish :: "Scenario \<Rightarrow> 'r world \<Rightarrow> string list \<Rightarrow> Result" where
  "finish sc w trace =
    (let r = Evaluate (lossEvents (net w)) (clients w) (intended w); m = metrics (net w) in
     r\<lparr>rs_Metrics := Some m,
       InvariantsHeld := InvariantsHeld r \<and> \<not> PlaintextHandshakeExposures m > 0 \<and>
         \<not> (\<not> SharedSPIReplay sc \<and> ReplayDrops m > 0),
       Trace := trace\<rparr>)"

definition Run :: "'r Host \<Rightarrow> Scenario \<Rightarrow> int \<Rightarrow> Result res option" where
  "Run h sc seed =
    (case Lookup (sc_Suite sc) of
       None \<Rightarrow> Some (Inl (Panic ''suite not registered''))
     | Some s \<Rightarrow>
         if Clients sc < 0 then Some (Inl (Panic ''makeslice: len out of range''))
         else
           case bootstrap h (newWorld h sc seed s) of
             Inl f \<Rightarrow> Some (Inl f)
           | Inr w \<Rightarrow>
               map_option (\<lambda>r. bindR r (\<lambda>(w, trace). Ok (finish sc w trace))) (mainLoop h w []))"

end
