(* ===== verification/ClientMoves.thy ===== *)
theory ClientMoves
  imports World
begin

text \<open>
  What the operations of a client do to the shared event queue: they only add messages, every commit,
  welcome and catch-up request goes to the reflector of its channel, and the number of channels the
  client has yet to join never grows.
\<close>

section \<open>Moves\<close>

text \<open>Messages of a client whose reflectors are \<open>ids\<close>.\<close>

definition routed :: "ActorID list \<Rightarrow> Event \<Rightarrow> bool" where
  "routed ids e \<longleftrightarrow> ev_Kind e = KindDeliver \<and> env_Type (ev_Env e) \<noteq> MsgLogReply \<and>
    (env_Type (ev_Env e) \<in> {MsgCommit, MsgLogRequest, MsgWelcome} \<longrightarrow>
      nat (replicaOf (env_VNI (ev_Env e))) < length ids \<and> ev_Actor e = ids ! nat (replicaOf (env_VNI (ev_Env e))))"

definition adds :: "'r Net \<Rightarrow> 'r Net \<Rightarrow> (Event \<Rightarrow> bool) \<Rightarrow> bool" where
  "adds n n' P \<longleftrightarrow> isHeap eventKey (pq (sched n')) \<and> clock (sched n') = clock (sched n) \<and>
    (\<forall>ch. set (subs n' ch) \<subseteq> set (subs n ch)) \<and>
    (\<exists>new. mset (pq (sched n')) = mset (pq (sched n)) + mset new \<and> (\<forall>e\<in>set new. P e))"

definition unjoined :: "Client \<Rightarrow> nat" where
  "unjoined c = length (filter (\<lambda>(ch, st). \<not> joined st) (vnis c))"

definition evolves :: "Client \<Rightarrow> Client \<Rightarrow> bool" where
  "evolves c c' \<longleftrightarrow> cl_id c' = cl_id c \<and> dsIDs c' = dsIDs c \<and> cl_identity c' = cl_identity c \<and> unjoined c' \<le> unjoined c"

definition moves :: "(Event \<Rightarrow> bool) \<Rightarrow> 'r cn \<Rightarrow> 'r cn \<Rightarrow> bool" where
  "moves P cn cn' \<longleftrightarrow> adds (snd cn) (snd cn') P \<and> evolves (fst cn) (fst cn')"

lemma emits_adds: "emits n n' P \<Longrightarrow> adds n n' P"
  unfolding adds_def emits_def using sameButQueue_simps by fastforce

lemma adds_trans:
  assumes "adds a b P" "adds b c P"
  shows "adds a c P"
proof -
  obtain n1 n2 where "mset (pq (sched b)) = mset (pq (sched a)) + mset n1" "\<forall>e\<in>set n1. P e"
    "mset (pq (sched c)) = mset (pq (sched b)) + mset n2" "\<forall>e\<in>set n2. P e"
    using assms by (auto simp: adds_def)
  then have "mset (pq (sched c)) = mset (pq (sched a)) + mset (n1 @ n2) \<and> (\<forall>e\<in>set (n1 @ n2). P e)" by auto
  then show ?thesis using assms unfolding adds_def by (metis subset_trans)
qed

lemma adds_mono: "adds a b P \<Longrightarrow> (\<And>e. P e \<Longrightarrow> Q e) \<Longrightarrow> adds a b Q"
  unfolding adds_def by blast

lemma adds_heap: "adds a b P \<Longrightarrow> isHeap eventKey (pq (sched b))"
  by (simp add: adds_def)

lemma adds_none:
  assumes "isHeap eventKey (pq (sched n))" "sched n' = sched n" "\<And>ch. set (subs n' ch) \<subseteq> set (subs n ch)"
  shows "adds n n' P"
  using assms by (auto simp: adds_def intro: exI [of _ "[]"])

lemma adds_refl: "isHeap eventKey (pq (sched n)) \<Longrightarrow> adds n n P"
  by (rule adds_none) auto

lemma adds_counted: "adds a b P \<Longrightarrow> adds a (counted f b) P"
  by (simp add: adds_def)

lemma adds_measured: "adds a b P \<Longrightarrow> adds a (measured h opn b) P"
  by (simp add: adds_def measured_def)

lemma evolves_refl [simp]: "evolves c c"
  by (simp add: evolves_def)

lemma evolves_trans: "evolves a b \<Longrightarrow> evolves b c \<Longrightarrow> evolves a c"
  by (simp add: evolves_def)

lemma moves_trans: "moves P a b \<Longrightarrow> moves P b c \<Longrightarrow> moves P a c"
  unfolding moves_def using adds_trans evolves_trans by blast

lemma moves_refl: "isHeap eventKey (pq (sched (snd cn))) \<Longrightarrow> moves P cn cn"
  by (simp add: moves_def adds_refl)

lemma moves_mono: "moves P a b \<Longrightarrow> (\<And>e. P e \<Longrightarrow> Q e) \<Longrightarrow> moves Q a b"
  unfolding moves_def using adds_mono by blast

lemma moves_heap: "moves P a b \<Longrightarrow> isHeap eventKey (pq (sched (snd b)))"
  by (simp add: moves_def adds_def)

lemma moves_simps: "moves P a b \<Longrightarrow> dsIDs (fst b) = dsIDs (fst a)" "moves P a b \<Longrightarrow> cl_id (fst b) = cl_id (fst a)"
  by (simp_all add: moves_def evolves_def)

lemma count_update:
  "map_of xs ch = Some st \<Longrightarrow>
    length (filter (\<lambda>(ch, st). \<not> joined st) (AList.update ch st' xs)) + (if joined st then 0 else 1) =
    length (filter (\<lambda>(ch, st). \<not> joined st) xs) + (if joined st' then 0 else 1)"
  by (induction xs) (auto split: if_splits)

lemma count_delete:
  "length (filter (\<lambda>(ch, st). \<not> joined st) (AList.delete ch xs)) \<le> length (filter (\<lambda>(ch, st). \<not> joined st) xs)"
  by (induction xs) auto

lemma unjoined_set:
  assumes "vniOf c ch = Some st"
  shows "joined st' = joined st \<Longrightarrow> unjoined (setVNI ch st' c) = unjoined c"
    "\<not> joined st \<Longrightarrow> joined st' \<Longrightarrow> unjoined (setVNI ch st' c) + 1 = unjoined c"
  using count_update [OF assms, of st'] by (auto simp: unjoined_def setVNI_def split: if_splits)

lemma evolves_set: "vniOf c ch = Some st \<Longrightarrow> joined st' = joined st \<Longrightarrow> evolves c (setVNI ch st' c)"
  by (simp add: evolves_def unjoined_set)

section \<open>Sending\<close>

text \<open>The conditions under which the operations of a client are looked at.\<close>

definition ready :: "'r cn \<Rightarrow> bool" where
  "ready cn \<longleftrightarrow> isHeap eventKey (pq (sched (snd cn))) \<and> Broadcast \<notin> set (dsIDs (fst cn))"

lemma moves_ready: "moves P a b \<Longrightarrow> ready a \<Longrightarrow> ready b"
  using moves_heap moves_simps(1) unfolding ready_def by metis

lemma toReflector_adds:
  assumes "toReflector h c ch env n = Ok n'" "ready (c, n)" "env_VNI env = ch" "env_Type env \<noteq> MsgLogReply"
  shows "adds n n' (\<lambda>e. routed (dsIDs c) e \<and> env_Type (ev_Env e) = env_Type env)"
proof -
  obtain r where r: "reflectorFor c ch = Ok r" "Publish (h_rand h) n (env\<lparr>env_Src := cl_id c, env_Dst := r\<rparr>) = Ok n'"
    using assms(1) by (auto simp: toReflector_def bindR_Inr_iff)
  have i: "nat (replicaOf ch) < length (dsIDs c)" "r = dsIDs c ! nat (replicaOf ch)"
    using r(1) by (auto simp: reflectorFor_def Let_def split: if_splits)
  then have "r \<noteq> Broadcast" using assms(2) nth_mem [OF i(1)] unfolding ready_def fst_conv by metis
  then have "destinations n (env\<lparr>env_Src := cl_id c, env_Dst := r\<rparr>) = [r]" by (simp add: destinations_def)
  then have "adds n n' (\<lambda>e. ev_Kind e = KindDeliver \<and> ev_Env e = env\<lparr>env_Src := cl_id c, env_Dst := r\<rparr> \<and> ev_Actor e = r)"
    using emits_adds [OF Publish_emits [OF r(2)]] assms(2) unfolding ready_def by (auto intro: adds_mono)
  then show ?thesis by (rule adds_mono) (use i assms(3,4) in \<open>auto simp: routed_def\<close>)
qed

lemma foldR_adds:
  assumes "foldR f n xs = Ok n'" "isHeap eventKey (pq (sched n))"
    "\<And>n n' x. x \<in> set xs \<Longrightarrow> f n x = Ok n' \<Longrightarrow> isHeap eventKey (pq (sched n)) \<Longrightarrow> adds n n' P"
  shows "adds n n' P"
  using assms
proof (induction xs arbitrary: n)
  case (Cons x xs)
  obtain m where m: "f n x = Ok m" "foldR f m xs = Ok n'" using Cons.prems(1) by (auto simp: bindR_Inr_iff)
  have "adds n m P" using Cons.prems(3) [OF _ m(1) Cons.prems(2)] by simp
  then show ?case using Cons.IH [OF m(2) adds_heap] Cons.prems(3) adds_trans by (metis list.set_intros(2))
qed (simp add: adds_refl)

lemma sendCommit_adds:
  assumes "sendCommit h c ch b msg n = Ok n'" "ready (c, n)"
  shows "adds n n' (routed (dsIDs c))"
proof -
  obtain m where m: "toReflector h c ch (commitEnvelope h ch b msg) n = Ok m" "\<exists>f. n' = counted f m"
    using assms(1) by (auto simp: sendCommit_def bindR_Inr_iff)
  have "adds n m (routed (dsIDs c))"
    by (rule adds_mono [OF toReflector_adds [OF m(1) assms(2)]]) (auto simp: commitEnvelope_def)
  then show ?thesis using m(2) adds_counted by blast
qed

lemma welcome_adds:
  assumes "toReflector h c ch (welcomeEnvelope h ch i w) n = Ok n'" "isHeap eventKey (pq (sched n))" "Broadcast \<notin> set (dsIDs c)"
  shows "adds n n' (routed (dsIDs c))"
  by (rule adds_mono [OF toReflector_adds [OF assms(1)]]) (use assms in \<open>auto simp: welcomeEnvelope_def ready_def\<close>)

lemma sendWelcome_adds:
  assumes "sendWelcome h c ch w added n = Ok n'" "ready (c, n)"
  shows "adds n n' (routed (dsIDs c))"
  using assms(1) unfolding sendWelcome_def
  by (rule foldR_adds) (use assms(2) welcome_adds in \<open>auto simp: ready_def\<close>)

lemma resendUnacked_adds:
  assumes "resendUnacked h c ch n = Ok n'" "ready (c, n)"
  shows "adds n n' (routed (dsIDs c))"
proof (cases "vniOf c ch")
  case (Some st)
  show ?thesis
  proof (cases "\<not> joined st \<or> \<not> IsCommitter (ctrl st)")
    case False
    then obtain m where m: "(if hasHead st \<and> headBase st \<notin> set (confirmed st) then
               (case map_of (outbox st) (headBase st) of
                  None \<Rightarrow> Ok n
                | Some msg \<Rightarrow>
                    bindR (toReflector h c ch (commitEnvelope h ch (headBase st) msg) n) (\<lambda>n.
                      Ok (counted (\<lambda>m. m\<lparr>CommitResends := CommitResends m + 1\<rparr>) n)))
             else Ok n) = Ok m"
      "foldR (\<lambda>n i. toReflector h c ch (welcomeEnvelope h ch i (getOr [] (pendingWelcome st) i)) n) m
             (sort (map fst (pendingWelcome st))) = Ok n'"
      using assms(1) Some by (auto simp: resendUnacked_def bindR_Inr_iff)
    consider "m = n" | msg k f where "toReflector h c ch (commitEnvelope h ch (headBase st) msg) n = Ok k" "m = counted f k"
      using m(1) by (auto simp: bindR_Inr_iff split: if_splits option.splits)
    then have nm: "adds n m (routed (dsIDs c))"
    proof cases
      case 2
      have "adds n k (routed (dsIDs c))"
        by (rule adds_mono [OF toReflector_adds [OF 2(1) assms(2)]]) (auto simp: commitEnvelope_def)
      then show ?thesis using 2(2) adds_counted by blast
    qed (use assms(2) in \<open>simp add: adds_refl ready_def\<close>)
    have "adds m n' (routed (dsIDs c))"
      by (rule foldR_adds [OF m(2) adds_heap [OF nm]]) (use assms(2) welcome_adds in \<open>auto simp: ready_def\<close>)
    then show ?thesis using nm adds_trans by blast
  qed (use assms Some in \<open>auto simp: resendUnacked_def ready_def adds_refl\<close>)
qed (use assms in \<open>auto simp: resendUnacked_def ready_def adds_refl\<close>)

lemma emitHeartbeat_moves:
  assumes "emitHeartbeat h ch cn = Ok cn'" "ready cn"
  shows "moves (routed (dsIDs (fst cn))) cn cn'" "fst cn' = fst cn"
proof -
  obtain c n where cn: "cn = (c, n)" by (cases cn)
  have "moves (routed (dsIDs (fst cn))) cn cn' \<and> fst cn' = fst cn"
  proof (cases "\<exists>st. vniOf c ch = Some st \<and> joined st")
    case True
    then obtain st where "vniOf c ch = Some st" "joined st" by blast
    then obtain m n' where p: "Publish (h_rand h) n (zeroEnvelope\<lparr>env_VNI := ch, env_Type := MsgHeartbeat, env_Src := cl_id c,
             env_Dst := Broadcast, env_Base := Controller_Epoch (ctrl st)\<rparr>) = Ok m" "resendUnacked h c ch m = Ok n'" "cn' = (c, n')"
      using assms(1) unfolding emitHeartbeat_def cn by (auto simp: bindR_Inr_iff)
    have "adds n m (routed (dsIDs c))"
      by (rule adds_mono [OF emits_adds [OF Publish_emits [OF p(1)]]]) (use assms(2) in \<open>auto simp: routed_def ready_def cn\<close>)
    moreover have "adds m n' (routed (dsIDs c))"
      by (rule resendUnacked_adds [OF p(2)]) (use assms(2) adds_heap [OF calculation] in \<open>simp add: ready_def cn\<close>)
    ultimately show ?thesis using adds_trans by (auto simp: moves_def cn p(3))
  next
    case False
    then have "cn' = cn" using assms(1) unfolding emitHeartbeat_def cn by (auto split: option.splits if_splits)
    then show ?thesis using assms(2) by (simp add: moves_refl ready_def)
  qed
  then show "moves (routed (dsIDs (fst cn))) cn cn'" "fst cn' = fst cn" by blast+
qed

section \<open>Quiet operations\<close>

lemma seedPeer_joined [simp]: "joined (seedPeer c e i st) = joined st"
  by (simp add: seedPeer_def split: option.splits)

lemma seedStep_joined [simp]:
  "joined (case r of None \<Rightarrow> s | Some i \<Rightarrow> if i \<in> set wo then s else seedPeer c e i s) = joined s"
  by (cases r) auto

lemma seedLeaves_joined: "seedLeaves c e wo st = Ok st' \<Longrightarrow> joined st' = joined st"
  unfolding seedLeaves_def
  by (rule foldR_invariant [where I = "\<lambda>s. joined s = joined st"]) (auto simp: bindR_Inr_iff)

lemma noteAdded_joined [simp]: "joined (fold (noteAdded c e w) is st) = joined st"
  by (induction "is" arbitrary: st) (simp_all add: noteAdded_def Let_def)

lemma initPeer_evolves: "initPeerEpochForNewMembers ch wo c = Ok c' \<Longrightarrow> evolves c c'"
  by (auto simp: initPeerEpochForNewMembers_def bindR_Inr_iff evolves_set seedLeaves_joined split: option.splits if_splits)

lemma prune_evolves: "pruneDepartedPeers ch c = Ok c' \<Longrightarrow> evolves c c'"
  by (auto simp: pruneDepartedPeers_def bindR_Inr_iff Let_def evolves_set split: option.splits if_splits)

lemma trimSAs_joined [simp]: "joined (trimSAs c st) = joined st" "ctrl (trimSAs c st) = ctrl st"
  by (simp_all add: trimSAs_def Let_def)

lemma cache_moves:
  assumes "cacheCurrentSA std ch cn = Ok cn'" "ready cn"
  shows "moves P cn cn'"
proof -
  obtain c n where cn: "cn = (c, n)" by (cases cn)
  have same: ?thesis if "cn' = cn" using that assms(2) by (simp add: moves_refl ready_def)
  show ?thesis
  proof (cases "vniOf c ch")
    case (Some st)
    show ?thesis
    proof (cases "joined st")
      case True
      show ?thesis
      proof (cases "CurrentSA (ctrl st)")
        case (Inr sa)
        then obtain st' f where "cn' = (setVNI ch st' c, counted f n)" "joined st' = joined st"
          using assms(1) Some True unfolding cacheCurrentSA_def cn by (auto simp: bindR_Inr_iff Let_def)
        then show ?thesis
          using evolves_set [OF Some] adds_counted [OF adds_refl [of n]] assms(2) by (simp add: moves_def cn ready_def)
      qed (use assms(1) Some True same in \<open>simp add: cacheCurrentSA_def cn\<close>)
    qed (use assms(1) Some same in \<open>simp add: cacheCurrentSA_def cn\<close>)
  qed (use assms(1) same in \<open>simp add: cacheCurrentSA_def cn\<close>)
qed

lemma moves_client: "evolves c c' \<Longrightarrow> isHeap eventKey (pq (sched n)) \<Longrightarrow> moves P (c, n) (c', n)"
  by (simp add: moves_def adds_refl)

lemma moves_net: "adds n n' P \<Longrightarrow> evolves c c' \<Longrightarrow> moves P (c, n) (c', n')"
  by (simp add: moves_def)

lemma leave_moves:
  assumes "ready cn"
  shows "moves P cn (leaveVNI ch cn)"
  using assms count_delete
  by (cases cn) (auto simp: leaveVNI_def moves_def evolves_def unjoined_def Unsubscribe_def ready_def intro!: adds_none split: if_splits)

lemma apply_moves:
  assumes "applyCommit h ch payload timed cn = Ok (left, cn')" "ready cn"
  shows "moves P cn cn'"
proof -
  obtain c n where cn: "cn = (c, n)" by (cases cn)
  obtain before st where st': "leafIdentitySet c ch = Ok before" "vniOf c ch = Some st"
    using assms(1) unfolding applyCommit_def cn Let_def prod.case bindR_Inr_iff fromOption_Inr_iff by blast
  obtain r ct where "HandleCommit (h_std h) (ctrl st) payload = (r, ct)" by (cases "HandleCommit (h_std h) (ctrl st) payload")
  note st = st' this
  define c1 where "c1 = setVNI ch (st\<lparr>ctrl := ct\<rparr>) c"
  define n1 where "n1 = (if timed then measured h ''HandleCommit'' n else n)"
  have "adds n n1 P" using adds_refl adds_measured assms(2) unfolding n1_def ready_def cn by fastforce
  then have m1: "moves P cn (c1, n1)" unfolding cn c1_def by (rule moves_net) (rule evolves_set [OF st(2)], simp)
  have rd: "ready (c1, n1)" by (rule moves_ready [OF m1 assms(2)])
  have h: "(case r of
       Inl (Error e) \<Rightarrow> if Error e = ErrSelfRemoved then Ok (True, leaveVNI ch (c1, n1)) else Ok (False, c1, n1)
     | Inl f \<Rightarrow> Inl f
     | Inr _ \<Rightarrow>
         bindR (cacheCurrentSA (h_std h) ch (c1, n1)) (\<lambda>(c, n).
         bindR (initPeerEpochForNewMembers ch before c) (\<lambda>c.
         bindR (pruneDepartedPeers ch c) (\<lambda>c.
         Ok (False, c, counted (\<lambda>m. let m = m\<lparr>CommitsApplied := CommitsApplied m + 1\<rparr> in
           commitConverged m ch (Controller_Epoch ct) (clock (sched n))) n))))) = Ok (left, cn')"
    using assms(1) st unfolding applyCommit_def cn c1_def n1_def by (simp add: Let_def)
  show ?thesis
  proof (cases r)
    case (Inl f)
    then have "cn' = (c1, n1) \<or> cn' = leaveVNI ch (c1, n1)" using h by (auto split: fault.splits if_splits)
    then show ?thesis using m1 moves_trans [OF m1 leave_moves [OF rd]] by auto
  next
    case (Inr u)
    then obtain c2 n2 c3 c4 f where q: "cacheCurrentSA (h_std h) ch (c1, n1) = Ok (c2, n2)"
      "initPeerEpochForNewMembers ch before c2 = Ok c3" "pruneDepartedPeers ch c3 = Ok c4" "cn' = (c4, counted f n2)"
      using h by (auto simp: bindR_Inr_iff)
    have m2: "moves P (c1, n1) (c2, n2)" by (rule cache_moves [OF q(1) rd])
    have "moves P (c2, n2) cn'"
      unfolding q(4) using adds_counted [OF adds_refl [of n2]] evolves_trans [OF initPeer_evolves [OF q(2)] prune_evolves [OF q(3)]]
        moves_heap [OF m2] by (auto simp: moves_def)
    then show ?thesis using moves_trans [OF m1] moves_trans [OF m2] by blast
  qed
qed

section \<open>Handlers\<close>

lemma onCommit_moves:
  assumes "client_onCommit h env cn = Ok cn'" "ready cn"
  shows "moves P cn cn'"
proof -
  obtain c n where cn: "cn = (c, n)" by (cases cn)
  define n1 where "n1 = counted (\<lambda>m. m\<lparr>CommitDeliveries := CommitDeliveries m + 1\<rparr>) n"
  have a: "adds n n1 P" unfolding n1_def using adds_counted [OF adds_refl [of n]] assms(2) by (simp add: ready_def cn)
  have quiet: ?thesis if "cn' = (c', n1)" "evolves c c'" for c' using that a by (simp add: moves_def cn)
  show ?thesis
  proof (cases "\<exists>st. vniOf c (env_VNI env) = Some st \<and> joined st")
    case True
    then obtain st where st: "vniOf c (env_VNI env) = Some st" "joined st" by blast
    obtain r where r: "reflectorFor c (env_VNI env) = Ok r"
      using assms(1) st unfolding client_onCommit_def cn by (auto simp: bindR_Inr_iff Let_def)
    define st1 where "st1 = (if env_Src env = r then confirmHead (h_std h) env st else st)"
    define c1 where "c1 = setVNI (env_VNI env) st1 c"
    have "joined st1 = joined st" by (simp add: st1_def confirmHead_def split: option.splits)
    then have e: "evolves c c1" unfolding c1_def by (rule evolves_set [OF st(1)])
    have h: "(if Controller_Epoch (ctrl st1) \<noteq> env_Base env then Ok (c1, n1)
        else bindR (applyCommit h (env_VNI env) (env_Payload env) True (c1, n1)) (\<lambda>(_, cn). Ok cn)) = Ok cn'"
      using assms(1) st r unfolding client_onCommit_def cn c1_def st1_def n1_def by (simp add: Let_def del: One_nat_def split del: if_split)
    show ?thesis
    proof (cases "Controller_Epoch (ctrl st1) = env_Base env")
      case True
      then obtain lf where l: "applyCommit h (env_VNI env) (env_Payload env) True (c1, n1) = Ok (lf, cn')"
        using h by (auto simp: bindR_Inr_iff)
      have m: "moves P cn (c1, n1)" using a e by (simp add: moves_def cn)
      show ?thesis by (rule moves_trans [OF m apply_moves [OF l moves_ready [OF m assms(2)]]])
    next
      case False
      then have "cn' = (c1, n1)" using h by simp
      then show ?thesis using quiet e by blast
    qed
  next
    case False
    then have "cn' = (c, n1)" using assms(1) unfolding client_onCommit_def cn n1_def by (auto simp: Let_def split: option.splits if_splits)
    then show ?thesis using quiet by simp
  qed
qed

lemma replay_moves:
  "replayRecords h ch rs cn = Ok cn' \<Longrightarrow> ready cn \<Longrightarrow> moves P cn cn'"
proof (induction rs arbitrary: cn)
  case (Cons r rs)
  obtain st where st: "vniOf (fst cn) ch = Some st" using Cons.prems(1) by (cases "vniOf (fst cn) ch") auto
  show ?case
  proof (cases "Controller_Epoch (ctrl st) = cr_Base r")
    case True
    then obtain lf cn1 where a: "applyCommit h ch (cr_Bytes r) False cn = Ok (lf, cn1)"
      "(if lf then Ok cn1 else replayRecords h ch rs cn1) = Ok cn'"
      using Cons.prems(1) st by (auto simp: bindR_Inr_iff)
    note m = apply_moves [OF a(1) Cons.prems(2), of P]
    show ?thesis
    proof (cases lf)
      case False
      then show ?thesis using a(2) moves_trans [OF m Cons.IH [OF _ moves_ready [OF m Cons.prems(2)]]] by simp
    qed (use a(2) m in simp)
  next
    case False
    then show ?thesis using Cons.IH [OF _ Cons.prems(2)] Cons.prems(1) st by simp
  qed
qed (simp add: moves_refl ready_def)

lemma onLogReply_moves:
  assumes "onLogReply h env cn = Ok cn'" "ready cn"
  shows "moves P cn cn'"
proof (cases "\<exists>st. vniOf (fst cn) (env_VNI env) = Some st \<and> joined st")
  case True
  then have "replayRecords h (env_VNI env) (sort_key cr_Base (env_Records env)) cn = Ok cn'"
    using assms(1) by (cases cn) (auto simp: onLogReply_def)
  then show ?thesis by (rule replay_moves [OF _ assms(2)])
next
  case False
  then have "cn' = cn" using assms(1) by (cases cn) (auto simp: onLogReply_def split: option.splits if_splits)
  then show ?thesis using assms(2) by (simp add: moves_refl ready_def)
qed

lemma onData_moves:
  assumes "ready cn"
  shows "moves P cn (onData env cn)"
proof -
  obtain c n where cn: "cn = (c, n)" by (cases cn)
  have q: "isHeap eventKey (pq (sched n))" using assms by (simp add: ready_def cn)
  consider "onData env cn = cn" | l where "onData env cn = (c, n\<lparr>lossEvents := l\<rparr>)"
    | st st' f where "vniOf c (env_VNI env) = Some st" "joined st' = joined st" "onData env cn = (setVNI (env_VNI env) st' c, counted f n)"
  proof (cases "vniOf c (env_VNI env)")
    case None
    then show thesis using that(1) by (simp add: onData_def cn)
  next
    case (Some st)
    obtain ok win where w: "accept (case map_of (replay st) (env_SPI env) of None \<Rightarrow> newReplayWin | Some w \<Rightarrow> w) (env_DataSeq env) = (ok, win)"
      by (cases "accept (case map_of (replay st) (env_SPI env) of None \<Rightarrow> newReplayWin | Some w \<Rightarrow> w) (env_DataSeq env)")
    let ?st = "st\<lparr>replay := AList.update (env_SPI env) win (replay st)\<rparr>"
    show thesis
    proof (cases "\<not> joined st \<or> env_Base env < joinEpoch st")
      case True
      then have "onData env cn = cn" using Some by (auto simp: onData_def cn Let_def)
      then show thesis by (rule that(1))
    next
      case False
      show thesis
      proof (cases "holdsSPI st (env_SPI env)")
        case nh: False
        have "onData env cn = (c, n\<lparr>lossEvents := lossEvents n @ [\<lparr>le_VNI = env_VNI env, SentEpoch = env_Base env,
              RecvEpoch = Controller_Epoch (ctrl st), le_At = clock (sched n)\<rparr>]\<rparr>)"
          using Some False nh by (simp add: onData_def cn Let_def)
        then show thesis by (rule that(2))
      next
        case True
        then show thesis using that(3) [OF Some, of ?st] Some w False by (cases ok) (auto simp: onData_def cn Let_def)
      qed
    qed
  qed
  then show ?thesis
  proof cases
    case 1
    then show ?thesis using assms by (simp add: moves_refl ready_def)
  next
    case 2
    then show ?thesis using q by (auto simp: moves_def cn intro: adds_none)
  next
    case 3
    then show ?thesis using evolves_set [OF 3(1,2)] adds_counted [OF adds_refl [OF q]] by (simp add: moves_def cn)
  qed
qed

lemma catchup_moves:
  assumes "requestCatchup h ch from (c, n) = Ok cn'" "ready (c, n)"
  shows "moves (\<lambda>e. routed (dsIDs c) e \<and> env_Type (ev_Env e) = MsgLogRequest) (c, n) cn'"
proof -
  define c1 where "c1 = (case vniOf c ch of
                None \<Rightarrow> c
              | Some st \<Rightarrow> setVNI ch (st\<lparr>catchupReqs := AList.update from (getOr 0 (catchupReqs st) from + 1) (catchupReqs st)\<rparr>) c)"
  have e: "evolves c c1" unfolding c1_def by (auto split: option.splits intro: evolves_set)
  then have same: "dsIDs c1 = dsIDs c" by (simp add: evolves_def)
  obtain m f where m: "toReflector h c1 ch (zeroEnvelope\<lparr>env_VNI := ch, env_Type := MsgLogRequest, env_Base := from\<rparr>) n = Ok m"
    "cn' = (c1, counted f m)"
    using assms(1) unfolding requestCatchup_def c1_def by (auto simp: bindR_Inr_iff Let_def)
  have "adds n m (\<lambda>e. routed (dsIDs c) e \<and> env_Type (ev_Env e) = MsgLogRequest)"
    using toReflector_adds [OF m(1)] assms(2) same by (simp add: ready_def)
  then show ?thesis using e adds_counted by (auto simp: moves_def m(2))
qed

lemma onHeartbeat_moves:
  assumes "onHeartbeat h env cn = Ok cn'" "ready cn"
  shows "moves (\<lambda>e. routed (dsIDs (fst cn)) e \<and> env_Type (ev_Env e) = MsgLogRequest) cn cn'"
proof -
  obtain c n where cn: "cn = (c, n)" by (cases cn)
  have q: "isHeap eventKey (pq (sched n))" using assms(2) by (simp add: ready_def cn)
  show ?thesis
  proof (cases "\<exists>st. vniOf c (env_VNI env) = Some st \<and> joined st")
    case True
    then obtain st where st: "vniOf c (env_VNI env) = Some st" "joined st" by blast
    define st' where "st' = noteHeartbeat env st"
    have st': "joined st' = joined st"
      "cn' = (setVNI (env_VNI env) st' c, n) \<or>
       (\<exists>from. requestCatchup h (env_VNI env) from (setVNI (env_VNI env) st' c, n) = Ok cn')"
      using assms(1) st unfolding onHeartbeat_def cn st'_def
      by (auto simp: Let_def noteHeartbeat_def split: if_splits option.splits)
    have e: "evolves c (setVNI (env_VNI env) st' c)" by (rule evolves_set [OF st(1) st'(1)])
    note m = moves_client [OF e q]
    have r: "ready (setVNI (env_VNI env) st' c, n)" using assms(2) by (simp add: ready_def cn)
    show ?thesis
      using st'(2)
    proof (elim disjE exE)
      fix b assume "requestCatchup h (env_VNI env) b (setVNI (env_VNI env) st' c, n) = Ok cn'"
      from catchup_moves [OF this r] show ?thesis unfolding cn using moves_trans [OF m] by simp
    qed (use m in \<open>simp add: cn\<close>)
  next
    case False
    then have "cn' = cn" using assms(1) unfolding onHeartbeat_def cn by (auto split: option.splits if_splits simp: Let_def)
    then show ?thesis using assms(2) by (simp add: moves_refl ready_def)
  qed
qed

lemma sendHead_moves:
  assumes "sendHead h ch b msg cn = Ok cn'" "ready cn"
  shows "moves (routed (dsIDs (fst cn))) cn cn'"
proof -
  obtain c n where cn: "cn = (c, n)" by (cases cn)
  obtain st n' where st: "vniOf c ch = Some st" "sendCommit h (setVNI ch (recordHead b msg st) c) ch b msg n = Ok n'"
    "cn' = (setVNI ch (recordHead b msg st) c, n')"
    using assms(1) unfolding sendHead_def cn by (auto simp: bindR_Inr_iff fromOption_Inr_iff Let_def)
  have "evolves c (setVNI ch (recordHead b msg st) c)" by (rule evolves_set [OF st(1)]) (simp add: recordHead_def)
  moreover have "adds n n' (routed (dsIDs c))" using sendCommit_adds [OF st(2)] assms(2) by (simp add: ready_def cn)
  ultimately show ?thesis by (simp add: moves_def cn st(3))
qed

lemma welcomeAdded_moves:
  assumes "welcomeAdded h ch res cn = Ok cn'" "ready cn"
  shows "moves (routed (dsIDs (fst cn))) cn cn'"
proof -
  obtain c n where cn: "cn = (c, n)" by (cases cn)
  show ?thesis
  proof (cases "bytesOr (WelcomeMsg res) \<noteq> [] \<and> Added res \<noteq> []")
    case True
    then obtain st c1 n' where st: "vniOf c ch = Some st"
      "c1 = setVNI ch (fold (noteAdded c (Controller_Epoch (ctrl st)) (bytesOr (WelcomeMsg res))) (Added res) st) c"
      "sendWelcome h c1 ch (bytesOr (WelcomeMsg res)) (Added res) n = Ok n'" "cn' = (c1, n')"
      using assms(1) unfolding welcomeAdded_def cn by (auto simp: bindR_Inr_iff fromOption_Inr_iff Let_def)
    have e: "evolves c c1" unfolding st(2) by (rule evolves_set [OF st(1)]) simp
    have "adds n n' (routed (dsIDs c))" using sendWelcome_adds [OF st(3)] assms(2) by (simp add: ready_def cn st(2))
    then show ?thesis using e by (simp add: moves_def cn st(4))
  next
    case False
    then have "cn' = cn" using assms(1) unfolding welcomeAdded_def cn Let_def prod.case by (simp split: if_splits)
    then show ?thesis using assms(2) by (simp add: moves_refl ready_def)
  qed
qed

text \<open>The client and the shared objects after an operation of the controller.\<close>

lemma controller_moves:
  assumes "ready (c, n)" "vniOf c ch = Some st"
  shows "moves P (c, n) (setVNI ch (st\<lparr>ctrl := ct\<rparr>) c, measured h opn n)"
  using assms evolves_set [OF assms(2)] adds_measured [OF adds_refl [of n]] by (simp add: moves_def ready_def)

lemma reconcile_moves:
  assumes "client_reconcile h ch ds cn = Ok cn'" "ready cn"
  shows "moves (routed (dsIDs (fst cn))) cn cn'"
proof -
  obtain c n where cn: "cn = (c, n)" by (cases cn)
  let ?P = "routed (dsIDs c)"
  show ?thesis
  proof (cases "canCommit c ch")
    case False
    then show ?thesis using assms by (auto simp: client_reconcile_def cn moves_refl ready_def)
  next
    case True
    then obtain st where st: "vniOf c ch = Some st" by (cases "vniOf c ch") (auto simp: canCommit_def)
    obtain res err ct u where r: "Reconcile (h_std h) (entropy h (draws n)) optimisticOrdering ()
             (withDirectory (dir n) ch (ctrl st)) ds = ((res, err), ct, u)"
      by (metis prod.exhaust)
    define cn1 where "cn1 = (setVNI ch (st\<lparr>ctrl := ct\<rparr>) c, measured h ''Reconcile'' n)"
    have m1: "moves ?P cn cn1" unfolding cn1_def cn by (rule controller_moves) (use assms(2) st cn in auto)
    have rd: "ready cn1" by (rule moves_ready [OF m1 assms(2)])
    have h: "(case err of Some (Error _) \<Rightarrow> Ok cn1 | Some f \<Rightarrow> Inl f
       | None \<Rightarrow> if \<not> Committed res then Ok cn1
           else
             bindR (cacheCurrentSA (h_std h) ch cn1) (\<lambda>(c, n).
             bindR (pruneDepartedPeers ch c) (\<lambda>c.
             bindR (sendHead h ch (Controller_Epoch ct - 1) (bytesOr (CommitMsg res)) (c, n)) (\<lambda>cn.
             welcomeAdded h ch res cn)))) = Ok cn'"
      using assms(1) True st r unfolding client_reconcile_def cn cn1_def by (simp add: Let_def)
    consider "cn' = cn1" | c2 n2 c3 cn4 where "cacheCurrentSA (h_std h) ch cn1 = Ok (c2, n2)" "pruneDepartedPeers ch c2 = Ok c3"
      "sendHead h ch (Controller_Epoch ct - 1) (bytesOr (CommitMsg res)) (c3, n2) = Ok cn4" "welcomeAdded h ch res cn4 = Ok cn'"
      using h by (cases err) (auto simp: bindR_Inr_iff split: if_splits fault.splits)
    then show ?thesis
    proof cases
      case 2
      have m2: "moves ?P cn1 (c2, n2)" by (rule cache_moves [OF 2(1) rd])
      have m3: "moves ?P (c2, n2) (c3, n2)" by (rule moves_client [OF prune_evolves [OF 2(2)]]) (use moves_heap [OF m2] in simp)
      note m13 = moves_trans [OF m1 moves_trans [OF m2 m3]]
      have m4: "moves ?P (c3, n2) cn4"
        using sendHead_moves [OF 2(3) moves_ready [OF m13 assms(2)]] moves_simps(1) [OF m13] by (simp add: cn)
      note m14 = moves_trans [OF m13 m4]
      have "moves ?P cn4 cn'"
        using welcomeAdded_moves [OF 2(4) moves_ready [OF m14 assms(2)]] moves_simps(1) [OF m14] by (simp add: cn)
      then show ?thesis using moves_trans [OF m14] by (simp add: cn)
    qed (use m1 in \<open>simp add: cn\<close>)
  qed
qed

lemma rekey_moves:
  assumes "client_rekey h ch cn = Ok cn'" "ready cn"
  shows "moves (routed (dsIDs (fst cn))) cn cn'"
proof -
  obtain c n where cn: "cn = (c, n)" by (cases cn)
  let ?P = "routed (dsIDs c)"
  show ?thesis
  proof (cases "canCommit c ch")
    case False
    then show ?thesis using assms by (auto simp: client_rekey_def cn moves_refl ready_def)
  next
    case True
    then obtain st where st: "vniOf c ch = Some st" by (cases "vniOf c ch") (auto simp: canCommit_def)
    obtain msg won err ct u where r: "Rekey (h_std h) (entropy h (draws n)) optimisticOrdering () (ctrl st) = ((msg, won, err), ct, u)"
      by (metis prod.exhaust)
    define cn1 where "cn1 = (setVNI ch (st\<lparr>ctrl := ct\<rparr>) c, measured h ''Rekey'' n)"
    have m1: "moves ?P cn cn1" unfolding cn1_def cn by (rule controller_moves) (use assms(2) st cn in auto)
    have rd: "ready cn1" by (rule moves_ready [OF m1 assms(2)])
    have h: "(case err of Some (Error _) \<Rightarrow> Ok cn1 | Some f \<Rightarrow> Inl f
       | None \<Rightarrow> (case msg of None \<Rightarrow> Ok cn1
            | Some msg \<Rightarrow> if \<not> won then Ok cn1
                else bindR (cacheCurrentSA (h_std h) ch cn1) (\<lambda>cn. sendHead h ch (Controller_Epoch (ctrl st)) msg cn))) = Ok cn'"
      using assms(1) True st r unfolding client_rekey_def cn cn1_def by (simp add: Let_def)
    consider "cn' = cn1" | msg' cn2 where "cacheCurrentSA (h_std h) ch cn1 = Ok cn2"
      "sendHead h ch (Controller_Epoch (ctrl st)) msg' cn2 = Ok cn'"
      using h by (cases err; cases msg) (auto simp: bindR_Inr_iff split: if_splits fault.splits)
    then show ?thesis
    proof cases
      case 2
      have m2: "moves ?P cn1 cn2" by (rule cache_moves [OF 2(1) rd])
      note m12 = moves_trans [OF m1 m2]
      have "moves ?P cn2 cn'"
        using sendHead_moves [OF 2(2) moves_ready [OF m12 assms(2)]] moves_simps(1) [OF m12] by (simp add: cn)
      then show ?thesis using moves_trans [OF m12] by (simp add: cn)
    qed (use m1 in \<open>simp add: cn\<close>)
  qed
qed

lemma sendTo_moves:
  assumes "sendToReceiver h cands cn rcv = Ok cn'" "ready cn"
  shows "moves (routed (dsIDs (fst cn))) cn cn'"
proof -
  obtain c n where cn: "cn = (c, n)" by (cases cn)
  have q: "isHeap eventKey (pq (sched n))" using assms(2) by (simp add: ready_def cn)
  show ?thesis
  proof (cases "chooseCand rcv cands")
    case (Some cd)
    obtain st where st: "vniOf c (cd_ch cd) = Some st"
      using assms(1) Some unfolding sendToReceiver_def cn by (auto simp: bindR_Inr_iff fromOption_Inr_iff)
    define n1 where "n1 = counted (\<lambda>m. observeSendLag m (Controller_Epoch (ctrl st) - cd_se cd)) n"
    define c1 where "c1 = setVNI (cd_ch cd) (st\<lparr>sendSeq := AList.update (cd_se cd) (getOr 0 (sendSeq st) (cd_se cd) + 1) (sendSeq st)\<rparr>) c"
    obtain n2 f where p: "Publish (h_rand h) n1 (zeroEnvelope\<lparr>env_VNI := cd_ch cd, env_Type := MsgData, env_Src := cl_id c1,
           env_Dst := rcv, env_Base := cd_se cd, env_SPI := cd_spi cd, env_DataSeq := getOr 0 (sendSeq st) (cd_se cd)\<rparr>) = Ok n2"
      "cn' = (c1, counted f n2)"
      using assms(1) Some st unfolding sendToReceiver_def cn c1_def n1_def by (auto simp: bindR_Inr_iff Let_def)
    have "adds n n1 (routed (dsIDs c))" unfolding n1_def by (rule adds_counted [OF adds_refl [OF q]])
    moreover have "adds n1 n2 (routed (dsIDs c))"
      by (rule adds_mono [OF emits_adds [OF Publish_emits [OF p(1)]]]) (use q in \<open>auto simp: routed_def n1_def\<close>)
    ultimately have "adds n (counted f n2) (routed (dsIDs c))" by (rule adds_counted [OF adds_trans])
    moreover have "evolves c c1" unfolding c1_def by (rule evolves_set [OF st]) simp
    ultimately show ?thesis by (simp add: moves_def cn p(2))
  qed (use assms in \<open>auto simp: sendToReceiver_def cn moves_refl ready_def\<close>)
qed

lemma sendData_moves:
  assumes "sendData h tenant cn = Ok cn'" "ready cn"
  shows "moves (routed (dsIDs (fst cn))) cn cn'"
proof -
  obtain cands rs where f: "foldR (sendToReceiver h cands) cn rs = Ok cn'"
    using assms(1) by (cases cn) (auto simp: sendData_def bindR_Inr_iff Let_def)
  have "moves (routed (dsIDs (fst cn))) cn cn' \<and> ready cn'"
    by (rule foldR_invariant [OF f, where I = "\<lambda>x. moves (routed (dsIDs (fst cn))) cn x \<and> ready x"])
      (use assms(2) moves_refl [of cn] sendTo_moves moves_trans moves_ready moves_simps(1) in \<open>simp add: ready_def, metis\<close>)
  then show ?thesis by blast
qed

text \<open>A welcome either changes nothing in the queue, or the client has joined one more channel.\<close>

lemma onWelcome_moves:
  assumes "onWelcome h env cn = Ok cn'" "ready cn"
  shows "(\<forall>P. moves P cn cn') \<or>
    (moves (routed (dsIDs (fst cn))) cn cn' \<and> unjoined (fst cn') < unjoined (fst cn))"
proof -
  obtain c n where cn: "cn = (c, n)" by (cases cn)
  let ?ch = "env_VNI env" and ?P = "routed (dsIDs c)"
  have q: "isHeap eventKey (pq (sched n))" using assms(2) by (simp add: ready_def cn)
  show ?thesis
  proof (cases "\<exists>st. vniOf c ?ch = Some st \<and> \<not> joined st")
    case False
    then have "cn' = cn" using assms(1) unfolding onWelcome_def cn by (auto split: option.splits if_splits simp: Let_def)
    then show ?thesis using q by (simp add: cn moves_refl)
  next
    case True
    then obtain st where st: "vniOf c ?ch = Some st" "\<not> joined st" by blast
    obtain kp ip lp where k: "joinerMaterial (dir n) ?ch (cl_identity c) = (kp, ip, lp)" by (metis prod.exhaust)
    obtain r ct where j: "JoinViaWelcome (h_std h) (ctrl st) (env_Payload env) kp ip lp = (r, ct)" by (metis prod.exhaust)
    define n1 where "n1 = measured h ''JoinViaWelcome'' n"
    define c1 where "c1 = setVNI ?ch (st\<lparr>ctrl := ct, joined := True, joinEpoch := Controller_Epoch ct\<rparr>) c"
    show ?thesis
    proof (cases r)
      case (Inl f)
      then have "cn' = (setVNI ?ch (st\<lparr>ctrl := ct\<rparr>) c, n1)"
        using assms(1) st k j unfolding onWelcome_def cn n1_def by (auto split: fault.splits)
      then show ?thesis using controller_moves [OF _ st(1)] assms(2) unfolding n1_def cn by blast
    next
      case (Inr u)
      then obtain cn2 c3 n3 st3 st4 e where w: "cacheCurrentSA (h_std h) ?ch (c1, n1) = Ok cn2"
        "emitHeartbeat h ?ch cn2 = Ok (c3, n3)" "vniOf c3 ?ch = Some st3" "seedLeaves c3 e [] st3 = Ok st4" "cn' = (setVNI ?ch st4 c3, n3)"
        using assms(1) st k j unfolding onWelcome_def cn c1_def n1_def by (auto simp: bindR_Inr_iff fromOption_Inr_iff Let_def)
      have u: "unjoined c1 + 1 = unjoined c" unfolding c1_def by (rule unjoined_set(2) [OF st]) simp
      have m1: "moves ?P (c, n) (c1, n1)"
        using u adds_measured [OF adds_refl [OF q]] by (simp add: moves_def evolves_def n1_def c1_def)
      have r1: "ready (c1, n1)" by (rule moves_ready [OF m1]) (use assms(2) cn in simp)
      have m2: "moves ?P (c1, n1) cn2" by (rule cache_moves [OF w(1) r1])
      have r2: "ready cn2" by (rule moves_ready [OF m2 r1])
      have m3: "moves ?P cn2 (c3, n3)"
        using emitHeartbeat_moves(1) [OF w(2) r2] moves_simps(1) [OF moves_trans [OF m1 m2]] by simp
      have m4: "moves ?P (c3, n3) cn'"
        unfolding w(5) by (rule moves_client [OF evolves_set [OF w(3) seedLeaves_joined [OF w(4)]]]) (use moves_heap [OF m3] in simp)
      have "moves ?P (c1, n1) cn'" by (rule moves_trans [OF m2 moves_trans [OF m3 m4]])
      then show ?thesis using u moves_trans [OF m1] by (auto simp: moves_def evolves_def cn)
    qed
  qed
qed

end
