(* ===== verification/Runs.thy ===== *)
theory Runs
  imports ClientMoves
begin

text \<open>
  The main loop of the simulator ends: every dispatched event leaves the queue with events of smaller
  rank in its place, or a client has joined one more channel.
\<close>

section \<open>Moves of the world\<close>

definition sameScript :: "'r world \<Rightarrow> 'r world \<Rightarrow> bool" where
  "sameScript v w \<longleftrightarrow> w_sc w = w_sc v \<and> settleDeadline w = settleDeadline v \<and> numReplicas w = numReplicas v \<and>
    rekeyInterval w = rekeyInterval v \<and> heartbeatInterval w = heartbeatInterval v \<and>
    reconcileInterval w = reconcileInterval v \<and> dataInterval w = dataInterval v \<and>
    map ds_id (dss w) = map ds_id (dss v)"

definition wmoves :: "(Event \<Rightarrow> bool) \<Rightarrow> 'r world \<Rightarrow> 'r world \<Rightarrow> bool" where
  "wmoves P v w \<longleftrightarrow> adds (net v) (net w) P \<and> list_all2 evolves (clients v) (clients w) \<and> sameScript v w"

definition total :: "'r world \<Rightarrow> nat" where
  "total w = sum_list (map unjoined (clients w))"

lemma evolves_total:
  assumes "list_all2 evolves (clients v) (clients w)"
  shows "total w \<le> total v"
  using assms unfolding total_def
  by (induction rule: list_all2_induct) (auto simp: evolves_def)

lemma sameScript_refl [simp]: "sameScript v v"
  by (simp add: sameScript_def)

lemma sameScript_trans: "sameScript u v \<Longrightarrow> sameScript v w \<Longrightarrow> sameScript u w"
  by (simp add: sameScript_def)

lemma evolves_all_refl [simp]: "list_all2 evolves cs cs"
  by (simp add: list_all2_refl)

lemma wmoves_trans: "wmoves P u v \<Longrightarrow> wmoves P v w \<Longrightarrow> wmoves P u w"
proof -
  assume a: "wmoves P u v" "wmoves P v w"
  have "list_all2 evolves (clients u) (clients w)"
    by (rule list_all2_trans [of evolves evolves evolves, OF evolves_trans]) (use a in \<open>auto simp: wmoves_def\<close>)
  then show ?thesis using a adds_trans [of "net u" "net v" P "net w"] sameScript_trans [of u v w] by (simp add: wmoves_def)
qed

lemma wmoves_mono: "wmoves P v w \<Longrightarrow> (\<And>e. P e \<Longrightarrow> Q e) \<Longrightarrow> wmoves Q v w"
  unfolding wmoves_def using adds_mono by blast

lemma atClient_wmoves:
  assumes "atClient i f w = Ok w'"
    and "\<And>cn'. f (clients w ! i, net w) = Ok cn' \<Longrightarrow> moves P (clients w ! i, net w) cn'"
  shows "wmoves P w w'" "i < length (clients w)"
    "\<exists>cn'. f (clients w ! i, net w) = Ok cn' \<and> w' = w\<lparr>clients := (clients w)[i := fst cn'], net := snd cn'\<rparr>"
proof -
  have i: "i < length (clients w)" using assms(1) by (auto simp: atClient_def split: if_splits)
  obtain c n where cn: "f (clients w ! i, net w) = Ok (c, n)" "w' = w\<lparr>clients := (clients w)[i := c], net := n\<rparr>"
    using assms(1) i by (auto simp: atClient_def bindR_Inr_iff)
  have m: "moves P (clients w ! i, net w) (c, n)" by (rule assms(2) [OF cn(1)])
  then have "list_all2 evolves (clients w) ((clients w)[i := c])"
    using i by (auto simp: list_all2_conv_all_nth nth_list_update moves_def)
  then show "wmoves P w w'" using m by (simp add: wmoves_def cn(2) moves_def sameScript_def)
  show "i < length (clients w)" by (rule i)
  show "\<exists>cn'. f (clients w ! i, net w) = Ok cn' \<and> w' = w\<lparr>clients := (clients w)[i := fst cn'], net := snd cn'\<rparr>"
    using cn by auto
qed

lemma schedule_wmoves:
  assumes "isHeap eventKey (pq (sched (net w)))" "P (stamped (sched (net w)) t e)"
  shows "wmoves P w (schedule t e w)"
proof -
  have "mset (pq (sched (net (schedule t e w)))) = mset (pq (sched (net w))) + mset [stamped (sched (net w)) t e]"
    "isHeap eventKey (pq (sched (net (schedule t e w))))"
    using Schedule_events [OF assms(1)] by (simp_all add: schedule_def)
  moreover have "clock (sched (net (schedule t e w))) = clock (sched (net w))" by (simp add: schedule_def Schedule_stamped)
  ultimately have "adds (net w) (net (schedule t e w)) P"
    using assms(2) unfolding adds_def by (intro conjI exI [of _ "[stamped (sched (net w)) t e]"]) (auto simp: schedule_def)
  then show ?thesis by (simp add: wmoves_def schedule_def sameScript_def)
qed

section \<open>Ranks\<close>

definition isClient :: "'r world \<Rightarrow> ActorID \<Rightarrow> bool" where
  "isClient w a \<longleftrightarrow> 0 \<le> a \<and> a < int (length (clients w))"

definition deadlineOf :: "'r world \<Rightarrow> nat" where
  "deadlineOf w = unat (settleDeadline w + SettleRounds (w_sc w))"

definition rank :: "'r world \<Rightarrow> Event \<Rightarrow> nat" where
  "rank w e =
    (case ev_Kind e of
       KindFault \<Rightarrow> 0
     | KindChurn \<Rightarrow> deadlineOf w + 4
     | KindTimer \<Rightarrow> deadlineOf w - unat (ev_At e) + 3
     | KindDeliver \<Rightarrow>
         if isClient w (ev_Actor e) then (if env_Type (ev_Env e) = MsgHeartbeat then 2 else 0)
         else (if env_Type (ev_Env e) \<in> {MsgCommit, MsgWelcome, MsgLogRequest} then 1 else 0))"

lemma rank_deliver: "ev_Kind e = KindDeliver \<Longrightarrow> rank w e \<le> 2"
  by (simp add: rank_def)

lemma wmoves_rank:
  assumes "wmoves P v w"
  shows "rank w = rank v" "isClient w = isClient v" "deadlineOf w = deadlineOf v"
proof -
  have "length (clients w) = length (clients v)" "settleDeadline w = settleDeadline v" "w_sc w = w_sc v"
    using assms list_all2_lengthD unfolding wmoves_def sameScript_def by fastforce+
  then have c: "isClient w = isClient v" and d: "deadlineOf w = deadlineOf v" by (simp_all add: fun_eq_iff isClient_def deadlineOf_def)
  show "rank w = rank v" unfolding fun_eq_iff rank_def c d by simp
  show "isClient w = isClient v" "deadlineOf w = deadlineOf v" by (fact c, fact d)
qed

text \<open>What the run relies on.\<close>

definition worldOK :: "'r world \<Rightarrow> bool" where
  "worldOK w \<longleftrightarrow> isHeap eventKey (pq (sched (net w))) \<and> (\<forall>c\<in>set (clients w). Broadcast \<notin> set (dsIDs c)) \<and>
    (\<forall>ch. \<forall>a\<in>set (subs (net w) ch). isClient w a) \<and>
    (\<forall>t. 0 < timerInterval w t \<and> deadlineOf w + unat (timerInterval w t) < 2 ^ 64)"

lemma wmoves_OK:
  assumes "wmoves P v w" "worldOK v"
  shows "worldOK w"
proof -
  have ev: "list_all2 evolves (clients v) (clients w)" and ad: "adds (net v) (net w) P" and sc: "sameScript v w"
    using assms(1) by (auto simp: wmoves_def)
  have "Broadcast \<notin> set (dsIDs c)" if cw: "c \<in> set (clients w)" for c
  proof -
    obtain i where i: "i < length (clients w)" "c = clients w ! i" using cw unfolding in_set_conv_nth by blast
    have "dsIDs c = dsIDs (clients v ! i)" using list_all2_nthD2 [OF ev i(1)] by (simp add: i(2) evolves_def)
    then show ?thesis using assms(2) i(1) list_all2_lengthD [OF ev] by (simp add: worldOK_def)
  qed
  moreover have ti: "timerInterval w = timerInterval v"
    using sc by (auto simp: fun_eq_iff timerInterval_def sameScript_def split: TimerKind.splits)
  moreover have "isClient w a" if "a \<in> set (subs (net w) ch)" for ch a
  proof -
    have "a \<in> set (subs (net v) ch)" using ad that by (auto simp: adds_def)
    then show ?thesis using assms(2) unfolding wmoves_rank(2) [OF assms(1)] worldOK_def by blast
  qed
  ultimately show ?thesis
    using adds_heap [OF ad] assms(2) unfolding worldOK_def wmoves_rank(3) [OF assms(1)] by simp
qed

lemma worldOK_ready: "worldOK w \<Longrightarrow> i < length (clients w) \<Longrightarrow> ready (clients w ! i, net w)"
  by (simp add: worldOK_def ready_def)

text \<open>Events of smaller rank for the dispatched one, or one more channel joined.\<close>

definition progress :: "Event \<Rightarrow> 'r world \<Rightarrow> 'r world \<Rightarrow> bool" where
  "progress e v w \<longleftrightarrow> wmoves (\<lambda>x. rank v x < rank v e) v w \<or> ((\<exists>P. wmoves P v w) \<and> total w < total v)"

section \<open>Dispatch\<close>

lemma list_all2_set: "list_all2 evolves cs (cs[i := c]) \<Longrightarrow> i < length cs \<Longrightarrow> sum_list (map unjoined (cs[i := c])) + unjoined (cs ! i) = sum_list (map unjoined cs) + unjoined c"
proof (induction cs arbitrary: i)
  case (Cons x cs)
  then show ?case by (cases i) (auto simp: list_all2_Cons1 add_ac)
qed simp

lemma deliver_client:
  assumes "worldOK w" "isClient w (ev_Actor e)" "ev_Kind e = KindDeliver" "atClient (nat (ev_Actor e)) (onDeliver h (ev_Env e)) w = Ok w'"
  shows "progress e w w'"
proof -
  let ?i = "nat (ev_Actor e)" and ?c = "clients w ! nat (ev_Actor e)"
  have i: "?i < length (clients w)" using assms(2) by (auto simp: isClient_def)
  have rd: "ready (?c, net w)" by (rule worldOK_ready [OF assms(1) i])
  have "Broadcast \<notin> set (dsIDs ?c)" using rd by (simp add: ready_def)
  have quiet: "progress e w w'" if "\<And>cn'. onDeliver h (ev_Env e) (?c, net w) = Ok cn' \<Longrightarrow> moves (\<lambda>_. False) (?c, net w) cn'"
    using atClient_wmoves(1) [OF assms(4) that] wmoves_mono [of "\<lambda>_. False" w w'] unfolding progress_def by blast
  show ?thesis
  proof (cases "env_Type (ev_Env e)")
    case MsgCommit
    show ?thesis by (rule quiet) (use MsgCommit onCommit_moves rd in \<open>auto simp: onDeliver_def\<close>)
  next
    case MsgWelcome
    obtain cn' where cn': "onDeliver h (ev_Env e) (?c, net w) = Ok cn'" "w' = w\<lparr>clients := (clients w)[?i := fst cn'], net := snd cn'\<rparr>"
      using assms(4) i by (auto simp: atClient_def bindR_Inr_iff)
    have "(\<forall>P. moves P (?c, net w) cn') \<or> (moves (routed (dsIDs ?c)) (?c, net w) cn' \<and> unjoined (fst cn') < unjoined ?c)"
      using cn'(1) onWelcome_moves [OF _ rd] moves_refl [of "(?c, net w)"] rd
      by (auto simp: onDeliver_def MsgWelcome ready_def split: if_splits)
    then show ?thesis
    proof (elim disjE conjE)
      assume "\<forall>P. moves P (?c, net w) cn'"
      then show ?thesis using quiet cn'(1) by auto
    next
      assume m: "moves (routed (dsIDs ?c)) (?c, net w) cn'" "unjoined (fst cn') < unjoined ?c"
      have wm: "wmoves (routed (dsIDs ?c)) w w'" using atClient_wmoves(1) [OF assms(4)] m(1) cn'(1) by auto
      have "total w' + unjoined ?c = total w + unjoined (fst cn')"
        using wm list_all2_set [OF _ i, of "fst cn'"] by (simp add: total_def wmoves_def cn'(2))
      then have "total w' < total w" using m(2) by linarith
      then show ?thesis using wm unfolding progress_def by blast
    qed
  next
    case MsgHeartbeat
    have m: "wmoves (\<lambda>x. routed (dsIDs ?c) x \<and> env_Type (ev_Env x) = MsgLogRequest) w w'"
      by (rule atClient_wmoves(1) [OF assms(4)]) (use MsgHeartbeat onHeartbeat_moves [OF _ rd] in \<open>auto simp: onDeliver_def\<close>)
    have "wmoves (\<lambda>x. rank w x < rank w e) w w'"
      by (rule wmoves_mono [OF m]) (use assms(2,3) MsgHeartbeat in \<open>auto simp: rank_def routed_def\<close>)
    then show ?thesis by (simp add: progress_def)
  next
    case MsgLogRequest
    show ?thesis by (rule quiet) (use MsgLogRequest moves_refl [of "(?c, net w)"] rd in \<open>auto simp: onDeliver_def ready_def\<close>)
  next
    case MsgLogReply
    show ?thesis by (rule quiet) (use MsgLogReply onLogReply_moves rd in \<open>auto simp: onDeliver_def\<close>)
  next
    case MsgData
    show ?thesis by (rule quiet) (use MsgData onData_moves [OF rd] in \<open>auto simp: onDeliver_def\<close>)
  qed
qed

lemma isHeap_OK: "worldOK w \<Longrightarrow> isHeap eventKey (pq (sched (net w)))"
  by (simp add: worldOK_def)

lemma findDS_ids: "findDS ds a = Some i \<Longrightarrow> i < length ds \<and> ds_id (ds ! i) = a"
  unfolding findDS_def by (auto simp: find_Some_iff)

lemma deliver_progress:
  assumes "worldOK w" "ev_Kind e = KindDeliver" "dispatchDeliver h e w = Ok (w', line)"
  shows "progress e w w'"
proof (cases "isClient w (ev_Actor e)")
  case True
  then have "atClient (nat (ev_Actor e)) (onDeliver h (ev_Env e)) w = Ok w'"
    using assms(3) by (auto simp: dispatchDeliver_def isClient_def bindR_Inr_iff)
  then show ?thesis by (rule deliver_client [OF assms(1) True assms(2)])
next
  case False
  show ?thesis
  proof (cases "findDS (dss w) (ev_Actor e)")
    case None
    then have "w' = w" using assms(3) False by (auto simp: dispatchDeliver_def isClient_def)
    then show ?thesis using adds_refl [OF isHeap_OK [OF assms(1)]] by (simp add: progress_def wmoves_def)
  next
    case (Some i)
    then obtain d n where d: "handle (h_rand h) (dss w ! i) (net w) (ev_Env e) = Ok (d, n)" "w' = w\<lparr>dss := (dss w)[i := d], net := n\<rparr>"
      using assms(3) False by (auto simp: dispatchDeliver_def isClient_def bindR_Inr_iff)
    note em = handle_emits [OF d(1) isHeap_OK [OF assms(1)]]
    have "adds (net w) n (\<lambda>x. rank w x < rank w e)"
    proof (rule adds_mono [OF emits_adds [OF em(1)]])
      fix x :: Event assume x: "ev_Kind x = KindDeliver \<and> env_Type (ev_Env e) \<in> {MsgCommit, MsgWelcome, MsgLogRequest} \<and>
          (env_Type (ev_Env x) = MsgLogReply \<or> env_Type (ev_Env x) = env_Type (ev_Env e) \<and>
            env_Type (ev_Env e) \<noteq> MsgLogRequest \<and> ev_Actor x \<in> set (subs (net w) (env_VNI (ev_Env e))))"
      then have "env_Type (ev_Env x) = MsgLogReply \<or> isClient w (ev_Actor x) \<and> env_Type (ev_Env x) \<noteq> MsgHeartbeat"
        using assms(1) unfolding worldOK_def by auto
      then show "rank w x < rank w e" using x False assms(2) by (auto simp: rank_def)
    qed
    moreover have "map ds_id ((dss w)[i := d]) = map ds_id (dss w)"
      using findDS_ids [OF Some] em(2) by (metis list_update_id map_update nth_map)
    ultimately show ?thesis by (simp add: progress_def wmoves_def d(2) sameScript_def)
  qed
qed

lemma timerAction_moves:
  assumes "timerAction h e w cn = Ok cn'" "ready cn"
  shows "moves (routed (dsIDs (fst cn))) cn cn'"
  using assms(1) rekey_moves [OF _ assms(2)] emitHeartbeat_moves(1) [OF _ assms(2)] reconcile_moves [OF _ assms(2)]
    sendData_moves [OF _ assms(2)]
  by (cases "ev_Timer e") (simp_all add: timerAction_def Let_def)

lemma timer_progress:
  assumes "worldOK w" "ev_Kind e = KindTimer" "clock (sched (net w)) = ev_At e" "dispatchTimer h e w = Ok (w', line)"
  shows "progress e w w'"
proof -
  let ?P = "\<lambda>x. rank w x < rank w e"
  have r3: "3 \<le> rank w e" using assms(2) by (simp add: rank_def)
  obtain v where v: "(if isClient w (ev_Actor e) then atClient (nat (ev_Actor e)) (timerAction h e w) w else Ok w) = Ok v"
    "w' = (if ev_At e < settleDeadline w + SettleRounds (w_sc w)
           then schedule (ev_At e + timerInterval v (ev_Timer e)) (timerEvent (ev_Actor e) (ev_Timer e) (ev_Env e)) v else v)"
    using assms(4) unfolding dispatchTimer_def isClient_def Let_def by (auto simp: bindR_Inr_iff)
  have wv: "wmoves ?P w v"
  proof (cases "isClient w (ev_Actor e)")
    case True
    let ?i = "nat (ev_Actor e)"
    have i: "?i < length (clients w)" using True by (auto simp: isClient_def)
    note rd = worldOK_ready [OF assms(1) i]
    have a: "atClient ?i (timerAction h e w) w = Ok v" using v(1) True by simp
    have "wmoves (routed (dsIDs (clients w ! ?i))) w v"
    proof (rule atClient_wmoves(1) [OF a])
      fix cn' assume "timerAction h e w (clients w ! ?i, net w) = Ok cn'"
      then show "moves (routed (dsIDs (clients w ! ?i))) (clients w ! ?i, net w) cn'" using timerAction_moves [OF _ rd] by simp
    qed
    then show ?thesis
      by (rule wmoves_mono) (use r3 rank_deliver [where w = w] in \<open>fastforce simp: routed_def\<close>)
  next
    case False
    then show ?thesis using v(1) adds_refl [OF isHeap_OK [OF assms(1)]] by (simp add: wmoves_def)
  qed
  show ?thesis
  proof (cases "ev_At e < settleDeadline w + SettleRounds (w_sc w)")
    case True
    let ?t = "ev_At e + timerInterval v (ev_Timer e)" and ?x = "timerEvent (ev_Actor e) (ev_Timer e) (ev_Env e)"
    have ok: "worldOK v" by (rule wmoves_OK [OF wv assms(1)])
    have ck: "clock (sched (net v)) = ev_At e" using wv assms(3) by (simp add: wmoves_def adds_def)
    have at: "unat (ev_At e) < deadlineOf w" using True by (simp add: deadlineOf_def word_less_nat_alt)
    have iv: "0 < unat (timerInterval v (ev_Timer e))" "deadlineOf w + unat (timerInterval v (ev_Timer e)) < 2 ^ 64"
      using ok unfolding worldOK_def wmoves_rank(3) [OF wv] by (simp_all add: unat_gt_0 word_gt_0)
    then have ut: "unat ?t = unat (ev_At e) + unat (timerInterval v (ev_Timer e))"
      using at by (simp add: unat_word_ariths)
    then have "ev_At e \<le> ?t" unfolding word_le_nat_alt by linarith
    then have "max ?t (clock (sched (net v))) = ?t" unfolding ck by (rule max_absorb1)
    then have "rank w (stamped (sched (net v)) ?t ?x) = deadlineOf w - unat ?t + 3"
      by (simp add: rank_def timerEvent_def)
    also have "\<dots> < rank w e" using ut iv(1) at assms(2) by (simp add: rank_def)
    finally have "wmoves ?P v (schedule ?t ?x v)" by (rule schedule_wmoves [OF isHeap_OK [OF ok]])
    then show ?thesis using wmoves_trans [OF wv] v(2) True by (simp add: progress_def)
  qed (use wv v(2) in \<open>simp add: progress_def\<close>)
qed

lemma churn_progress:
  assumes "worldOK w" "ev_Kind e = KindChurn" "dispatchChurn e w = Ok (w', line)"
  shows "progress e w w'"
proof -
  let ?P = "\<lambda>x. rank w x < rank w e"
  have self: "wmoves ?P w w" using adds_refl [OF isHeap_OK [OF assms(1)]] by (simp add: wmoves_def)
  have one: "wmoves ?P w v'" if v: "wmoves ?P w v" "churnChannel opn i v r = Ok v'" for v v' opn i r
  proof -
    let ?ch = "saVNI (co_VNI opn) (int r)"
    define u where "u = (if co_Join opn then v\<lparr>desired := addMember ?ch i (desired v), intended := addMember ?ch i (intended v)\<rparr>
              else v\<lparr>desired := dropMember ?ch i (desired v), intended := dropMember ?ch i (intended v)\<rparr>)"
    have same: "net u = net v" "clients u = clients v" "sameScript v u" by (simp_all add: u_def sameScript_def)
    have ok: "worldOK v" by (rule wmoves_OK [OF v(1) assms(1)])
    have vu: "wmoves ?P v u" using same adds_refl [OF isHeap_OK [OF ok]] by (simp add: wmoves_def)
    obtain c :: Client where c: "v' = schedule (clock (sched (net u)) + 1) (timerEvent (cl_id c) TimerReconcile (zeroEnvelope\<lparr>env_VNI := ?ch\<rparr>)) u"
      using v(2) unfolding churnChannel_def u_def [symmetric] Let_def by (auto split: list.splits)
    have "wmoves ?P u v'"
      unfolding c by (rule schedule_wmoves) (use isHeap_OK [OF ok] same(1) assms(2) in \<open>auto simp: rank_def timerEvent_def\<close>)
    then show ?thesis using wmoves_trans [OF v(1) wmoves_trans [OF vu]] by blast
  qed
  show ?thesis
  proof (cases "isClient w (co_Client (ev_Churn e))")
    case True
    then obtain i where "foldR (churnChannel (ev_Churn e) i) w [0..<numReplicas w] = Ok w'"
      using assms(3) unfolding dispatchChurn_def isClient_def Let_def by (auto simp: bindR_Inr_iff split: if_splits)
    then have "wmoves ?P w w'" by (rule foldR_invariant [where I = "wmoves ?P w"]) (use self one in auto)
    then show ?thesis by (simp add: progress_def)
  next
    case False
    then have "w' = w" using assms(3) unfolding dispatchChurn_def isClient_def Let_def by (auto split: if_splits)
    then show ?thesis using self by (simp add: progress_def)
  qed
qed

lemma dispatch_progress:
  assumes "worldOK w" "clock (sched (net w)) = ev_At e" "dispatch h e w = Ok (w', line)"
  shows "progress e w w'"
proof (cases "ev_Kind e")
  case KindDeliver
  then show ?thesis using deliver_progress [OF assms(1) KindDeliver] assms(3) by (simp add: dispatch_def)
next
  case KindTimer
  then show ?thesis using timer_progress [OF assms(1) KindTimer assms(2)] assms(3) by (simp add: dispatch_def)
next
  case KindFault
  then have "w' = fst (dispatchFault e w)" using assms(3) by (simp add: dispatch_def)
  then have "wmoves (\<lambda>_. False) w w'"
    using adds_none [OF isHeap_OK [OF assms(1)], of "net w'"] by (simp add: dispatchFault_def wmoves_def sameScript_def)
  then show ?thesis using wmoves_mono unfolding progress_def by blast
next
  case KindChurn
  then show ?thesis using churn_progress [OF assms(1) KindChurn] assms(3) by (simp add: dispatch_def)
qed

section \<open>Termination\<close>

text \<open>The channels yet to be joined, then the ranks of the pending events.\<close>

definition pendingRanks :: "'r world \<Rightarrow> nat multiset" where
  "pendingRanks w = image_mset (rank w) (mset (pq (sched (net w))))"

definition runOrder :: "('r world \<times> 'r world) set" where
  "runOrder = inv_image (less_than <*lex*> mult less_than) (\<lambda>w. (total w, pendingRanks w))"

lemma wf_runOrder: "wf runOrder"
  unfolding runOrder_def by (intro wf_inv_image wf_lex_prod wf_mult wf_less_than)

lemma heap_pop:
  assumes "isHeap eventKey (pq s)" "Pop s = (Some e, s')"
  shows "isHeap eventKey (pq s')" "mset (pq s) = add_mset e (mset (pq s'))" "clock s' = ev_At e"
proof -
  have ne: "pq s \<noteq> []" using assms(2) by (auto simp: Pop_def)
  obtain x hp where x: "heapPop eventLess (pq s) = (x, hp)" by (cases "heapPop eventLess (pq s)")
  then have "s' = s\<lparr>pq := hp, clock := ev_At x\<rparr>" "e = x" using assms(2) ne by (auto simp: Pop_def)
  then show "isHeap eventKey (pq s')" "mset (pq s) = add_mset e (mset (pq s'))" "clock s' = ev_At e"
    using queue.pop_valid [OF assms(1) _ x] queue.pop_elems [OF assms(1) _ x] ne by simp_all
qed

text \<open>The parts of a round outside the dispatch leave the queue alone.\<close>

lemma step_parts:
  assumes "step h e w = Ok (w', line)" "worldOK w"
  obtains v v' where "wmoves (\<lambda>_. False) w v" "sched (net v) = sched (net w)" "clients v = clients w"
    "dispatch h e v = Ok (v', line)" "worldOK v'\<Longrightarrow> wmoves (\<lambda>_. False) v' w'"
proof -
  define v where "v = (if ev_At e > Horizon (metrics (net w)) then w\<lparr>net := counted (\<lambda>m. m\<lparr>Horizon := ev_At e\<rparr>) (net w)\<rparr> else w)"
  obtain v' where v': "dispatch h e v = Ok (v', line)"
    "w' = (if clock (sched (net v')) \<ge> settleDeadline v' \<and> \<not> faultsLifted v'
         then v'\<lparr>net := (net v')\<lparr>faults := liftAll (faults (net v'))\<rparr>, faultsLifted := True\<rparr> else v')"
    using assms(1) unfolding step_def v_def [symmetric] Let_def bindR_Inr_iff split_paired_Ex prod.case by auto
  have "wmoves (\<lambda>_. False) w v"
    using adds_none [OF isHeap_OK [OF assms(2)], of "net v"] by (simp add: v_def wmoves_def sameScript_def)
  moreover have "wmoves (\<lambda>_. False) v' w'" if "worldOK v'"
    using adds_none [OF isHeap_OK [OF that], of "net w'"] by (simp add: v'(2) wmoves_def sameScript_def)
  ultimately show thesis using that v'(1) by (simp add: v_def)
qed

lemma progress_trans:
  assumes "wmoves (\<lambda>_. False) u v" "clients v = clients u" "progress e v v'" "wmoves (\<lambda>_. False) v' w"
  shows "progress e u w"
proof -
  have *: "wmoves P u w" if "wmoves P v v'" for P
  proof -
    have uv: "wmoves P u v" and vw: "wmoves P v' w" using wmoves_mono [OF assms(1)] wmoves_mono [OF assms(4)] by blast+
    show ?thesis by (rule wmoves_trans [OF uv wmoves_trans [OF that vw]])
  qed
  have "total v = total u" using assms(2) by (simp add: total_def)
  moreover have "total w \<le> total v'" using assms(4) evolves_total by (auto simp: wmoves_def)
  ultimately show ?thesis using assms(3) * wmoves_rank(1) [OF assms(1)] unfolding progress_def by (metis le_less_trans)
qed

lemma timerInterval_net [simp]: "timerInterval (w\<lparr>net := n\<rparr>) t = timerInterval w t"
  by (simp add: timerInterval_def split: TimerKind.splits)

lemma round_decreases:
  assumes "worldOK w" "Pop (sched (net w)) = (Some e, s)" "step h e (w\<lparr>net := (net w)\<lparr>sched := s\<rparr>\<rparr>) = Ok (w', line)"
  shows "worldOK w'" "(w', w) \<in> runOrder"
proof -
  let ?w = "w\<lparr>net := (net w)\<lparr>sched := s\<rparr>\<rparr>"
  note pop = heap_pop [OF isHeap_OK [OF assms(1)] assms(2)]
  have ok: "worldOK ?w" using assms(1) pop(1) by (simp add: worldOK_def isClient_def deadlineOf_def)
  obtain v v' where v: "wmoves (\<lambda>_. False) ?w v" "sched (net v) = s" "clients v = clients w" "dispatch h e v = Ok (v', line)"
    "worldOK v' \<Longrightarrow> wmoves (\<lambda>_. False) v' w'"
    using step_parts [OF assms(3) ok] by auto
  have okv: "worldOK v" by (rule wmoves_OK [OF v(1) ok])
  have p: "progress e v v'" by (rule dispatch_progress [OF okv _ v(4)]) (simp add: v(2) pop(3))
  then obtain P where "wmoves P v v'" by (auto simp: progress_def)
  then have "worldOK v'" by (rule wmoves_OK [OF _ okv])
  note vw = v(5) [OF this]
  show "worldOK w'" by (rule wmoves_OK [OF vw \<open>worldOK v'\<close>])
  have pr: "progress e ?w w'" by (rule progress_trans [OF v(1) _ p vw]) (simp add: v(3))
  have cd: "isClient ?w = isClient w" "deadlineOf ?w = deadlineOf w" by (simp_all add: fun_eq_iff isClient_def deadlineOf_def)
  have rk: "rank ?w = rank w" by (rule ext) (simp only: rank_def cd)
  have tot: "total ?w = total w" by (simp add: total_def)
  show "(w', w) \<in> runOrder"
  proof (cases "total w' < total w")
    case True
    then show ?thesis by (simp add: runOrder_def)
  next
    case False
    then have m: "wmoves (\<lambda>x. rank w x < rank w e) ?w w'" using pr unfolding progress_def tot rk by blast
    then obtain new where new: "mset (pq (sched (net w'))) = mset (pq s) + mset new" "\<forall>x\<in>set new. rank w x < rank w e"
      by (auto simp: wmoves_def adds_def)
    have rk': "rank w' = rank w" using wmoves_rank(1) [OF m] rk by simp
    have "total w' \<le> total w" using m evolves_total [of ?w w'] tot by (auto simp: wmoves_def)
    then have "total w' = total w" using False by simp
    moreover have "(image_mset (rank w) (mset (pq s)) + image_mset (rank w) (mset new),
        image_mset (rank w) (mset (pq s)) + {#rank w e#}) \<in> mult less_than"
      by (rule one_step_implies_mult) (use new(2) in auto)
    ultimately show ?thesis
      using pop(2) by (simp add: runOrder_def pendingRanks_def rk' new(1))
  qed
qed

lemma mainLoop_returns: "worldOK w \<Longrightarrow> \<exists>r. mainLoop h w trace = Some r"
proof (induction w arbitrary: trace rule: wf_induct_rule [OF wf_runOrder])
  case (1 w)
  obtain e s where p: "Pop (sched (net w)) = (e, s)" by (cases "Pop (sched (net w))")
  show ?case
  proof (cases e)
    case None
    then show ?thesis by (subst mainLoop.simps) (simp add: p)
  next
    case (Some ev)
    show ?thesis
    proof (cases "step h ev (w\<lparr>net := (net w)\<lparr>sched := s\<rparr>\<rparr>)")
      case (Inl f)
      then show ?thesis by (subst mainLoop.simps) (simp add: p Some)
    next
      case (Inr wl)
      obtain w' line where wl: "wl = (w', line)" by (cases wl)
      have d: "worldOK w'" "(w', w) \<in> runOrder"
        using round_decreases [OF 1(2), of ev s h w' line] p Some Inr wl by auto
      show ?thesis using 1(1) [OF d(2) d(1)] by (subst mainLoop.simps) (simp add: p Some Inr wl)
    qed
  qed
qed

section \<open>Set-up\<close>

text \<open>What the set-up relies on: client \<open>i\<close> has the identifier \<open>i\<close>, and only clients subscribe.\<close>

definition bootOK :: "'r world \<Rightarrow> bool" where
  "bootOK w \<longleftrightarrow> isHeap eventKey (pq (sched (net w))) \<and>
    (\<forall>i < length (clients w). cl_id (clients w ! i) = int i \<and> Broadcast \<notin> set (dsIDs (clients w ! i))) \<and>
    (\<forall>ch. \<forall>a\<in>set (subs (net w) ch). isClient w a)"

text \<open>An operation of the set-up of a client.\<close>

definition setsUp :: "'r cn \<Rightarrow> 'r cn \<Rightarrow> bool" where
  "setsUp cn cn' \<longleftrightarrow> sched (snd cn') = sched (snd cn) \<and> cl_id (fst cn') = cl_id (fst cn) \<and> dsIDs (fst cn') = dsIDs (fst cn) \<and>
    (\<forall>ch. set (subs (snd cn') ch) \<subseteq> insert (cl_id (fst cn)) (set (subs (snd cn) ch)))"

lemma cache_sched:
  assumes "cacheCurrentSA std ch cn = Ok cn'"
  shows "setsUp cn cn' \<and> subs (snd cn') = subs (snd cn)"
proof -
  obtain c n where cn: "cn = (c, n)" by (cases cn)
  have same: ?thesis if "cn' = cn" using that by (auto simp: setsUp_def)
  show ?thesis
  proof (cases "vniOf c ch")
    case (Some st)
    show ?thesis
    proof (cases "joined st")
      case True
      show ?thesis
      proof (cases "CurrentSA (ctrl st)")
        case (Inr sa)
        then obtain st' f where "cn' = (setVNI ch st' c, counted f n)"
          using assms Some True unfolding cacheCurrentSA_def cn by (auto simp: bindR_Inr_iff Let_def)
        then show ?thesis by (auto simp: cn setsUp_def)
      qed (use assms Some True same in \<open>simp add: cacheCurrentSA_def cn\<close>)
    qed (use assms Some same in \<open>simp add: cacheCurrentSA_def cn\<close>)
  qed (use assms same in \<open>simp add: cacheCurrentSA_def cn\<close>)
qed

lemma found_setsUp:
  assumes "foundVNI h ch cn = Ok cn'"
  shows "setsUp cn cn'"
proof -
  obtain c n where cn: "cn = (c, n)" by (cases cn)
  obtain g n1 ct where f: "newFounderGroup h n (cl_suite c) ch (cl_identity c) (cl_signer c) = Ok (g, n1)"
    "cacheCurrentSA (h_std h) ch (setVNI ch ((newVNIState ct)\<lparr>joined := True, joinEpoch := 0\<rparr>) c, Subscribe n1 ch (cl_id c)) = Ok cn'"
    using assms unfolding foundVNI_def cn Let_def prod.case bindR_Inr_iff split_paired_Ex by blast
  have "n1 = n\<lparr>draws := draws n + 1\<rparr>" using f(1) by (auto simp: newFounderGroup_def bindR_Inr_iff Let_def)
  then show ?thesis using cache_sched [OF f(2)] by (auto simp: setsUp_def cn Subscribe_def split: if_splits)
qed

lemma prospective_setsUp:
  assumes "prospectiveVNI h ch cn = Ok cn'"
  shows "setsUp cn cn'"
proof -
  obtain c n where cn: "cn = (c, n)" by (cases cn)
  obtain n1 ct where f: "publishKeyPackage h n (cl_suite c) ch (cl_identity c) (cl_signer c) = Ok n1"
    "cn' = (setVNI ch (newVNIState ct) c, Subscribe n1 ch (cl_id c))"
    using assms unfolding prospectiveVNI_def cn Let_def prod.case bindR_Inr_iff split_paired_Ex sum.inject by blast
  have "sched n1 = sched n" "subs n1 = subs n"
    using f(1) unfolding publishKeyPackage_def Let_def by (auto simp: bindR_Inr_iff)
  then show ?thesis by (auto simp: setsUp_def cn f(2) Subscribe_def split: if_splits)
qed

text \<open>The script of a world does not change during the set-up of the channels.\<close>

definition bootStep :: "'r world \<Rightarrow> 'r world \<Rightarrow> bool" where
  "bootStep v w \<longleftrightarrow> (bootOK v \<longrightarrow> bootOK w) \<and> sameScript v w"

lemma bootStep_trans: "bootStep u v \<Longrightarrow> bootStep v w \<Longrightarrow> bootStep u w"
  using sameScript_trans by (auto simp: bootStep_def)

lemma atClient_boot:
  assumes "atClient i f w = Ok w'" "\<And>cn cn'. f cn = Ok cn' \<Longrightarrow> setsUp cn cn'"
  shows "bootStep w w'"
proof -
  have i: "i < length (clients w)" using assms(1) by (auto simp: atClient_def split: if_splits)
  obtain c n where cn: "f (clients w ! i, net w) = Ok (c, n)" "w' = w\<lparr>clients := (clients w)[i := c], net := n\<rparr>"
    using assms(1) i by (auto simp: atClient_def bindR_Inr_iff)
  note u = assms(2) [OF cn(1), unfolded setsUp_def fst_conv snd_conv]
  have "bootOK w'" if b: "bootOK w"
    unfolding bootOK_def
  proof (intro conjI allI ballI impI)
    show "isHeap eventKey (pq (sched (net w')))" using u b by (simp add: cn(2) bootOK_def)
    fix k assume "k < length (clients w')"
    then show "cl_id (clients w' ! k) = int k" "Broadcast \<notin> set (dsIDs (clients w' ! k))"
      using u b i by (auto simp: cn(2) bootOK_def nth_list_update)
  next
    fix ch a assume "a \<in> set (subs (net w') ch)"
    then have "a = cl_id (clients w ! i) \<or> a \<in> set (subs (net w) ch)" using u by (auto simp: cn(2))
    then show "isClient w' a" using b i by (auto simp: bootOK_def cn(2) isClient_def)
  qed
  then show ?thesis by (simp add: bootStep_def sameScript_def cn(2))
qed

lemma bootChannel_boot:
  assumes "bootChannel h w ch = Ok w'"
  shows "bootStep w w'"
proof -
  obtain v where v: "atClient 0 (foundVNI h ch) w = Ok v" using assms by (auto simp: bootChannel_def bindR_Inr_iff)
  define u where "u = v\<lparr>intended := addMember ch (bytesOf ''client-0'') (intended v),
    desired := addMember ch (bytesOf ''client-0'') (desired v)\<rparr>"
  have f: "foldR (\<lambda>w i. atClient i (prospectiveVNI h ch) w) u [1..<length (clients u)] = Ok w'"
    using assms v unfolding bootChannel_def u_def by (simp add: Let_def)
  have "bootStep v u" by (simp add: bootStep_def u_def bootOK_def sameScript_def isClient_def)
  with atClient_boot [OF v found_setsUp] have "bootStep w u" by (rule bootStep_trans)
  with f show ?thesis
    by (rule foldR_invariant [where I = "bootStep w"]) (erule bootStep_trans, erule atClient_boot [OF _ prospective_setsUp])
qed

text \<open>Scheduling keeps the set-up as it is.\<close>

lemma schedule_boot: "bootStep w (schedule t e w)"
  using Schedule_events(2)
  by (auto simp: bootStep_def bootOK_def schedule_def sameScript_def isClient_def)

lemma fold_boot:
  assumes "\<And>x w. x \<in> set xs \<Longrightarrow> bootStep w (f x w)"
  shows "bootStep w (fold f xs w)"
  using assms
proof (induction xs arbitrary: w)
  case Nil
  then show ?case by (simp add: bootStep_def)
next
  case (Cons x xs)
  then show ?case using bootStep_trans [of w "f x w"] by simp
qed

lemma script_boot:
  "bootStep w (schedulePartition p w)" "bootStep w (scheduleDSDown d w)" "bootStep w (channelTimers t a ch w)"
  unfolding schedulePartition_def scheduleDSDown_def channelTimers_def Let_def
  by (rule bootStep_trans [OF schedule_boot schedule_boot], rule bootStep_trans [OF schedule_boot schedule_boot],
      rule bootStep_trans [OF bootStep_trans [OF schedule_boot schedule_boot] schedule_boot])

lemma churn_boot: "bootStep w (scheduleChurn w)"
  unfolding scheduleChurn_def Let_def by (rule fold_boot) (auto intro: schedule_boot split: prod.splits)

lemma timers_boot: "bootStep w (clientTimers ic w)"
proof -
  obtain i c where ic: "ic = (i, c)" by (cases ic)
  show ?thesis
    unfolding clientTimers_def ic Let_def prod.case
    by (rule fold_boot, rule bootStep_trans [OF schedule_boot], rule fold_boot, rule script_boot(3))
qed

lemma foldl_ids:
  assumes "foldl (startClient h sc s) (d, cs) [length cs..<n] = (d', cs')" "length cs \<le> n" "0 \<le> Clients sc"
    "\<forall>i < length cs. cl_id (cs ! i) = int i \<and> Broadcast \<notin> set (dsIDs (cs ! i))"
  shows "\<forall>i < length cs'. cl_id (cs' ! i) = int i \<and> Broadcast \<notin> set (dsIDs (cs' ! i))"
  using assms
proof (induction "n - length cs" arbitrary: d cs)
  case 0
  then show ?case by simp
next
  case (Suc k)
  obtain d1 c where c: "startClient h sc s (d, cs) (length cs) = (d1, cs @ [c])" "cl_id c = int (length cs)"
    "Broadcast \<notin> set (dsIDs c)"
    using Suc.prems(3) by (simp add: startClient_def Let_def newClient_def)
  have "[length cs..<n] = length cs # [length (cs @ [c])..<n]" using Suc.hyps(2) by (simp add: upt_rec)
  then have "foldl (startClient h sc s) (d1, cs @ [c]) [length (cs @ [c])..<n] = (d', cs')"
    using Suc.prems(1) c(1) by simp
  then show ?case
    using Suc.hyps(1) [of "cs @ [c]" d1] Suc.hyps(2) Suc.prems c(2,3) by (auto simp: nth_append less_Suc_eq)
qed

lemma newWorld_boot:
  assumes "0 \<le> Clients sc"
  shows "bootOK (newWorld h sc seed s)"
proof -
  obtain d cs where cs: "foldl (startClient h sc s) (newKPDirectory, []) [0..<nat (Clients sc)] = (d, cs)"
    by (cases "foldl (startClient h sc s) (newKPDirectory, []) [0..<nat (Clients sc)]")
  have "\<forall>i < length cs. cl_id (cs ! i) = int i \<and> Broadcast \<notin> set (dsIDs (cs ! i))"
    by (rule foldl_ids [of h sc s newKPDirectory "[]" "nat (Clients sc)"]) (use cs assms in auto)
  then show ?thesis by (simp add: bootOK_def newWorld_def cs NewScheduler_def isHeap_def)
qed

lemma bootstrap_OK:
  assumes "bootstrap h w = Ok w'" "bootOK w" "2 * unat (SettleRounds (w_sc w)) + 20 < 2 ^ 64"
  shows "worldOK w'"
proof -
  define v where "v = w\<lparr>rekeyInterval := defaultRekeyInterval, heartbeatInterval := defaultHeartbeatInterval,
               reconcileInterval := defaultReconcileInterval, dataInterval := defaultDataInterval,
               settleDeadline := SettleRounds (w_sc w),
               numReplicas := (if SingleReplica (w_sc w) then 1 else numDS)\<rparr>"
  obtain u where u: "foldR (bootChannel h) v (channels (VNIs (w_sc v)) (numReplicas v)) = Ok u"
    "w' = fold clientTimers (enumerate 0 (clients (scheduleChurn (fold scheduleDSDown (DSDowns (w_sc (fold schedulePartition (Partitions (w_sc u)) u)))
       (fold schedulePartition (Partitions (w_sc u)) u))))) (scheduleChurn (fold scheduleDSDown (DSDowns (w_sc (fold schedulePartition (Partitions (w_sc u)) u)))
       (fold schedulePartition (Partitions (w_sc u)) u)))"
    using assms(1) unfolding bootstrap_def v_def [symmetric] Let_def bindR_Inr_iff sum.inject by blast
  have vv: "bootStep v v" by (simp add: bootStep_def)
  from u(1) vv have vu: "bootStep v u"
    by (rule foldR_invariant [where I = "bootStep v"]) (erule bootStep_trans, erule bootChannel_boot)
  note p = fold_boot [of "Partitions (w_sc u)" schedulePartition, OF script_boot(1)]
  note d = fold_boot [of _ scheduleDSDown, OF script_boot(2)]
  have "bootStep u w'"
    unfolding u(2) by (rule bootStep_trans [OF p bootStep_trans [OF d bootStep_trans [OF churn_boot fold_boot]]]) (rule timers_boot)
  with vu have vw: "bootStep v w'" by (rule bootStep_trans)
  have "bootOK v" using assms(2) by (simp add: v_def bootOK_def isClient_def)
  then have ok: "bootOK w'" using vw by (simp add: bootStep_def)
  have sc: "sameScript v w'" using vw by (simp add: bootStep_def)
  then have dl: "deadlineOf w' = 2 * unat (SettleRounds (w_sc w))"
    using assms(3) by (simp add: sameScript_def v_def deadlineOf_def unat_word_ariths)
  have "0 < timerInterval w' t \<and> unat (timerInterval w' t) \<le> 20" for t
    using sc by (cases t) (simp_all add: timerInterval_def sameScript_def v_def word_gt_0)
  then have "0 < timerInterval w' t \<and> deadlineOf w' + unat (timerInterval w' t) < 2 ^ 64" for t
    using assms(3) dl by (metis add_le_cancel_left le_less_trans)
  then show ?thesis using ok unfolding worldOK_def bootOK_def by (metis in_set_conv_nth)
qed

lemma Run_ends:
  assumes "2 * unat (SettleRounds sc) + 20 < 2 ^ 64"
  shows "\<exists>r. Run h sc seed = Some r"
proof (cases "Lookup (sc_Suite sc)")
  case (Some s)
  show ?thesis
  proof (cases "Clients sc < 0")
    case False
    show ?thesis
    proof (cases "bootstrap h (newWorld h sc seed s)")
      case (Inr w)
      have sc: "w_sc (newWorld h sc seed s) = sc" by (simp add: newWorld_def split: prod.splits)
      have "worldOK w" by (rule bootstrap_OK [OF Inr newWorld_boot]) (use False assms sc in auto)
      then show ?thesis using mainLoop_returns [of w h "[]"] Some False Inr by (auto simp: Run_def)
    qed (use Some False in \<open>simp add: Run_def\<close>)
  qed (use Some in \<open>simp add: Run_def\<close>)
qed (simp add: Run_def)



end
