(* ===== verification/Metalsim.thy ===== *)
theory Metalsim
  imports Runs
begin

text \<open>
  The command of \<^verbatim>\<open>src/cmd/metalsim/main.go\<close>: overriding a scenario from the flags, running one scenario or
  all of them, and the exit code.  What is printed is not modelled; the host of each run is an argument.
\<close>

section \<open>Definitions\<close>

record Flags =
  fl_scenario :: string
  fl_clients :: int
  fl_vnis :: int
  fl_seed :: int
  fl_rounds :: u64
  fl_drop :: rat

definition applyOverrides :: "Flags \<Rightarrow> Scenario \<Rightarrow> Scenario" where
  "applyOverrides f sc =
    (let sc = (if 0 < fl_clients f then sc\<lparr>Clients := fl_clients f\<rparr> else sc);
         sc = (if 0 < fl_vnis f then sc\<lparr>VNIs := fl_vnis f\<rparr> else sc);
         sc = (if 0 < fl_rounds f then sc\<lparr>SettleRounds := fl_rounds f\<rparr> else sc) in
     if 0 \<le> fl_drop f then sc\<lparr>Faults := (Faults sc)\<lparr>DropProb := fl_drop f\<rparr>\<rparr> else sc)"

record scenarioRow =
  row_Scenario :: string
  row_Pass :: bool
  row_PacketLoss :: nat
  row_CommitMsgs :: nat
  row_CommitBytes :: nat
  row_DataDecrypt :: nat
  row_MaxOverlap :: nat
  row_MaxSendLag :: u64

definition summaryRow :: "Scenario \<Rightarrow> Result \<Rightarrow> scenarioRow res" where
  "summaryRow sc r =
    (case rs_Metrics r of
       None \<Rightarrow> Inl PanicNil
     | Some m \<Rightarrow> Ok \<lparr>row_Scenario = Name sc, row_Pass = InvariantsHeld r, row_PacketLoss = length (PacketLoss r),
         row_CommitMsgs = CommitMsgs m, row_CommitBytes = CommitBytes m, row_DataDecrypt = DataDecryptable m,
         row_MaxOverlap = MaxOverlap m, row_MaxSendLag = MaxSendLag m\<rparr>)"

text \<open>The loop over the scenarios; a panic ends the program.\<close>

primrec runEach :: "(Scenario \<Rightarrow> Result res option) \<Rightarrow> Scenario list \<Rightarrow> scenarioRow list res option" where
  "runEach run [] = Some (Ok [])"
| "runEach run (sc # scs) =
    Option.bind (run sc) (\<lambda>r.
      case r of
        Inl e \<Rightarrow> Some (Inl e)
      | Inr x \<Rightarrow>
          (case summaryRow sc x of
             Inl e \<Rightarrow> Some (Inl e)
           | Inr row \<Rightarrow> map_option (\<lambda>rs. bindR rs (\<lambda>rows. Ok (row # rows))) (runEach run scs)))"

definition runAll :: "(string \<Rightarrow> 'r Host) \<Rightarrow> Flags \<Rightarrow> int res option" where
  "runAll host f =
    map_option (\<lambda>rs. bindR rs (\<lambda>rows. Ok (if list_all row_Pass rows then 0 else 1)))
      (runEach (\<lambda>sc. Run (host (Name sc)) sc (fl_seed f)) (map (applyOverrides f) All))"

definition metalsim_main :: "(string \<Rightarrow> 'r Host) \<Rightarrow> Flags \<Rightarrow> int res option" where
  "metalsim_main host f =
    (if fl_scenario f = ''all'' then runAll host f
     else
       case ByName (fl_scenario f) of
         None \<Rightarrow> Some (Ok 2)
       | Some sc \<Rightarrow>
           map_option (\<lambda>r. bindR r (\<lambda>x. Ok (if InvariantsHeld x then 0 else 1)))
             (Run (host (Name sc)) (applyOverrides f sc) (fl_seed f)))"

section \<open>The exit code\<close>

text \<open>The scenarios that the flags select, as they are run.\<close>

definition selected :: "Flags \<Rightarrow> Scenario list" where
  "selected f =
    map (applyOverrides f)
      (if fl_scenario f = ''all'' then All else case ByName (fl_scenario f) of None \<Rightarrow> [] | Some sc \<Rightarrow> [sc])"

definition passes :: "(string \<Rightarrow> 'r Host) \<Rightarrow> Flags \<Rightarrow> Scenario \<Rightarrow> bool" where
  "passes host f sc = (case Run (host (Name sc)) sc (fl_seed f) of Some (Inr r) \<Rightarrow> InvariantsHeld r | _ \<Rightarrow> False)"

lemma applyOverrides_name [simp]: "Name (applyOverrides f sc) = Name sc"
  by (simp add: applyOverrides_def Let_def)

lemma runEach_returns: "(\<And>sc. sc \<in> set scs \<Longrightarrow> \<exists>r. run sc = Some r) \<Longrightarrow> \<exists>rs. runEach run scs = Some rs"
proof (induction scs)
  case (Cons sc scs)
  obtain r where r: "run sc = Some r" using Cons.prems by auto
  obtain rs where "runEach run scs = Some rs" using Cons by auto
  with r show ?case by (cases r; cases "summaryRow sc (projr r)") (auto simp: Let_def split: sum.splits)
qed simp

lemma runEach_rows:
  assumes "runEach run scs = Some (Ok rows)"
  shows "list_all row_Pass rows \<longleftrightarrow> (\<forall>sc\<in>set scs. case run sc of Some (Inr r) \<Rightarrow> InvariantsHeld r | _ \<Rightarrow> False)"
  using assms
proof (induction scs arbitrary: rows)
  case (Cons sc scs)
  obtain r where r: "run sc = Some r" using Cons.prems by (cases "run sc") auto
  obtain x where x: "r = Ok x" using Cons.prems r by (cases r) auto
  obtain row where row: "summaryRow sc x = Ok row" using Cons.prems r x by (cases "summaryRow sc x") auto
  obtain rs where rs: "runEach run scs = Some (Ok rs)" "rows = row # rs"
    using Cons.prems r x row by (auto simp: bindR_Inr_iff)
  have "row_Pass row = InvariantsHeld x" using row by (auto simp: summaryRow_def split: option.splits)
  then show ?case using Cons.IH [OF rs(1)] rs(2) r x by simp
qed simp

lemma builtin_simps:
  "SettleRounds Nominal = 300" "Name Nominal = ''nominal''"
  "SettleRounds Drops = 300" "Name Drops = ''drops''"
  "SettleRounds DSDown = 300" "Name DSDown = ''ds_down''"
  "SettleRounds PartitionRecover = 300" "Name PartitionRecover = ''partition_recover''"
  "SettleRounds BothRekey = 300" "Name BothRekey = ''both_rekey''"
  "SettleRounds EncryptedChurn = 300" "Name EncryptedChurn = ''encrypted_churn''"
  "SettleRounds NegativeControl = 300" "Name NegativeControl = ''negative_control''"
  "SettleRounds MigrationChurn = 300" "Name MigrationChurn = ''migration_churn''"
  "SettleRounds SharedSPIReplayControl = 300" "Name SharedSPIReplayControl = ''shared_spi_replay''"
  by (simp_all add: Nominal_def Drops_def DSDown_def PartitionRecover_def BothRekey_def EncryptedChurn_def NegativeControl_def
      MigrationChurn_def SharedSPIReplayControl_def base_def Let_def)

lemma builtin_rounds:
  assumes "sc \<in> set (All @ [NegativeControl, MigrationChurn, SharedSPIReplayControl])"
  shows "SettleRounds sc = 300"
  using assms unfolding All_def append.simps list.set by (elim insertE emptyE) (simp_all only: builtin_simps)

lemma applyOverrides_rounds:
  "SettleRounds (applyOverrides f sc) = (if 0 < fl_rounds f then fl_rounds f else SettleRounds sc)"
  by (simp add: applyOverrides_def Let_def)

lemma selected_returns:
  assumes "sc \<in> set (selected f)" "2 * unat (fl_rounds f) + 20 < 2 ^ 64"
  shows "\<exists>r. Run h sc seed = Some r"
proof -
  obtain sc0 where sc0: "sc = applyOverrides f sc0" "sc0 \<in> set (All @ [NegativeControl, MigrationChurn, SharedSPIReplayControl])"
  proof (cases "fl_scenario f = ''all''")
    case False
    then obtain sc0 where "ByName (fl_scenario f) = Some sc0" "sc = applyOverrides f sc0"
      using assms(1) by (cases "ByName (fl_scenario f)") (auto simp: selected_def)
    moreover from this(1) have "sc0 \<in> set (All @ [NegativeControl, MigrationChurn, SharedSPIReplayControl])"
      unfolding ByName_def find_Some_iff by (metis nth_mem)
    ultimately show ?thesis using that by blast
  qed (use assms(1) that in \<open>auto simp: selected_def\<close>)
  have "2 * unat (SettleRounds sc) + 20 < 2 ^ 64"
    using builtin_rounds [OF sc0(2)] assms(2) by (simp add: sc0(1) applyOverrides_rounds)
  then show ?thesis by (rule Run_ends)
qed

section \<open>Properties\<close>


definition demoFlags :: "string \<Rightarrow> Flags" where
  "demoFlags name = \<lparr>fl_scenario = name, fl_clients = 0, fl_vnis = 0, fl_seed = 1, fl_rounds = 100, fl_drop = - 1\<rparr>"

definition demoHost :: "string \<Rightarrow> nat Host" where
  "demoHost _ = \<lparr>h_std = tinyStd, h_rand = tinyRng, entropy = (\<lambda>_. tinyRand), elapsed = (\<lambda>_. 1), freshSigner = (\<lambda>_. demoSigner [1])\<rparr>"


end
