(* ===== verification/Spec2Isabelle.thy ===== *)
theory Spec2Isabelle
  imports TreeParse KEMDemo SecretTree_Spec Fencing Forks Scaling Metalsim
begin

text \<open>
  Verification of \<^verbatim>\<open>mls-go\<close>: Messaging Layer Security (RFC 9420), a controller that turns the epochs of
  a group into IPsec security associations of a virtual network, a sequencer that orders commits, and
  a simulator of the whole.

  \<^bold>\<open>The program.\<close>  \<^verbatim>\<open>src/mls/syntax\<close> reads and writes the presentation language.  On it \<^verbatim>\<open>src/mls/tree\<close>
  builds the ratchet tree, \<^verbatim>\<open>src/mls/cipher\<close> the suites and labelled operations, \<^verbatim>\<open>src/mls/keyschedule\<close> the
  secrets of an epoch, \<^verbatim>\<open>src/mls/framing\<close> the protected messages, and \<^verbatim>\<open>src/mls/group\<close> the group: its
  members propose, commit, process commits, and join from a welcome or from outside.  \<^verbatim>\<open>src/ironcore\<close> has a
  controller per network that keeps a group in step with a desired membership and derives an association
  from each epoch; \<^verbatim>\<open>src/ironcore/sequencer\<close> lets one commit per epoch win.  \<^verbatim>\<open>src/sim\<close> runs
  controllers, reflectors and a faulty transport under a virtual clock, \<^verbatim>\<open>src/cmd/metalsim\<close> is its command,
  \<^verbatim>\<open>src/interop/server\<close> serves groups over remote procedures, and \<^verbatim>\<open>src/bench\<close>, \<^verbatim>\<open>src/scaling\<close> and
  \<^verbatim>\<open>src/cmd/scalebench\<close> measure and project sizes.

  \<^bold>\<open>How the code is modelled.\<close>  Go integers are words of their width where they can wrap, and \<open>int\<close> or \<open>nat\<close>
  for lengths and counters; a byte slice is a list of bytes, a struct a record, a map a partial function
  or an association list where its order shows.  A function that can fail returns \<open>'a res\<close>, the
  sum of a fault and a value: the error of the source, a panic on an index, a nil pointer or a length, or
  a loop that does not end.  A method that changes its object takes and returns it; an operation that
  fails returns the object as far as the code has changed it, or none where the caller throws it away.
  Methods that hold a mutex for their whole body are single steps.  Definitions have the names of the
  source, with a prefix where two packages use the same name; blocks of a long function are
  definitions of their own that the function composes.  Loops are structural or have a measure; those that may not end
  (\<^verbatim>\<open>Parent\<close>, the width and level loops, the main loop of the simulator) are partial functions
  into options, with theorems on when they return.  No fuel is used.

  What is not under \<^verbatim>\<open>src/\<close> is an argument: the primitives of the Go library are the fields of \<open>Std\<close>, a
  signer is a record of its public key and its signing function, random bytes are \<open>Rand\<close> or byte arguments,
  certificates and URLs are operations of a record, the generator of \<^verbatim>\<open>math/rand\<close> and the
  floating-point numbers are records of their operations.  The laws that a theorem relies on are its
  hypotheses (\<open>keyPair\<close>, \<open>gcmLaw\<close>, \<open>hmacLaw\<close>, \<open>signerOf\<close>, \<open>derives\<close>), and the examples
  discharge them on concrete functions.

  \<^bold>\<open>Theories, bottom up.\<close>
  \<^item> \<open>Prelude\<close>: results, faults, folds that can fail, lists and words.
  \<^item> \<open>Wire\<close>, \<open>Codec\<close>: \<^verbatim>\<open>syntax/{varint,codec,vector}.go\<close>; the locales of a codec, with the laws that a reader
    accepts exactly what its writer emits, interpreted for every wire structure further up.
  \<^item> \<open>TreeMath\<close>, \<open>TreeWire\<close>, \<open>RatchetTree\<close>, \<open>TreeSync\<close>, \<open>TreeKEM\<close>: \<^verbatim>\<open>tree/*.go\<close>, index arithmetic, wire types, leaf
    operations, hashes and validation, update paths.  \<open>TreePath\<close>, \<open>TreeOps\<close>, \<open>TreeInv\<close>, \<open>TreeResolution\<close>,
    \<open>TreeParse\<close>: direct paths, the effect of each leaf operation, the structural invariant, the cover by a
    resolution, the tree codec.  \<open>KEMPath\<close>, \<open>KEMAgree\<close>, \<open>KEMDemo\<close>: both ends of an update path agree.
  \<^item> \<open>Cipher\<close>, \<open>CipherProps\<close>: \<^verbatim>\<open>cipher/*.go\<close> and the separation of labels.
  \<^item> \<open>KeySchedule\<close>, \<open>SecretTree_Spec\<close>: \<^verbatim>\<open>keyschedule/*.go\<close> and the secret tree as a function of paths.
  \<^item> \<open>Framing\<close>, \<open>FramingProps\<close>: \<^verbatim>\<open>framing/*.go\<close>; protected messages are accepted, and what is accepted was
    signed.
  \<^item> \<open>GroupWire\<close>, \<open>Group\<close>, \<open>GroupProcess\<close>, \<open>GroupCommit\<close>: \<^verbatim>\<open>group/*.go\<close>, the handshake objects, the group record, processing
    a commit, committing and joining.  \<open>PrivatePath\<close>, \<open>GroupSync\<close>, \<open>GroupDemo\<close>: the private keys after a
    commit and the agreement of committer and members.  \<open>Welcoming\<close>, \<open>WelcomeDemo\<close>: a new member joins the
    committer's epoch.  \<open>Membership\<close>: an abstract roster that proposals and paths move, and the refinement of it
    by the tree.
  \<^item> \<open>Sequencer\<close>, \<open>Ordering\<close>, \<open>Fencing\<close>, \<open>Forks\<close>: \<^verbatim>\<open>ironcore/sequencer/*.go\<close>; the contract of an ordering as
    a locale, its interpretation on the in-memory and the fenced register, leases under every interleaving,
    the tie-break.
  \<^item> \<open>Associations\<close>, \<open>AssociationProps\<close>, \<open>Credentials\<close>, \<open>Controller\<close>, \<open>ControllerProps\<close>: \<^verbatim>\<open>ironcore/*.go\<close>; associations
    and their indices, validators, the controller with its plan, its invariant and the agreement of
    controllers.
  \<^item> \<open>Heap\<close>, \<open>Scheduler\<close>, \<open>Network\<close>, \<open>Reflector\<close>, \<open>Replay\<close>, \<open>ClientState\<close>, \<open>Client\<close>, \<open>Scenarios\<close>, \<open>World\<close>: \<^verbatim>\<open>sim/*.go\<close>; the
    queue on the heap of \<^verbatim>\<open>container/heap\<close>, the transport and its faults, the reflector, the replay window, the client, the
    scenarios with the verdict, the set-up and the main loop.  \<open>ClientMoves\<close>, \<open>Runs\<close>: what an event
    schedules and why every run ends.  \<open>Metalsim\<close>: \<^verbatim>\<open>cmd/metalsim/main.go\<close>.
  \<^item> \<open>Interop\<close>, \<open>InteropProps\<close>: \<^verbatim>\<open>interop/server/server.go\<close>; the sessions of the server and an addition that goes
    through two servers.
  \<^item> \<open>Bench\<close>, \<open>Scaling\<close>: \<^verbatim>\<open>bench/bench.go\<close>, \<^verbatim>\<open>scaling/*.go\<close>, \<^verbatim>\<open>cmd/scalebench/main.go\<close>.

  \<^bold>\<open>What is shown.\<close>  Each wire structure round-trips; the tree operations keep the invariant and end; update
  paths, commits and welcomes bring committer, members and joiners to the same epoch, and the membership
  changes as the proposals say and in no other way; messages are accepted by their receivers
  and unforged under the stated laws; controllers elect one committer, at most one commit wins an
  epoch, and the winning commit reaches every controller with the same association; leases exclude each other under
  every interleaving; the simulator delivers in order, accounts for every message, returns from every
  run and reports the verdict that the final state deserves.

  \<^bold>\<open>Bounds.\<close>  Trees have at most 2^31 - 1 nodes in theorems on additions, because 32-bit indices wrap beyond; a run
  ends if twice its settle time fits the 64-bit clock; the server's sessions stay apart for fewer than 2^32 - 3 calls, after
  which identifiers wrap.  The examples use constant primitives on trees of one and two leaves.

  \<^bold>\<open>Not modelled.\<close>  The generated protocol buffers and the listener of the interoperability command (generated
  code and I/O without logic); the test-vector helper \<^verbatim>\<open>mls/internal/katutil\<close>; the printing of reports and tables,
  whose numbers are modelled and whose text is not; the reading of flags; wall-clock durations,
  which are arguments.  Texts of errors are shortened.  Slices are values: aliasing between slices is
  not modelled.  Data races outside the mutexes are out of reach of the model.
\<close>

end
